(* ===== verification/Prelude.thy ===== *)
theory Prelude
  imports Main "HOL-Library.Word" "HOL-Library.Signed_Division" "HOL-Library.Sublist"
begin

section \<open>Shared vocabulary of the development\<close>

text \<open>
  This theory holds what every component uses: the result type that stands for a JavaScript
  function that either returns or throws an \<open>Error\<close> (the error is its message), the traversal
  of an array by a function that may throw, the JavaScript operators whose meaning differs from
  that of HOL (\<open>%\<close> and \<open>/\<close> on \<open>bigint\<close> round towards zero), safe integers, decimal printing,
  the congruence of integers modulo a number, and the evaluation of a polynomial from its list
  of coefficients. It also declares the development's collections of simplification rules.
\<close>

named_theorems result_simps "rules that unfold and invert the result type"
named_theorems mod_simps "rules that turn the scalar arithmetic of the code into mod"

subsection \<open>Results: a value or the message of the thrown error\<close>

type_synonym 'a result = "string + 'a"
type_synonym byte = "8 word"
type_synonym bytes = "byte list"

fun bindR :: "'a result \<Rightarrow> ('a \<Rightarrow> 'b result) \<Rightarrow> 'b result" where
  "bindR (Inl e) f = Inl e"
| "bindR (Inr x) f = f x"

text \<open>\<open>mapR f xs\<close> is \<open>xs.map(f)\<close> for a function that may throw: the first error wins.\<close>

fun mapR :: "('a \<Rightarrow> 'b result) \<Rightarrow> 'a list \<Rightarrow> 'b list result" where
  "mapR f [] = Inr []"
| "mapR f (x # xs) = bindR (f x) (\<lambda>y. bindR (mapR f xs) (\<lambda>ys. Inr (y # ys)))"

text \<open>\<open>foldR f s xs\<close> is a \<open>for ... of\<close> loop whose body may throw and updates \<open>s\<close>.\<close>

fun foldR :: "('s \<Rightarrow> 'a \<Rightarrow> 's result) \<Rightarrow> 's \<Rightarrow> 'a list \<Rightarrow> 's result" where
  "foldR f s [] = Inr s"
| "foldR f s (x # xs) = bindR (f s x) (\<lambda>s'. foldR f s' xs)"

definition isOk :: "'a result \<Rightarrow> bool" where
  "isOk r = (case r of Inl _ \<Rightarrow> False | Inr _ \<Rightarrow> True)"

lemma isOk_simps [simp, result_simps]: "isOk (Inl e) = False" "isOk (Inr x) = True"
  by (simp_all add: isOk_def)

lemma isOk_iff: "isOk r \<longleftrightarrow> (\<exists>x. r = Inr x)"
  by (cases r) auto

lemma bindR_cong [fundef_cong]:
  "m = m' \<Longrightarrow> (\<And>x. m' = Inr x \<Longrightarrow> f x = g x) \<Longrightarrow> bindR m f = bindR m' g"
  by (cases m') auto

lemma if_Inl_result: "(if b then Inl e else x) = Inr y \<longleftrightarrow> \<not> b \<and> x = Inr y"
  by simp

lemma bindR_Inr [result_simps]: "bindR m f = Inr y \<longleftrightarrow> (\<exists>x. m = Inr x \<and> f x = Inr y)"
  by (cases m) auto

lemma bindR_Inl [result_simps]:
  "bindR m f = Inl e \<longleftrightarrow> m = Inl e \<or> (\<exists>x. m = Inr x \<and> f x = Inl e)"
  by (cases m) auto

lemma bindR_return [simp]: "bindR m Inr = m"
  by (cases m) auto

text \<open>A \<open>try\<close> block that returns a boolean and whose \<open>catch\<close> returns false.\<close>

lemma case_result_True [result_simps]:
  "(case m of Inl _ \<Rightarrow> False | Inr ok \<Rightarrow> ok) \<longleftrightarrow> m = Inr True"
  by (cases m) auto

lemma bindR_assoc: "bindR (bindR m f) g = bindR m (\<lambda>x. bindR (f x) g)"
  by (cases m) auto

lemma mapR_Inr_iff: "mapR f xs = Inr ys \<longleftrightarrow> list_all2 (\<lambda>x y. f x = Inr y) xs ys"
proof (induction xs arbitrary: ys)
  case Nil
  then show ?case by auto
next
  case (Cons x xs)
  then show ?case by (cases ys) (auto simp: result_simps)
qed

lemma mapR_length: "mapR f xs = Inr ys \<Longrightarrow> length ys = length xs"
  by (auto simp: mapR_Inr_iff dest: list_all2_lengthD)

lemma mapR_total: "(\<And>x. x \<in> set xs \<Longrightarrow> f x = Inr (g x)) \<Longrightarrow> mapR f xs = Inr (map g xs)"
  by (induction xs) auto

lemma mapR_nth: "mapR f xs = Inr ys \<Longrightarrow> i < length xs \<Longrightarrow> f (xs ! i) = Inr (ys ! i)"
  by (auto simp: mapR_Inr_iff dest: list_all2_nthD)

lemma mapR_set: "mapR f xs = Inr ys \<Longrightarrow> x \<in> set xs \<Longrightarrow> \<exists>y \<in> set ys. f x = Inr y"
  by (induction xs arbitrary: ys) (auto simp: result_simps)

lemma mapR_set_rev: "mapR f xs = Inr ys \<Longrightarrow> y \<in> set ys \<Longrightarrow> \<exists>x \<in> set xs. f x = Inr y"
  by (induction xs arbitrary: ys) (auto simp: result_simps)

lemma option_case_result [result_simps]:
  "(case m of None \<Rightarrow> Inl e | Some x \<Rightarrow> f x) = Inr y \<longleftrightarrow> (\<exists>x. m = Some x \<and> f x = Inr y)"
  by (cases m) auto

lemma sum_case_result [result_simps]:
  "(case m of Inl e \<Rightarrow> Inl (g e) | Inr x \<Rightarrow> f x) = Inr y \<longleftrightarrow> (\<exists>x. m = Inr x \<and> f x = Inr y)"
  by (cases m) auto

lemma find_SomeD: "List.find P xs = Some x \<Longrightarrow> x \<in> set xs \<and> P x"
  by (induction xs) (auto split: if_splits)

lemma foldR_append: "foldR f s (xs @ ys) = bindR (foldR f s xs) (\<lambda>s'. foldR f s' ys)"
  by (induction xs arbitrary: s) (auto simp: bindR_assoc)

lemma foldR_invariant:
  assumes "foldR f s xs = Inr s'" and "P s"
    and "\<And>s x t. x \<in> set xs \<Longrightarrow> P s \<Longrightarrow> f s x = Inr t \<Longrightarrow> P t"
  shows "P s'"
  using assms
proof (induction xs arbitrary: s)
  case Nil
  then show ?case by simp
next
  case (Cons x xs)
  then obtain t where "f s x = Inr t" and t: "foldR f t xs = Inr s'"
    by (auto simp: result_simps)
  with Cons.prems have "P t" by (metis list.set_intros(1))
  with t show ?case using Cons.prems by (intro Cons.IH [of t]) auto
qed

subsection \<open>JavaScript numbers\<close>

text \<open>
  \<open>a % b\<close> and \<open>a / b\<close> on \<open>bigint\<close> truncate towards zero: they are \<open>smod\<close> and \<open>sdiv\<close> of
  HOL-Library.Signed_Division. A \<open>number\<close> is modelled only where the code has checked that it
  is a safe integer (\<open>Number.isSafeInteger\<close>).
\<close>

definition isSafeInteger :: "int \<Rightarrow> bool" where
  "isSafeInteger n \<longleftrightarrow> - (2 ^ 53 - 1) \<le> n \<and> n \<le> 2 ^ 53 - 1"

lemma smod_nonneg [mod_simps]: "0 \<le> a \<Longrightarrow> 0 < b \<Longrightarrow> (a :: int) smod b = a mod b"
  by (simp add: signed_modulo_int_def sgn_if)

lemma sdiv_nonneg [mod_simps]: "0 \<le> a \<Longrightarrow> 0 < b \<Longrightarrow> (a :: int) sdiv b = a div b"
  by (cases "a = 0") (auto simp: signed_divide_int_def sgn_if)

fun digits_nat :: "nat \<Rightarrow> string" where
  "digits_nat n = (if n < 10 then [char_of (48 + n)]
     else digits_nat (n div 10) @ [char_of (48 + n mod 10)])"

declare digits_nat.simps [simp del]

definition showInt :: "int \<Rightarrow> string" where
  "showInt n = (if n < 0 then ''-'' @ digits_nat (nat (- n)) else digits_nat (nat n))"

subsection \<open>Strings\<close>

definition toLowerChar :: "char \<Rightarrow> char" where
  "toLowerChar c = (let n = (of_char c :: nat) in if 65 \<le> n \<and> n \<le> 90 then char_of (n + 32) else c)"

definition toLowerCase :: "string \<Rightarrow> string" where
  "toLowerCase = map toLowerChar"

lemma toLowerChar_idem [simp]: "toLowerChar (toLowerChar c) = toLowerChar c"
  by (auto simp: toLowerChar_def Let_def)

lemma toLowerCase_idem [simp]: "toLowerCase (toLowerCase s) = toLowerCase s"
  by (simp add: toLowerCase_def)

lemma length_toLowerCase [simp]: "length (toLowerCase s) = length s"
  by (simp add: toLowerCase_def)

subsection \<open>Congruence of integers\<close>

definition eqm :: "int \<Rightarrow> int \<Rightarrow> int \<Rightarrow> bool" where
  "eqm m a b \<longleftrightarrow> m dvd a - b"

lemma eqm_mod: "eqm m a b \<longleftrightarrow> a mod m = b mod m"
  by (simp add: eqm_def mod_eq_dvd_iff)

lemma eqm_refl [simp, intro]: "eqm m a a"
  by (simp add: eqm_def)

lemma eqm_sym: "eqm m a b \<Longrightarrow> eqm m b a"
  by (simp add: eqm_mod)

lemma eqm_trans [trans]: "eqm m a b \<Longrightarrow> eqm m b c \<Longrightarrow> eqm m a c"
  by (simp add: eqm_mod)

lemma eqm_eq_trans [trans]: "eqm m a b \<Longrightarrow> b = c \<Longrightarrow> eqm m a c"
  by simp

lemma eq_eqm_trans [trans]: "a = b \<Longrightarrow> eqm m b c \<Longrightarrow> eqm m a c"
  by simp

lemma eqm_add: "eqm m a b \<Longrightarrow> eqm m c d \<Longrightarrow> eqm m (a + c) (b + d)"
  unfolding eqm_mod by (metis mod_add_eq)

lemma eqm_diff: "eqm m a b \<Longrightarrow> eqm m c d \<Longrightarrow> eqm m (a - c) (b - d)"
  unfolding eqm_mod by (metis mod_diff_eq)

lemma eqm_mult: "eqm m a b \<Longrightarrow> eqm m c d \<Longrightarrow> eqm m (a * c) (b * d)"
  unfolding eqm_mod by (metis mod_mult_eq)

lemma eqm_mod_left [simp]: "eqm m (a mod m) b \<longleftrightarrow> eqm m a b"
  by (simp add: eqm_mod)

lemma eqm_mod_right [simp]: "eqm m a (b mod m) \<longleftrightarrow> eqm m a b"
  by (simp add: eqm_mod)

lemma eqm_sum: "(\<And>i. i \<in> A \<Longrightarrow> eqm m (f i) (g i)) \<Longrightarrow> eqm m (sum f A) (sum g A)"
  by (induction A rule: infinite_finite_induct) (auto intro: eqm_add)

lemma eqm_sum_list:
  "(\<And>x. x \<in> set xs \<Longrightarrow> eqm m (f x) (g x)) \<Longrightarrow> eqm m (sum_list (map f xs)) (sum_list (map g xs))"
  by (induction xs) (auto intro: eqm_add)

lemma eqm_cancel:
  assumes "coprime c m" and "eqm m (a * c) (b * c)"
  shows "eqm m a b"
proof -
  from assms(2) have "m dvd (a - b) * c" by (simp add: eqm_def left_diff_distrib)
  with assms(1) show ?thesis
    unfolding eqm_def by (metis coprime_commute coprime_dvd_mult_left_iff)
qed

lemma eqm_small: "eqm m a b \<Longrightarrow> 0 \<le> a \<Longrightarrow> a < m \<Longrightarrow> 0 \<le> b \<Longrightarrow> b < m \<Longrightarrow> a = b"
  by (simp add: eqm_mod)

lemma coprime_not_eqm_0: "coprime a m \<Longrightarrow> 1 < m \<Longrightarrow> \<not> eqm m a 0"
proof
  assume "coprime a m" "1 < m" "eqm m a 0"
  then have "m dvd 1" by (metis coprime_common_divisor dvd_refl eqm_def diff_zero)
  with \<open>1 < m\<close> show False by simp
qed

lemmas eqm_intros = eqm_refl eqm_add eqm_diff eqm_mult

text \<open>
  The modulus of the BLS scalar field: every nonzero residue is invertible. This is what the
  code relies on when it divides in the field; it holds of a prime number.
\<close>

definition field_modulus :: "int \<Rightarrow> bool" where
  "field_modulus r \<longleftrightarrow> 1 < r \<and> (\<forall>k. 0 < k \<longrightarrow> k < r \<longrightarrow> coprime k r)"

lemma field_modulus_gt [simp, dest]: "field_modulus r \<Longrightarrow> 1 < r"
  by (simp add: field_modulus_def)

lemma field_modulus_coprime: "field_modulus r \<Longrightarrow> k mod r \<noteq> 0 \<Longrightarrow> coprime k r"
  unfolding field_modulus_def
  by (metis coprime_mod_left_iff not_one_less_zero order_less_le pos_mod_bound pos_mod_sign
      dual_order.strict_trans zero_less_one)

subsection \<open>Polynomials as coefficient lists\<close>

text \<open>\<open>peval cs x\<close> is \<open>cs ! 0 + cs ! 1 * x + cs ! 2 * x\<^sup>2 + \<dots>\<close> (Horner's rule, no reduction).\<close>

primrec peval :: "int list \<Rightarrow> int \<Rightarrow> int" where
  "peval [] x = 0"
| "peval (c # cs) x = c + x * peval cs x"

text \<open>Synthetic division: \<open>p(x) = p(a) + (x - a) q(x)\<close> with \<open>q\<close> one coefficient shorter.\<close>

primrec pdiv :: "int list \<Rightarrow> int \<Rightarrow> int list" where
  "pdiv [] a = []"
| "pdiv (c # cs) a = (if cs = [] then [] else peval cs a # pdiv cs a)"

lemma peval_zero: "peval cs 0 = (case cs of [] \<Rightarrow> 0 | c # _ \<Rightarrow> c)"
  by (cases cs) auto

lemma length_pdiv [simp]: "length (pdiv cs a) = length cs - 1"
  by (induction cs) auto

lemma peval_pdiv: "peval cs x = peval cs a + (x - a) * peval (pdiv cs a) x"
proof (induction cs)
  case (Cons c cs)
  have "peval (c # cs) x = c + x * (peval cs a + (x - a) * peval (pdiv cs a) x)"
    using Cons by simp
  then show ?case by (cases "cs = []") (simp_all add: algebra_simps)
qed simp

lemma peval_eqm: "eqm m x y \<Longrightarrow> eqm m (peval cs x) (peval cs y)"
  by (induction cs) (auto intro!: eqm_intros)

end
