(* ===== verification/Transition.thy ===== *)
theory Transition
  imports Prelude
begin

section \<open>Contracts of transition systems\<close>

text \<open>
  The components with state are step relations. The locale \<open>safety\<close> is the contract of an
  invariant that every step keeps; \<open>monotone_system\<close> adds a reflexive and transitive relation
  that every step respects (a cursor that never moves back, a journal that never reopens). Both
  give the corresponding fact for every run. They are interpreted on the PostgreSQL store, the
  signing node and the archive budget.
\<close>

locale safety =
  fixes step :: "'s \<Rightarrow> 's \<Rightarrow> bool"
    and inv :: "'s \<Rightarrow> bool"
  assumes preserved: "inv s \<Longrightarrow> step s t \<Longrightarrow> inv t"
begin

lemma reachable_inv: "step\<^sup>*\<^sup>* s t \<Longrightarrow> inv s \<Longrightarrow> inv t"
  by (induction rule: rtranclp_induct) (auto intro: preserved)

end

locale monotone_system = safety +
  fixes le :: "'s \<Rightarrow> 's \<Rightarrow> bool"
  assumes le_refl: "le s s"
    and le_trans: "le s t \<Longrightarrow> le t u \<Longrightarrow> le s u"
    and step_le: "inv s \<Longrightarrow> step s t \<Longrightarrow> le s t"
begin

lemma reachable_le: "step\<^sup>*\<^sup>* s t \<Longrightarrow> inv s \<Longrightarrow> le s t"
proof (induction rule: rtranclp_induct)
  case base
  show ?case by (rule le_refl)
next
  case (step t u)
  then show ?case by (meson le_trans reachable_inv step_le)
qed

end

end
