(* ===== verification/Postgres_Store.thy ===== *)
theory Postgres_Store
  imports Transition "HOL-Library.Product_Lexorder"
begin

section \<open>The operator's PostgreSQL store (operator/postgres-store.mjs)\<close>

text \<open>
  The database is a record of four tables (lists of rows) and the set of advisory locks that
  sessions hold. Each method of \<open>PostgresOperatorStore\<close> is a function of the store's identity and
  the database that returns the new database and the value or error the method yields. \<open>now()\<close> is
  an argument, in seconds. A single statement is atomic; \<open>commitScan\<close> and \<open>resolveNonce\<close> run
  between \<open>BEGIN\<close> and \<open>COMMIT\<close> and leave the database unchanged when they throw. A comparison with
  a null column is not true. \<open>FOR UPDATE SKIP LOCKED\<close> reads an argument that tells which requests
  other sessions have locked.
\<close>

subsection \<open>Tables\<close>

record scan_row =
  sc_chain_id :: string
  sc_coordinator :: string
  sc_key_hash :: string
  sc_deployment_block :: int
  sc_next_block :: int
  sc_lease_owner :: "string option"
  sc_lease_expires_at :: "int option"
  sc_updated_at :: int

record request_row =
  rq_chain_id :: string
  rq_coordinator :: string
  rq_key_hash :: string
  rq_request_id :: int
  rq_pre_seed :: int
  rq_request_block :: int
  rq_expires_at_block :: int
  rq_event_block_number :: int
  rq_event_block_hash :: string
  rq_request_tx_hash :: string
  rq_attempts :: int
  rq_next_attempt_at :: int
  rq_lease_owner :: "string option"
  rq_lease_expires_at :: "int option"
  rq_last_error :: "string option"
  rq_orphaned :: bool
  rq_updated_at :: int

record transaction_row =
  tx_transaction_hash :: string
  tx_chain_id :: string
  tx_relayer :: string
  tx_nonce :: int
  tx_request_id :: "int option"
  tx_transaction_kind :: string
  tx_gas_price_wei :: int
  tx_instance_id :: string
  tx_status :: string
  tx_block_number :: "int option"
  tx_created_at :: int
  tx_updated_at :: int

record instance_row =
  in_instance_id :: string
  in_started_at :: int
  in_heartbeat_at :: int
  in_metadata :: string

record db =
  instances :: "instance_row list"
  scan_states :: "scan_row list"
  request_rows :: "request_row list"
  transactions :: "transaction_row list"
  advisory_locks :: "int list"

record identity =
  id_chainId :: string
  id_coordinator :: string
  id_keyHash :: string
  id_deploymentBlock :: int

record request_event =
  ev_requestId :: int
  ev_preSeed :: int
  ev_requestBlock :: int
  ev_expiresAtBlock :: int
  ev_eventBlockNumber :: int
  ev_eventBlockHash :: string
  ev_transactionHash :: string

subsection \<open>Identity and lookups\<close>

definition safeBlockNumber :: "int \<Rightarrow> string \<Rightarrow> int result" where
  "safeBlockNumber value name = (if \<not> isSafeInteger value \<or> value < 0
     then Inl (name @ '' is outside the JavaScript safe integer range'') else Inr value)"

definition normalizeIdentity :: "identity \<Rightarrow> identity result" where
  "normalizeIdentity i = bindR (safeBlockNumber (id_deploymentBlock i) ''deploymentBlock'') (\<lambda>b.
     Inr \<lparr>id_chainId = id_chainId i, id_coordinator = toLowerCase (id_coordinator i),
       id_keyHash = toLowerCase (id_keyHash i), id_deploymentBlock = b\<rparr>)"

definition scan_key :: "identity \<Rightarrow> scan_row \<Rightarrow> bool" where
  "scan_key i s \<longleftrightarrow> sc_chain_id s = id_chainId i \<and> sc_coordinator s = id_coordinator i \<and>
     sc_key_hash s = id_keyHash i"

definition request_key :: "identity \<Rightarrow> request_row \<Rightarrow> bool" where
  "request_key i r \<longleftrightarrow> rq_chain_id r = id_chainId i \<and> rq_coordinator r = id_coordinator i \<and>
     rq_key_hash r = id_keyHash i"

definition expired :: "int option \<Rightarrow> int \<Rightarrow> bool" where
  "expired t now = (case t of None \<Rightarrow> False | Some e \<Rightarrow> e < now)"

text \<open>\<open>UPDATE ... SET f WHERE p\<close> on a table.\<close>

definition update_where :: "('r \<Rightarrow> bool) \<Rightarrow> ('r \<Rightarrow> 'r) \<Rightarrow> 'r list \<Rightarrow> 'r list" where
  "update_where p f rows = map (\<lambda>r. if p r then f r else r) rows"

subsection \<open>Initialisation and heartbeat\<close>

definition initialize :: "identity \<Rightarrow> int \<Rightarrow> db \<Rightarrow> db \<times> unit result" where
  "initialize i now d =
     (let d' = (if \<exists>s \<in> set (scan_states d). scan_key i s then d
        else d\<lparr>scan_states := scan_states d @ [\<lparr>sc_chain_id = id_chainId i,
          sc_coordinator = id_coordinator i, sc_key_hash = id_keyHash i,
          sc_deployment_block = id_deploymentBlock i, sc_next_block = id_deploymentBlock i,
          sc_lease_owner = None, sc_lease_expires_at = None, sc_updated_at = now\<rparr>]\<rparr>)
      in (d', case filter (scan_key i) (scan_states d') of
         [s] \<Rightarrow> bindR (safeBlockNumber (sc_deployment_block s) ''stored deployment block'') (\<lambda>b.
           if b \<noteq> id_deploymentBlock i
           then Inl ''PostgreSQL deployment block does not match this operator'' else Inr ())
       | _ \<Rightarrow> Inl ''failed to initialize PostgreSQL scan state''))"

definition heartbeat :: "int \<Rightarrow> string \<Rightarrow> string \<Rightarrow> db \<Rightarrow> db" where
  "heartbeat now instanceId metadata d =
     (if \<exists>r \<in> set (instances d). in_instance_id r = instanceId
      then d\<lparr>instances := update_where (\<lambda>r. in_instance_id r = instanceId)
        (\<lambda>r. r\<lparr>in_heartbeat_at := now, in_metadata := metadata\<rparr>) (instances d)\<rparr>
      else d\<lparr>instances := instances d @ [\<lparr>in_instance_id = instanceId, in_started_at = now,
        in_heartbeat_at = now, in_metadata = metadata\<rparr>]\<rparr>)"

subsection \<open>Scanning\<close>

definition scan_claimable :: "identity \<Rightarrow> int \<Rightarrow> string \<Rightarrow> int \<Rightarrow> scan_row \<Rightarrow> bool" where
  "scan_claimable i now instanceId latest s \<longleftrightarrow> scan_key i s \<and> sc_next_block s \<le> latest \<and>
     (sc_lease_owner s = None \<or> expired (sc_lease_expires_at s) now \<or>
      sc_lease_owner s = Some instanceId)"

definition scan_range :: "int \<Rightarrow> int \<Rightarrow> int \<Rightarrow> int \<Rightarrow> int \<Rightarrow> int \<times> int" where
  "scan_range deploymentBlock cursor latest rangeSize reorgLookback =
     (let fromBlock = max deploymentBlock (min cursor latest - reorgLookback)
      in (fromBlock, min latest (fromBlock + rangeSize - 1)))"

definition claimScan ::
  "identity \<Rightarrow> int \<Rightarrow> string \<Rightarrow> int \<Rightarrow> int \<Rightarrow> int \<Rightarrow> int \<Rightarrow> db \<Rightarrow> db \<times> (int \<times> int) option result"
where
  "claimScan i now instanceId latest rangeSize reorgLookback leaseSeconds d =
     (let d' = d\<lparr>scan_states := update_where (scan_claimable i now instanceId latest)
        (\<lambda>s. s\<lparr>sc_lease_owner := Some instanceId, sc_lease_expires_at := Some (now + leaseSeconds),
           sc_updated_at := now\<rparr>) (scan_states d)\<rparr>
      in (d', case filter (scan_claimable i now instanceId latest) (scan_states d) of
         [] \<Rightarrow> Inr None
       | s # _ \<Rightarrow> bindR (safeBlockNumber (sc_next_block s) ''scan cursor'') (\<lambda>cursor.
           Inr (Some (scan_range (id_deploymentBlock i) cursor latest rangeSize reorgLookback)))))"

definition new_request :: "identity \<Rightarrow> int \<Rightarrow> request_event \<Rightarrow> request_row" where
  "new_request i now e = \<lparr>rq_chain_id = id_chainId i, rq_coordinator = id_coordinator i,
     rq_key_hash = id_keyHash i, rq_request_id = ev_requestId e, rq_pre_seed = ev_preSeed e,
     rq_request_block = ev_requestBlock e, rq_expires_at_block = ev_expiresAtBlock e,
     rq_event_block_number = ev_eventBlockNumber e, rq_event_block_hash = ev_eventBlockHash e,
     rq_request_tx_hash = ev_transactionHash e, rq_attempts = 0, rq_next_attempt_at = now,
     rq_lease_owner = None, rq_lease_expires_at = None, rq_last_error = None,
     rq_orphaned = False, rq_updated_at = now\<rparr>"

definition refresh_request :: "int \<Rightarrow> request_event \<Rightarrow> request_row \<Rightarrow> request_row" where
  "refresh_request now e r = r\<lparr>rq_pre_seed := ev_preSeed e, rq_request_block := ev_requestBlock e,
     rq_expires_at_block := ev_expiresAtBlock e, rq_event_block_number := ev_eventBlockNumber e,
     rq_event_block_hash := ev_eventBlockHash e, rq_request_tx_hash := ev_transactionHash e,
     rq_orphaned := False, rq_updated_at := now\<rparr>"

definition request_match :: "identity \<Rightarrow> int \<Rightarrow> request_row \<Rightarrow> bool" where
  "request_match i requestId r \<longleftrightarrow> request_key i r \<and> rq_request_id r = requestId"

definition upsert_request :: "identity \<Rightarrow> int \<Rightarrow> request_row list \<Rightarrow> request_event \<Rightarrow> request_row list" where
  "upsert_request i now rows e =
     (if \<exists>r \<in> set rows. request_match i (ev_requestId e) r
      then update_where (request_match i (ev_requestId e)) (refresh_request now e) rows
      else rows @ [new_request i now e])"

text \<open>The request table after the four statements of \<open>commitScan\<close> that change it.\<close>

definition mark_orphaned :: "identity \<Rightarrow> int \<Rightarrow> int \<Rightarrow> request_row list \<Rightarrow> request_row list" where
  "mark_orphaned i now fromBlock rows =
     update_where (\<lambda>r. request_key i r \<and> rq_event_block_number r \<ge> fromBlock)
       (\<lambda>r. r\<lparr>rq_orphaned := True, rq_updated_at := now\<rparr>) rows"

definition delete_finalized :: "identity \<Rightarrow> int list \<Rightarrow> request_row list \<Rightarrow> request_row list" where
  "delete_finalized i ids rows = filter (\<lambda>r. \<not> (request_key i r \<and> rq_request_id r \<in> set ids)) rows"

definition delete_orphans :: "identity \<Rightarrow> int \<Rightarrow> request_row list \<Rightarrow> request_row list" where
  "delete_orphans i now rows = filter (\<lambda>r. \<not> (request_key i r \<and> rq_orphaned r \<and>
     (rq_lease_owner r = None \<or> expired (rq_lease_expires_at r) now))) rows"

definition scanned_requests ::
  "identity \<Rightarrow> int \<Rightarrow> int \<Rightarrow> request_event list \<Rightarrow> int list \<Rightarrow> request_row list \<Rightarrow> request_row list" where
  "scanned_requests i now fromBlock requested finalizedRequestIds rows =
     delete_orphans i now (delete_finalized i finalizedRequestIds
       (foldl (upsert_request i now) (mark_orphaned i now fromBlock rows) requested))"

definition commitScan ::
  "identity \<Rightarrow> int \<Rightarrow> string \<Rightarrow> int \<Rightarrow> int \<Rightarrow> request_event list \<Rightarrow> int list \<Rightarrow> db \<Rightarrow> db \<times> unit result"
where
  "commitScan i now instanceId fromBlock toBlock requested finalizedRequestIds d =
     (case filter (scan_key i) (scan_states d) of
        [s] \<Rightarrow>
          if sc_lease_owner s \<noteq> Some instanceId
          then (d, Inl ''scan lease was lost before commit'')
          else (case safeBlockNumber (sc_next_block s) ''scan cursor'' of
              Inl e \<Rightarrow> (d, Inl e)
            | Inr storedCursor \<Rightarrow>
                (d\<lparr>request_rows := scanned_requests i now fromBlock requested finalizedRequestIds
                     (request_rows d),
                   scan_states := update_where (scan_key i)
                     (\<lambda>s. s\<lparr>sc_next_block := max storedCursor (toBlock + 1), sc_lease_owner := None,
                        sc_lease_expires_at := None, sc_updated_at := now\<rparr>) (scan_states d)\<rparr>, Inr ()))
      | _ \<Rightarrow> (d, Inl ''scan lease was lost before commit''))"

definition releaseScan :: "identity \<Rightarrow> int \<Rightarrow> string \<Rightarrow> db \<Rightarrow> db" where
  "releaseScan i now instanceId d =
     d\<lparr>scan_states := update_where (\<lambda>s. scan_key i s \<and> sc_lease_owner s = Some instanceId)
        (\<lambda>s. s\<lparr>sc_lease_owner := None, sc_lease_expires_at := None, sc_updated_at := now\<rparr>)
        (scan_states d)\<rparr>"

subsection \<open>Request leases\<close>

definition request_claimable :: "identity \<Rightarrow> int \<Rightarrow> request_row \<Rightarrow> bool" where
  "request_claimable i now r \<longleftrightarrow> request_key i r \<and> rq_next_attempt_at r \<le> now \<and> \<not> rq_orphaned r \<and>
     (rq_lease_owner r = None \<or> expired (rq_lease_expires_at r) now)"

definition claim_candidate ::
  "identity \<Rightarrow> int \<Rightarrow> (int \<Rightarrow> bool) \<Rightarrow> request_row list \<Rightarrow> request_row option" where
  "claim_candidate i now locked rows =
     (case sort_key (\<lambda>r. (rq_request_block r, rq_request_id r))
             (filter (\<lambda>r. request_claimable i now r \<and> \<not> locked (rq_request_id r)) rows) of
        [] \<Rightarrow> None | r # _ \<Rightarrow> Some r)"

definition claimRequest ::
  "identity \<Rightarrow> int \<Rightarrow> (int \<Rightarrow> bool) \<Rightarrow> string \<Rightarrow> int \<Rightarrow> db \<Rightarrow> db \<times> request_row option result" where
  "claimRequest i now locked instanceId leaseSeconds d =
     (case claim_candidate i now locked (request_rows d) of
        None \<Rightarrow> (d, Inr None)
      | Some r \<Rightarrow>
          (d\<lparr>request_rows := update_where (request_match i (rq_request_id r))
             (\<lambda>q. q\<lparr>rq_lease_owner := Some instanceId, rq_lease_expires_at := Some (now + leaseSeconds),
                rq_updated_at := now\<rparr>) (request_rows d)\<rparr>,
           bindR (safeBlockNumber (rq_event_block_number r) ''event block'') (\<lambda>_. Inr (Some r))))"

definition completeRequest :: "identity \<Rightarrow> int \<Rightarrow> string \<Rightarrow> db \<Rightarrow> db" where
  "completeRequest i requestId instanceId d =
     d\<lparr>request_rows := filter (\<lambda>r. \<not> (request_match i requestId r \<and>
        rq_lease_owner r = Some instanceId)) (request_rows d)\<rparr>"

definition retryRequest :: "identity \<Rightarrow> int \<Rightarrow> int \<Rightarrow> string \<Rightarrow> string \<Rightarrow> int \<Rightarrow> db \<Rightarrow> db" where
  "retryRequest i now requestId instanceId err retrySeconds d =
     d\<lparr>request_rows := update_where
        (\<lambda>r. request_match i requestId r \<and> rq_lease_owner r = Some instanceId)
        (\<lambda>r. r\<lparr>rq_attempts := rq_attempts r + 1, rq_next_attempt_at := now + retrySeconds,
           rq_lease_owner := None, rq_lease_expires_at := None,
           rq_last_error := Some (take 4000 err), rq_updated_at := now\<rparr>) (request_rows d)\<rparr>"

definition summary :: "identity \<Rightarrow> db \<Rightarrow> (int \<times> nat \<times> int option) result" where
  "summary i d = (case filter (scan_key i) (scan_states d) of
       [] \<Rightarrow> Inl ''Cannot read properties of undefined''
     | s # _ \<Rightarrow> (let rows = filter (request_key i) (request_rows d) in
         bindR (safeBlockNumber (sc_next_block s) ''scan cursor'') (\<lambda>cursor.
         if rows = [] then Inr (cursor, 0, None)
         else bindR (safeBlockNumber (Min (rq_request_block ` set rows)) ''oldest request block'') (\<lambda>b.
           Inr (cursor, length rows, Some b)))))"

subsection \<open>The relayer lock and the transaction journal\<close>

definition relayer_lock_name :: "identity \<Rightarrow> string \<Rightarrow> string" where
  "relayer_lock_name i relayer = ''proof-vrf:'' @ id_chainId i @ '':'' @ toLowerCase relayer"

text \<open>
  \<open>withRelayerNonceLock\<close>: advisory locks are numbers, \<open>hash\<close> stands for PostgreSQL's
  \<open>hashtextextended\<close>. The operation reports whether its session was lost; a lost session is
  released with the error, which closes the connection, and the server then drops its locks.
  \<open>assertHeld\<close> is the check that the operation is given.
\<close>

definition assertHeld :: "bool \<Rightarrow> unit result" where
  "assertHeld lost = (if lost then Inl ''RelayerNonceLeaseLost'' else Inr ())"

definition pg_advisory_unlock :: "int \<Rightarrow> db \<Rightarrow> db" where
  "pg_advisory_unlock k d = d\<lparr>advisory_locks := remove1 k (advisory_locks d)\<rparr>"

definition withRelayerNonceLock ::
  "(string \<Rightarrow> int) \<Rightarrow> identity \<Rightarrow> string \<Rightarrow> (db \<Rightarrow> db \<times> bool \<times> 'a result) \<Rightarrow> db \<Rightarrow> db \<times> 'a result" where
  "withRelayerNonceLock hash i relayer operation d = (let lock = hash (relayer_lock_name i relayer) in
     if lock \<in> set (advisory_locks d) then (d, Inl ''RelayerNonceLeaseBusy'')
     else (case operation (d\<lparr>advisory_locks := lock # advisory_locks d\<rparr>) of (d', lost, res) \<Rightarrow>
       (if lost then d'\<lparr>advisory_locks := remove1 lock (advisory_locks d')\<rparr>
        else pg_advisory_unlock lock d', res)))"

definition recordBroadcast ::
  "identity \<Rightarrow> int \<Rightarrow> string \<Rightarrow> string \<Rightarrow> int \<Rightarrow> int option \<Rightarrow> string \<Rightarrow> int \<Rightarrow> string \<Rightarrow> db \<Rightarrow> db" where
  "recordBroadcast i now transactionHash relayer nonce requestId transactionKind gasPriceWei instanceId d =
     (if \<exists>t \<in> set (transactions d). tx_transaction_hash t = transactionHash then d
      else d\<lparr>transactions := transactions d @ [\<lparr>tx_transaction_hash = transactionHash,
        tx_chain_id = id_chainId i, tx_relayer = toLowerCase relayer, tx_nonce = nonce,
        tx_request_id = requestId, tx_transaction_kind = transactionKind,
        tx_gas_price_wei = gasPriceWei, tx_instance_id = instanceId, tx_status = ''broadcast'',
        tx_block_number = None, tx_created_at = now, tx_updated_at = now\<rparr>]\<rparr>)"

definition markMined :: "int \<Rightarrow> string \<Rightarrow> int \<Rightarrow> db \<Rightarrow> db" where
  "markMined now transactionHash blockNumber d =
     d\<lparr>transactions := update_where (\<lambda>t. tx_transaction_hash t = transactionHash)
        (\<lambda>t. t\<lparr>tx_status := ''mined'', tx_block_number := Some blockNumber, tx_updated_at := now\<rparr>)
        (transactions d)\<rparr>"

definition unresolved :: "identity \<Rightarrow> string \<Rightarrow> transaction_row \<Rightarrow> bool" where
  "unresolved i relayer t \<longleftrightarrow> tx_chain_id t = id_chainId i \<and> tx_relayer t = toLowerCase relayer \<and>
     tx_status t = ''broadcast''"

definition listUnresolvedTransactions :: "identity \<Rightarrow> string \<Rightarrow> db \<Rightarrow> transaction_row list result" where
  "listUnresolvedTransactions i relayer d =
     mapR (\<lambda>t. bindR (safeBlockNumber (tx_nonce t) ''transaction nonce'') (\<lambda>_. Inr t))
       (sort_key (\<lambda>t. (tx_nonce t, tx_created_at t)) (filter (unresolved i relayer) (transactions d)))"

definition resolveNonce ::
  "identity \<Rightarrow> int \<Rightarrow> string \<Rightarrow> int \<Rightarrow> string \<Rightarrow> string option \<Rightarrow> int option \<Rightarrow> db \<Rightarrow> db \<times> unit result" where
  "resolveNonce i now relayer nonce status minedTransactionHash blockNumber d =
     (if status \<notin> {''dropped'', ''consumed'', ''replaced''}
      then (d, Inl ''invalid transaction journal resolution status'')
      else (let settled = update_where (\<lambda>t. unresolved i relayer t \<and> tx_nonce t = nonce)
                (\<lambda>t. t\<lparr>tx_status := status, tx_updated_at := now\<rparr>) (transactions d);
              final = (case minedTransactionHash of None \<Rightarrow> settled
                | Some h \<Rightarrow> if h = [] then settled
                  else update_where (\<lambda>t. tx_transaction_hash t = h)
                    (\<lambda>t. t\<lparr>tx_status := ''mined'', tx_block_number := blockNumber,
                       tx_updated_at := now\<rparr>) settled)
            in (d\<lparr>transactions := final\<rparr>, Inr ())))"

subsection \<open>Library\<close>

named_theorems store_defs "definitions of the store's operations"

lemmas [store_defs] = claimScan_def commitScan_def releaseScan_def claimRequest_def completeRequest_def
  retryRequest_def heartbeat_def recordBroadcast_def markMined_def resolveNonce_def

lemma set_update_where: "set (update_where p f rows) = (\<lambda>r. if p r then f r else r) ` set rows"
  by (simp add: update_where_def)

lemma ball_update_where:
  "(\<forall>r \<in> set (update_where p f rows). P r) \<longleftrightarrow> (\<forall>r \<in> set rows. P (if p r then f r else r))"
  by (auto simp: update_where_def)

lemma bex_update_where:
  "(\<exists>r \<in> set (update_where p f rows). P r) \<longleftrightarrow> (\<exists>r \<in> set rows. P (if p r then f r else r))"
  by (auto simp: update_where_def)

lemma update_where_single [simp]: "update_where p f [s] = [if p s then f s else s]"
  by (simp add: update_where_def)

lemma length_update_where [simp]: "length (update_where p f rows) = length rows"
  by (simp add: update_where_def)

lemma map_update_where: "(\<And>r. g (f r) = g r) \<Longrightarrow> map g (update_where p f rows) = map g rows"
  by (simp add: update_where_def)

lemma filter_update_where:
  "(\<And>r. q (f r) = q r) \<Longrightarrow> filter q (update_where p f rows) = update_where p f (filter q rows)"
  by (induction rows) (auto simp: update_where_def)

lemma filter_single:
  assumes "filter q xs = [s]" "r \<in> set xs" "q r"
  shows "r = s"
proof -
  have "r \<in> set (filter q xs)" using assms(2,3) by simp
  then show ?thesis by (simp add: assms(1))
qed

lemma request_key_update [simp]:
  "request_key i (rq_lease_owner_update f r) = request_key i r"
  "request_key i (rq_lease_expires_at_update g r) = request_key i r"
  "request_key i (rq_updated_at_update h r) = request_key i r"
  "request_key i (rq_orphaned_update k r) = request_key i r"
  "request_key i (rq_attempts_update l r) = request_key i r"
  "request_key i (rq_next_attempt_at_update l r) = request_key i r"
  "request_key i (rq_last_error_update m r) = request_key i r"
  "request_key i (refresh_request now e r) = request_key i r"
  "request_key i (new_request i now e)"
  by (simp_all add: request_key_def refresh_request_def new_request_def)

lemma request_id_update [simp]:
  "rq_request_id (refresh_request now e r) = rq_request_id r"
  "rq_request_id (new_request i now e) = ev_requestId e"
  by (simp_all add: refresh_request_def new_request_def)

lemma scan_key_update [simp]:
  "scan_key i (sc_lease_owner_update f s) = scan_key i s"
  "scan_key i (sc_lease_expires_at_update g s) = scan_key i s"
  "scan_key i (sc_updated_at_update h s) = scan_key i s"
  "scan_key i (sc_next_block_update k s) = scan_key i s"
  by (simp_all add: scan_key_def)

lemma safeBlockNumber_Inr [result_simps]:
  "safeBlockNumber v n = Inr w \<longleftrightarrow> w = v \<and> isSafeInteger v \<and> 0 \<le> v"
  by (auto simp: safeBlockNumber_def)

subsection \<open>Claiming the oldest request\<close>

lemma sort_key_Nil_iff: "sort_key k xs = [] \<longleftrightarrow> xs = []"
  by (metis length_0_conv length_sort)

lemma claim_candidate_None:
  "claim_candidate i now locked rows = None \<longleftrightarrow>
     (\<forall>r \<in> set rows. request_claimable i now r \<longrightarrow> locked (rq_request_id r))"
proof -
  let ?xs = "filter (\<lambda>r. request_claimable i now r \<and> \<not> locked (rq_request_id r)) rows"
  have "claim_candidate i now locked rows = None \<longleftrightarrow> sort_key (\<lambda>r. (rq_request_block r, rq_request_id r)) ?xs = []"
    by (simp add: claim_candidate_def split: list.splits)
  also have "\<dots> \<longleftrightarrow> ?xs = []" by (rule sort_key_Nil_iff)
  finally show ?thesis by (auto simp: filter_empty_conv)
qed

lemma claim_candidate_Some:
  assumes "claim_candidate i now locked rows = Some r"
  shows "r \<in> set rows" "request_claimable i now r" "\<not> locked (rq_request_id r)"
    "\<And>q. q \<in> set rows \<Longrightarrow> request_claimable i now q \<Longrightarrow> \<not> locked (rq_request_id q) \<Longrightarrow>
      (rq_request_block r, rq_request_id r) \<le> (rq_request_block q, rq_request_id q)"
proof -
  let ?k = "\<lambda>r. (rq_request_block r, rq_request_id r)"
  let ?xs = "filter (\<lambda>r. request_claimable i now r \<and> \<not> locked (rq_request_id r)) rows"
  obtain ys where ys: "sort_key ?k ?xs = r # ys"
    using assms by (auto simp: claim_candidate_def split: list.splits)
  have mem: "set (r # ys) = set ?xs" using ys set_sort by metis
  then show "r \<in> set rows" "request_claimable i now r" "\<not> locked (rq_request_id r)" by auto
  have "sorted (map ?k (r # ys))" using ys sorted_sort_key [of ?k ?xs] by simp
  then have "\<forall>q \<in> set (r # ys). ?k r \<le> ?k q" by auto
  then show "(rq_request_block r, rq_request_id r) \<le> (rq_request_block q, rq_request_id q)"
    if "q \<in> set rows" "request_claimable i now q" "\<not> locked (rq_request_id q)" for q
    using that mem by auto
qed

subsection \<open>Concurrent operators\<close>

text \<open>One call of a store method by some operator process, and its effect on the database.\<close>

datatype store_op =
    ClaimScan string int int int int
  | CommitScan string int int "request_event list" "int list"
  | ReleaseScan string
  | ClaimRequest string "int \<Rightarrow> bool" int
  | CompleteRequest string int
  | RetryRequest string int string int
  | Heartbeat string string
  | RecordBroadcast string string int "int option" string int string
  | MarkMined string int
  | ResolveNonce string int string "string option" "int option"

fun apply_op :: "identity \<Rightarrow> int \<Rightarrow> store_op \<Rightarrow> db \<Rightarrow> db" where
  "apply_op i now (ClaimScan inst latest rs lookback lease) d =
     fst (claimScan i now inst latest rs lookback lease d)"
| "apply_op i now (CommitScan inst f t reqs fin) d = fst (commitScan i now inst f t reqs fin d)"
| "apply_op i now (ReleaseScan inst) d = releaseScan i now inst d"
| "apply_op i now (ClaimRequest inst locked lease) d = fst (claimRequest i now locked inst lease d)"
| "apply_op i now (CompleteRequest inst rid) d = completeRequest i rid inst d"
| "apply_op i now (RetryRequest inst rid err secs) d = retryRequest i now rid inst err secs d"
| "apply_op i now (Heartbeat inst meta) d = heartbeat now inst meta d"
| "apply_op i now (RecordBroadcast h rel n rid k g inst) d = recordBroadcast i now h rel n rid k g inst d"
| "apply_op i now (MarkMined h b) d = markMined now h b d"
| "apply_op i now (ResolveNonce rel n st h b) d = fst (resolveNonce i now rel n st h b d)"

definition run_ops :: "identity \<Rightarrow> db \<Rightarrow> (int \<times> store_op) list \<Rightarrow> db" where
  "run_ops i d ops = foldl (\<lambda>d (now, op). apply_op i now op d) d ops"

text \<open>The request is in the table and every row with its id is leased to \<open>inst\<close> past \<open>until\<close>.\<close>

definition row_leased :: "identity \<Rightarrow> int \<Rightarrow> string \<Rightarrow> int \<Rightarrow> request_row \<Rightarrow> bool" where
  "row_leased i rid inst until r \<longleftrightarrow> (request_match i rid r \<longrightarrow> rq_lease_owner r = Some inst \<and>
     (\<exists>t \<ge> until. rq_lease_expires_at r = Some t))"

definition lease_held :: "identity \<Rightarrow> int \<Rightarrow> string \<Rightarrow> int \<Rightarrow> request_row list \<Rightarrow> bool" where
  "lease_held i rid inst until rows \<longleftrightarrow> (\<forall>r \<in> set rows. row_leased i rid inst until r) \<and>
     (\<exists>r \<in> set rows. request_match i rid r)"

text \<open>The calls that leave the lease of request \<open>rid\<close> with \<open>inst\<close> alone.\<close>

fun respects_lease :: "int \<Rightarrow> string \<Rightarrow> int \<Rightarrow> int \<times> store_op \<Rightarrow> bool" where
  "respects_lease rid inst until (now, CompleteRequest j rid') \<longleftrightarrow> \<not> (j = inst \<and> rid' = rid)"
| "respects_lease rid inst until (now, RetryRequest j rid' err secs) \<longleftrightarrow> \<not> (j = inst \<and> rid' = rid)"
| "respects_lease rid inst until (now, CommitScan j f t reqs fin) \<longleftrightarrow> now \<le> until \<and> rid \<notin> set fin"
| "respects_lease rid inst until (now, _) \<longleftrightarrow> now \<le> until"

lemma lease_held_claim:
  assumes "lease_held i rid inst until (request_rows d)" "now \<le> until"
    "claim_candidate i now locked (request_rows d) = Some r"
  shows "rq_request_id r \<noteq> rid"
proof
  assume "rq_request_id r = rid"
  moreover note c = claim_candidate_Some(1,2) [OF assms(3)]
  ultimately have "request_match i rid r" by (simp add: request_match_def request_claimable_def)
  then have "\<not> request_claimable i now r"
    using assms(1,2) c(1) by (auto simp: lease_held_def row_leased_def request_claimable_def expired_def)
  with c(2) show False by simp
qed

lemma lease_held_update:
  assumes "lease_held i rid inst until rows"
    "\<And>r. p r \<Longrightarrow> row_leased i rid inst until r \<Longrightarrow> request_match i rid r \<Longrightarrow>
       rq_lease_owner (f r) = rq_lease_owner r \<and> rq_lease_expires_at (f r) = rq_lease_expires_at r"
    "\<And>r. request_match i rid (f r) = request_match i rid r"
  shows "lease_held i rid inst until (update_where p f rows)"
proof -
  have "row_leased i rid inst until (if p r then f r else r)" if "row_leased i rid inst until r" for r
    using that assms(2,3) [of r] by (auto simp: row_leased_def)
  moreover have "request_match i rid (if p r then f r else r) = request_match i rid r" for r
    using assms(3) by simp
  ultimately show ?thesis
    using assms(1) unfolding lease_held_def ball_update_where bex_update_where by blast
qed

lemma lease_held_filter:
  assumes "lease_held i rid inst until rows"
    "\<And>r. row_leased i rid inst until r \<Longrightarrow> request_match i rid r \<Longrightarrow> q r"
  shows "lease_held i rid inst until (filter q rows)"
  using assms unfolding lease_held_def by auto

lemma request_match_update [simp]:
  "request_match i rid (rq_lease_owner_update f r) = request_match i rid r"
  "request_match i rid (rq_lease_expires_at_update g r) = request_match i rid r"
  "request_match i rid (rq_updated_at_update h r) = request_match i rid r"
  "request_match i rid (rq_orphaned_update k r) = request_match i rid r"
  "request_match i rid (rq_attempts_update l r) = request_match i rid r"
  "request_match i rid (rq_next_attempt_at_update l r) = request_match i rid r"
  "request_match i rid (rq_last_error_update m r) = request_match i rid r"
  "request_match i rid (refresh_request now e r) = request_match i rid r"
  by (simp_all add: request_match_def)

lemma refresh_request_lease [simp]:
  "rq_lease_owner (refresh_request now e r) = rq_lease_owner r"
  "rq_lease_expires_at (refresh_request now e r) = rq_lease_expires_at r"
  by (simp_all add: refresh_request_def)

lemma lease_held_upsert:
  assumes "lease_held i rid inst until rows"
  shows "lease_held i rid inst until (upsert_request i now rows e)"
proof (cases "\<exists>r \<in> set rows. request_match i (ev_requestId e) r")
  case True
  then show ?thesis using assms by (simp add: upsert_request_def lease_held_update)
next
  case False
  then have "ev_requestId e \<noteq> rid" using assms unfolding lease_held_def by blast
  then have "\<not> request_match i rid (new_request i now e)" by (simp add: request_match_def)
  with False assms show ?thesis
    by (auto simp: upsert_request_def lease_held_def row_leased_def)
qed

lemma lease_held_scanned:
  assumes "lease_held i rid inst until rows" "now \<le> until" "rid \<notin> set fin"
  shows "lease_held i rid inst until (scanned_requests i now f reqs fin rows)"
proof -
  have "lease_held i rid inst until (mark_orphaned i now f rows)"
    unfolding mark_orphaned_def using assms(1) by (rule lease_held_update) auto
  then have "lease_held i rid inst until (foldl (upsert_request i now) (mark_orphaned i now f rows) reqs)"
    by (induction reqs rule: rev_induct) (auto intro: lease_held_upsert)
  then have "lease_held i rid inst until (delete_finalized i fin
      (foldl (upsert_request i now) (mark_orphaned i now f rows) reqs))"
    unfolding delete_finalized_def using assms(3)
    by (rule_tac lease_held_filter) (auto simp: request_match_def)
  then show ?thesis
    unfolding scanned_requests_def delete_orphans_def using assms(2)
    by (rule_tac lease_held_filter) (auto simp: row_leased_def expired_def)
qed

lemma lease_held_apply:
  assumes "lease_held i rid inst until (request_rows d)" "respects_lease rid inst until (now, op)"
  shows "lease_held i rid inst until (request_rows (apply_op i now op d))"
proof (cases op)
  case (CommitScan j f t reqs fin)
  then show ?thesis
    using assms by (auto simp: commitScan_def lease_held_scanned split: list.splits sum.splits)
next
  case (ClaimRequest j locked lease)
  show ?thesis
  proof (cases "claim_candidate i now locked (request_rows d)")
    case (Some r)
    with assms ClaimRequest have "rq_request_id r \<noteq> rid" by (auto dest: lease_held_claim)
    then show ?thesis
      using assms(1) Some ClaimRequest
      by (auto simp: claimRequest_def request_match_def intro!: lease_held_update)
  qed (use assms ClaimRequest in \<open>simp add: claimRequest_def\<close>)
next
  case (CompleteRequest j rid')
  then show ?thesis
    using assms by (auto simp: completeRequest_def row_leased_def request_match_def intro!: lease_held_filter)
next
  case (RetryRequest j rid' err secs)
  then show ?thesis
    using assms by (auto simp: retryRequest_def row_leased_def request_match_def intro!: lease_held_update)
qed (use assms in \<open>auto simp: store_defs Let_def\<close>)

lemma lease_held_run:
  assumes "lease_held i rid inst until (request_rows d)"
    "\<forall>x \<in> set ops. respects_lease rid inst until x"
  shows "lease_held i rid inst until (request_rows (run_ops i d ops))"
  using assms unfolding run_ops_def
proof (induction ops arbitrary: d)
  case (Cons x ops)
  obtain now op where x: "x = (now, op)" by fastforce
  then have "lease_held i rid inst until (request_rows (apply_op i now op d))"
    using Cons.prems by (intro lease_held_apply) auto
  with Cons x show ?case by simp
qed simp

lemma claimRequest_lease_held:
  assumes "claimRequest i now locked inst lease d = (d', Inr (Some r))"
  shows "lease_held i (rq_request_id r) inst (now + lease) (request_rows d')"
proof -
  have c: "claim_candidate i now locked (request_rows d) = Some r"
    using assms by (auto simp: claimRequest_def result_simps split: option.splits)
  have "request_match i (rq_request_id r) r" "r \<in> set (request_rows d)"
    using claim_candidate_Some [OF c] by (auto simp: request_match_def request_claimable_def)
  moreover have "request_rows d' = update_where (request_match i (rq_request_id r))
      (\<lambda>q. q\<lparr>rq_lease_owner := Some inst, rq_lease_expires_at := Some (now + lease),
         rq_updated_at := now\<rparr>) (request_rows d)"
    using assms c by (auto simp: claimRequest_def)
  ultimately show ?thesis
    unfolding lease_held_def by (simp only: ball_update_where bex_update_where) (auto simp: row_leased_def)
qed

subsection \<open>What a committed scan leaves pending\<close>

text \<open>
  The abstract state of the request table: the ids of the requests of this operator that the
  canonical chain still has, and those of them whose event lies below a block.
\<close>

definition pending :: "identity \<Rightarrow> request_row list \<Rightarrow> int set" where
  "pending i rows = rq_request_id ` set (filter (\<lambda>r. request_key i r \<and> \<not> rq_orphaned r) rows)"

definition pending_below :: "identity \<Rightarrow> int \<Rightarrow> request_row list \<Rightarrow> int set" where
  "pending_below i b rows = rq_request_id ` set (filter (\<lambda>r. request_key i r \<and> \<not> rq_orphaned r \<and>
     rq_event_block_number r < b) rows)"

lemma pending_bex: "x \<in> pending i rows \<longleftrightarrow> (\<exists>r \<in> set rows. request_match i x r \<and> \<not> rq_orphaned r)"
  by (auto simp: pending_def request_match_def)

lemma pending_mark: "pending i (mark_orphaned i now f rows) = pending_below i f rows"
proof -
  have "x \<in> pending i (mark_orphaned i now f rows) \<longleftrightarrow> (\<exists>r \<in> set rows. request_match i x r \<and>
      \<not> rq_orphaned r \<and> rq_event_block_number r < f)" for x
    unfolding pending_bex mark_orphaned_def bex_update_where
    by (rule bex_cong) (auto simp: request_match_def)
  then show ?thesis by (auto simp: pending_below_def request_match_def)
qed

lemma pending_upsert: "pending i (upsert_request i now rows e) = insert (ev_requestId e) (pending i rows)"
proof (cases "\<exists>r \<in> set rows. request_match i (ev_requestId e) r")
  case True
  have orph: "\<not> rq_orphaned (refresh_request now e r)" for r by (simp add: refresh_request_def)
  have "x \<in> pending i (upsert_request i now rows e) \<longleftrightarrow> x = ev_requestId e \<or> x \<in> pending i rows" for x
    using True
    by (cases "x = ev_requestId e")
      (auto simp: upsert_request_def pending_bex bex_update_where orph request_match_def split: if_splits)
  then show ?thesis by blast
next
  case False
  then have "upsert_request i now rows e = rows @ [new_request i now e]" by (simp add: upsert_request_def)
  moreover have "\<not> rq_orphaned (new_request i now e)" by (simp add: new_request_def)
  ultimately show ?thesis
    by (auto simp: set_eq_iff pending_bex request_match_def)
qed

lemma pending_upserts:
  "pending i (foldl (upsert_request i now) rows reqs) = pending i rows \<union> ev_requestId ` set reqs"
  by (induction reqs arbitrary: rows) (auto simp: pending_upsert)

lemma pending_delete_finalized: "pending i (delete_finalized i fin rows) = pending i rows - set fin"
  by (auto simp: pending_def delete_finalized_def)

lemma pending_delete_orphans: "pending i (delete_orphans i now rows) = pending i rows"
  by (auto simp: pending_def delete_orphans_def)

lemma pending_scanned:
  "pending i (scanned_requests i now f reqs fin rows) =
     pending_below i f rows \<union> ev_requestId ` set reqs - set fin"
  by (simp add: scanned_requests_def pending_delete_orphans pending_delete_finalized pending_upserts
      pending_mark)

lemma commitScan_Inr:
  assumes "commitScan i now inst f t reqs fin d = (d', Inr u)"
  obtains s where "filter (scan_key i) (scan_states d) = [s]" "sc_lease_owner s = Some inst"
    "isSafeInteger (sc_next_block s)" "0 \<le> sc_next_block s"
    "request_rows d' = scanned_requests i now f reqs fin (request_rows d)"
    "filter (scan_key i) (scan_states d') = [s\<lparr>sc_next_block := max (sc_next_block s) (t + 1),
       sc_lease_owner := None, sc_lease_expires_at := None, sc_updated_at := now\<rparr>]"
proof -
  obtain s where s: "filter (scan_key i) (scan_states d) = [s]" "sc_lease_owner s = Some inst"
    "isSafeInteger (sc_next_block s)" "0 \<le> sc_next_block s"
    using assms by (auto simp: commitScan_def result_simps split: list.splits if_splits sum.splits)
  moreover have "scan_key i s"
    using s(1) by (metis filter_eq_ConsD)
  ultimately show thesis
    using assms that [of s]
    by (auto simp: commitScan_def safeBlockNumber_def filter_update_where)
qed

lemma commitScan_Inl: "commitScan i now inst f t reqs fin d = (d', Inl e) \<Longrightarrow> d' = d"
  by (auto simp: commitScan_def split: list.splits if_splits sum.splits)

lemma claimScan_Some:
  assumes "claimScan i now inst latest rs lookback lease d = (d', Inr (Some (f, t)))"
    "filter (scan_key i) (scan_states d) = [s]"
  shows "sc_next_block s \<le> latest"
    "(f, t) = scan_range (id_deploymentBlock i) (sc_next_block s) latest rs lookback"
    "request_rows d' = request_rows d"
    "filter (scan_key i) (scan_states d') = [s\<lparr>sc_lease_owner := Some inst,
       sc_lease_expires_at := Some (now + lease), sc_updated_at := now\<rparr>]"
proof -
  have eq: "filter (scan_claimable i now inst latest) rows =
      filter (scan_claimable i now inst latest) (filter (scan_key i) rows)" for rows
    by (induction rows) (auto simp: scan_claimable_def)
  have "scan_claimable i now inst latest s"
    using assms(1) unfolding claimScan_def eq [of "scan_states d"] assms(2)
    by (auto split: if_splits)
  with assms(1) show "sc_next_block s \<le> latest"
    "(f, t) = scan_range (id_deploymentBlock i) (sc_next_block s) latest rs lookback"
    "request_rows d' = request_rows d"
    "filter (scan_key i) (scan_states d') = [s\<lparr>sc_lease_owner := Some inst,
       sc_lease_expires_at := Some (now + lease), sc_updated_at := now\<rparr>]"
    unfolding claimScan_def eq [of "scan_states d"] assms(2)
    by (auto simp: result_simps filter_update_where assms(2) Let_def)
      (auto simp: scan_claimable_def)
qed

lemma scan_range_bounds:
  assumes "(f, t) = scan_range dep c latest rs lookback" "dep \<le> c" "c \<le> latest" "0 \<le> lookback"
  shows "dep \<le> f" "f \<le> c" "t \<le> latest" "lookback < rs \<Longrightarrow> c \<le> t"
    "dep \<le> c - rs \<Longrightarrow> rs \<le> lookback \<Longrightarrow> t < c"
  using assms by (auto simp: scan_range_def Let_def)

subsection \<open>Every run of the store\<close>

text \<open>
  The primary keys of the schema and the pairing of lease columns form the invariant. Along a
  run the scan cursors never move back, no recorded transaction disappears or changes what it
  describes, and no resolved transaction becomes unresolved again.
\<close>

definition scan_pk :: "scan_row \<Rightarrow> string \<times> string \<times> string" where
  "scan_pk s = (sc_chain_id s, sc_coordinator s, sc_key_hash s)"

definition request_pk :: "request_row \<Rightarrow> string \<times> string \<times> string \<times> int" where
  "request_pk r = (rq_chain_id r, rq_coordinator r, rq_key_hash r, rq_request_id r)"

definition lease_paired :: "request_row \<Rightarrow> bool" where
  "lease_paired r \<longleftrightarrow> (rq_lease_owner r = None \<longleftrightarrow> rq_lease_expires_at r = None)"

definition scan_paired :: "scan_row \<Rightarrow> bool" where
  "scan_paired s \<longleftrightarrow> (sc_lease_owner s = None \<longleftrightarrow> sc_lease_expires_at s = None)"

definition db_ok :: "db \<Rightarrow> bool" where
  "db_ok d \<longleftrightarrow> distinct (map scan_pk (scan_states d)) \<and> distinct (map request_pk (request_rows d)) \<and>
     distinct (map tx_transaction_hash (transactions d)) \<and>
     distinct (map in_instance_id (instances d)) \<and> (\<forall>r \<in> set (request_rows d). lease_paired r) \<and>
     (\<forall>s \<in> set (scan_states d). scan_paired s)"

inductive store_step :: "db \<Rightarrow> db \<Rightarrow> bool" where
  connect: "store_step d (fst (initialize i now d))"
| call: "store_step d (apply_op i now op d)"

inductive_cases store_stepE: "store_step d d'"

definition prefix_le :: "('r \<Rightarrow> 'r \<Rightarrow> bool) \<Rightarrow> 'r list \<Rightarrow> 'r list \<Rightarrow> bool" where
  "prefix_le R xs ys \<longleftrightarrow> length xs \<le> length ys \<and> (\<forall>k < length xs. R (xs ! k) (ys ! k))"

definition scan_le :: "scan_row \<Rightarrow> scan_row \<Rightarrow> bool" where
  "scan_le s s' \<longleftrightarrow> scan_pk s' = scan_pk s \<and> sc_deployment_block s' = sc_deployment_block s \<and>
     sc_next_block s \<le> sc_next_block s'"

definition tx_le :: "transaction_row \<Rightarrow> transaction_row \<Rightarrow> bool" where
  "tx_le t t' \<longleftrightarrow> tx_transaction_hash t' = tx_transaction_hash t \<and> tx_chain_id t' = tx_chain_id t \<and>
     tx_relayer t' = tx_relayer t \<and> tx_nonce t' = tx_nonce t \<and> tx_request_id t' = tx_request_id t \<and>
     tx_transaction_kind t' = tx_transaction_kind t \<and> tx_gas_price_wei t' = tx_gas_price_wei t \<and>
     tx_instance_id t' = tx_instance_id t \<and> tx_created_at t' = tx_created_at t \<and>
     (tx_status t \<noteq> ''broadcast'' \<longrightarrow> tx_status t' \<noteq> ''broadcast'')"

definition store_le :: "db \<Rightarrow> db \<Rightarrow> bool" where
  "store_le d d' \<longleftrightarrow> prefix_le scan_le (scan_states d) (scan_states d') \<and>
     prefix_le tx_le (transactions d) (transactions d')"

lemma scan_le_refl [simp]: "scan_le s s" and tx_le_refl [simp]: "tx_le t t"
  by (simp_all add: scan_le_def tx_le_def)

lemma prefix_le_refl [simp]: "(\<And>x. R x x) \<Longrightarrow> prefix_le R xs xs"
  by (simp add: prefix_le_def)

lemma prefix_le_trans:
  assumes "prefix_le R xs ys" "prefix_le R ys zs" "\<And>x y z. R x y \<Longrightarrow> R y z \<Longrightarrow> R x z"
  shows "prefix_le R xs zs"
  using assms(1,2) unfolding prefix_le_def by (meson assms(3) order_less_le_trans order_trans)

lemma prefix_le_append [simp]: "(\<And>x. R x x) \<Longrightarrow> prefix_le R xs (xs @ ys)"
  by (simp add: prefix_le_def nth_append)

lemma prefix_le_update_where:
  "(\<And>x. R x x) \<Longrightarrow> (\<And>r. r \<in> set xs \<Longrightarrow> p r \<Longrightarrow> R r (f r)) \<Longrightarrow> prefix_le R xs (update_where p f xs)"
  by (simp add: prefix_le_def update_where_def)

lemma store_le_refl: "store_le d d"
  by (simp add: store_le_def)

lemma store_le_trans: "store_le d e \<Longrightarrow> store_le e g \<Longrightarrow> store_le d g"
  unfolding store_le_def
  by (auto elim!: prefix_le_trans simp: scan_le_def tx_le_def)

lemma claimScan_le: "store_le d (fst (claimScan i now inst latest rs lookback lease d))"
  by (auto simp: store_le_def claimScan_def Let_def scan_le_def scan_pk_def intro!: prefix_le_update_where)

lemma commitScan_le: "store_le d (fst (commitScan i now inst f t reqs fin d))"
proof (cases "snd (commitScan i now inst f t reqs fin d)")
  case (Inr u)
  then obtain d' where c: "commitScan i now inst f t reqs fin d = (d', Inr u)"
    by (metis prod.collapse)
  then obtain s where s: "filter (scan_key i) (scan_states d) = [s]" "isSafeInteger (sc_next_block s)"
      "0 \<le> sc_next_block s" "sc_lease_owner s = Some inst"
    by (auto elim: commitScan_Inr)
  have "r = s" if "r \<in> set (scan_states d)" "scan_key i r" for r
    using s(1) that by (rule filter_single)
  then have "prefix_le scan_le (scan_states d) (scan_states (fst (commitScan i now inst f t reqs fin d)))"
    using s by (auto simp: commitScan_def safeBlockNumber_def scan_le_def scan_pk_def
        intro!: prefix_le_update_where)
  then show ?thesis
    using s by (simp add: store_le_def commitScan_def safeBlockNumber_def)
next
  case (Inl e)
  then show ?thesis by (metis commitScan_Inl prod.collapse store_le_refl)
qed

lemma resolveNonce_le: "store_le d (fst (resolveNonce i now rel n st h b d))"
proof (cases "st \<in> {''dropped'', ''consumed'', ''replaced''}")
  case True
  define settled where "settled = update_where (\<lambda>t. unresolved i rel t \<and> tx_nonce t = n)
      (\<lambda>t. t\<lparr>tx_status := st, tx_updated_at := now\<rparr>) (transactions d)"
  have 1: "prefix_le tx_le (transactions d) settled"
    unfolding settled_def using True by (auto simp: tx_le_def intro!: prefix_le_update_where)
  have "prefix_le tx_le settled (update_where (\<lambda>t. tx_transaction_hash t = h')
      (\<lambda>t. t\<lparr>tx_status := ''mined'', tx_block_number := b, tx_updated_at := now\<rparr>) settled)" for h'
    by (rule prefix_le_update_where) (simp_all add: tx_le_def)
  with 1 have 2: "prefix_le tx_le (transactions d) (update_where (\<lambda>t. tx_transaction_hash t = h')
      (\<lambda>t. t\<lparr>tx_status := ''mined'', tx_block_number := b, tx_updated_at := now\<rparr>) settled)" for h'
    by (rule prefix_le_trans) (simp add: tx_le_def)
  show ?thesis
    using True 1 2 by (simp add: store_le_def resolveNonce_def settled_def [symmetric] split: option.split)
next
  case False
  then show ?thesis by (simp add: resolveNonce_def store_le_refl)
qed

lemma apply_op_le: "store_le d (apply_op i now op d)"
proof (cases op)
  case (ClaimScan j latest rs lookback lease)
  then show ?thesis by (simp add: claimScan_le)
next
  case (CommitScan j f t reqs fin)
  then show ?thesis by (simp add: commitScan_le)
next
  case (ResolveNonce rel n st h b)
  then show ?thesis by (simp add: resolveNonce_le)
next
  case (MarkMined h b)
  then show ?thesis
    by (auto simp: store_le_def markMined_def tx_le_def intro!: prefix_le_update_where)
next
  case (ReleaseScan j)
  then show ?thesis
    by (auto simp: store_le_def releaseScan_def scan_le_def scan_pk_def intro!: prefix_le_update_where)
qed (auto simp: store_le_def store_defs split: option.splits)

definition rows_ok :: "request_row list \<Rightarrow> bool" where
  "rows_ok rows \<longleftrightarrow> distinct (map request_pk rows) \<and> (\<forall>r \<in> set rows. lease_paired r)"

lemma rows_ok_update:
  assumes "rows_ok rows" "\<And>r. request_pk (f r) = request_pk r" "\<And>r. lease_paired r \<Longrightarrow> lease_paired (f r)"
  shows "rows_ok (update_where p f rows)"
  using assms by (simp add: rows_ok_def map_update_where ball_update_where)

lemma rows_ok_filter: "rows_ok rows \<Longrightarrow> rows_ok (filter q rows)"
  by (auto simp: rows_ok_def distinct_map_filter)

lemma request_match_pk:
  "request_pk r = request_pk (new_request i now e) \<longleftrightarrow> request_match i (ev_requestId e) r"
  by (auto simp: request_match_def request_key_def request_pk_def new_request_def)

lemma rows_ok_upsert: "rows_ok rows \<Longrightarrow> rows_ok (upsert_request i now rows e)"
proof (cases "\<exists>r \<in> set rows. request_match i (ev_requestId e) r")
  case True
  assume "rows_ok rows"
  with True show ?thesis
    by (auto simp: upsert_request_def request_pk_def lease_paired_def refresh_request_def intro!: rows_ok_update)
next
  case False
  assume "rows_ok rows"
  moreover have "request_pk (new_request i now e) \<notin> request_pk ` set rows"
    using False by (metis imageE request_match_pk)
  ultimately show ?thesis
    using False by (auto simp: upsert_request_def rows_ok_def) (simp add: lease_paired_def new_request_def)
qed

lemma rows_ok_scanned: "rows_ok rows \<Longrightarrow> rows_ok (scanned_requests i now f reqs fin rows)"
proof -
  assume "rows_ok rows"
  then have "rows_ok (mark_orphaned i now f rows)"
    unfolding mark_orphaned_def by (rule rows_ok_update) (auto simp: request_pk_def lease_paired_def)
  then have "rows_ok (foldl (upsert_request i now) (mark_orphaned i now f rows) reqs)"
    by (induction reqs rule: rev_induct) (auto intro: rows_ok_upsert)
  then show ?thesis
    by (simp add: scanned_requests_def delete_finalized_def delete_orphans_def rows_ok_filter)
qed

lemma db_ok_rows: "db_ok d \<longleftrightarrow> distinct (map scan_pk (scan_states d)) \<and> rows_ok (request_rows d) \<and>
     distinct (map tx_transaction_hash (transactions d)) \<and> distinct (map in_instance_id (instances d)) \<and>
     (\<forall>s \<in> set (scan_states d). scan_paired s)"
  by (auto simp: db_ok_def rows_ok_def)

lemma db_ok_commitScan: "db_ok d \<Longrightarrow> db_ok (fst (commitScan i now inst f t reqs fin d))"
  by (auto simp: db_ok_rows commitScan_def rows_ok_scanned map_update_where scan_pk_def ball_update_where scan_paired_def
      split: list.splits sum.splits)

lemma db_ok_claimRequest: "db_ok d \<Longrightarrow> db_ok (fst (claimRequest i now locked inst lease d))"
  by (auto simp: db_ok_rows claimRequest_def request_pk_def lease_paired_def intro!: rows_ok_update
      split: option.splits)

lemma db_ok_retryRequest: "db_ok d \<Longrightarrow> db_ok (retryRequest i now rid inst err secs d)"
  by (auto simp: db_ok_rows retryRequest_def request_pk_def lease_paired_def intro!: rows_ok_update)

lemma db_ok_resolveNonce: "db_ok d \<Longrightarrow> db_ok (fst (resolveNonce i now rel n st h b d))"
  by (simp add: db_ok_rows resolveNonce_def Let_def map_update_where split: option.split)

lemma db_ok_claimScan: "db_ok d \<Longrightarrow> db_ok (fst (claimScan i now inst latest rs lookback lease d))"
  by (simp add: db_ok_rows claimScan_def Let_def map_update_where scan_pk_def ball_update_where scan_paired_def)

lemma db_ok_others:
  assumes "db_ok d"
  shows "db_ok (releaseScan i now inst d)" "db_ok (completeRequest i rid inst d)" "db_ok (markMined now h b d)"
    "db_ok (heartbeat now inst meta d)" "db_ok (recordBroadcast i now h rel n orid k g inst d)"
  using assms
  by (auto simp: db_ok_rows releaseScan_def completeRequest_def markMined_def heartbeat_def recordBroadcast_def
      rows_ok_filter map_update_where scan_pk_def ball_update_where scan_paired_def)

lemmas db_ok_ops = db_ok_commitScan db_ok_claimRequest db_ok_retryRequest db_ok_resolveNonce db_ok_claimScan
  db_ok_others

lemma db_ok_apply_op: "db_ok d \<Longrightarrow> db_ok (apply_op i now op d)"
  by (cases op) (simp_all add: db_ok_ops)

lemma db_ok_initialize: "db_ok d \<Longrightarrow> db_ok (fst (initialize i now d))"
  by (auto simp: db_ok_rows initialize_def Let_def scan_key_def scan_pk_def scan_paired_def)

lemma initialize_le: "store_le d (fst (initialize i now d))"
  by (simp add: store_le_def initialize_def Let_def)

interpretation store_runs: monotone_system store_step db_ok store_le
proof unfold_locales
  fix d d' assume "db_ok d" "store_step d d'"
  then show "db_ok d'" by (auto elim!: store_stepE simp: db_ok_apply_op db_ok_initialize)
next
  fix d d' assume "db_ok d" "store_step d d'"
  then show "store_le d d'" by (auto elim!: store_stepE simp: apply_op_le initialize_le)
qed (use store_le_refl store_le_trans in blast)+

text \<open>
  \<open>resolveNonce\<close> on the transactions that \<open>listUnresolvedTransactions\<close> lists for a relayer: those with the nonce and the
  mined one are gone and every other one is untouched; an unknown status is refused and changes nothing.
\<close>

lemma resolveNonce_open:
  "case resolveNonce i now relayer nonce status h b d of
     (d', Inl e) \<Rightarrow> d' = d \<and> status \<notin> {''dropped'', ''consumed'', ''replaced''}
   | (d', Inr _) \<Rightarrow> status \<in> {''dropped'', ''consumed'', ''replaced''} \<and>
       filter (unresolved i relayer) (transactions d') =
       filter (\<lambda>t. unresolved i relayer t \<and> tx_nonce t \<noteq> nonce \<and>
         (h = None \<or> h = Some [] \<or> h \<noteq> Some (tx_transaction_hash t))) (transactions d)"
proof -
  have "filter (unresolved i relayer) (update_where p g xs) =
      filter (\<lambda>t. unresolved i relayer t \<and> \<not> p t) xs" if "\<And>t. \<not> unresolved i relayer (g t)" for p g xs
    using that by (induction xs) (auto simp: update_where_def)
  note gone = this
  show ?thesis
  proof (cases "status \<in> {''dropped'', ''consumed'', ''replaced''}")
    case True
    then have u: "\<not> unresolved i relayer (t\<lparr>tx_status := status, tx_updated_at := now\<rparr>)"
      "\<not> unresolved i relayer (t\<lparr>tx_status := ''mined'', tx_block_number := b, tx_updated_at := now\<rparr>)" for t
      by (auto simp: unresolved_def)
    have "filter (\<lambda>t. unresolved i relayer t \<and> \<not> tx_transaction_hash t = h') (update_where
        (\<lambda>t. unresolved i relayer t \<and> tx_nonce t = nonce) (\<lambda>t. t\<lparr>tx_status := status, tx_updated_at := now\<rparr>) xs) =
      filter (\<lambda>t. unresolved i relayer t \<and> tx_nonce t \<noteq> nonce \<and> tx_transaction_hash t \<noteq> h') xs" for h' xs
      using u(1) by (induction xs) (auto simp: update_where_def)
    with True show ?thesis
      by (cases h) (auto simp: resolveNonce_def Let_def gone [OF u(1)] gone [OF u(2)] intro!: filter_cong)
  qed (simp add: resolveNonce_def)
qed

subsection \<open>Properties\<close>

text \<open>A concrete store for the witnesses: one operator, one scan row at block 100, one request.\<close>

definition sample_identity :: identity where
  "sample_identity = \<lparr>id_chainId = ''1'', id_coordinator = ''0xc'', id_keyHash = ''0xk'', id_deploymentBlock = 10\<rparr>"

definition sample_event :: "int \<Rightarrow> int \<Rightarrow> request_event" where
  "sample_event rid b = \<lparr>ev_requestId = rid, ev_preSeed = 5, ev_requestBlock = b, ev_expiresAtBlock = b + 50,
     ev_eventBlockNumber = b, ev_eventBlockHash = ''0xb'', ev_transactionHash = ''0xt''\<rparr>"

definition sample_db :: db where
  "sample_db = \<lparr>instances = [], scan_states = [\<lparr>sc_chain_id = ''1'', sc_coordinator = ''0xc'',
     sc_key_hash = ''0xk'', sc_deployment_block = 10, sc_next_block = 100, sc_lease_owner = Some ''a'',
     sc_lease_expires_at = Some 60, sc_updated_at = 0\<rparr>],
     request_rows = [new_request sample_identity 0 (sample_event 1 40), new_request sample_identity 0 (sample_event 2 90)],
     transactions = [], advisory_locks = []\<rparr>"

lemmas sample_store_defs = sample_identity_def sample_event_def sample_db_def new_request_def

text \<open>
  C6: Exclusive leases. Once \<open>claimRequest\<close> has handed a request to an operator, and as long as that operator does not complete or retry the
  request and no committed scan finalises it, no sequence of calls by any operators (scans, commits, other claims, completions
  and retries by other operators, journal writes), at times within the lease, lets a claim return the same
  request before the lease ends.
\<close>

theorem claimRequest_exclusive:
  assumes "claimRequest i now locked inst lease d = (d1, Inr (Some r))"
    and "\<forall>x \<in> set ops. respects_lease (rq_request_id r) inst (now + lease) x"
    and "t \<le> now + lease"
    and "claimRequest i t locked' inst' lease' (run_ops i d1 ops) = (d2, Inr (Some r'))"
  shows "rq_request_id r' \<noteq> rq_request_id r"
proof -
  have "lease_held i (rq_request_id r) inst (now + lease) (request_rows (run_ops i d1 ops))"
    using assms(1,2) by (intro lease_held_run claimRequest_lease_held)
  moreover have "claim_candidate i t locked' (request_rows (run_ops i d1 ops)) = Some r'"
    using assms(4) by (auto simp: claimRequest_def result_simps split: option.splits)
  ultimately show ?thesis using assms(3) by (auto dest: lease_held_claim)
qed

theorem claimRequest_exclusive_witness:
  "let (d1, _) = claimRequest sample_identity 5 (\<lambda>_. False) ''a'' 30 sample_db;
       d2 = run_ops sample_identity d1 [(6, CommitScan ''a'' 0 99 [] []), (7, CompleteRequest ''b'' 1)]
   in \<forall>d3 r. claimRequest sample_identity 20 (\<lambda>_. False) ''b'' 30 d2 = (d3, Inr (Some r)) \<longrightarrow> rq_request_id r \<noteq> 1"
proof -
  let ?r = "new_request sample_identity 0 (sample_event 1 40)"
  let ?c = "claimRequest sample_identity 5 (\<lambda>_. False) ''a'' 30 sample_db"
  have c: "?c = (fst ?c, Inr (Some ?r))" by code_simp
  have id: "rq_request_id ?r = 1" by (simp add: sample_event_def)
  have ops: "\<forall>x \<in> set [(6, CommitScan ''a'' 0 99 [] []), (7, CompleteRequest ''b'' 1)].
      respects_lease (rq_request_id ?r) ''a'' (5 + 30) x"
    by (simp add: id)
  show ?thesis
    using claimRequest_exclusive [OF c ops, of 20] c unfolding id by (auto simp: split_beta)
qed

text \<open>
  \<open>claimRequest\<close> serves the oldest request. It returns nothing, and changes nothing, exactly when
  every claimable request is locked by another session; otherwise the request it returns is claimable,
  is first in the order of request block and id among the unlocked claimable ones, and is leased
  to the caller until now plus the lease.
\<close>

theorem claimRequest_oldest:
  assumes "claimRequest i now locked inst lease d = (d', Inr res)"
  shows "case res of
      None \<Rightarrow> d' = d \<and> (\<forall>r \<in> set (request_rows d). request_claimable i now r \<longrightarrow> locked (rq_request_id r))
    | Some r \<Rightarrow> r \<in> set (request_rows d) \<and> request_claimable i now r \<and> \<not> locked (rq_request_id r) \<and>
        (\<forall>q \<in> set (request_rows d). request_claimable i now q \<longrightarrow> \<not> locked (rq_request_id q) \<longrightarrow>
          rq_request_block r < rq_request_block q \<or>
          rq_request_block r = rq_request_block q \<and> rq_request_id r \<le> rq_request_id q) \<and>
        lease_held i (rq_request_id r) inst (now + lease) (request_rows d')"
proof (cases res)
  case None
  then have "claim_candidate i now locked (request_rows d) = None"
    using assms by (auto simp: claimRequest_def result_simps split: option.splits)
  then show ?thesis
    using assms None claim_candidate_None [of i now locked "request_rows d"] by (simp add: claimRequest_def)
next
  case (Some r)
  then have "claim_candidate i now locked (request_rows d) = Some r"
    using assms by (auto simp: claimRequest_def result_simps split: option.splits)
  note c = claim_candidate_Some [OF this]
  show ?thesis
    using c(1-3) c(4) claimRequest_lease_held [of i now locked inst lease d d' r] assms Some
    by (simp add: less_eq_prod_def) (metis less_le_not_le linorder_le_cases order_antisym)
qed

text \<open>
  A committed scan leaves exactly the right requests pending: those already known whose event lies
  below the rescanned range, together with those the scan found, without those the scan saw
  finalised. A commit that fails (the lease was lost, or the stored cursor is unusable) changes nothing.
\<close>

theorem commitScan_pending:
  "case commitScan i now inst f t reqs fin d of
     (d', Inr _) \<Rightarrow> pending i (request_rows d') =
        pending_below i f (request_rows d) \<union> ev_requestId ` set reqs - set fin
   | (d', Inl _) \<Rightarrow> d' = d"
  by (auto split: prod.split sum.split elim: commitScan_Inr simp: pending_scanned dest: commitScan_Inl)

text \<open>
  C16: One round of scanning keeps the store in step with the chain. If the block range is larger than the
  reorganisation lookback, and the pending requests below the rescanned range are those of the chain
  that are not finalised, then after \<open>claimScan\<close> and \<open>commitScan\<close> with the events of the range, the
  pending requests are those of the chain up to the end of the range, and the cursor has moved past the old one.
\<close>

theorem scan_round_in_step:
  assumes "filter (scan_key i) (scan_states d) = [s]" "id_deploymentBlock i \<le> sc_next_block s"
    and "0 \<le> lookback" "lookback < rangeSize"
    and "claimScan i now inst latest rangeSize lookback lease d = (d1, Inr (Some (f, t)))"
    and "reqs = filter (\<lambda>e. f \<le> ev_eventBlockNumber e \<and> ev_eventBlockNumber e \<le> t) chain"
    and "commitScan i now' inst f t reqs fin d1 = (d2, Inr ())"
    and "pending_below i f (request_rows d) = ev_requestId ` set (filter (\<lambda>e. ev_eventBlockNumber e < f) chain) - done_ids"
    and "\<forall>e \<in> set reqs. ev_requestId e \<in> done_ids \<longrightarrow> ev_requestId e \<in> set fin"
  shows "pending i (request_rows d2) =
      ev_requestId ` set (filter (\<lambda>e. ev_eventBlockNumber e \<le> t) chain) - (done_ids \<union> set fin) \<and>
    (\<exists>s'. filter (scan_key i) (scan_states d2) = [s'] \<and> sc_next_block s' = t + 1 \<and>
      sc_next_block s < t + 1 \<and> t \<le> latest)"
proof -
  note cl = claimScan_Some [OF assms(5,1)]
  note b = scan_range_bounds [OF cl(2) assms(2) cl(1) assms(3)]
  have "f \<le> t" using b(2) b(4) [OF assms(4)] by linarith
  have "pending i (request_rows d2) = pending_below i f (request_rows d) \<union> ev_requestId ` set reqs - set fin"
    using assms(7) cl(3) by (auto elim!: commitScan_Inr simp: pending_scanned)
  also have "\<dots> = ev_requestId ` set (filter (\<lambda>e. ev_eventBlockNumber e \<le> t) chain) - (done_ids \<union> set fin)"
    using assms(9) \<open>f \<le> t\<close> unfolding assms(6,8) by fastforce
  finally show ?thesis
    using assms(7) cl(4) b(3) b(4) [OF assms(4)] by (auto elim!: commitScan_Inr)
qed

theorem scan_round_in_step_witness:
  "\<exists>d1 d2. claimScan sample_identity 5 ''a'' 100 60 20 30 sample_db = (d1, Inr (Some (80, 100))) \<and>
     commitScan sample_identity 6 ''a'' 80 100 [sample_event 2 90, sample_event 3 99] [2] d1 = (d2, Inr ()) \<and>
     pending sample_identity (request_rows d2) = {1, 3}"
proof -
  let ?chain = "[sample_event 1 40, sample_event 2 90, sample_event 3 99]"
  let ?c = "claimScan sample_identity 5 ''a'' 100 60 20 30 sample_db"
  let ?m = "commitScan sample_identity 6 ''a'' 80 100 [sample_event 2 90, sample_event 3 99] [2] (fst ?c)"
  have 1: "?c = (fst ?c, Inr (Some (80, 100)))" and 2: "?m = (fst ?m, Inr ())" by code_simp+
  have "pending sample_identity (request_rows (fst ?m)) =
      ev_requestId ` set (filter (\<lambda>e. ev_eventBlockNumber e \<le> 100) ?chain) - ({} \<union> set [2])"
    by (rule conjunct1, rule scan_round_in_step [OF _ _ _ _ 1 _ 2])
      (auto simp: sample_store_defs scan_key_def pending_below_def request_key_def)
  also have "\<dots> = {1, 3}" by (auto simp: sample_event_def)
  finally show ?thesis using 1 2 by blast
qed

text \<open>
  C19: Nothing relates the block range to the lookback. When the range is not larger than the lookback and the
  cursor is at least one range past the deployment block (nearer to it the cursor does move), a round of \<open>claimScan\<close> and \<open>commitScan\<close>
  leaves the cursor where it was, so the scan never gets further than that; and every stored request beyond the
  end of the range that the scan did not see is dropped, although its blocks were not scanned again.
\<close>

theorem scan_round_stalls:
  assumes "db_ok d" "filter (scan_key i) (scan_states d) = [s]"
    and "0 < rangeSize" "rangeSize \<le> lookback" "id_deploymentBlock i \<le> sc_next_block s - rangeSize"
    and "claimScan i now inst latest rangeSize lookback lease d = (d1, Inr (Some (f, t)))"
    and "commitScan i now' inst f t reqs fin d1 = (d2, Inr ())"
  shows "map sc_next_block (filter (scan_key i) (scan_states d2)) = [sc_next_block s] \<and>
    (\<forall>r \<in> set (request_rows d). request_key i r \<and> t < rq_event_block_number r \<and> rq_request_id r \<notin> ev_requestId ` set reqs \<longrightarrow>
      rq_request_id r \<notin> pending i (request_rows d2))"
proof -
  note cl = claimScan_Some [OF assms(6,2)]
  have b: "t < sc_next_block s" "f \<le> t"
    using cl(1,2) assms(3-5) by (auto simp: scan_range_def Let_def)
  have "rq_request_id r \<notin> pending_below i f (request_rows d)"
    if r: "r \<in> set (request_rows d)" "request_key i r" "t < rq_event_block_number r" for r
  proof -
    have "q = r" if "q \<in> set (request_rows d)" "request_key i q" "rq_request_id q = rq_request_id r" for q
      using that assms(1) r(1,2) unfolding db_ok_def
      by (auto simp: distinct_map inj_on_def request_pk_def request_key_def)
    then show ?thesis using b(2) r(3) by (auto simp: pending_below_def)
  qed
  moreover have "pending i (request_rows d2) = pending_below i f (request_rows d) \<union> ev_requestId ` set reqs - set fin"
    using assms(7) cl(3) by (auto elim!: commitScan_Inr simp: pending_scanned)
  moreover have "map sc_next_block (filter (scan_key i) (scan_states d2)) = [sc_next_block s]"
    using assms(7) cl(4) b(1) by (auto elim!: commitScan_Inr)
  ultimately show ?thesis by blast
qed

theorem scan_round_stalls_witness:
  "let (d1, _) = claimScan sample_identity 5 ''a'' 200 10 20 30 sample_db;
       (d2, _) = commitScan sample_identity 6 ''a'' 80 89 [] [] d1
   in map sc_next_block (filter (scan_key sample_identity) (scan_states d2)) = [100] \<and>
      2 \<notin> pending sample_identity (request_rows d2)"
proof -
  let ?c = "claimScan sample_identity 5 ''a'' 200 10 20 30 sample_db"
  let ?m = "commitScan sample_identity 6 ''a'' 80 89 [] [] (fst ?c)"
  let ?s = "hd (scan_states sample_db)"
  let ?r = "new_request sample_identity 0 (sample_event 2 90)"
  have 1: "?c = (fst ?c, Inr (Some (80, 89)))" and 2: "?m = (fst ?m, Inr ())" by code_simp+
  have 0: "db_ok sample_db" "filter (scan_key sample_identity) (scan_states sample_db) = [?s]" by code_simp+
  have r: "?r \<in> set (request_rows sample_db)" "request_key sample_identity ?r" "89 < rq_event_block_number ?r"
    "rq_request_id ?r \<notin> ev_requestId ` set []" "rq_request_id ?r = 2" "id_deploymentBlock sample_identity \<le> sc_next_block ?s - 10"
    by (simp_all add: sample_store_defs request_key_def)
  have "(0::int) < 10" "(10::int) \<le> 20" by simp_all
  from scan_round_stalls [OF 0 this r(6) 1 2] r(1-5)
  have "map sc_next_block (filter (scan_key sample_identity) (scan_states (fst ?m))) = [sc_next_block ?s] \<and>
      2 \<notin> pending sample_identity (request_rows (fst ?m))" by metis
  then show ?thesis by (simp add: split_beta sample_db_def)
qed

text \<open>
  C18: Along every run of the store, by any number of operators and identities, the primary keys of the
  four tables stay unique and the leases of requests and of scans stay paired with their expiry, no scan cursor ever
  moves back, no recorded broadcast is lost, its hash, chain, relayer, nonce, request, kind, price, instance and creation time never
  change, and a resolved transaction is never unresolved again.
\<close>

theorem store_run_invariant:
  assumes "store_step\<^sup>*\<^sup>* d d'" "db_ok d"
  shows "db_ok d' \<and> store_le d d'"
  using store_runs.reachable_inv [OF assms] store_runs.reachable_le [OF assms] by blast

theorem store_run_invariant_witness:
  "db_ok (apply_op sample_identity 6 (CommitScan ''a'' 80 120 [sample_event 3 99] []) sample_db) \<and>
   store_le sample_db (apply_op sample_identity 6 (CommitScan ''a'' 80 120 [sample_event 3 99] []) sample_db)"
proof (rule store_run_invariant)
  show "db_ok sample_db" by code_simp
qed (blast intro: store_step.intros)

text \<open>
  Only the holder of a lease can finish or postpone a request or commit a scan: for anybody else
  \<open>completeRequest\<close> and \<open>retryRequest\<close> change nothing, and \<open>commitScan\<close> fails and changes nothing.
\<close>

theorem lease_ownership:
  "((\<forall>r \<in> set (request_rows d). request_match i rid r \<longrightarrow> rq_lease_owner r \<noteq> Some inst) \<longrightarrow>
      completeRequest i rid inst d = d \<and> retryRequest i now rid inst err secs d = d) \<and>
   ((\<forall>s \<in> set (scan_states d). scan_key i s \<longrightarrow> sc_lease_owner s \<noteq> Some inst) \<longrightarrow>
      commitScan i now inst f t reqs fin d = (d, Inl ''scan lease was lost before commit''))"
proof (intro conjI impI)
  assume no: "\<forall>r \<in> set (request_rows d). request_match i rid r \<longrightarrow> rq_lease_owner r \<noteq> Some inst"
  then have "filter (\<lambda>r. \<not> (request_match i rid r \<and> rq_lease_owner r = Some inst)) (request_rows d) = request_rows d"
    by (auto simp: filter_id_conv)
  then show "completeRequest i rid inst d = d" by (simp add: completeRequest_def)
  have "update_where (\<lambda>r. request_match i rid r \<and> rq_lease_owner r = Some inst) g (request_rows d) = request_rows d" for g
    using no by (auto simp: update_where_def intro!: map_idI)
  then show "retryRequest i now rid inst err secs d = d" by (simp add: retryRequest_def)
next
  assume no: "\<forall>s \<in> set (scan_states d). scan_key i s \<longrightarrow> sc_lease_owner s \<noteq> Some inst"
  have "sc_lease_owner s \<noteq> Some inst" if "filter (scan_key i) (scan_states d) = [s]" for s
    using that no by (metis filter_eq_ConsD in_set_conv_decomp)
  then show "commitScan i now inst f t reqs fin d = (d, Inl ''scan lease was lost before commit'')"
    by (auto simp: commitScan_def split: list.splits)
qed

text \<open>
  The relayer's nonce lock is exclusive and is always given back. While the operation of
  one session runs, another session's attempt fails with \<open>RelayerNonceLeaseBusy\<close> without running its own
  operation; when the operation ends, returning, throwing or losing its session, the locks are as before.
\<close>

theorem withRelayerNonceLock_exclusive:
  assumes "hash (relayer_lock_name i relayer) \<notin> set (advisory_locks d)"
    and "\<And>e. advisory_locks (fst (op e)) = advisory_locks e"
  shows "advisory_locks (fst (withRelayerNonceLock hash i relayer op d)) = advisory_locks d \<and>
    snd (withRelayerNonceLock hash i relayer op d) =
      snd (snd (op (d\<lparr>advisory_locks := hash (relayer_lock_name i relayer) # advisory_locks d\<rparr>))) \<and>
    withRelayerNonceLock hash i relayer other
        (d\<lparr>advisory_locks := hash (relayer_lock_name i relayer) # advisory_locks d\<rparr>) =
      (d\<lparr>advisory_locks := hash (relayer_lock_name i relayer) # advisory_locks d\<rparr>, Inl ''RelayerNonceLeaseBusy'')"
proof -
  let ?d = "d\<lparr>advisory_locks := hash (relayer_lock_name i relayer) # advisory_locks d\<rparr>"
  obtain d' lost res where r: "op ?d = (d', lost, res)" by (cases "op ?d") auto
  then have "advisory_locks d' = hash (relayer_lock_name i relayer) # advisory_locks d"
    using assms(2) [of ?d] by simp
  with r assms(1) show ?thesis by (simp add: withRelayerNonceLock_def Let_def pg_advisory_unlock_def)
qed

end
