(* ===== verification/Modular.thy ===== *)
theory Modular
  imports Prelude
begin

section \<open>Modular inverses and Lagrange interpolation at zero\<close>

text \<open>
  The mathematics the threshold signature code and the ECVRF prover share. The locale
  \<open>modular_inverse\<close> is the contract of a routine that inverts modulo \<open>m\<close>; it is interpreted
  on both implementations of the repository (\<open>invert\<close> of operator/threshold-crypto.mjs and
  \<open>modInverse\<close> of operator/proof.mjs). The second part proves that the Lagrange weights at zero
  of a set of points recover the constant coefficient of every polynomial with at most as many
  coefficients as there are points, in any field of integers modulo \<open>r\<close>.
\<close>

subsection \<open>The contract of a modular inversion routine\<close>

locale modular_inverse =
  fixes inv_mod :: "int \<Rightarrow> int \<Rightarrow> int result"
  assumes inverts: "1 < m \<Longrightarrow> coprime v m \<Longrightarrow>
    \<exists>x. inv_mod m v = Inr x \<and> 0 \<le> x \<and> x < m \<and> eqm m (x * v) 1"
begin

lemma inverse_unique:
  assumes "1 < m" and "coprime v m" and "eqm m (y * v) 1"
  shows "inv_mod m v = Inr (y mod m)"
proof -
  obtain x where x: "inv_mod m v = Inr x" "0 \<le> x" "x < m" "eqm m (x * v) 1"
    using inverts assms(1,2) by blast
  then have "eqm m (x * v) (y * v)" using assms(3) by (blast intro: eqm_trans eqm_sym)
  then have "eqm m x y" using assms(2) by (metis eqm_cancel)
  then show ?thesis using x by (simp add: eqm_mod)
qed

lemma inverse_respects:
  assumes "1 < m" and "coprime v m" and "eqm m v w"
  shows "inv_mod m w = inv_mod m v"
proof -
  have w: "coprime w m" using assms by (metis coprime_mod_left_iff eqm_mod gr_implies_not_zero
        order_less_trans zero_less_one less_numeral_extra(3))
  obtain x where x: "inv_mod m v = Inr x" "0 \<le> x" "x < m" "eqm m (x * v) 1"
    using inverts assms(1,2) by blast
  have "eqm m (x * w) 1"
    using x(4) assms(3) by (blast intro: eqm_trans eqm_sym eqm_mult eqm_refl)
  then have "inv_mod m w = Inr (x mod m)" by (rule inverse_unique [OF assms(1) w])
  then show ?thesis using x by simp
qed

lemma quotient:
  assumes "1 < m" and "coprime v m" and "inv_mod m v = Inr x"
  shows "eqm m (n * x * v) n"
proof -
  have "eqm m (x * v) 1" using inverts [OF assms(1,2)] assms(3) by auto
  then have "eqm m (n * (x * v)) (n * 1)" by (blast intro: eqm_mult)
  then show ?thesis by (simp add: mult.assoc)
qed

end

subsection \<open>Lagrange weights at zero\<close>

text \<open>
  \<open>lagrange_weights r S W\<close>: the number \<open>W i\<close> is a quotient of the product of the other points
  by the product of their differences to \<open>i\<close>, modulo \<open>r\<close>.
\<close>

definition lagrange_weights :: "int \<Rightarrow> int set \<Rightarrow> (int \<Rightarrow> int) \<Rightarrow> bool" where
  "lagrange_weights r S W \<longleftrightarrow>
     (\<forall>i \<in> S. eqm r (W i * (\<Prod>j \<in> S - {i}. j - i)) (\<Prod>j \<in> S - {i}. j))"

definition distinct_points :: "int \<Rightarrow> int set \<Rightarrow> bool" where
  "distinct_points r S \<longleftrightarrow> finite S \<and> (\<forall>i \<in> S. \<forall>j \<in> S. i \<noteq> j \<longrightarrow> coprime (j - i) r)"

lemma distinct_points_sub: "distinct_points r S \<Longrightarrow> T \<subseteq> S \<Longrightarrow> distinct_points r T"
  by (auto simp: distinct_points_def intro: finite_subset)

lemma distinct_points_prod:
  "distinct_points r S \<Longrightarrow> i \<in> S \<Longrightarrow> coprime (\<Prod>j \<in> S - {i}. j - i) r"
  unfolding distinct_points_def by (intro prod_coprime_left) auto

lemma lagrange_weights_exist:
  assumes "distinct_points r S" and "1 < r"
  shows "\<exists>W. lagrange_weights r S W"
proof -
  have "\<exists>w. eqm r (w * (\<Prod>j \<in> S - {i}. j - i)) (\<Prod>j \<in> S - {i}. j)" if "i \<in> S" for i
  proof -
    let ?d = "\<Prod>j \<in> S - {i}. j - i" and ?n = "\<Prod>j \<in> S - {i}. j"
    have "coprime ?d r" using assms(1) that by (rule distinct_points_prod)
    then obtain u v where "u * ?d + v * r = 1"
      by (metis bezout_int coprime_imp_gcd_eq_1)
    then have "?n * u * ?d - ?n = - (?n * v * r)" by algebra
    then have "r dvd ?n * u * ?d - ?n" by simp
    then show ?thesis unfolding eqm_def by blast
  qed
  then have "\<forall>i \<in> S. \<exists>w. eqm r (w * (\<Prod>j \<in> S - {i}. j - i)) (\<Prod>j \<in> S - {i}. j)" by blast
  then show ?thesis unfolding lagrange_weights_def by (rule bchoice)
qed

text \<open>Removing the point \<open>a\<close> multiplies each remaining weight by \<open>(a - i) / a\<close>.\<close>

lemma lagrange_weights_remove:
  assumes S: "distinct_points r S" and a: "a \<in> S" and i: "i \<in> S" "i \<noteq> a"
    and W: "lagrange_weights r S W" and V: "lagrange_weights r (S - {a}) V"
  shows "eqm r (W i * (a - i)) (a * V i)"
proof -
  let ?T = "S - {a} - {i}"
  have fin: "finite S" using S by (simp add: distinct_points_def)
  have split: "S - {i} = insert a ?T" "a \<notin> ?T" using a i by auto
  have d: "(\<Prod>j \<in> S - {i}. j - i) = (a - i) * (\<Prod>j \<in> ?T. j - i)"
    and n: "(\<Prod>j \<in> S - {i}. j) = a * (\<Prod>j \<in> ?T. j)"
    using split fin by (simp_all add: split(1))
  have "eqm r (W i * ((a - i) * (\<Prod>j \<in> ?T. j - i))) (a * (\<Prod>j \<in> ?T. j))"
    using W i(1) d n unfolding lagrange_weights_def by metis
  moreover have "eqm r (V i * (\<Prod>j \<in> ?T. j - i)) (\<Prod>j \<in> ?T. j)"
    using V i unfolding lagrange_weights_def by blast
  ultimately have "eqm r (W i * ((a - i) * (\<Prod>j \<in> ?T. j - i))) (a * (V i * (\<Prod>j \<in> ?T. j - i)))"
    by (blast intro: eqm_trans eqm_sym eqm_mult)
  then have "eqm r (W i * (a - i) * (\<Prod>j \<in> ?T. j - i)) (a * V i * (\<Prod>j \<in> ?T. j - i))"
    by (simp add: mult.assoc)
  moreover have "coprime (\<Prod>j \<in> ?T. j - i) r"
    using S i by (intro distinct_points_prod [OF distinct_points_sub]) auto
  ultimately show ?thesis by (metis eqm_cancel)
qed

text \<open>The weighted sum of \<open>(a - i) q(i)\<close> over \<open>S\<close> is \<open>a\<close> times that of \<open>q\<close> over \<open>S - {a}\<close>.\<close>

lemma lagrange_sum_shift:
  assumes "distinct_points r S" "a \<in> S" "lagrange_weights r S W" "lagrange_weights r (S - {a}) V"
  shows "eqm r (\<Sum>i \<in> S. W i * ((a - i) * q i)) (a * (\<Sum>i \<in> S - {a}. V i * q i))"
proof -
  have fin: "finite S" using assms(1) by (simp add: distinct_points_def)
  have "(\<Sum>i \<in> S. W i * ((a - i) * q i)) = (\<Sum>i \<in> S - {a}. W i * ((a - i) * q i))"
    using fin assms(2) by (simp add: sum.remove)
  also have "eqm r \<dots> (\<Sum>i \<in> S - {a}. a * (V i * q i))"
  proof (rule eqm_sum)
    fix i assume "i \<in> S - {a}"
    then have "eqm r (W i * (a - i)) (a * V i)"
      using assms by (intro lagrange_weights_remove) auto
    then have "eqm r (W i * (a - i) * q i) (a * V i * q i)" by (blast intro: eqm_mult)
    then show "eqm r (W i * ((a - i) * q i)) (a * (V i * q i))" by (simp add: mult.assoc)
  qed
  also have "(\<Sum>i \<in> S - {a}. a * (V i * q i)) = a * (\<Sum>i \<in> S - {a}. V i * q i)"
    by (simp add: sum_distrib_left)
  finally show ?thesis .
qed

lemma lagrange_sum_one:
  assumes "distinct_points r S" "S \<noteq> {}" "lagrange_weights r S W" "1 < r"
  shows "eqm r (\<Sum>i \<in> S. W i) 1"
  using assms
proof (induction "card S" arbitrary: S W)
  case 0
  then show ?case by (auto simp: distinct_points_def)
next
  case (Suc n)
  have fin: "finite S" using Suc.prems(1) by (simp add: distinct_points_def)
  show ?case
  proof (cases "n = 0")
    case True
    then obtain a where "S = {a}" using Suc.hyps(2) by (metis One_nat_def card_1_singletonE)
    then show ?thesis using Suc.prems(3) by (auto simp: lagrange_weights_def)
  next
    case False
    obtain a where a: "a \<in> S" using Suc.prems(2) by blast
    have "S - {a} \<noteq> {}" using False Suc.hyps(2) fin a by (metis card_Diff_singleton card.empty diff_Suc_1)
    then obtain b where b: "b \<in> S" "b \<noteq> a" by blast
    have one: "\<exists>V. lagrange_weights r (S - {c}) V \<and> eqm r (\<Sum>i \<in> S - {c}. V i) 1" if c: "c \<in> S" for c
    proof -
      have d: "distinct_points r (S - {c})" using Suc.prems(1) by (blast intro: distinct_points_sub)
      obtain V where V: "lagrange_weights r (S - {c}) V"
        using lagrange_weights_exist [OF d Suc.prems(4)] by blast
      have n: "n = card (S - {c})" using Suc.hyps(2) fin c by simp
      moreover have "S - {c} \<noteq> {}" using n False by (metis card.empty)
      ultimately have "eqm r (\<Sum>i \<in> S - {c}. V i) 1" using Suc.hyps(1) d V Suc.prems(4) by blast
      with V show ?thesis by blast
    qed
    have sh: "eqm r (\<Sum>i \<in> S. W i * (c - i)) c" if "c \<in> S" for c
    proof -
      from one [OF that] obtain V where V: "lagrange_weights r (S - {c}) V"
        "eqm r (\<Sum>i \<in> S - {c}. V i) 1" by blast
      have "eqm r (\<Sum>i \<in> S. W i * (c - i)) (c * (\<Sum>i \<in> S - {c}. V i))"
        using lagrange_sum_shift [OF Suc.prems(1) that Suc.prems(3) V(1), of "\<lambda>_. 1"] by simp
      moreover have "eqm r (c * (\<Sum>i \<in> S - {c}. V i)) (c * 1)" using V(2) by (blast intro: eqm_mult)
      ultimately show ?thesis by (metis eqm_trans mult.right_neutral)
    qed
    have "(\<Sum>i \<in> S. W i * (b - i)) - (\<Sum>i \<in> S. W i * (a - i)) = (\<Sum>i \<in> S. W i) * (b - a)"
      by (simp add: right_diff_distrib sum_subtractf sum_distrib_right)
    then have "eqm r ((\<Sum>i \<in> S. W i) * (b - a)) (1 * (b - a))"
      using eqm_diff [OF sh [OF b(1)] sh [OF a]] by simp
    moreover have "coprime (b - a) r" using Suc.prems(1) a b by (auto simp: distinct_points_def)
    ultimately show ?thesis by (metis eqm_cancel)
  qed
qed

text \<open>Interpolation at zero: a polynomial with at most \<open>card S\<close> coefficients is determined.\<close>

theorem lagrange_interpolation:
  assumes "distinct_points r S" "lagrange_weights r S W" "1 < r" "length cs \<le> card S"
  shows "eqm r (\<Sum>i \<in> S. W i * peval cs i) (peval cs 0)"
  using assms
proof (induction "card S" arbitrary: S W cs)
  case 0
  then show ?case by (auto simp: distinct_points_def)
next
  case (Suc n)
  then obtain a where a: "a \<in> S" by (metis card.empty equals0I nat.distinct(1))
  have fin: "finite S" using Suc.prems(1) by (simp add: distinct_points_def)
  let ?q = "pdiv cs a"
  have d: "distinct_points r (S - {a})" using Suc.prems(1) by (blast intro: distinct_points_sub)
  obtain V where V: "lagrange_weights r (S - {a}) V"
    using lagrange_weights_exist [OF d Suc.prems(3)] by blast
  have "eqm r (\<Sum>i \<in> S - {a}. V i * peval ?q i) (peval ?q 0)"
    using Suc.hyps d V Suc.prems(3,4) a fin by (intro Suc.hyps(1)) auto
  then have "eqm r (a * (\<Sum>i \<in> S - {a}. V i * peval ?q i)) (a * peval ?q 0)"
    by (blast intro: eqm_mult)
  then have shift: "eqm r (\<Sum>i \<in> S. W i * ((a - i) * peval ?q i)) (a * peval ?q 0)"
    using lagrange_sum_shift [OF Suc.prems(1) a Suc.prems(2) V] by (blast intro: eqm_trans)
  have one: "eqm r (\<Sum>i \<in> S. W i) 1"
    using lagrange_sum_one Suc.prems a by blast
  have term_eq: "W i * peval cs i = peval cs a * W i - W i * ((a - i) * peval ?q i)" for i
    by (subst peval_pdiv [of cs i a]) (simp add: algebra_simps)
  have "(\<Sum>i \<in> S. W i * peval cs i)
      = peval cs a * (\<Sum>i \<in> S. W i) - (\<Sum>i \<in> S. W i * ((a - i) * peval ?q i))"
    by (simp add: term_eq sum_subtractf sum_distrib_left)
  also have "eqm r \<dots> (peval cs a * 1 - a * peval ?q 0)"
    using one shift by (blast intro: eqm_diff eqm_mult)
  also have "peval cs a * 1 - a * peval ?q 0 = peval cs 0"
    using peval_pdiv [of cs 0 a] by simp
  finally show ?case .
qed

lemma distinct_points_range:
  assumes "field_modulus r" "finite S" "\<And>i. i \<in> S \<Longrightarrow> 0 \<le> i \<and> i < r"
  shows "distinct_points r S"
  unfolding distinct_points_def
proof (intro conjI ballI impI)
  fix i j assume "i \<in> S" "j \<in> S" "i \<noteq> j"
  with assms have "\<not> r dvd j - i" by (metis mod_eq_dvd_iff mod_pos_pos_trivial)
  then show "coprime (j - i) r"
    using assms(1) by (auto intro: field_modulus_coprime simp: dvd_eq_mod_eq_0)
qed (fact assms(2))

end
