(* ===== verification/External.thy ===== *)
theory External
  imports Prelude
begin

section \<open>Third-party libraries as parameters\<close>

text \<open>
  The repository calls ethers and @noble/curves, whose sources it does not contain. Each call is
  an operation of one of the records below, passed as an argument to the definitions that use it.
  What the code relies on is stated as a named predicate over such a record, taken from the
  libraries' documented behaviour: hex encoding is a bijection up to case, the BLS12-381 groups
  are cyclic of prime order \<open>r\<close> with canonical encodings, \<open>multiply\<close> accepts the scalars
  \<open>1 .. r - 1\<close>, and the pairing is bilinear. Points are taken up to projective equality, so the
  library's \<open>equals\<close> is equality.
\<close>

subsection \<open>Hex strings and hashes (ethers)\<close>

record ethers =
  getBytes :: "string \<Rightarrow> bytes result"
  hexlify :: "bytes \<Rightarrow> string"
  keccak256 :: "bytes \<Rightarrow> string"
  toUtf8Bytes :: "string \<Rightarrow> bytes"
  isHexString :: "string \<Rightarrow> nat \<Rightarrow> bool"
  getAddress :: "string \<Rightarrow> string result"
  encodeBytes32Pair :: "string \<Rightarrow> string \<Rightarrow> bytes"
  encodeBytesPair :: "string \<Rightarrow> string \<Rightarrow> string"

definition hex_codec :: "ethers \<Rightarrow> bool" where
  "hex_codec E \<longleftrightarrow> (\<forall>b. getBytes E (hexlify E b) = Inr b) \<and>
     (\<forall>a b. toLowerCase (hexlify E a) = toLowerCase (hexlify E b) \<longrightarrow> a = b)"

text \<open>A wire value is a byte array or a hex string.\<close>

datatype wire = Uint8Array bytes | HexString string

subsection \<open>Curves and the pairing (@noble/curves)\<close>

record 'p curve =
  ZERO :: 'p
  BASE :: 'p
  add_pt :: "'p \<Rightarrow> 'p \<Rightarrow> 'p"
  multiply :: "'p \<Rightarrow> int \<Rightarrow> 'p result"
  fromHex :: "bytes \<Rightarrow> 'p result"
  assertValidity :: "'p \<Rightarrow> unit result"
  toRawBytes :: "'p \<Rightarrow> bytes"

text \<open>
  \<open>prime_order_group r n G ex\<close>: \<open>ex k\<close> is the \<open>k\<close>-fold multiple of the generator; encodings
  have \<open>n\<close> bytes, decode to the point they encode, and every point that decodes and passes the
  library's validity check lies in the subgroup.
\<close>

definition prime_order_group :: "int \<Rightarrow> nat \<Rightarrow> 'p curve \<Rightarrow> (int \<Rightarrow> 'p) \<Rightarrow> bool" where
  "prime_order_group r n G ex \<longleftrightarrow>
     ZERO G = ex 0 \<and> BASE G = ex 1 \<and>
     (\<forall>a b. add_pt G (ex a) (ex b) = ex (a + b)) \<and>
     (\<forall>a k. 0 < k \<longrightarrow> k < r \<longrightarrow> multiply G (ex a) k = Inr (ex (a * k))) \<and>
     (\<forall>a b. ex a = ex b \<longleftrightarrow> eqm r a b) \<and>
     (\<forall>a. length (toRawBytes G (ex a)) = n \<and> fromHex G (toRawBytes G (ex a)) = Inr (ex a) \<and>
        assertValidity G (ex a) = Inr ()) \<and>
     (\<forall>b p. fromHex G b = Inr p \<longrightarrow> assertValidity G p = Inr () \<longrightarrow> (\<exists>a. p = ex a))"

lemma prime_order_groupD:
  assumes "prime_order_group r n G ex"
  shows "ZERO G = ex 0" "BASE G = ex 1" "add_pt G (ex a) (ex b) = ex (a + b)"
    "0 < k \<Longrightarrow> k < r \<Longrightarrow> multiply G (ex a) k = Inr (ex (a * k))"
    "ex a = ex b \<longleftrightarrow> eqm r a b"
    "length (toRawBytes G (ex a)) = n" "fromHex G (toRawBytes G (ex a)) = Inr (ex a)"
    "assertValidity G (ex a) = Inr ()"
    "fromHex G bs = Inr p \<Longrightarrow> assertValidity G p = Inr () \<Longrightarrow> \<exists>c. p = ex c"
  using assms unfolding prime_order_group_def by blast+

record ('p, 'q, 't) bls =
  G1 :: "'p curve"
  G2 :: "'q curve"
  params_r :: int
  hashToCurve :: "bytes \<Rightarrow> string \<Rightarrow> 'p result"
  pairing :: "'p \<Rightarrow> 'q \<Rightarrow> 't result"
  Fp12_eql :: "'t \<Rightarrow> 't \<Rightarrow> bool"

definition bilinear :: "('p, 'q, 't) bls \<Rightarrow> (int \<Rightarrow> 'p) \<Rightarrow> (int \<Rightarrow> 'q) \<Rightarrow> (int \<Rightarrow> 't) \<Rightarrow> bool" where
  "bilinear B ex1 ex2 exT \<longleftrightarrow>
     (\<forall>a b. \<not> eqm (params_r B) a 0 \<longrightarrow> \<not> eqm (params_r B) b 0 \<longrightarrow>
        pairing B (ex1 a) (ex2 b) = Inr (exT (a * b))) \<and>
     (\<forall>x y. Fp12_eql B (exT x) (exT y) \<longleftrightarrow> eqm (params_r B) x y)"

lemma bilinearD:
  assumes "bilinear B ex1 ex2 exT"
  shows "\<not> eqm (params_r B) a 0 \<Longrightarrow> \<not> eqm (params_r B) b 0 \<Longrightarrow>
      pairing B (ex1 a) (ex2 b) = Inr (exT (a * b))"
    "Fp12_eql B (exT x) (exT y) \<longleftrightarrow> eqm (params_r B) x y"
  using assms unfolding bilinear_def by blast+

text \<open>The laws a BLS12-381 library satisfies, for the encodings of 96 and 192 bytes.\<close>

definition bls_laws ::
  "('p, 'q, 't) bls \<Rightarrow> (int \<Rightarrow> 'p) \<Rightarrow> (int \<Rightarrow> 'q) \<Rightarrow> (int \<Rightarrow> 't) \<Rightarrow> bool" where
  "bls_laws B ex1 ex2 exT \<longleftrightarrow> field_modulus (params_r B) \<and>
     prime_order_group (params_r B) 96 (G1 B) ex1 \<and>
     prime_order_group (params_r B) 192 (G2 B) ex2 \<and> bilinear B ex1 ex2 exT"

lemma bls_lawsD:
  assumes "bls_laws B ex1 ex2 exT"
  shows "field_modulus (params_r B)" "prime_order_group (params_r B) 96 (G1 B) ex1"
    "prime_order_group (params_r B) 192 (G2 B) ex2" "bilinear B ex1 ex2 exT"
  using assms by (simp_all add: bls_laws_def)

subsection \<open>The Node.js runtime\<close>

text \<open>
  Ed25519 keys and the parsed parts of a URL, as Node.js provides them. \<open>signs_for\<close> tells that
  a private key belongs to the raw public key that the code wraps in the SPKI prefix.
\<close>

record url =
  url_protocol :: string
  url_hostname :: string
  url_username :: string
  url_password :: string
  url_hash :: string
  url_href :: string
  url_origin :: string

record 'k node =
  createPublicKey :: "bytes \<Rightarrow> 'k result"
  ed_verify :: "bytes \<Rightarrow> 'k \<Rightarrow> bytes \<Rightarrow> bool"
  ed_sign :: "bytes \<Rightarrow> 'k \<Rightarrow> bytes"
  parseUrl :: "string \<Rightarrow> url result"

subsection \<open>A concrete instance\<close>

text \<open>
  The hypotheses above can hold together: the additive group of the integers modulo 7 in both
  places, with zero-padded encodings, is an instance. The witnesses of the development's
  theorems evaluate on it.
\<close>

definition hexDigit :: "nat \<Rightarrow> char" where
  "hexDigit n = (if n < 10 then char_of (48 + n) else char_of (87 + n))"

definition hexValue :: "char \<Rightarrow> nat option" where
  "hexValue c = (let n = (of_char c :: nat) in
     if 48 \<le> n \<and> n \<le> 57 then Some (n - 48)
     else if 65 \<le> n \<and> n \<le> 70 then Some (n - 55)
     else if 97 \<le> n \<and> n \<le> 102 then Some (n - 87) else None)"

fun hexPairs :: "string \<Rightarrow> bytes result" where
  "hexPairs [] = Inr []"
| "hexPairs [c] = Inl ''odd length''"
| "hexPairs (c # d # cs) = (case (hexValue c, hexValue d) of
     (Some a, Some b) \<Rightarrow> bindR (hexPairs cs) (\<lambda>bs. Inr (of_nat (16 * a + b) # bs))
   | _ \<Rightarrow> Inl ''not a hex digit'')"

definition hexByte :: "byte \<Rightarrow> string" where
  "hexByte b = [hexDigit (unat b div 16), hexDigit (unat b mod 16)]"

definition sample_getBytes :: "string \<Rightarrow> bytes result" where
  "sample_getBytes s = (case s of c # d # cs \<Rightarrow> (if c = CHR ''0'' \<and> d = CHR ''x'' then hexPairs cs
     else Inl ''no hex prefix'') | _ \<Rightarrow> Inl ''no hex prefix'')"

definition sample_hexlify :: "bytes \<Rightarrow> string" where
  "sample_hexlify bs = ''0x'' @ concat (map hexByte bs)"

definition sample_ethers :: ethers where
  "sample_ethers = \<lparr>getBytes = sample_getBytes, hexlify = sample_hexlify,
     keccak256 = (\<lambda>b. sample_hexlify (replicate 31 1 @ [of_nat (length b mod 256)])),
     toUtf8Bytes = map (\<lambda>c. of_nat (of_char c)),
     isHexString = (\<lambda>s n. isOk (sample_getBytes s) \<and> length s = 2 * n + 2),
     getAddress = (\<lambda>s. if isOk (sample_getBytes s) \<and> length s = 42 then Inr s else Inl ''invalid address''),
     encodeBytes32Pair = (\<lambda>a b. map (\<lambda>c. of_nat (of_char c)) (a @ b)),
     encodeBytesPair = (@)\<rparr>"

definition sample_group :: "nat \<Rightarrow> int curve" where
  "sample_group n = \<lparr>ZERO = 0, BASE = 1, add_pt = (\<lambda>a b. (a + b) mod 7),
     multiply = (\<lambda>a k. if 0 < k \<and> k < 7 then Inr ((a * k) mod 7) else Inl ''invalid scalar''),
     fromHex = (\<lambda>bs. if length bs = n \<and> tl (butlast bs) = replicate (n - 2) 0 \<and> uint (last bs) < 7 \<and>
          hd bs = (if last bs = 0 then 64 else 0)
        then Inr (uint (last bs)) else Inl ''bad point''),
     assertValidity = (\<lambda>a. if 0 \<le> a \<and> a < 7 then Inr () else Inl ''bad point''),
     toRawBytes = (\<lambda>a. (if a = 0 then 64 else 0) # replicate (n - 2) 0 @ [of_int a])\<rparr>"

definition sample_bls :: "(int, int, int) bls" where
  "sample_bls = \<lparr>G1 = sample_group 96, G2 = sample_group 192, params_r = 7,
     hashToCurve = (\<lambda>bs dst. Inr (1 + int (length bs) mod 6)),
     pairing = (\<lambda>a b. if a = 0 \<or> b = 0 then Inl ''zero point'' else Inr ((a * b) mod 7)),
     Fp12_eql = (=)\<rparr>"

definition sample_ex :: "int \<Rightarrow> int" where
  "sample_ex a = a mod 7"

lemma hexValue_hexDigit: "n < 16 \<Longrightarrow> hexValue (hexDigit n) = Some n"
  by (auto simp: hexValue_def hexDigit_def Let_def)

lemma toLowerChar_hexDigit: "n < 16 \<Longrightarrow> toLowerChar (hexDigit n) = hexDigit n"
  by (auto simp: toLowerChar_def hexDigit_def Let_def)

lemma unat_byte_bounds: "unat (b :: byte) div 16 < 16" "unat (b :: byte) mod 16 < 16"
  using unsigned_less [of b, where ?'a = nat] by (simp_all add: less_mult_imp_div_less)

lemma hexPairs_hexByte: "hexPairs (concat (map hexByte bs)) = Inr bs"
proof (induction bs)
  case (Cons b bs)
  have "of_nat (16 * (unat b div 16) + unat b mod 16) = b" by simp
  with Cons show ?case
    by (simp add: hexByte_def hexValue_hexDigit unat_byte_bounds)
qed simp

lemma sample_hexlify_lower: "toLowerCase (sample_hexlify bs) = sample_hexlify bs"
proof -
  have "map toLowerChar (concat (map hexByte bs)) = concat (map hexByte bs)"
    by (induction bs) (simp_all add: hexByte_def toLowerChar_hexDigit unat_byte_bounds)
  then show ?thesis by (simp add: toLowerCase_def sample_hexlify_def toLowerChar_def)
qed

lemma sample_getBytes_hexlify: "sample_getBytes (sample_hexlify bs) = Inr bs"
  by (simp add: sample_getBytes_def sample_hexlify_def hexPairs_hexByte)

lemma sample_hex_codec [simp]: "hex_codec sample_ethers"
proof -
  have "a = b" if "sample_hexlify a = sample_hexlify b" for a b
    using that sample_getBytes_hexlify by (metis sum.inject(2))
  then show ?thesis
    by (simp add: hex_codec_def sample_ethers_def sample_getBytes_hexlify sample_hexlify_lower)
qed

lemma field_modulus_7: "field_modulus 7"
proof -
  have "coprime k 7" if "0 < k" "k < 7" for k :: int
  proof -
    from that have "k \<in> {1, 2, 3, 4, 5, 6}" by auto
    then show ?thesis by (auto simp: coprime_iff_gcd_eq_1 gcd_non_0_int)
  qed
  then show ?thesis by (simp add: field_modulus_def)
qed

lemma uint_of_int_small: "0 \<le> k \<Longrightarrow> k < 7 \<Longrightarrow> uint (word_of_int k :: byte) = k"
  by (simp add: uint_word_of_int)

lemma sample_prime_order_group:
  assumes "2 \<le> n" shows "prime_order_group 7 n (sample_group n) sample_ex"
  unfolding prime_order_group_def
proof (intro conjI allI impI)
  show "ZERO (sample_group n) = sample_ex 0" "BASE (sample_group n) = sample_ex 1"
    by (simp_all add: sample_group_def sample_ex_def)
  show "add_pt (sample_group n) (sample_ex a) (sample_ex b) = sample_ex (a + b)" for a b
    by (simp add: sample_group_def sample_ex_def mod_add_eq)
  show "multiply (sample_group n) (sample_ex a) k = Inr (sample_ex (a * k))" if "0 < k" "k < 7" for a k
    using that by (simp add: sample_group_def sample_ex_def mod_mult_left_eq)
  show "sample_ex a = sample_ex b \<longleftrightarrow> eqm 7 a b" for a b
    by (simp add: sample_ex_def eqm_mod)
  show "length (toRawBytes (sample_group n) (sample_ex a)) = n" for a
    using assms by (simp add: sample_group_def)
  show "fromHex (sample_group n) (toRawBytes (sample_group n) (sample_ex a)) = Inr (sample_ex a)" for a
    using assms uint_of_int_small [of "a mod 7"]
    by (auto simp: sample_group_def sample_ex_def butlast_append)
  show "assertValidity (sample_group n) (sample_ex a) = Inr ()" for a
    by (simp add: sample_group_def sample_ex_def)
  show "\<exists>a. p = sample_ex a"
    if "assertValidity (sample_group n) p = Inr ()" for b p
    using that by (intro exI [of _ p]) (auto simp: sample_group_def sample_ex_def split: if_splits)
qed

lemma sample_bls_laws: "bls_laws sample_bls sample_ex sample_ex sample_ex"
proof -
  have "bilinear sample_bls sample_ex sample_ex sample_ex"
    by (simp add: bilinear_def sample_bls_def sample_ex_def eqm_mod mod_mult_eq)
  then show ?thesis
    using sample_prime_order_group [of 96] sample_prime_order_group [of 192]
    by (simp add: bls_laws_def field_modulus_7 sample_bls_def)
qed

end
