(* ===== verification/Threshold_Crypto.thy ===== *)
theory Threshold_Crypto
  imports Modular External
begin

section \<open>Threshold BLS arithmetic (operator/threshold-crypto.mjs)\<close>

text \<open>
  Every function of operator/threshold-crypto.mjs: the scalar field operations (reduction,
  inversion by the extended Euclidean loop, the Lagrange coefficient at zero), the parsing of
  wire points, partial and aggregate signature verification, the public check of a share against
  the published polynomial commitments, and the aggregation of threshold shares. The scalar
  order is the library's \<open>bls.params.r\<close>, a parameter. Indexes and secret shares are taken after
  \<open>BigInt(...)\<close>, that is, as integers.
\<close>

subsection \<open>Definitions\<close>

definition BLS_DST :: string where
  "BLS_DST = ''BLS_SIG_BLS12381G1_XMD:SHA-256_SSWU_RO_NUL_''"

definition bytesFor :: "ethers \<Rightarrow> wire \<Rightarrow> string \<Rightarrow> bytes result" where
  "bytesFor E value name = (case value of
     Uint8Array b \<Rightarrow> Inr b
   | HexString s \<Rightarrow> (case getBytes E s of
       Inr b \<Rightarrow> Inr b
     | Inl _ \<Rightarrow> Inl (name @ '' must be hex bytes'')))"

text \<open>The body of the \<open>try\<close> block of \<open>pointFor\<close>, then the function with its \<open>catch\<close>.\<close>

definition pointFor_try :: "ethers \<Rightarrow> 'p curve \<Rightarrow> bytes \<Rightarrow> string \<Rightarrow> bool \<Rightarrow> 'p result" where
  "pointFor_try E grp bytes name allowInfinity =
     bindR (fromHex grp bytes) (\<lambda>point.
     bindR (assertValidity grp point) (\<lambda>_.
     if toLowerCase (hexlify E (toRawBytes grp point)) \<noteq> toLowerCase (hexlify E bytes)
     then Inl (name @ '' must use canonical uncompressed encoding'')
     else if \<not> allowInfinity \<and> point = ZERO grp
     then Inl (name @ '' cannot be the point at infinity'')
     else Inr point))"

definition pointFor ::
  "ethers \<Rightarrow> 'p curve \<Rightarrow> nat \<Rightarrow> wire \<Rightarrow> string \<Rightarrow> bool \<Rightarrow> 'p result" where
  "pointFor E grp expectedLength value name allowInfinity =
     bindR (bytesFor E value name) (\<lambda>bytes.
     if length bytes \<noteq> expectedLength
     then Inl (name @ '' must be '' @ showInt (int expectedLength) @ '' uncompressed bytes'')
     else (case pointFor_try E grp bytes name allowInfinity of
         Inr point \<Rightarrow> Inr point
       | Inl message \<Rightarrow>
           if prefix (name @ '' cannot'') message then Inl message
           else Inl (name @ '' is not a valid subgroup point'')))"

definition g1Point :: "ethers \<Rightarrow> ('p, 'q, 't) bls \<Rightarrow> wire \<Rightarrow> string \<Rightarrow> 'p result" where
  "g1Point E B value name = pointFor E (G1 B) 96 value name False"

definition g2Point :: "ethers \<Rightarrow> ('p, 'q, 't) bls \<Rightarrow> wire \<Rightarrow> string \<Rightarrow> 'q result" where
  "g2Point E B value name = pointFor E (G2 B) 192 value name False"

definition g2CommitmentPoint :: "ethers \<Rightarrow> ('p, 'q, 't) bls \<Rightarrow> wire \<Rightarrow> string \<Rightarrow> 'q result" where
  "g2CommitmentPoint E B value name = pointFor E (G2 B) 192 value name True"

definition wireHex :: "ethers \<Rightarrow> 'p curve \<Rightarrow> 'p \<Rightarrow> string" where
  "wireHex E grp point = hexlify E (toRawBytes grp point)"

definition scalarIndex :: "int \<Rightarrow> int \<Rightarrow> int result" where
  "scalarIndex r index =
     (if index \<le> 0 \<or> index \<ge> r then Inl ''share index must be in [1, scalar order)'' else Inr index)"

definition mod_scalar :: "int \<Rightarrow> int \<Rightarrow> int" where
  "mod_scalar r value = (let reduced = value smod r in if reduced \<ge> 0 then reduced else reduced + r)"

function invert_loop :: "int \<Rightarrow> int \<Rightarrow> int \<Rightarrow> int \<Rightarrow> int" where
  "invert_loop low high lm hm =
     (if low > 1 then
        (let ratio = high sdiv low in invert_loop (high - low * ratio) low (hm - lm * ratio) lm)
      else lm)"
  by pat_completeness auto

lemma invert_loop_decreases: "1 < (low :: int) \<Longrightarrow> high - low * (high sdiv low) < low"
  for high :: int
  using smod_int_compares(1,4) [of high low]
  by (cases "0 \<le> high") (auto simp: minus_mult_sdiv_eq_smod)

termination invert_loop
  by (relation "measure (\<lambda>(low, high, lm, hm). nat low)") (auto simp: invert_loop_decreases)

declare invert_loop.simps [simp del]

definition invert :: "int \<Rightarrow> int \<Rightarrow> int result" where
  "invert r value = (let low = mod_scalar r value in
     if low = 0 then Inl ''cannot invert zero scalar''
     else Inr (mod_scalar r (invert_loop low r 1 0)))"

text \<open>The loop of \<open>lagrangeCoefficientAtZero\<close> over the other indexes.\<close>

fun lagrange_loop :: "int \<Rightarrow> int \<Rightarrow> int list \<Rightarrow> int \<Rightarrow> int \<Rightarrow> int \<times> int" where
  "lagrange_loop r index [] numerator denominator = (numerator, denominator)"
| "lagrange_loop r index (other # others) numerator denominator =
     (if other = index then lagrange_loop r index others numerator denominator
      else lagrange_loop r index others (mod_scalar r (numerator * other))
             (mod_scalar r (denominator * (other - index))))"

definition lagrangeCoefficientAtZero :: "int \<Rightarrow> int \<Rightarrow> int list \<Rightarrow> int result" where
  "lagrangeCoefficientAtZero r indexValue allIndexValues =
     bindR (scalarIndex r indexValue) (\<lambda>index.
     bindR (mapR (scalarIndex r) allIndexValues) (\<lambda>indexes.
     if card (set indexes) \<noteq> length indexes then Inl ''share indexes must be unique''
     else if index \<notin> set indexes then Inl ''share index is not in the interpolation set''
     else (case lagrange_loop r index indexes 1 1 of (numerator, denominator) \<Rightarrow>
       bindR (invert r denominator) (\<lambda>d. Inr (mod_scalar r (numerator * d))))))"

text \<open>
  \<open>verifyPartialSignature\<close> and \<open>verifyAggregateSignature\<close> have the same body up to the names
  in error messages, which their \<open>catch\<close> discards; both are written out.
\<close>

definition verifyPartialSignature ::
  "ethers \<Rightarrow> ('p, 'q, 't) bls \<Rightarrow> wire \<Rightarrow> wire \<Rightarrow> wire \<Rightarrow> bool" where
  "verifyPartialSignature E B message publicKey signature =
     (case bindR (bytesFor E message ''message'') (\<lambda>m.
           bindR (hashToCurve B m BLS_DST) (\<lambda>messagePoint.
           bindR (g1Point E B signature ''partial signature'') (\<lambda>signaturePoint.
           bindR (g2Point E B publicKey ''share public key'') (\<lambda>publicKeyPoint.
           bindR (pairing B signaturePoint (BASE (G2 B))) (\<lambda>left.
           bindR (pairing B messagePoint publicKeyPoint) (\<lambda>right.
           Inr (Fp12_eql B left right))))))) of
       Inr ok \<Rightarrow> ok
     | Inl _ \<Rightarrow> False)"

definition publicKeyForShare :: "ethers \<Rightarrow> ('p, 'q, 't) bls \<Rightarrow> int \<Rightarrow> string result" where
  "publicKeyForShare E B secretShare = (let scalar = mod_scalar (params_r B) secretShare in
     if scalar = 0 then Inl ''secret share cannot be zero''
     else bindR (multiply (G2 B) (BASE (G2 B)) scalar) (\<lambda>p. Inr (wireHex E (G2 B) p)))"

definition signPartial :: "ethers \<Rightarrow> ('p, 'q, 't) bls \<Rightarrow> wire \<Rightarrow> int \<Rightarrow> string result" where
  "signPartial E B message secretShare = (let scalar = mod_scalar (params_r B) secretShare in
     if scalar = 0 then Inl ''secret share cannot be zero''
     else bindR (bytesFor E message ''message'') (\<lambda>m.
       bindR (hashToCurve B m BLS_DST) (\<lambda>messagePoint.
       bindR (multiply (G1 B) messagePoint scalar) (\<lambda>p. Inr (wireHex E (G1 B) p)))))"

definition verifyAggregateSignature ::
  "ethers \<Rightarrow> ('p, 'q, 't) bls \<Rightarrow> wire \<Rightarrow> wire \<Rightarrow> wire \<Rightarrow> bool" where
  "verifyAggregateSignature E B message groupPublicKey signature =
     (case bindR (bytesFor E message ''message'') (\<lambda>m.
           bindR (hashToCurve B m BLS_DST) (\<lambda>messagePoint.
           bindR (g1Point E B signature ''aggregate signature'') (\<lambda>signaturePoint.
           bindR (g2Point E B groupPublicKey ''group public key'') (\<lambda>publicKeyPoint.
           bindR (pairing B signaturePoint (BASE (G2 B))) (\<lambda>left.
           bindR (pairing B messagePoint publicKeyPoint) (\<lambda>right.
           Inr (Fp12_eql B left right))))))) of
       Inr ok \<Rightarrow> ok
     | Inl _ \<Rightarrow> False)"

fun commitment_sum ::
  "ethers \<Rightarrow> ('p, 'q, 't) bls \<Rightarrow> int \<Rightarrow> nat \<Rightarrow> wire list \<Rightarrow> 'q \<Rightarrow> int \<Rightarrow> 'q result" where
  "commitment_sum E B scalar position [] expected pw = Inr expected"
| "commitment_sum E B scalar position (c # cs) expected pw =
     bindR (g2CommitmentPoint E B c
              (''publicCoefficients['' @ showInt (int position) @ '']'')) (\<lambda>point.
     bindR (multiply (G2 B) point pw) (\<lambda>scaled.
     commitment_sum E B scalar (Suc position) cs (add_pt (G2 B) expected scaled)
       (mod_scalar (params_r B) (pw * scalar))))"

definition verifyPublicShareCommitment ::
  "ethers \<Rightarrow> ('p, 'q, 't) bls \<Rightarrow> int \<Rightarrow> wire \<Rightarrow> wire list \<Rightarrow> bool result" where
  "verifyPublicShareCommitment E B index sharePublicKey publicCoefficients =
     (if length publicCoefficients < 2
      then Inl ''publicCoefficients must contain at least two G2 commitments''
      else bindR (scalarIndex (params_r B) index) (\<lambda>scalar.
        bindR (commitment_sum E B scalar 0 publicCoefficients (ZERO (G2 B)) 1) (\<lambda>expected.
        bindR (g2Point E B sharePublicKey ''share public key'') (\<lambda>key.
        Inr (expected = key)))))"

record share =
  sh_index :: int
  sh_publicKey :: wire
  sh_signature :: wire

fun check_shares :: "ethers \<Rightarrow> ('p, 'q, 't) bls \<Rightarrow> wire \<Rightarrow> share list \<Rightarrow> unit result" where
  "check_shares E B message [] = Inr ()"
| "check_shares E B message (s # ss) =
     (if \<not> verifyPartialSignature E B message (sh_publicKey s) (sh_signature s)
      then Inl (''partial signature '' @ showInt (sh_index s) @ '' failed verification'')
      else check_shares E B message ss)"

fun aggregate_loop ::
  "ethers \<Rightarrow> ('p, 'q, 't) bls \<Rightarrow> int list \<Rightarrow> (share \<times> int) list \<Rightarrow> 'p \<Rightarrow> 'p result" where
  "aggregate_loop E B indexes [] aggregate = Inr aggregate"
| "aggregate_loop E B indexes ((s, i) # rest) aggregate =
     bindR (lagrangeCoefficientAtZero (params_r B) i indexes) (\<lambda>coefficient.
     bindR (g1Point E B (sh_signature s) ''partial signature'') (\<lambda>point.
     bindR (multiply (G1 B) point coefficient) (\<lambda>scaled.
     aggregate_loop E B indexes rest (add_pt (G1 B) aggregate scaled))))"

definition aggregateThresholdShares ::
  "ethers \<Rightarrow> ('p, 'q, 't) bls \<Rightarrow> wire \<Rightarrow> wire \<Rightarrow> int \<Rightarrow> share list \<Rightarrow> (string \<times> string list) result"
where
  "aggregateThresholdShares E B message groupPublicKey threshold shares =
     (if \<not> isSafeInteger threshold \<or> threshold < 2
      then Inl ''threshold must be an integer of at least 2''
      else if int (length shares) < threshold
      then Inl (''at least '' @ showInt threshold @ '' shares are required'')
      else bindR (mapR (\<lambda>s. scalarIndex (params_r B) (sh_index s)) shares) (\<lambda>indexes.
        if card (set indexes) \<noteq> length indexes then Inl ''share indexes must be unique''
        else bindR (check_shares E B message shares) (\<lambda>_.
          bindR (aggregate_loop E B indexes (zip shares indexes) (ZERO (G1 B))) (\<lambda>aggregate.
          if aggregate = ZERO (G1 B) then Inl ''aggregate signature is the point at infinity''
          else (let signature = wireHex E (G1 B) aggregate in
            if \<not> verifyAggregateSignature E B message groupPublicKey (HexString signature)
            then Inl ''aggregate signature does not match the group public key''
            else Inr (signature, map showInt indexes))))))"

subsection \<open>Scalar arithmetic\<close>

lemma mod_scalar_eq [simp, mod_simps]:
  assumes "0 < r" shows "mod_scalar r v = v mod r"
proof -
  have "eqm r (mod_scalar r v) v"
    using mult_sdiv_smod_eq [of r v] by (auto simp: mod_scalar_def Let_def eqm_def algebra_simps)
      (metis dvd_triv_left add_diff_cancel_left' diff_add_eq_diff_diff_swap dvd_diff_commute
        dvd_add_left_iff dvd_refl diff_add_cancel)+
  moreover have "0 \<le> mod_scalar r v" "mod_scalar r v < r"
    using smod_int_compares(1-4) [of v r] assms by (cases "0 \<le> v"; auto simp: mod_scalar_def Let_def)+
  ultimately show ?thesis by (simp add: eqm_mod)
qed

lemma invert_loop_correct:
  assumes "1 \<le> low" "0 < high" "coprime low high" "eqm r (lm * v) low" "eqm r (hm * v) high"
  shows "eqm r (invert_loop low high lm hm * v) 1"
  using assms
proof (induction low high lm hm rule: invert_loop.induct)
  case (1 low high lm hm)
  show ?case
  proof (cases "low > 1")
    case False
    then show ?thesis using "1.prems" by (subst invert_loop.simps) simp
  next
    case True
    define q where "q = high sdiv low"
    have rem: "high - low * q = high mod low"
      using True "1.prems"(2) by (simp add: q_def sdiv_nonneg minus_mult_div_eq_mod)
    have cop: "coprime (high mod low) low"
      using "1.prems"(3) True by (simp add: coprime_commute)
    have "high mod low \<noteq> 0" using cop True by auto
    then have "1 \<le> high mod low" using True pos_mod_sign [of low high] by linarith
    moreover have "eqm r ((hm - lm * q) * v) (high - low * q)"
    proof -
      have "eqm r (hm * v - lm * v * q) (high - low * q)"
        using "1.prems"(4,5) by (blast intro: eqm_intros)
      then show ?thesis by (simp add: algebra_simps)
    qed
    ultimately have "eqm r (invert_loop (high - low * q) low (hm - lm * q) lm * v) 1"
      using "1.IH" [OF True refl] "1.prems"(4) cop True rem by (simp add: q_def)
    then show ?thesis using True by (simp add: invert_loop.simps [of low high] q_def Let_def)
  qed
qed

lemma invert_correct:
  assumes "1 < m" "coprime v m"
  shows "\<exists>x. invert m v = Inr x \<and> 0 \<le> x \<and> x < m \<and> eqm m (x * v) 1"
proof -
  have cop: "coprime (v mod m) m" using assms by simp
  have pos: "1 \<le> v mod m"
  proof -
    have "v mod m \<noteq> 0" using cop assms(1) by auto
    then show ?thesis using assms(1) pos_mod_sign [of m v] by linarith
  qed
  let ?x = "invert_loop (v mod m) m 1 0"
  have "eqm m (?x * v) 1"
    using assms(1) pos cop by (intro invert_loop_correct) (auto simp: eqm_mod)
  then have "eqm m (?x mod m * v) 1" by (blast intro: eqm_trans eqm_mult eqm_mod_left [THEN iffD2])
  then show ?thesis using assms(1) pos by (simp add: invert_def Let_def)
qed

interpretation tc: modular_inverse invert
  by unfold_locales (rule invert_correct)

lemma scalarIndex_Inr [result_simps]: "scalarIndex r i = Inr j \<longleftrightarrow> j = i \<and> 0 < i \<and> i < r"
  by (auto simp: scalarIndex_def)

lemma mapR_scalarIndex:
  "mapR (scalarIndex r) xs = Inr ys \<longleftrightarrow> ys = xs \<and> (\<forall>i \<in> set xs. 0 < i \<and> i < r)"
  by (induction xs arbitrary: ys) (auto simp: result_simps)

subsection \<open>The Lagrange coefficient at zero\<close>

lemma lagrange_loop_products:
  assumes "0 < r" "lagrange_loop r i xs n d = (n', d')"
  shows "eqm r n' (n * (\<Prod>j\<leftarrow>filter (\<lambda>j. j \<noteq> i) xs. j)) \<and>
         eqm r d' (d * (\<Prod>j\<leftarrow>filter (\<lambda>j. j \<noteq> i) xs. j - i))"
  using assms(2)
proof (induction xs arbitrary: n d)
  case (Cons x xs)
  show ?case
  proof (cases "x = i")
    case False
    then have "eqm r n' ((n * x) mod r * (\<Prod>j\<leftarrow>filter (\<lambda>j. j \<noteq> i) xs. j)) \<and>
        eqm r d' ((d * (x - i)) mod r * (\<Prod>j\<leftarrow>filter (\<lambda>j. j \<noteq> i) xs. j - i))"
      using Cons assms(1) by simp
    then show ?thesis using False
      by (auto simp: mult.assoc [symmetric] elim!: eqm_trans intro!: eqm_mult)
  qed (use Cons in auto)
qed auto

lemma prod_list_filter_set:
  "distinct xs \<Longrightarrow> (\<Prod>j\<leftarrow>filter (\<lambda>j. j \<noteq> i) xs. f j) = (\<Prod>j \<in> set xs - {i}. (f j :: int))"
  by (subst prod.distinct_set_conv_list [symmetric]) (auto intro: prod.cong)

lemma lagrangeCoefficientAtZero_ok:
  assumes r: "field_modulus r" and xs: "\<forall>j \<in> set xs. 0 < j \<and> j < r" "distinct xs" and i: "i \<in> set xs"
  shows "\<exists>w. lagrangeCoefficientAtZero r i xs = Inr w \<and> 0 < w \<and> w < r \<and>
     eqm r (w * (\<Prod>j \<in> set xs - {i}. j - i)) (\<Prod>j \<in> set xs - {i}. j)"
proof -
  let ?N = "\<Prod>j \<in> set xs - {i}. j" and ?D = "\<Prod>j \<in> set xs - {i}. j - i"
  have r1: "1 < r" using r by blast
  obtain n d where nd: "lagrange_loop r i xs 1 1 = (n, d)" by fastforce
  with lagrange_loop_products [OF _ nd] r1 have n: "eqm r n ?N" and d: "eqm r d ?D"
    using prod_list_filter_set [OF xs(2), of "\<lambda>j. j" i] prod_list_filter_set [OF xs(2), of "\<lambda>j. j - i" i]
    by simp_all
  have "coprime ?D r"
    using r xs i by (intro distinct_points_prod distinct_points_range) force+
  then have dr: "coprime d r" using d by (metis coprime_mod_left_iff eqm_mod less_irrefl r1 zero_less_one
        order_less_trans)
  obtain x where x: "invert r d = Inr x" "eqm r (x * d) 1" using invert_correct [OF r1 dr] by blast
  define w where "w = (n * x) mod r"
  have "eqm r (w * ?D) (n * x * d)"
    unfolding w_def using d by (blast intro: eqm_mult eqm_sym eqm_mod_left [THEN iffD2])
  also have "eqm r (n * x * d) n" using tc.quotient [OF r1 dr x(1)] .
  also note n
  finally have wD: "eqm r (w * ?D) ?N" .
  have "coprime ?N r"
    using r xs unfolding field_modulus_def by (intro prod_coprime_left) auto
  then have "w \<noteq> 0" using wD coprime_not_eqm_0 r1 eqm_sym by force
  moreover have "0 \<le> w" "w < r" using r1 by (simp_all add: w_def)
  moreover have "lagrangeCoefficientAtZero r i xs = Inr w"
  proof -
    have "scalarIndex r i = Inr i" "mapR (scalarIndex r) xs = Inr xs"
      using xs(1) i by (auto simp: scalarIndex_def mapR_scalarIndex)
    then show ?thesis using xs(2) i r1 nd x(1)
      by (simp add: lagrangeCoefficientAtZero_def w_def distinct_card)
  qed
  ultimately show ?thesis using wD by auto
qed

text \<open>The weights computed for all indexes interpolate: the heart of threshold signing.\<close>

lemma lagrange_coefficients_interpolate:
  assumes r: "field_modulus r" and xs: "\<forall>j \<in> set xs. 0 < j \<and> j < r" "distinct xs"
    and cs: "length cs \<le> length xs"
  shows "\<exists>w. (\<forall>i \<in> set xs. lagrangeCoefficientAtZero r i xs = Inr (w i) \<and> 0 < w i \<and> w i < r) \<and>
    eqm r (\<Sum>i\<leftarrow>xs. w i * peval cs i) (peval cs 0)"
proof -
  have "\<forall>i \<in> set xs. \<exists>w. lagrangeCoefficientAtZero r i xs = Inr w \<and> 0 < w \<and> w < r \<and>
     eqm r (w * (\<Prod>j \<in> set xs - {i}. j - i)) (\<Prod>j \<in> set xs - {i}. j)"
    using lagrangeCoefficientAtZero_ok [OF r xs] by blast
  then obtain w where w: "\<forall>i \<in> set xs. lagrangeCoefficientAtZero r i xs = Inr (w i) \<and> 0 < w i \<and> w i < r \<and>
     eqm r (w i * (\<Prod>j \<in> set xs - {i}. j - i)) (\<Prod>j \<in> set xs - {i}. j)"
    by (metis bchoice)
  have "eqm r (\<Sum>i \<in> set xs. w i * peval cs i) (peval cs 0)"
    using r xs w cs
    by (intro lagrange_interpolation distinct_points_range)
      (auto simp: lagrange_weights_def distinct_card order.strict_implies_order)
  then have "eqm r (\<Sum>i\<leftarrow>xs. w i * peval cs i) (peval cs 0)"
    using xs(2) by (simp add: sum.distinct_set_conv_list)
  with w show ?thesis by blast
qed

subsection \<open>Wire points\<close>

definition wireBytes :: "ethers \<Rightarrow> wire \<Rightarrow> bytes option" where
  "wireBytes E v = (case v of Uint8Array b \<Rightarrow> Some b
     | HexString s \<Rightarrow> (case getBytes E s of Inr b \<Rightarrow> Some b | Inl _ \<Rightarrow> None))"

lemma bytesFor_Inr [result_simps]: "bytesFor E v name = Inr b \<longleftrightarrow> wireBytes E v = Some b"
  by (auto simp: bytesFor_def wireBytes_def split: wire.splits sum.splits)

lemma wireBytes_wireHex:
  "hex_codec E \<Longrightarrow> wireBytes E (HexString (wireHex E G p)) = Some (toRawBytes G p)"
  by (simp add: wireBytes_def hex_codec_def wireHex_def)

lemma pointFor_Inr:
  assumes E: "hex_codec E" and G: "prime_order_group r n G ex"
  shows "pointFor E G n v name ai = Inr p \<longleftrightarrow>
    (\<exists>a. p = ex a \<and> wireBytes E v = Some (toRawBytes G (ex a)) \<and> (ai \<or> \<not> eqm r a 0))"
    (is "?l \<longleftrightarrow> ?r")
proof
  assume ?l
  then obtain b where b: "wireBytes E v = Some b" and t: "pointFor_try E G b name ai = Inr p"
    by (auto simp: pointFor_def result_simps split: if_splits sum.splits)
  then have f: "fromHex G b = Inr p" "assertValidity G p = Inr ()" "toRawBytes G p = b"
      "ai \<or> p \<noteq> ZERO G"
    using E by (auto simp: pointFor_try_def result_simps hex_codec_def split: if_splits)
  obtain a where "p = ex a" using prime_order_groupD(9) [OF G f(1,2)] by blast
  with f b show ?r by (auto simp: prime_order_groupD(1,5) [OF G])
next
  assume ?r
  then obtain a where a: "p = ex a" "wireBytes E v = Some (toRawBytes G (ex a))" "ai \<or> \<not> eqm r a 0"
    by blast
  then have "pointFor_try E G (toRawBytes G (ex a)) name ai = Inr p"
    by (auto simp: pointFor_try_def prime_order_groupD [OF G])
  moreover have "bytesFor E v name = Inr (toRawBytes G (ex a))"
    using a by (simp add: result_simps)
  ultimately show ?l by (simp add: pointFor_def prime_order_groupD(6) [OF G])
qed

lemma hashed_point_scaled:
  assumes "prime_order_group r n G ex" "0 < k" "k < r"
  shows "multiply G (ex a) k = Inr (ex (a * k))"
  using assms by (rule prime_order_groupD(4))

lemma eqm_0_mult:
  assumes "field_modulus r" shows "eqm r (a * b) 0 \<longleftrightarrow> eqm r a 0 \<or> eqm r b 0"
proof -
  have "eqm r b 0" if "r dvd a * b" "\<not> r dvd a"
    using field_modulus_coprime [OF assms, of a] that
    by (auto simp: eqm_def dvd_eq_mod_eq_0 [symmetric] coprime_commute coprime_dvd_mult_right_iff)
  then show ?thesis by (auto simp: eqm_def)
qed

subsection \<open>Signatures\<close>

text \<open>A signature verifies exactly when it encodes the hashed message times the secret.\<close>

lemma verifyPartialSignature_iff:
  assumes E: "hex_codec E" and B: "bls_laws B ex1 ex2 exT"
    and m: "wireBytes E message = Some m" "hashToCurve B m BLS_DST = Inr (ex1 h)"
    and h: "\<not> eqm (params_r B) h 0"
  shows "verifyPartialSignature E B message pk sig \<longleftrightarrow>
    (\<exists>s x. wireBytes E sig = Some (toRawBytes (G1 B) (ex1 s)) \<and>
           wireBytes E pk = Some (toRawBytes (G2 B) (ex2 x)) \<and>
           \<not> eqm (params_r B) s 0 \<and> \<not> eqm (params_r B) x 0 \<and> eqm (params_r B) s (h * x))"
    (is "?l \<longleftrightarrow> _")
proof -
  let ?r = "params_r B"
  note G1 = bls_lawsD(2) [OF B] and G2 = bls_lawsD(3) [OF B] and P = bls_lawsD(4) [OF B]
  note pt = pointFor_Inr [OF E G1] pointFor_Inr [OF E G2]
  have one: "\<not> eqm ?r 1 0" using bls_lawsD(1) [OF B] by (auto simp: eqm_mod)
  have base: "BASE (G2 B) = ex2 1" by (rule prime_order_groupD(2) [OF G2])
  have m': "bytesFor E message ''message'' = Inr m" using m(1) by (simp add: result_simps)
  have "?l \<longleftrightarrow> (\<exists>s x. wireBytes E sig = Some (toRawBytes (G1 B) (ex1 s)) \<and> \<not> eqm ?r s 0 \<and>
      wireBytes E pk = Some (toRawBytes (G2 B) (ex2 x)) \<and> \<not> eqm ?r x 0 \<and>
      (\<exists>l q. pairing B (ex1 s) (ex2 1) = Inr l \<and> pairing B (ex1 h) (ex2 x) = Inr q \<and>
         Fp12_eql B l q))"
    unfolding verifyPartialSignature_def g1Point_def g2Point_def case_result_True base m' bindR.simps m(2)
    by (simp add: bindR_Inr pt) blast
  also have "\<dots> \<longleftrightarrow> (\<exists>s x. wireBytes E sig = Some (toRawBytes (G1 B) (ex1 s)) \<and> \<not> eqm ?r s 0 \<and>
      wireBytes E pk = Some (toRawBytes (G2 B) (ex2 x)) \<and> \<not> eqm ?r x 0 \<and> eqm ?r (s * 1) (h * x))"
    using bilinearD [OF P] h one by (intro iff_exI) auto
  finally show ?thesis by auto
qed

lemma pointFor_name: "pointFor E G n v name ai = Inr p \<longleftrightarrow> pointFor E G n v name' ai = Inr p"
  by (auto simp: pointFor_def pointFor_try_def result_simps split: if_splits sum.splits)

lemma verifyAggregateSignature_eq:
  "verifyAggregateSignature E B message pk sig = verifyPartialSignature E B message pk sig"
proof -
  have "verifyAggregateSignature E B message pk sig \<longleftrightarrow> verifyPartialSignature E B message pk sig"
    unfolding verifyAggregateSignature_def verifyPartialSignature_def g1Point_def g2Point_def
    case_result_True bindR_Inr
      pointFor_name [of E _ _ _ "''aggregate signature''" _ _ "''partial signature''"]
      pointFor_name [of E _ _ _ "''group public key''" _ _ "''share public key''"] ..
  then show ?thesis by simp
qed

subsection \<open>Aggregation\<close>

definition encodes :: "ethers \<Rightarrow> 'p curve \<Rightarrow> 'p \<Rightarrow> wire \<Rightarrow> bool" where
  "encodes E G p v \<longleftrightarrow> wireBytes E v = Some (toRawBytes G p)"

lemma encodes_wireHex [simp]: "hex_codec E \<Longrightarrow> encodes E G p (HexString (wireHex E G p))"
  by (simp add: encodes_def wireBytes_wireHex)

lemma wireBytes_Uint8Array [simp]: "wireBytes E (Uint8Array b) = Some b"
  by (simp add: wireBytes_def)

lemma encodes_Uint8Array [simp]: "encodes E G p (Uint8Array (toRawBytes G p))"
  by (simp add: encodes_def)

lemma aggregate_loop_sum:
  assumes E: "hex_codec E" and B: "bls_laws B ex1 ex2 exT"
    and ps: "\<forall>(s, i) \<in> set ps. lagrangeCoefficientAtZero (params_r B) i xs = Inr (w i) \<and>
       0 < w i \<and> w i < params_r B \<and> encodes E (G1 B) (ex1 (a i)) (sh_signature s) \<and>
       \<not> eqm (params_r B) (a i) 0"
  shows "aggregate_loop E B xs ps (ex1 c) = Inr (ex1 (c + (\<Sum>(s, i)\<leftarrow>ps. a i * w i)))"
  using ps
proof (induction ps arbitrary: c)
  case (Cons p ps)
  obtain s i where p: "p = (s, i)" by fastforce
  note G = bls_lawsD(2) [OF B]
  have "g1Point E B (sh_signature s) ''partial signature'' = Inr (ex1 (a i))"
    using Cons.prems p by (auto simp: g1Point_def pointFor_Inr [OF E G] encodes_def)
  moreover have "multiply (G1 B) (ex1 (a i)) (w i) = Inr (ex1 (a i * w i))"
    using Cons.prems p by (intro prime_order_groupD(4) [OF G]) auto
  ultimately show ?case
    using Cons p by (simp add: prime_order_groupD(3) [OF G] add.assoc)
qed simp

lemma check_shares_Inr:
  "check_shares E B message ss = Inr u \<longleftrightarrow>
     (\<forall>s \<in> set ss. verifyPartialSignature E B message (sh_publicKey s) (sh_signature s))"
  by (induction ss) auto

lemma mapR_share_indexes:
  "mapR (\<lambda>s. scalarIndex r (sh_index s)) ss = Inr xs \<longleftrightarrow>
     xs = map sh_index ss \<and> (\<forall>s \<in> set ss. 0 < sh_index s \<and> sh_index s < r)"
  by (induction ss arbitrary: xs) (auto simp: result_simps)

text \<open>An honest share of the polynomial \<open>cs\<close> on a message that hashes to \<open>ex1 h\<close>.\<close>

definition honest_share ::
  "ethers \<Rightarrow> ('p, 'q, 't) bls \<Rightarrow> (int \<Rightarrow> 'p) \<Rightarrow> (int \<Rightarrow> 'q) \<Rightarrow> int \<Rightarrow> int list \<Rightarrow> share \<Rightarrow> bool" where
  "honest_share E B ex1 ex2 h cs s \<longleftrightarrow>
     0 < sh_index s \<and> sh_index s < params_r B \<and> \<not> eqm (params_r B) (peval cs (sh_index s)) 0 \<and>
     encodes E (G2 B) (ex2 (peval cs (sh_index s))) (sh_publicKey s) \<and>
     encodes E (G1 B) (ex1 (h * peval cs (sh_index s))) (sh_signature s)"

lemma verifyPartialSignature_intro:
  assumes "hex_codec E" "bls_laws B ex1 ex2 exT" "wireBytes E message = Some m"
    "hashToCurve B m BLS_DST = Inr (ex1 h)" "\<not> eqm (params_r B) h 0" "\<not> eqm (params_r B) x 0"
    "encodes E (G2 B) (ex2 x) pk" "encodes E (G1 B) (ex1 (h * x)) sig"
  shows "verifyPartialSignature E B message pk sig"
proof -
  have "\<not> eqm (params_r B) (h * x) 0"
    using assms(5,6) by (simp add: eqm_0_mult [OF bls_lawsD(1) [OF assms(2)]])
  then show ?thesis
    using assms(6-8) unfolding verifyPartialSignature_iff [OF assms(1-5)] encodes_def by blast
qed

lemma honest_share_verifies:
  assumes "hex_codec E" "bls_laws B ex1 ex2 exT" "wireBytes E message = Some m"
    "hashToCurve B m BLS_DST = Inr (ex1 h)" "\<not> eqm (params_r B) h 0" "honest_share E B ex1 ex2 h cs s"
  shows "verifyPartialSignature E B message (sh_publicKey s) (sh_signature s)"
  using assms(6) by (intro verifyPartialSignature_intro [OF assms(1-5)]) (auto simp: honest_share_def)

lemma aggregate_loop_honest:
  assumes E: "hex_codec E" and B: "bls_laws B ex1 ex2 exT" and h: "\<not> eqm (params_r B) h 0"
    and ss: "\<forall>s \<in> set ss. honest_share E B ex1 ex2 h cs s" "distinct (map sh_index ss)"
      "length cs \<le> length ss"
  shows "aggregate_loop E B (map sh_index ss) (zip ss (map sh_index ss)) (ZERO (G1 B))
    = Inr (ex1 (h * peval cs 0))"
proof -
  let ?r = "params_r B" and ?xs = "map sh_index ss"
  note r = bls_lawsD(1) [OF B] and G = bls_lawsD(2) [OF B]
  have rng: "\<forall>j \<in> set ?xs. 0 < j \<and> j < ?r" using ss(1) by (auto simp: honest_share_def)
  obtain w where w: "\<forall>i \<in> set ?xs. lagrangeCoefficientAtZero ?r i ?xs = Inr (w i) \<and> 0 < w i \<and> w i < ?r"
    and int: "eqm ?r (\<Sum>i\<leftarrow>?xs. w i * peval cs i) (peval cs 0)"
    using lagrange_coefficients_interpolate [OF r rng ss(2)] ss(3) by auto
  have zip: "zip ss ?xs = map (\<lambda>s. (s, sh_index s)) ss" by (induction ss) auto
  have "aggregate_loop E B ?xs (zip ss ?xs) (ex1 0) =
      Inr (ex1 (0 + (\<Sum>(s, i)\<leftarrow>zip ss ?xs. h * peval cs i * w i)))"
    using w ss(1) h by (intro aggregate_loop_sum [OF E B])
      (auto simp: zip honest_share_def eqm_0_mult [OF r])
  also have "(\<Sum>(s, i)\<leftarrow>zip ss ?xs. h * peval cs i * w i) = h * (\<Sum>i\<leftarrow>?xs. w i * peval cs i)"
    unfolding zip by (simp add: comp_def sum_list_const_mult [symmetric] algebra_simps)
  also have "ex1 (0 + h * (\<Sum>i\<leftarrow>?xs. w i * peval cs i)) = ex1 (h * peval cs 0)"
    using int by (simp add: prime_order_groupD(5) [OF G] eqm_mult)
  finally show ?thesis by (simp add: prime_order_groupD(1) [OF G])
qed

lemma aggregate_honest:
  assumes E: "hex_codec E" and B: "bls_laws B ex1 ex2 exT"
    and m: "wireBytes E message = Some m" "hashToCurve B m BLS_DST = Inr (ex1 h)" "\<not> eqm (params_r B) h 0"
    and k: "\<not> eqm (params_r B) (peval cs 0) 0" "encodes E (G2 B) (ex2 (peval cs 0)) key"
    and t: "isSafeInteger threshold" "2 \<le> threshold" "threshold \<le> int (length ss)"
    and ss: "\<forall>s \<in> set ss. honest_share E B ex1 ex2 h cs s" "distinct (map sh_index ss)"
      "length cs \<le> length ss"
  shows "aggregateThresholdShares E B message key threshold ss =
    Inr (wireHex E (G1 B) (ex1 (h * peval cs 0)), map (\<lambda>s. showInt (sh_index s)) ss)"
proof -
  note r = bls_lawsD(1) [OF B] and G = bls_lawsD(2) [OF B]
  have "mapR (\<lambda>s. scalarIndex (params_r B) (sh_index s)) ss = Inr (map sh_index ss)"
    using ss(1) by (auto simp: mapR_share_indexes honest_share_def)
  moreover have "check_shares E B message ss = Inr ()"
    using ss(1) honest_share_verifies [OF E B m] by (auto simp: check_shares_Inr)
  moreover have "ex1 (h * peval cs 0) \<noteq> ZERO (G1 B)"
    using m(3) k(1) by (simp add: eqm_0_mult [OF r] prime_order_groupD(1,5) [OF G])
  moreover have "verifyAggregateSignature E B message key
      (HexString (wireHex E (G1 B) (ex1 (h * peval cs 0))))"
    unfolding verifyAggregateSignature_eq
    using k E by (intro verifyPartialSignature_intro [OF E B m]) auto
  ultimately show ?thesis
    using t distinct_card [OF ss(2)]
    by (simp add: aggregateThresholdShares_def aggregate_loop_honest [OF E B m(3) ss] Let_def comp_def)
qed

lemma commitment_sum_eval:
  assumes E: "hex_codec E" and B: "bls_laws B ex1 ex2 exT"
    and ws: "list_all2 (\<lambda>v c. encodes E (G2 B) (ex2 c) v) ws cs"
    and i: "0 < i" "i < params_r B" and pw: "0 < pw" "pw < params_r B"
  shows "commitment_sum E B i position ws (ex2 e) pw = Inr (ex2 (e + pw * peval cs i))"
  using ws pw
proof (induction ws cs arbitrary: position e pw rule: list_all2_induct)
  case (Cons v ws c cs)
  let ?r = "params_r B" and ?pw = "(pw * i) mod params_r B"
  note r = bls_lawsD(1) [OF B] and G = bls_lawsD(3) [OF B]
  have r0: "0 < ?r" using r by (auto simp: field_modulus_def)
  have "\<not> eqm ?r pw 0" "\<not> eqm ?r i 0" using Cons.prems i by (auto simp: eqm_mod)
  then have "?pw \<noteq> 0" using eqm_0_mult [OF r, of pw i] by (simp add: eqm_mod)
  then have pw': "0 < ?pw" "?pw < ?r" using r0 pos_mod_sign [of ?r "pw * i"] pos_mod_bound [of ?r "pw * i"] by linarith+
  have pt: "g2CommitmentPoint E B v nm = Inr (ex2 c)" for nm
    using Cons.hyps(1) by (auto simp: g2CommitmentPoint_def pointFor_Inr [OF E G] encodes_def)
  have "commitment_sum E B i position (v # ws) (ex2 e) pw =
      commitment_sum E B i (Suc position) ws (ex2 (e + c * pw)) ?pw"
    using Cons.prems r0 by (simp add: pt prime_order_groupD(3,4) [OF G])
  also have "\<dots> = Inr (ex2 (e + c * pw + ?pw * peval cs i))"
    using Cons.IH pw' by simp
  also have "ex2 (e + c * pw + ?pw * peval cs i) = ex2 (e + pw * peval (c # cs) i)"
  proof -
    have "eqm ?r (e + c * pw + ?pw * peval cs i) (e + c * pw + pw * i * peval cs i)"
      by (intro eqm_add eqm_mult) auto
    then show ?thesis by (simp add: prime_order_groupD(5) [OF G] algebra_simps)
  qed
  finally show ?case .
qed simp

lemma verifyPublicShareCommitment_eval:
  assumes E: "hex_codec E" and B: "bls_laws B ex1 ex2 exT"
    and ws: "list_all2 (\<lambda>v c. encodes E (G2 B) (ex2 c) v) ws cs" "2 \<le> length ws"
    and i: "0 < i" "i < params_r B"
    and y: "encodes E (G2 B) (ex2 y) key" "\<not> eqm (params_r B) y 0"
  shows "verifyPublicShareCommitment E B i key ws = Inr (y mod params_r B = peval cs i mod params_r B)"
proof -
  note r = bls_lawsD(1) [OF B] and G = bls_lawsD(3) [OF B]
  have "commitment_sum E B i 0 ws (ex2 0) 1 = Inr (ex2 (0 + 1 * peval cs i))"
    using r i by (intro commitment_sum_eval [OF E B ws(1)]) (auto simp: field_modulus_def)
  moreover have "g2Point E B key ''share public key'' = Inr (ex2 y)"
    using y by (auto simp: g2Point_def pointFor_Inr [OF E G] encodes_def)
  ultimately show ?thesis
    using ws(2) i by (auto simp: verifyPublicShareCommitment_def scalarIndex_def
        prime_order_groupD(1,5) [OF G] eqm_mod)
qed

lemma aggregate_sound:
  assumes "aggregateThresholdShares E B message groupPublicKey threshold shares = Inr (sig, ids)"
  shows "verifyAggregateSignature E B message groupPublicKey (HexString sig) \<and>
    2 \<le> threshold \<and> threshold \<le> int (length shares) \<and> distinct (map sh_index shares) \<and>
    (\<forall>s \<in> set shares. 0 < sh_index s \<and> sh_index s < params_r B \<and>
       verifyPartialSignature E B message (sh_publicKey s) (sh_signature s)) \<and>
    ids = map showInt (map sh_index shares)"
  using assms
  by (auto simp: aggregateThresholdShares_def result_simps mapR_share_indexes check_shares_Inr Let_def
      card_distinct split: if_splits dest: card_distinct [of "map sh_index shares"])

lemma signing_results:
  assumes "hex_codec E" "bls_laws B ex1 ex2 exT"
    "wireBytes E message = Some m" "hashToCurve B m BLS_DST = Inr (ex1 h)" "\<not> eqm (params_r B) h 0"
    "\<not> eqm (params_r B) secretShare 0"
  shows "publicKeyForShare E B secretShare = Inr (wireHex E (G2 B) (ex2 (secretShare mod params_r B)))"
    "signPartial E B message secretShare = Inr (wireHex E (G1 B) (ex1 (h * (secretShare mod params_r B))))"
    "verifyPartialSignature E B message (HexString (wireHex E (G2 B) (ex2 (secretShare mod params_r B))))
       (HexString (wireHex E (G1 B) (ex1 (h * (secretShare mod params_r B)))))"
proof -
  let ?r = "params_r B" and ?x = "secretShare mod params_r B"
  note r = bls_lawsD(1) [OF assms(2)] and G1 = bls_lawsD(2) [OF assms(2)] and G2 = bls_lawsD(3) [OF assms(2)]
  have r0: "0 < ?r" using r by (auto simp: field_modulus_def)
  have x: "0 < ?x" "?x < ?r" "\<not> eqm ?r ?x 0"
    using assms(6) r0 pos_mod_sign [OF r0, of secretShare] pos_mod_bound [OF r0, of secretShare]
    by (auto simp: eqm_mod less_le)
  have m: "bytesFor E message ''message'' = Inr m" using assms(3) by (simp add: result_simps)
  show "publicKeyForShare E B secretShare = Inr (wireHex E (G2 B) (ex2 ?x))"
    using x r0 by (simp add: publicKeyForShare_def Let_def prime_order_groupD(2,4) [OF G2])
  show "signPartial E B message secretShare = Inr (wireHex E (G1 B) (ex1 (h * ?x)))"
    using x r0 by (simp add: signPartial_def Let_def m assms(4) prime_order_groupD(4) [OF G1])
  show "verifyPartialSignature E B message (HexString (wireHex E (G2 B) (ex2 ?x)))
      (HexString (wireHex E (G1 B) (ex1 (h * ?x))))"
    by (rule verifyPartialSignature_intro [OF assms(1-5) x(3)]) (simp_all add: assms(1))
qed

subsection \<open>Properties\<close>

text \<open>
  C1: threshold aggregation. When every supplied share is an honest BLS signature by the value of
  one polynomial with at most as many coefficients as there are shares, the indexes are distinct
  and the threshold is met, \<open>aggregateThresholdShares\<close> returns the signature by the constant
  coefficient (the group secret), whichever shares were supplied.
\<close>

theorem aggregateThresholdShares_honest:
  assumes "hex_codec E" "bls_laws B ex1 ex2 exT"
    "wireBytes E message = Some m" "hashToCurve B m BLS_DST = Inr (ex1 h)" "\<not> eqm (params_r B) h 0"
    "\<not> eqm (params_r B) (peval cs 0) 0" "encodes E (G2 B) (ex2 (peval cs 0)) groupPublicKey"
    "isSafeInteger threshold" "2 \<le> threshold" "threshold \<le> int (length shares)"
    "\<forall>s \<in> set shares. honest_share E B ex1 ex2 h cs s" "distinct (map sh_index shares)"
    "length cs \<le> length shares"
  shows "aggregateThresholdShares E B message groupPublicKey threshold shares =
    Inr (wireHex E (G1 B) (ex1 (h * peval cs 0)), map (\<lambda>s. showInt (sh_index s)) shares)"
  using assms by (rule aggregate_honest)

definition sample_share :: "int \<Rightarrow> share" where
  "sample_share i = \<lparr>sh_index = i,
     sh_publicKey = HexString (wireHex sample_ethers (G2 sample_bls) (sample_ex (peval [3, 1] i))),
     sh_signature = HexString (wireHex sample_ethers (G1 sample_bls) (sample_ex (1 * peval [3, 1] i)))\<rparr>"

lemma sample_share_honest:
  "0 < i \<Longrightarrow> i < 4 \<Longrightarrow> honest_share sample_ethers sample_bls sample_ex sample_ex 1 [3, 1] (sample_share i)"
  unfolding honest_share_def sample_share_def share.simps
  by (intro conjI encodes_wireHex sample_hex_codec) (auto simp: sample_bls_def eqm_def zdvd_not_zless)

theorem aggregateThresholdShares_honest_witness:
  "aggregateThresholdShares sample_ethers sample_bls (Uint8Array [])
     (HexString (wireHex sample_ethers (G2 sample_bls) (sample_ex 3))) 2 [sample_share 1, sample_share 3]
   = Inr (wireHex sample_ethers (G1 sample_bls) (sample_ex 3), [showInt 1, showInt 3])"
proof -
  have "aggregateThresholdShares sample_ethers sample_bls (Uint8Array [])
     (HexString (wireHex sample_ethers (G2 sample_bls) (sample_ex (peval [3, 1] 0)))) 2
       [sample_share 1, sample_share 3]
   = Inr (wireHex sample_ethers (G1 sample_bls) (sample_ex (1 * peval [3, 1] 0)),
       map (\<lambda>s. showInt (sh_index s)) [sample_share 1, sample_share 3])"
  proof (rule aggregateThresholdShares_honest [where m = "[]", OF sample_hex_codec sample_bls_laws])
    show "\<forall>s \<in> set [sample_share 1, sample_share 3].
        honest_share sample_ethers sample_bls sample_ex sample_ex 1 [3, 1] s"
      using sample_share_honest by simp
  qed (simp_all add: sample_bls_def sample_ex_def eqm_def isSafeInteger_def sample_share_def)
  then show ?thesis by (simp add: sample_share_def)
qed

text \<open>
  C11: aggregation is checked end to end. Whatever the inputs, a returned signature verifies under
  the group public key, at least \<open>threshold\<close> (and at least two) shares were given, their indexes
  are pairwise distinct scalars, and each share's partial signature verified.
\<close>

theorem aggregateThresholdShares_sound:
  assumes "aggregateThresholdShares E B message groupPublicKey threshold shares = Inr (sig, ids)"
  shows "verifyAggregateSignature E B message groupPublicKey (HexString sig) \<and>
    2 \<le> threshold \<and> threshold \<le> int (length shares) \<and> distinct (map sh_index shares) \<and>
    (\<forall>s \<in> set shares. 0 < sh_index s \<and> sh_index s < params_r B \<and>
       verifyPartialSignature E B message (sh_publicKey s) (sh_signature s)) \<and>
    ids = map showInt (map sh_index shares)"
  using assms by (rule aggregate_sound)

theorem aggregateThresholdShares_sound_witness:
  "verifyAggregateSignature sample_ethers sample_bls (Uint8Array [])
     (HexString (wireHex sample_ethers (G2 sample_bls) (sample_ex 3)))
     (HexString (wireHex sample_ethers (G1 sample_bls) (sample_ex 3)))"
proof -
  have "aggregateThresholdShares sample_ethers sample_bls (Uint8Array [])
     (HexString (wireHex sample_ethers (G2 sample_bls) (sample_ex (peval [3, 1] 0)))) 2
       [sample_share 1, sample_share 3]
   = Inr (wireHex sample_ethers (G1 sample_bls) (sample_ex (1 * peval [3, 1] 0)),
       map (\<lambda>s. showInt (sh_index s)) [sample_share 1, sample_share 3])"
  proof (rule aggregate_honest [where m = "[]", OF sample_hex_codec sample_bls_laws])
    show "\<forall>s \<in> set [sample_share 1, sample_share 3].
        honest_share sample_ethers sample_bls sample_ex sample_ex 1 [3, 1] s"
      using sample_share_honest by simp
  qed (simp_all add: sample_bls_def sample_ex_def eqm_def isSafeInteger_def sample_share_def)
  from aggregateThresholdShares_sound [OF this] show ?thesis by simp
qed

text \<open>
  C14: uniqueness, the property that makes a BLS signature a verifiable random function. Two
  signatures that verify for the same message under the same group key are the same bytes.
\<close>

theorem verifyAggregateSignature_unique:
  assumes "hex_codec E" "bls_laws B ex1 ex2 exT"
    "wireBytes E message = Some m" "hashToCurve B m BLS_DST = Inr (ex1 h)" "\<not> eqm (params_r B) h 0"
    "verifyAggregateSignature E B message key s1" "verifyAggregateSignature E B message key s2"
  shows "wireBytes E s1 = wireBytes E s2"
proof -
  note iff = verifyPartialSignature_iff [OF assms(1-5)]
  note G1 = bls_lawsD(2) [OF assms(2)] and G2 = bls_lawsD(3) [OF assms(2)]
  obtain a x where a: "wireBytes E s1 = Some (toRawBytes (G1 B) (ex1 a))"
      "wireBytes E key = Some (toRawBytes (G2 B) (ex2 x))" "eqm (params_r B) a (h * x)"
    using assms(6) unfolding verifyAggregateSignature_eq iff by blast
  obtain b y where b: "wireBytes E s2 = Some (toRawBytes (G1 B) (ex1 b))"
      "wireBytes E key = Some (toRawBytes (G2 B) (ex2 y))" "eqm (params_r B) b (h * y)"
    using assms(7) unfolding verifyAggregateSignature_eq iff by blast
  have "ex2 x = ex2 y" using a(2) b(2) prime_order_groupD(7) [OF G2]
    by (metis option.inject sum.inject(2))
  then have "eqm (params_r B) (h * x) (h * y)" by (simp add: prime_order_groupD(5) [OF G2] eqm_mult)
  then have "ex1 a = ex1 b"
    using a(3) b(3) unfolding prime_order_groupD(5) [OF G1] by (blast intro: eqm_trans eqm_sym)
  then show ?thesis using a(1) b(1) by simp
qed

theorem verifyAggregateSignature_unique_witness:
  "wireBytes sample_ethers (HexString (wireHex sample_ethers (G1 sample_bls) (sample_ex 3)))
   = wireBytes sample_ethers (Uint8Array (toRawBytes (G1 sample_bls) (sample_ex 3)))"
proof (rule verifyAggregateSignature_unique [where m = "[]" and h = 1 and message = "Uint8Array []" and
      key = "HexString (wireHex sample_ethers (G2 sample_bls) (sample_ex 3))",
      OF sample_hex_codec sample_bls_laws])
  show "verifyAggregateSignature sample_ethers sample_bls (Uint8Array [])
      (HexString (wireHex sample_ethers (G2 sample_bls) (sample_ex 3)))
      (HexString (wireHex sample_ethers (G1 sample_bls) (sample_ex 3)))"
    unfolding verifyAggregateSignature_eq
    by (rule verifyPartialSignature_intro [where m = "[]" and h = 1 and x = 3,
          OF sample_hex_codec sample_bls_laws])
      (simp_all add: sample_bls_def sample_ex_def eqm_def)
  show "verifyAggregateSignature sample_ethers sample_bls (Uint8Array [])
      (HexString (wireHex sample_ethers (G2 sample_bls) (sample_ex 3)))
      (Uint8Array (toRawBytes (G1 sample_bls) (sample_ex 3)))"
    unfolding verifyAggregateSignature_eq
    by (rule verifyPartialSignature_intro [where m = "[]" and h = 1 and x = 3,
          OF sample_hex_codec sample_bls_laws])
      (simp_all add: sample_bls_def sample_ex_def eqm_def)
qed (simp_all add: sample_bls_def sample_ex_def eqm_def)

text \<open>
  Lagrange interpolation. For distinct indexes in \<open>[1, r)\<close> every coefficient computed by
  \<open>lagrangeCoefficientAtZero\<close> exists, is a nonzero reduced scalar, and the weighted sum of the
  values of any polynomial with at most as many coefficients is its constant coefficient.
\<close>

theorem lagrangeCoefficientAtZero_interpolates:
  assumes "field_modulus r" "\<forall>j \<in> set indexes. 0 < j \<and> j < r" "distinct indexes"
    "length coefficients \<le> length indexes"
  shows "\<exists>w. (\<forall>i \<in> set indexes. lagrangeCoefficientAtZero r i indexes = Inr (w i) \<and> 0 < w i \<and> w i < r) \<and>
    (\<Sum>i\<leftarrow>indexes. w i * peval coefficients i) mod r = peval coefficients 0 mod r"
  using lagrange_coefficients_interpolate [OF assms] unfolding eqm_mod .

text \<open>
  scalar inversion. \<open>invert\<close> returns for every scalar coprime to the order, the result is the
  unique reduced inverse, and a multiple of the order is rejected with the code's error.
\<close>

theorem invert_spec:
  assumes "1 < r"
  shows "(coprime v r \<longrightarrow> (\<exists>x. invert r v = Inr x \<and> 0 \<le> x \<and> x < r \<and> (x * v) mod r = 1 \<and>
      (\<forall>y. (y * v) mod r = 1 \<longrightarrow> x = y mod r))) \<and>
    (v mod r = 0 \<longrightarrow> invert r v = Inl ''cannot invert zero scalar'')"
proof (intro conjI impI)
  assume c: "coprime v r"
  obtain x where x: "invert r v = Inr x" "0 \<le> x" "x < r" "eqm r (x * v) 1"
    using tc.inverts [OF assms c] by blast
  have "\<forall>y. (y * v) mod r = 1 \<longrightarrow> x = y mod r"
    using tc.inverse_unique [OF assms c] x(1) assms by (simp add: eqm_mod)
  moreover have "(x * v) mod r = 1" using x(4) assms by (simp add: eqm_mod)
  ultimately show "\<exists>x. invert r v = Inr x \<and> 0 \<le> x \<and> x < r \<and> (x * v) mod r = 1 \<and>
      (\<forall>y. (y * v) mod r = 1 \<longrightarrow> x = y mod r)" using x(1-3) by blast
qed (use assms in \<open>simp add: invert_def\<close>)

text \<open>
  C15: Feldman's check. For commitments to the coefficients of a polynomial and an encoded share
  key, \<open>verifyPublicShareCommitment\<close> decides exactly whether the share key is the polynomial's
  value at the index, in the exponent.
\<close>

theorem verifyPublicShareCommitment_correct:
  assumes "hex_codec E" "bls_laws B ex1 ex2 exT"
    "list_all2 (\<lambda>v c. encodes E (G2 B) (ex2 c) v) publicCoefficients cs" "2 \<le> length publicCoefficients"
    "0 < i" "i < params_r B" "encodes E (G2 B) (ex2 y) sharePublicKey" "\<not> eqm (params_r B) y 0"
  shows "verifyPublicShareCommitment E B i sharePublicKey publicCoefficients =
    Inr (y mod params_r B = peval cs i mod params_r B)"
  using assms by (rule verifyPublicShareCommitment_eval)

theorem verifyPublicShareCommitment_correct_witness:
  "verifyPublicShareCommitment sample_ethers sample_bls 2
     (HexString (wireHex sample_ethers (G2 sample_bls) (sample_ex 5)))
     [HexString (wireHex sample_ethers (G2 sample_bls) (sample_ex 3)),
      Uint8Array (toRawBytes (G2 sample_bls) (sample_ex 1))] = Inr True"
proof -
  have "verifyPublicShareCommitment sample_ethers sample_bls 2
     (HexString (wireHex sample_ethers (G2 sample_bls) (sample_ex 5)))
     [HexString (wireHex sample_ethers (G2 sample_bls) (sample_ex 3)),
      Uint8Array (toRawBytes (G2 sample_bls) (sample_ex 1))]
    = Inr (5 mod params_r sample_bls = peval [3, 1] 2 mod params_r sample_bls)"
    by (rule verifyPublicShareCommitment_correct [OF sample_hex_codec sample_bls_laws])
      (simp_all add: sample_bls_def eqm_def)
  then show ?thesis by (simp add: sample_bls_def)
qed

text \<open>
  signing round trip. For a secret share that is nonzero modulo the order, \<open>signPartial\<close> and
  \<open>publicKeyForShare\<close> both return, and the signature verifies under the public key.
\<close>

theorem signPartial_verifies:
  assumes "hex_codec E" "bls_laws B ex1 ex2 exT"
    "wireBytes E message = Some m" "hashToCurve B m BLS_DST = Inr (ex1 h)" "\<not> eqm (params_r B) h 0"
    "\<not> eqm (params_r B) secretShare 0"
  shows "\<exists>pk sig. publicKeyForShare E B secretShare = Inr pk \<and> signPartial E B message secretShare = Inr sig \<and>
    verifyPartialSignature E B message (HexString pk) (HexString sig)"
  using signing_results [OF assms] by blast

end
