(* ===== verification/Canonical_Json.thy ===== *)
theory Canonical_Json
  imports Prelude "HOL-Library.Char_ord" "HOL-Library.List_Lexorder"
begin

section \<open>JSON values and their canonical text\<close>

text \<open>
  The JSON values that the operators exchange (manifests, ceremony messages, audit records) and
  \<open>canonicalJson\<close> of operator/threshold-group.mjs, the text over which every hash and identity
  signature of the threshold protocol is taken. A number is a whole number or \<open>JFrac\<close>, a number that is
  not whole or that prints with an exponent, given by its text; \<open>JUndefined\<close> is the value of a missing field. An object is the list of its fields.
  Characters are single bytes. The theorem at the end is what makes those hashes binding: two values with
  the same canonical text are equal up to the order of object fields.
\<close>

subsection \<open>Values\<close>

datatype json =
    JNull
  | JUndefined
  | JBool bool
  | JInt int
  | JFrac string
  | JStr string
  | JArr "json list"
  | JObj "(string \<times> json) list"

type_synonym fields = "(string \<times> json) list"

text \<open>\<open>value[key]\<close> and \<open>key in value\<close> on the fields of an object.\<close>

definition field :: "fields \<Rightarrow> string \<Rightarrow> json" where
  "field fs k = (case map_of fs k of Some v \<Rightarrow> v | None \<Rightarrow> JUndefined)"

definition has_field :: "fields \<Rightarrow> string \<Rightarrow> bool" where
  "has_field fs k \<longleftrightarrow> k \<in> fst ` set fs"

subsection \<open>JSON.stringify on strings\<close>

definition lowerHex :: "nat \<Rightarrow> char" where
  "lowerHex n = (if n < 10 then char_of (48 + n) else char_of (87 + n))"

definition escapeChar :: "char \<Rightarrow> string" where
  "escapeChar c = (let n = (of_char c :: nat) in
     if n = 34 then [CHR 0x5C, CHR 0x22]
     else if n = 92 then [CHR 0x5C, CHR 0x5C]
     else if n = 8 then [CHR 0x5C, CHR ''b'']
     else if n = 9 then [CHR 0x5C, CHR ''t'']
     else if n = 10 then [CHR 0x5C, CHR ''n'']
     else if n = 12 then [CHR 0x5C, CHR ''f'']
     else if n = 13 then [CHR 0x5C, CHR ''r'']
     else if n < 32 then [CHR 0x5C, CHR ''u'', CHR ''0'', CHR ''0'', lowerHex (n div 16), lowerHex (n mod 16)]
     else [c])"

definition stringify :: "string \<Rightarrow> string" where
  "stringify s = CHR 0x22 # concat (map escapeChar s) @ [CHR 0x22]"

fun join :: "string list \<Rightarrow> string" where
  "join [] = []"
| "join [x] = x"
| "join (x # y # ys) = x @ '','' @ join (y # ys)"

subsection \<open>Conversions of the language\<close>

text \<open>\<open>String(value)\<close>, and whether a value is truthy.\<close>

fun js_string :: "json \<Rightarrow> string" where
  "js_string JNull = ''null''"
| "js_string JUndefined = ''undefined''"
| "js_string (JBool b) = (if b then ''true'' else ''false'')"
| "js_string (JInt n) = showInt n"
| "js_string (JFrac s) = s"
| "js_string (JStr s) = s"
| "js_string (JArr vs) = join (map (\<lambda>v. if v = JNull \<or> v = JUndefined then [] else js_string v) vs)"
| "js_string (JObj kvs) = ''[object Object]''"

fun truthy :: "json \<Rightarrow> bool" where
  "truthy JNull = False"
| "truthy JUndefined = False"
| "truthy (JBool b) = b"
| "truthy (JInt n) = (n \<noteq> 0)"
| "truthy (JStr s) = (s \<noteq> [])"
| "truthy _ = True"

text \<open>
  \<open>JSON.stringify(value)\<close>: a missing value prints as null in an array, a missing field not at all.
\<close>

fun JSON_stringify :: "json \<Rightarrow> string" where
  "JSON_stringify JNull = ''null''"
| "JSON_stringify JUndefined = ''undefined''"
| "JSON_stringify (JBool b) = (if b then ''true'' else ''false'')"
| "JSON_stringify (JInt n) = showInt n"
| "JSON_stringify (JFrac s) = s"
| "JSON_stringify (JStr s) = stringify s"
| "JSON_stringify (JArr vs) = ''['' @ join (map (\<lambda>v. if v = JUndefined then ''null'' else JSON_stringify v) vs) @ '']''"
| "JSON_stringify (JObj kvs) = ''{'' @ join (concat (map (\<lambda>(k, v). if v = JUndefined then []
     else [stringify k @ '':'' @ JSON_stringify v]) kvs)) @ ''}''"

text \<open>A check of the constructor that throws on any other value.\<close>

lemma json_case_result [result_simps]:
  "(case v of JArr vs \<Rightarrow> f vs | _ \<Rightarrow> Inl e) = Inr y \<longleftrightarrow> (\<exists>vs. v = JArr vs \<and> f vs = Inr y)"
  "(case v of JStr s \<Rightarrow> g s | _ \<Rightarrow> Inl e) = Inr y \<longleftrightarrow> (\<exists>s. v = JStr s \<and> g s = Inr y)"
  "(case v of JObj fs \<Rightarrow> h fs | _ \<Rightarrow> Inl e) = Inr y \<longleftrightarrow> (\<exists>fs. v = JObj fs \<and> h fs = Inr y)"
  "(case v of JInt n \<Rightarrow> k n | _ \<Rightarrow> Inl e) = Inr y \<longleftrightarrow> (\<exists>n. v = JInt n \<and> k n = Inr y)"
  by (cases v; simp)+

subsection \<open>canonicalJson\<close>

lemma mapR_cong [fundef_cong]:
  "xs = ys \<Longrightarrow> (\<And>x. x \<in> set ys \<Longrightarrow> f x = g x) \<Longrightarrow> mapR f xs = mapR g ys"
  by (induction xs arbitrary: ys) auto

lemma json_member_size: "kv \<in> set kvs \<Longrightarrow> size (snd kv) < size (JObj kvs)"
  by (induction kvs) auto

lemma json_element_size: "v \<in> set vs \<Longrightarrow> size v < size (JArr vs)"
  by (induction vs) auto

function (sequential) canonicalJson :: "json \<Rightarrow> string result" where
  "canonicalJson JNull = Inr ''null''"
| "canonicalJson (JBool b) = Inr (if b then ''true'' else ''false'')"
| "canonicalJson (JStr s) = Inr (stringify s)"
| "canonicalJson (JInt n) = (if isSafeInteger n then Inr (showInt n)
     else Inl ''manifest contains a non-canonical JSON value'')"
| "canonicalJson (JArr vs) = bindR (mapR canonicalJson vs) (\<lambda>ts. Inr (''['' @ join ts @ '']''))"
| "canonicalJson (JObj kvs) =
     bindR (mapR (\<lambda>kv. bindR (canonicalJson (snd kv)) (\<lambda>t. Inr (stringify (fst kv) @ '':'' @ t))) (sort_key fst kvs))
       (\<lambda>ts. Inr (''{'' @ join ts @ ''}''))"
| "canonicalJson _ = Inl ''manifest contains a non-canonical JSON value''"
  by pat_completeness auto

termination canonicalJson
  by (relation "measure size") (simp_all only: in_measure wf_measure set_sort json_element_size json_member_size)

subsection \<open>Decoding the pieces\<close>

text \<open>An escaped character can be read back from the front of a text.\<close>

definition isDigit :: "char \<Rightarrow> bool" where
  "isDigit c \<longleftrightarrow> 48 \<le> (of_char c :: nat) \<and> (of_char c :: nat) \<le> 57"

definition hexNibble :: "char \<Rightarrow> nat" where
  "hexNibble c = (if isDigit c then of_char c - 48 else of_char c - 87)"

fun unescape :: "string \<Rightarrow> char \<times> string" where
  "unescape [] = (CHR ''x'', [])"
| "unescape (c # cs) =
     (if c \<noteq> CHR 0x5C then (c, cs)
      else (case cs of [] \<Rightarrow> (c, [])
        | e # rest \<Rightarrow>
          if e = CHR ''b'' then (char_of (8 :: nat), rest)
          else if e = CHR ''t'' then (char_of (9 :: nat), rest)
          else if e = CHR ''n'' then (char_of (10 :: nat), rest)
          else if e = CHR ''f'' then (char_of (12 :: nat), rest)
          else if e = CHR ''r'' then (char_of (13 :: nat), rest)
          else if e = CHR ''u'' then (char_of (16 * hexNibble (rest ! 2) + hexNibble (rest ! 3)), drop 4 rest)
          else (e, rest)))"

lemma hexNibble_lowerHex: "n < 16 \<Longrightarrow> hexNibble (lowerHex n) = n"
  by (auto simp: hexNibble_def lowerHex_def isDigit_def)

lemma char_of_eqI: "of_char c = (n :: nat) \<Longrightarrow> char_of n = c"
  by auto

lemma char_of_nat_34: "char_of (34 :: nat) = CHR 0x22" and char_of_nat_92: "char_of (92 :: nat) = CHR 0x5C"
  by code_simp+

lemma unescape_escapeChar: "unescape (escapeChar c @ rest) = (c, rest)"
proof -
  have "char_of (16 * (of_char c div 16) + of_char c mod 16 :: nat) = c" by simp
  moreover have "of_char c = (34 :: nat) \<Longrightarrow> CHR 0x22 = c" "of_char c = (92 :: nat) \<Longrightarrow> CHR 0x5C = c"
    using char_of_eqI [of c 34] char_of_eqI [of c 92] by (simp_all add: char_of_nat_34 char_of_nat_92)
  moreover have "of_char c \<noteq> (92 :: nat) \<Longrightarrow> c \<noteq> CHR 0x5C" by auto
  ultimately show ?thesis
    using char_of_eqI [of c 8] char_of_eqI [of c 9] char_of_eqI [of c 10] char_of_eqI [of c 12] char_of_eqI [of c 13]
    by (simp add: escapeChar_def Let_def hexNibble_lowerHex)
qed

lemma escapeChar_not_quote: "\<exists>e es. escapeChar c = e # es \<and> e \<noteq> CHR 0x22"
  by (auto simp: escapeChar_def Let_def)

lemma escaped_unique:
  "concat (map escapeChar s) @ CHR 0x22 # r = concat (map escapeChar t) @ CHR 0x22 # r' \<Longrightarrow>
     s = t \<and> r = r'"
proof (induction s arbitrary: t)
  case Nil
  then show ?case using escapeChar_not_quote by (cases t) (auto, metis list.inject append_Cons)
next
  case (Cons c s)
  then obtain d t' where t: "t = d # t'"
    using escapeChar_not_quote [of c] by (cases t) auto
  have "unescape (escapeChar c @ concat (map escapeChar s) @ CHR 0x22 # r) =
      unescape (escapeChar d @ concat (map escapeChar t') @ CHR 0x22 # r')"
    using Cons.prems t by simp
  then show ?case using Cons.IH [of t'] t by (simp add: unescape_escapeChar)
qed

lemma stringify_unique: "stringify s @ r = stringify t @ r' \<Longrightarrow> s = t \<and> r = r'"
  by (auto simp: stringify_def dest: escaped_unique)

text \<open>A printed number can be read back when no digit follows.\<close>

fun digits_value :: "string \<Rightarrow> nat \<Rightarrow> nat" where
  "digits_value [] n = n"
| "digits_value (c # cs) n = digits_value cs (10 * n + (of_char c - 48))"

lemma digits_value_append: "digits_value (xs @ [c]) n = 10 * digits_value xs n + (of_char c - 48)"
  by (induction xs arbitrary: n) auto

lemma digits_value_nat: "digits_value (digits_nat n) 0 = n"
proof (induction n rule: digits_nat.induct)
  case (1 n)
  then show ?case
    by (cases "n < 10") (simp_all add: digits_nat.simps [of n] digits_value_append)
qed

lemma digits_nat_digits: "\<forall>c \<in> set (digits_nat n). isDigit c"
proof (induction n rule: digits_nat.induct)
  case (1 n)
  then show ?case
    by (cases "n < 10") (auto simp: digits_nat.simps [of n] isDigit_def)
qed

lemma digits_nat_Nil [simp]: "digits_nat n \<noteq> []"
  by (simp add: digits_nat.simps [of n])

definition delimited :: "string \<Rightarrow> bool" where
  "delimited r \<longleftrightarrow> r = [] \<or> hd r \<in> {CHR '','', CHR '']'', CHR ''}''}"

lemma delimited_simps [simp]:
  "delimited []" "delimited (CHR '','' # r)" "delimited (CHR '']'' # r)" "delimited (CHR ''}'' # r)"
  by (simp_all add: delimited_def)

lemma takeWhile_digits:
  assumes "delimited r"
  shows "takeWhile isDigit (digits_nat n @ r) = digits_nat n"
proof -
  have "takeWhile isDigit r = []"
    using assms by (cases r) (auto simp: delimited_def isDigit_def)
  then show ?thesis using digits_nat_digits by simp
qed

lemma digits_nat_unique:
  assumes "delimited r" "delimited r'" "digits_nat n @ r = digits_nat m @ r'"
  shows "n = m \<and> r = r'"
proof -
  have "digits_nat n = digits_nat m"
    using assms takeWhile_digits by metis
  then show ?thesis using assms(3) digits_value_nat by (metis same_append_eq)
qed

lemma showInt_unique:
  assumes "delimited r" "delimited r'" "showInt n @ r = showInt m @ r'"
  shows "n = m \<and> r = r'"
proof -
  have first: "\<exists>d ds. digits_nat k = d # ds \<and> d \<noteq> CHR ''-''" for k
    using digits_nat_digits [of k] by (cases "digits_nat k") (auto simp: isDigit_def)
  note u = digits_nat_unique [OF assms(1,2)]
  show ?thesis
  proof (cases "n < 0"; cases "m < 0")
    assume "n < 0" "m < 0"
    then show ?thesis using assms(3) u [of "nat (- n)" "nat (- m)"] by (simp add: showInt_def) linarith
  next
    assume "\<not> n < 0" "\<not> m < 0"
    then show ?thesis using assms(3) u [of "nat n" "nat m"] by (simp add: showInt_def) linarith
  qed (use assms(3) first [of "nat n"] first [of "nat m"] in \<open>auto simp: showInt_def\<close>)
qed

subsection \<open>Values up to the order of fields\<close>

function (sequential) sorted_fields :: "json \<Rightarrow> json" where
  "sorted_fields (JArr vs) = JArr (map sorted_fields vs)"
| "sorted_fields (JObj kvs) = JObj (map (\<lambda>kv. (fst kv, sorted_fields (snd kv))) (sort_key fst kvs))"
| "sorted_fields v = v"
  by pat_completeness auto

termination sorted_fields
  by (relation "measure size") (simp_all only: in_measure wf_measure set_sort json_element_size json_member_size)

text \<open>The text of a value whose fields are in order, and the values that have one.\<close>

function (sequential) text_of :: "json \<Rightarrow> string" where
  "text_of JNull = ''null''"
| "text_of (JBool b) = (if b then ''true'' else ''false'')"
| "text_of (JStr s) = stringify s"
| "text_of (JInt n) = showInt n"
| "text_of (JArr vs) = ''['' @ join (map text_of vs) @ '']''"
| "text_of (JObj kvs) = ''{'' @ join (map (\<lambda>kv. stringify (fst kv) @ '':'' @ text_of (snd kv)) kvs) @ ''}''"
| "text_of _ = []"
  by pat_completeness auto

termination text_of
  by (relation "measure size") (simp_all only: in_measure wf_measure json_element_size json_member_size)

function (sequential) has_text :: "json \<Rightarrow> bool" where
  "has_text (JInt n) \<longleftrightarrow> isSafeInteger n"
| "has_text (JArr vs) \<longleftrightarrow> (\<forall>v \<in> set vs. has_text v)"
| "has_text (JObj kvs) \<longleftrightarrow> (\<forall>kv \<in> set kvs. has_text (snd kv))"
| "has_text JUndefined \<longleftrightarrow> False"
| "has_text (JFrac s) \<longleftrightarrow> False"
| "has_text JNull \<longleftrightarrow> True"
| "has_text (JBool b) \<longleftrightarrow> True"
| "has_text (JStr s) \<longleftrightarrow> True"
  by pat_completeness auto

termination has_text
  by (relation "measure size") (simp_all only: in_measure wf_measure json_element_size json_member_size)

lemma mapR_Inr_all:
  "mapR f xs = Inr ys \<Longrightarrow> (\<And>x y. x \<in> set xs \<Longrightarrow> f x = Inr y \<Longrightarrow> P x \<and> y = g x) \<Longrightarrow>
     (\<forall>x \<in> set xs. P x) \<and> ys = map g xs"
  by (induction xs arbitrary: ys) (auto simp: result_simps)

lemma canonicalJson_text:
  "canonicalJson v = Inr t \<Longrightarrow> has_text (sorted_fields v) \<and> t = text_of (sorted_fields v)"
proof (induction v arbitrary: t rule: canonicalJson.induct)
  case (4 n)
  then show ?case by (auto split: if_splits)
next
  case (5 vs)
  then obtain ts where ts: "mapR canonicalJson vs = Inr ts" "t = ''['' @ join ts @ '']''"
    by (auto simp: result_simps)
  from mapR_Inr_all [OF ts(1), of "\<lambda>v. has_text (sorted_fields v)" "\<lambda>v. text_of (sorted_fields v)"] "5.IH"
  have "(\<forall>v \<in> set vs. has_text (sorted_fields v)) \<and> ts = map (\<lambda>v. text_of (sorted_fields v)) vs" by blast
  then show ?case using ts(2) by (simp add: comp_def)
next
  case (6 kvs)
  let ?f = "\<lambda>kv. bindR (canonicalJson (snd kv)) (\<lambda>t. Inr (stringify (fst kv) @ '':'' @ t))"
  obtain ts where ts: "mapR ?f (sort_key fst kvs) = Inr ts" "t = ''{'' @ join ts @ ''}''"
    using "6.prems" by (auto simp: result_simps)
  have "(\<forall>kv \<in> set (sort_key fst kvs). has_text (sorted_fields (snd kv))) \<and>
      ts = map (\<lambda>kv. stringify (fst kv) @ '':'' @ text_of (sorted_fields (snd kv))) (sort_key fst kvs)"
    using "6.IH" by (intro mapR_Inr_all [OF ts(1)]) (auto simp: result_simps)
  then show ?case using ts(2) by (simp add: comp_def)
qed auto

lemma canonicalJson_total: "has_text v \<Longrightarrow> \<exists>t. canonicalJson v = Inr t"
proof (induction v rule: canonicalJson.induct)
  case (5 vs)
  then have "\<forall>v \<in> set vs. \<exists>t. canonicalJson v = Inr t" by simp
  then obtain g where "\<forall>v \<in> set vs. canonicalJson v = Inr (g v)" by metis
  then show ?case by (simp add: mapR_total [of vs canonicalJson g])
next
  case (6 kvs)
  then have "\<forall>kv \<in> set (sort_key fst kvs). \<exists>t. canonicalJson (snd kv) = Inr t" by simp
  then obtain g where "\<forall>kv \<in> set (sort_key fst kvs). canonicalJson (snd kv) = Inr (g kv)" by metis
  then have "mapR (\<lambda>kv. bindR (canonicalJson (snd kv)) (\<lambda>t. Inr (stringify (fst kv) @ '':'' @ t))) (sort_key fst kvs) =
      Inr (map (\<lambda>kv. stringify (fst kv) @ '':'' @ g kv) (sort_key fst kvs))"
    by (intro mapR_total) simp
  then show ?case by (simp only: canonicalJson.simps bindR.simps) blast
qed auto

lemma showInt_first: "\<exists>c cs. showInt n = c # cs \<and> (c = CHR ''-'' \<or> isDigit c)"
proof -
  have "\<exists>d ds. digits_nat k = d # ds \<and> isDigit d" for k
    using digits_nat_digits [of k] by (cases "digits_nat k") auto
  then show ?thesis by (fastforce simp: showInt_def)
qed

lemma text_first:
  assumes "has_text v"
  shows "\<exists>c cs. text_of v = c # cs \<and> c \<notin> {CHR '']'', CHR ''}''}"
proof (cases v)
  case (JInt n)
  then show ?thesis using showInt_first [of n] by (auto simp: isDigit_def)
qed (use assms in \<open>auto simp: stringify_def\<close>)

lemma join_Cons: "join (x # xs) = x @ (if xs = [] then [] else CHR '','' # join xs)"
  by (cases xs) auto

text \<open>A list of texts, each of which can be read back before a delimiter, can be read back.\<close>

lemma join_unique:
  assumes "\<And>x y r r'. x \<in> set xs \<Longrightarrow> y \<in> set ys \<Longrightarrow> delimited r \<Longrightarrow> delimited r' \<Longrightarrow>
      f x @ r = f y @ r' \<Longrightarrow> x = y \<and> r = r'"
    and "\<And>x. x \<in> set xs \<union> set ys \<Longrightarrow> \<exists>c cs. f x = c # cs \<and> c \<notin> {CHR '']'', CHR ''}''}"
    and "close \<in> {CHR '']'', CHR ''}''}"
    and "join (map f xs) @ close # r = join (map f ys) @ close # r'"
  shows "xs = ys \<and> r = r'"
  using assms
proof (induction xs arbitrary: ys)
  case Nil
  then show ?case by (cases ys) (fastforce simp: join_Cons)+
next
  case (Cons x xs)
  obtain y ys' where ys: "ys = y # ys'"
    using Cons.prems(2) [of x] Cons.prems(3,4) by (cases ys) (auto simp: join_Cons)
  let ?t = "\<lambda>zs r. if zs = [] then close # r else CHR '','' # join (map f zs) @ close # r"
  have "f x @ ?t xs r = f y @ ?t ys' r'"
    using Cons.prems(4) by (cases "xs = []"; cases "ys' = []") (simp_all add: join_Cons ys)
  moreover have "delimited (?t xs r)" "delimited (?t ys' r')" using Cons.prems(3) by auto
  ultimately have "x = y \<and> ?t xs r = ?t ys' r'"
    by (rule_tac Cons.prems(1)) (auto simp: ys)
  moreover from this have "(xs = []) = (ys' = [])" using Cons.prems(3) by (auto split: if_splits)
  ultimately show ?case
    using Cons.IH [of ys'] Cons.prems(1-3) by (auto simp: ys split: if_splits)
qed

text \<open>The first character of a text tells the constructor of the value.\<close>

fun kind_of :: "json \<Rightarrow> nat" where
  "kind_of JNull = 0"
| "kind_of (JBool b) = (if b then 1 else 2)"
| "kind_of (JStr s) = 3"
| "kind_of (JArr vs) = 4"
| "kind_of (JObj kvs) = 5"
| "kind_of _ = 6"

definition kind_char :: "char \<Rightarrow> nat" where
  "kind_char c = (if c = CHR ''n'' then 0 else if c = CHR ''t'' then 1 else if c = CHR ''f'' then 2
     else if c = CHR 0x22 then 3 else if c = CHR ''['' then 4 else if c = CHR ''{'' then 5 else 6)"

lemma kind_char_text: "has_text v \<Longrightarrow> kind_char (hd (text_of v @ r)) = kind_of v"
proof (cases v)
  case (JInt n)
  obtain c cs where "showInt n = c # cs" "c = CHR ''-'' \<or> isDigit c" using showInt_first by blast
  then show ?thesis using JInt by (auto simp: kind_char_def isDigit_def)
qed (auto simp: kind_char_def stringify_def)

lemma text_kind:
  assumes "has_text v" "has_text w" "text_of v @ r = text_of w @ r'"
  shows "kind_of v = kind_of w"
  using kind_char_text [OF assms(1), of r] kind_char_text [OF assms(2), of r'] assms(3) by simp

lemma kind_of_iff:
  "has_text w \<Longrightarrow> kind_of w = 0 \<longleftrightarrow> w = JNull"
  "has_text w \<Longrightarrow> kind_of w = (if b then 1 else 2) \<longleftrightarrow> w = JBool b"
  "has_text w \<Longrightarrow> kind_of w = 3 \<longleftrightarrow> (\<exists>s. w = JStr s)"
  "has_text w \<Longrightarrow> kind_of w = 4 \<longleftrightarrow> (\<exists>vs. w = JArr vs)"
  "has_text w \<Longrightarrow> kind_of w = 5 \<longleftrightarrow> (\<exists>kvs. w = JObj kvs)"
  "has_text w \<Longrightarrow> kind_of w = 6 \<longleftrightarrow> (\<exists>n. w = JInt n)"
  by (cases w; auto)+

lemma text_unique:
  assumes "has_text v" "has_text w" "delimited r" "delimited r'" "text_of v @ r = text_of w @ r'"
  shows "v = w \<and> r = r'"
  using assms
proof (induction v arbitrary: w r r' rule: has_text.induct)
  case (1 n)
  then obtain m where w: "w = JInt m"
    using text_kind [of "JInt n" w r r'] kind_of_iff(6) [of w] by auto
  with 1 show ?case by (auto dest: showInt_unique)
next
  case (2 vs)
  then obtain ws where w: "w = JArr ws"
    using text_kind [of "JArr vs" w r r'] kind_of_iff(4) [of w] by auto
  have "\<exists>c cs. text_of x = c # cs \<and> c \<notin> {CHR '']'', CHR ''}''}" if "x \<in> set vs \<union> set ws" for x
    using "2.prems" w that by (intro text_first) auto
  then have "vs = ws \<and> r = r'"
    using 2 w by (intro join_unique [where f = text_of and close = "CHR '']''"]) auto
  with w show ?case by simp
next
  case (3 kvs)
  then obtain ws where w: "w = JObj ws"
    using text_kind [of "JObj kvs" w r r'] kind_of_iff(5) [of w] by auto
  let ?f = "\<lambda>kv. stringify (fst kv) @ '':'' @ text_of (snd kv)"
  have "x = y \<and> s = s'" if "x \<in> set kvs" "y \<in> set ws" "delimited s" "delimited s'" "?f x @ s = ?f y @ s'" for x y s s'
  proof -
    have "fst x = fst y" "text_of (snd x) @ s = text_of (snd y) @ s'"
      using stringify_unique [of "fst x" "'':'' @ text_of (snd x) @ s" "fst y"] that(5) by auto
    then show ?thesis using "3.IH" [OF that(1)] "3.prems"(1,2) that(1-4) w by (auto simp: prod_eq_iff)
  qed
  then have "kvs = ws \<and> r = r'"
    using "3.prems" w by (intro join_unique [where f = ?f and close = "CHR ''}''"]) (auto simp: stringify_def)
  with w show ?case by simp
next
  case 6
  then show ?case using text_kind [of JNull w r r'] kind_of_iff(1) [of w] by auto
next
  case (7 b)
  then show ?case using text_kind [of "JBool b" w r r'] kind_of_iff(2) [of w b] by auto
next
  case (8 s)
  then show ?case using text_kind [of "JStr s" w r r'] kind_of_iff(3) [of w] by (auto dest: stringify_unique)
qed simp_all

subsection \<open>Properties\<close>

text \<open>
  C17: The canonical text determines the value. Whenever \<open>canonicalJson\<close> gives the same text for two values, they are the
  same value up to the order in which objects list their fields, at every depth; in particular it does not
  depend on that order. A hash over the text therefore binds every field of a manifest, ceremony message
  or audit record.
\<close>

theorem canonicalJson_injective:
  assumes "canonicalJson v = Inr t" "canonicalJson w = Inr t"
  shows "sorted_fields v = sorted_fields w"
  using canonicalJson_text [OF assms(1)] canonicalJson_text [OF assms(2)]
    text_unique [of "sorted_fields v" "sorted_fields w" "[]" "[]"] by simp

theorem canonicalJson_injective_witness:
  "sorted_fields (JObj [(''b'', JArr [JInt 12, JNull]), (''a'', JStr ''x'')]) =
   sorted_fields (JObj [(''a'', JStr ''x''), (''b'', JArr [JInt 12, JNull])])"
  by (rule canonicalJson_injective
      [where t = "''{'' @ stringify ''a'' @ '':'' @ stringify ''x'' @ '','' @ stringify ''b'' @ '':[12,null]}''"])
    code_simp+

end
