(* ===== verification/Threshold_Group.thy ===== *)
theory Threshold_Group
  imports Threshold_Crypto Canonical_Json
begin

section \<open>Group manifests (operator/threshold-group.mjs)\<close>

text \<open>
  The validation of a threshold group's manifest: the exact set of fields, the normalisation of every field,
  the commitments and share keys, the roster, the identity attestations over the manifest hash, and
  for a resharing the hand-off from the previous roster; and the aggregation of the shares of a
  validated group. A manifest is a JSON value; files have been read and parsed.
\<close>

subsection \<open>Field checks\<close>

definition GROUP_FORMAT :: string where
  "GROUP_FORMAT = ''robinhood-proof-vrf-threshold-group/v1''"

definition BLS_SCHEME :: string where
  "BLS_SCHEME = ''THRESHOLD_BLS_UNIQUE_SIGNATURE_V1''"

definition BLS_SCHEME_ID :: "ethers \<Rightarrow> string" where
  "BLS_SCHEME_ID E = keccak256 E (toUtf8Bytes E BLS_SCHEME)"

definition ED25519_SPKI_PREFIX :: bytes where
  "ED25519_SPKI_PREFIX = [0x30, 0x2a, 0x30, 0x05, 0x06, 0x03, 0x2b, 0x65, 0x70, 0x03, 0x21, 0x00]"

definition TOP_LEVEL_KEYS :: "string list" where
  "TOP_LEVEL_KEYS = [''format'', ''scheme'', ''network'', ''chainId'', ''verifierAdapter'', ''ceremony'',
     ''previousManifestHash'', ''epoch'', ''threshold'', ''groupPublicKey'', ''publicCoefficients'', ''keyHash'',
     ''dkgTranscriptHash'', ''softwareCommit'', ''containerDigest'', ''participants'', ''attestations'',
     ''handoffAttestations'']"

definition PARTICIPANT_KEYS :: "string list" where
  "PARTICIPANT_KEYS = [''id'', ''index'', ''identityPublicKey'', ''transportPublicKey'', ''sharePublicKey'',
     ''endpoint'']"

definition ATTESTATION_KEYS :: "string list" where
  "ATTESTATION_KEYS = [''participantId'', ''signature'']"

text \<open>\<open>exactKeys\<close> yields the fields of the object it has accepted.\<close>

definition exactKeys :: "json \<Rightarrow> string list \<Rightarrow> string \<Rightarrow> fields result" where
  "exactKeys value allowed name = (case value of
     JObj fs \<Rightarrow> (case List.find (\<lambda>k. k \<notin> set allowed) (map fst fs) of
         Some k \<Rightarrow> Inl (name @ '' contains unsupported field '' @ k)
       | None \<Rightarrow> (case List.find (\<lambda>k. \<not> has_field fs k) allowed of
           Some k \<Rightarrow> Inl (name @ '' is missing '' @ k)
         | None \<Rightarrow> Inr fs))
   | _ \<Rightarrow> Inl (name @ '' must be an object''))"

definition integer_field :: "json \<Rightarrow> string \<Rightarrow> int \<Rightarrow> int result" where
  "integer_field value name minimum = (case value of
     JInt n \<Rightarrow> if isSafeInteger n \<and> n \<ge> minimum then Inr n
       else Inl (name @ '' must be an integer of at least '' @ showInt minimum)
   | _ \<Rightarrow> Inl (name @ '' must be an integer of at least '' @ showInt minimum))"

definition fixedHex :: "ethers \<Rightarrow> json \<Rightarrow> nat \<Rightarrow> string \<Rightarrow> string result" where
  "fixedHex E value bytes name = (case value of
     JStr s \<Rightarrow> if isHexString E s bytes then Inr (toLowerCase s)
       else Inl (name @ '' must be '' @ showInt (int bytes) @ '' hex bytes'')
   | _ \<Rightarrow> Inl (name @ '' must be '' @ showInt (int bytes) @ '' hex bytes''))"

definition zero_hex :: "string \<Rightarrow> bool" where
  "zero_hex s \<longleftrightarrow> take 2 s = ''0x'' \<and> length s > 2 \<and> (\<forall>c \<in> set (drop 2 s). c = CHR ''0'')"

definition fixedNonzeroHex :: "ethers \<Rightarrow> json \<Rightarrow> nat \<Rightarrow> string \<Rightarrow> string result" where
  "fixedNonzeroHex E value bytes name = bindR (fixedHex E value bytes name) (\<lambda>normalized.
     if zero_hex normalized then Inl (name @ '' cannot be zero'') else Inr normalized)"

definition endpoint :: "'k node \<Rightarrow> json \<Rightarrow> bool \<Rightarrow> string result" where
  "endpoint N value allowLoopback = (case parseUrl N (js_string value) of
     Inl _ \<Rightarrow> Inl ''participant endpoint must be a valid URL''
   | Inr parsed \<Rightarrow>
       (let loopback = url_hostname parsed \<in> {''localhost'', ''127.0.0.1'', ''::1''} in
        if url_protocol parsed \<noteq> ''https:'' \<and> \<not> (allowLoopback \<and> loopback \<and> url_protocol parsed = ''http:'')
        then Inl ''participant endpoint must use HTTPS''
        else if url_username parsed \<noteq> [] \<or> url_password parsed \<noteq> [] \<or> url_hash parsed \<noteq> []
        then Inl ''participant endpoint cannot contain credentials or a fragment''
        else Inr (if url_href parsed \<noteq> [] \<and> last (url_href parsed) = CHR ''/'' then butlast (url_href parsed)
          else url_href parsed)))"

definition adapterKeyHash :: "ethers \<Rightarrow> ('p, 'q, 't) bls \<Rightarrow> json \<Rightarrow> string result" where
  "adapterKeyHash E B groupPublicKey = bindR (fixedHex E groupPublicKey 192 ''groupPublicKey'') (\<lambda>normalizedKey.
     bindR (g2Point E B (HexString normalizedKey) ''group public key'') (\<lambda>_.
     bindR (getBytes E normalizedKey) (\<lambda>b.
     Inr (keccak256 E (encodeBytes32Pair E (BLS_SCHEME_ID E) (keccak256 E b))))))"

text \<open>The regular expressions of the manifest's text fields.\<close>

definition lower_alnum :: "char \<Rightarrow> bool" where
  "lower_alnum c \<longleftrightarrow> isDigit c \<or> 97 \<le> (of_char c :: nat) \<and> (of_char c :: nat) \<le> 122"

definition lower_hex :: "char \<Rightarrow> bool" where
  "lower_hex c \<longleftrightarrow> isDigit c \<or> 97 \<le> (of_char c :: nat) \<and> (of_char c :: nat) \<le> 102"

definition network_name :: "string \<Rightarrow> bool" where
  "network_name s = (case s of [] \<Rightarrow> False
     | c # cs \<Rightarrow> lower_alnum c \<and> 1 \<le> length cs \<and> length cs \<le> 62 \<and>
         (\<forall>d \<in> set cs. lower_alnum d \<or> d = CHR ''-''))"

definition participant_name :: "string \<Rightarrow> bool" where
  "participant_name s = (case s of [] \<Rightarrow> False
     | c # cs \<Rightarrow> lower_alnum c \<and> 1 \<le> length cs \<and> length cs \<le> 62 \<and>
         (\<forall>d \<in> set cs. lower_alnum d \<or> d \<in> {CHR ''.'', CHR ''_'', CHR ''-''}))"

definition commit_name :: "string \<Rightarrow> bool" where
  "commit_name s \<longleftrightarrow> (length s = 40 \<or> length s = 64) \<and> (\<forall>c \<in> set s. lower_hex c)"

definition digest_name :: "string \<Rightarrow> bool" where
  "digest_name s \<longleftrightarrow> take 7 s = ''sha256:'' \<and> length s = 71 \<and> (\<forall>c \<in> set (drop 7 s). lower_hex c)"

subsection \<open>The normalised manifest\<close>

record participant =
  pa_id :: string
  pa_index :: int
  pa_identityPublicKey :: string
  pa_transportPublicKey :: string
  pa_sharePublicKey :: string
  pa_endpoint :: string

record group_body =
  gb_network :: string
  gb_chainId :: int
  gb_verifierAdapter :: string
  gb_ceremony :: string
  gb_previousManifestHash :: "string option"
  gb_epoch :: int
  gb_threshold :: int
  gb_groupPublicKey :: string
  gb_publicCoefficients :: "string list"
  gb_keyHash :: string
  gb_dkgTranscriptHash :: string
  gb_softwareCommit :: json
  gb_containerDigest :: json
  gb_participants :: "participant list"

definition normalize_previous :: "ethers \<Rightarrow> fields \<Rightarrow> int \<Rightarrow> (string \<times> string option) result" where
  "normalize_previous E fs epoch =
     (if field fs ''ceremony'' \<noteq> JStr ''dkg'' \<and> field fs ''ceremony'' \<noteq> JStr ''reshare''
      then Inl ''ceremony must be dkg or reshare''
      else if field fs ''ceremony'' = JStr ''dkg''
      then (if epoch \<noteq> 1 \<or> field fs ''previousManifestHash'' \<noteq> JNull
        then Inl ''initial DKG must use epoch 1 and a null previousManifestHash'' else Inr (''dkg'', None))
      else if epoch < 2 then Inl ''resharing must start at epoch 2 or later''
      else bindR (fixedHex E (field fs ''previousManifestHash'') 32 ''previousManifestHash'') (\<lambda>h.
        Inr (''reshare'', Some h)))"

definition normalize_adapter :: "ethers \<Rightarrow> json \<Rightarrow> string result" where
  "normalize_adapter E value = (case value of
     JStr s \<Rightarrow> (case getAddress E s of
         Inl _ \<Rightarrow> Inl ''verifierAdapter must be a nonzero address''
       | Inr a \<Rightarrow> if toLowerCase a = ''0x'' @ replicate 40 (CHR ''0'')
           then Inl ''verifierAdapter must be a nonzero address'' else Inr a)
   | _ \<Rightarrow> Inl ''verifierAdapter must be a nonzero address'')"

definition infinity_hex :: string where
  "infinity_hex = ''0x40'' @ concat (replicate 191 ''00'')"

definition normalize_coefficient ::
  "ethers \<Rightarrow> ('p, 'q, 't) bls \<Rightarrow> nat \<times> json \<Rightarrow> string result" where
  "normalize_coefficient E B pv =
     (let name = ''publicCoefficients['' @ showInt (int (fst pv)) @ '']'' in
      bindR (fixedHex E (snd pv) 192 name) (\<lambda>commitment.
      bindR (g2CommitmentPoint E B (HexString commitment) name) (\<lambda>_. Inr commitment)))"

definition normalize_coefficients ::
  "ethers \<Rightarrow> ('p, 'q, 't) bls \<Rightarrow> json \<Rightarrow> int \<Rightarrow> string \<Rightarrow> string list result" where
  "normalize_coefficients E B value threshold groupPublicKey = (case value of
     JArr vs \<Rightarrow>
       if int (length vs) \<noteq> threshold
       then Inl ''publicCoefficients must contain exactly threshold G2 commitments''
       else bindR (mapR (normalize_coefficient E B) (enumerate 0 vs)) (\<lambda>publicCoefficients.
         if publicCoefficients = [] \<or> hd publicCoefficients \<noteq> groupPublicKey
         then Inl ''publicCoefficients[0] must equal the group public key''
         else bindR (g2CommitmentPoint E B (HexString (last publicCoefficients)) ''highest public coefficient'') (\<lambda>highest.
           bindR (g2CommitmentPoint E B (HexString infinity_hex) ''point at infinity'') (\<lambda>infinity.
           if highest = infinity then Inl ''highest public coefficient cannot be zero''
           else Inr publicCoefficients)))
   | _ \<Rightarrow> Inl ''publicCoefficients must contain exactly threshold G2 commitments'')"

definition normalize_participant ::
  "ethers \<Rightarrow> ('p, 'q, 't) bls \<Rightarrow> 'k node \<Rightarrow> bool \<Rightarrow> nat \<times> json \<Rightarrow> participant result" where
  "normalize_participant E B N allowLoopback pv =
     (let name = ''participants['' @ showInt (int (fst pv)) @ '']'' in
      bindR (exactKeys (snd pv) PARTICIPANT_KEYS name) (\<lambda>fs.
      (case field fs ''id'' of
         JStr pid \<Rightarrow>
           if \<not> participant_name pid then Inl (name @ ''.id is invalid'')
           else bindR (integer_field (field fs ''index'') (name @ ''.index'') 1) (\<lambda>index.
             bindR (fixedNonzeroHex E (field fs ''identityPublicKey'') 32 (name @ ''.identityPublicKey'')) (\<lambda>identityPublicKey.
             bindR (fixedNonzeroHex E (field fs ''transportPublicKey'') 32 (name @ ''.transportPublicKey'')) (\<lambda>transportPublicKey.
             bindR (fixedHex E (field fs ''sharePublicKey'') 192 (name @ ''.sharePublicKey'')) (\<lambda>sharePublicKey.
             bindR (g2Point E B (HexString sharePublicKey) (name @ ''.sharePublicKey'')) (\<lambda>_.
             bindR (endpoint N (field fs ''endpoint'') allowLoopback) (\<lambda>ep.
             Inr \<lparr>pa_id = pid, pa_index = index, pa_identityPublicKey = identityPublicKey,
               pa_transportPublicKey = transportPublicKey, pa_sharePublicKey = sharePublicKey,
               pa_endpoint = ep\<rparr>))))))
       | _ \<Rightarrow> Inl (name @ ''.id is invalid''))))"

definition check_unique :: "participant list \<Rightarrow> (string \<times> (participant \<Rightarrow> string)) \<Rightarrow> unit result" where
  "check_unique participants fg = (let values = map (snd fg) participants in
     if card (set values) \<noteq> length values then Inl (fst fg @ '' must be unique'') else Inr ())"

definition check_commitment ::
  "ethers \<Rightarrow> ('p, 'q, 't) bls \<Rightarrow> string list \<Rightarrow> participant \<Rightarrow> unit result" where
  "check_commitment E B publicCoefficients p =
     bindR (verifyPublicShareCommitment E B (pa_index p) (HexString (pa_sharePublicKey p))
       (map HexString publicCoefficients)) (\<lambda>ok.
     if \<not> ok then Inl (''share public key for '' @ pa_id p @ '' does not match publicCoefficients'') else Inr ())"

definition check_roster ::
  "ethers \<Rightarrow> ('p, 'q, 't) bls \<Rightarrow> string list \<Rightarrow> participant list \<Rightarrow> unit result" where
  "check_roster E B publicCoefficients participants =
     (if \<exists>k < length participants. pa_index (participants ! k) \<noteq> int k + 1
      then Inl ''participants must be sorted and use contiguous indexes starting at 1''
      else bindR (mapR (check_unique participants)
          [(''participant IDs'', pa_id), (''identity public keys'', pa_identityPublicKey),
           (''transport public keys'', pa_transportPublicKey), (''share public keys'', pa_sharePublicKey),
           (''endpoints'', pa_endpoint)]) (\<lambda>_.
        bindR (mapR (check_commitment E B publicCoefficients) participants) (\<lambda>_. Inr ())))"

definition normalize_roster ::
  "ethers \<Rightarrow> ('p, 'q, 't) bls \<Rightarrow> 'k node \<Rightarrow> bool \<Rightarrow> json \<Rightarrow> int \<Rightarrow> string list \<Rightarrow> participant list result" where
  "normalize_roster E B N allowLoopback value threshold publicCoefficients = (case value of
     JArr vs \<Rightarrow>
       if length vs < 3 \<or> length vs > 31 then Inl ''participants must contain between 3 and 31 operators''
       else if threshold > int (length vs) \<or> threshold * 2 \<le> int (length vs)
       then Inl ''threshold must be a strict majority and cannot exceed the roster size''
       else bindR (mapR (normalize_participant E B N allowLoopback) (enumerate 0 vs)) (\<lambda>participants.
         bindR (check_roster E B publicCoefficients participants) (\<lambda>_. Inr participants))
   | _ \<Rightarrow> Inl ''participants must contain between 3 and 31 operators'')"

definition normalizeBody ::
  "ethers \<Rightarrow> ('p, 'q, 't) bls \<Rightarrow> 'k node \<Rightarrow> bool \<Rightarrow> json \<Rightarrow> group_body result" where
  "normalizeBody E B N allowLoopback manifest =
     bindR (exactKeys manifest TOP_LEVEL_KEYS ''manifest'') (\<lambda>fs.
     if field fs ''format'' \<noteq> JStr GROUP_FORMAT then Inl ''unsupported group manifest format''
     else if field fs ''scheme'' \<noteq> JStr BLS_SCHEME then Inl ''unsupported threshold signature scheme''
     else (case field fs ''network'' of
       JStr network \<Rightarrow>
         if \<not> network_name network then Inl ''network must be a stable lowercase identifier''
         else bindR (integer_field (field fs ''chainId'') ''chainId'' 1) (\<lambda>chainId.
           bindR (integer_field (field fs ''epoch'') ''epoch'' 1) (\<lambda>epoch.
           bindR (integer_field (field fs ''threshold'') ''threshold'' 2) (\<lambda>threshold.
           bindR (normalize_previous E fs epoch) (\<lambda>(ceremony, previousManifestHash).
           bindR (normalize_adapter E (field fs ''verifierAdapter'')) (\<lambda>verifierAdapter.
           bindR (fixedHex E (field fs ''groupPublicKey'') 192 ''groupPublicKey'') (\<lambda>groupPublicKey.
           bindR (g2Point E B (HexString groupPublicKey) ''group public key'') (\<lambda>_.
           bindR (normalize_coefficients E B (field fs ''publicCoefficients'') threshold groupPublicKey) (\<lambda>publicCoefficients.
           bindR (fixedHex E (field fs ''keyHash'') 32 ''keyHash'') (\<lambda>keyHash.
           bindR (adapterKeyHash E B (JStr groupPublicKey)) (\<lambda>expectedKeyHash.
           if keyHash \<noteq> expectedKeyHash then Inl ''keyHash does not match the group public key and scheme''
           else bindR (fixedNonzeroHex E (field fs ''dkgTranscriptHash'') 32 ''dkgTranscriptHash'') (\<lambda>dkgTranscriptHash.
           if \<not> commit_name (js_string (field fs ''softwareCommit''))
           then Inl ''softwareCommit must be a lowercase 40- or 64-character hex commit''
           else if \<not> digest_name (js_string (field fs ''containerDigest''))
           then Inl ''containerDigest must be a pinned sha256 digest''
           else bindR (normalize_roster E B N allowLoopback (field fs ''participants'') threshold publicCoefficients) (\<lambda>participants.
             Inr \<lparr>gb_network = network, gb_chainId = chainId, gb_verifierAdapter = verifierAdapter,
               gb_ceremony = ceremony, gb_previousManifestHash = previousManifestHash, gb_epoch = epoch,
               gb_threshold = threshold, gb_groupPublicKey = groupPublicKey,
               gb_publicCoefficients = publicCoefficients, gb_keyHash = keyHash,
               gb_dkgTranscriptHash = dkgTranscriptHash, gb_softwareCommit = field fs ''softwareCommit'',
               gb_containerDigest = field fs ''containerDigest'', gb_participants = participants\<rparr>))))))))))))
     | _ \<Rightarrow> Inl ''network must be a stable lowercase identifier''))"

definition participant_json :: "participant \<Rightarrow> json" where
  "participant_json p = JObj [(''id'', JStr (pa_id p)), (''index'', JInt (pa_index p)),
     (''identityPublicKey'', JStr (pa_identityPublicKey p)),
     (''transportPublicKey'', JStr (pa_transportPublicKey p)),
     (''sharePublicKey'', JStr (pa_sharePublicKey p)), (''endpoint'', JStr (pa_endpoint p))]"

definition body_json :: "group_body \<Rightarrow> json" where
  "body_json b = JObj [(''format'', JStr GROUP_FORMAT), (''scheme'', JStr BLS_SCHEME),
     (''network'', JStr (gb_network b)), (''chainId'', JInt (gb_chainId b)),
     (''verifierAdapter'', JStr (gb_verifierAdapter b)), (''ceremony'', JStr (gb_ceremony b)),
     (''previousManifestHash'', case gb_previousManifestHash b of None \<Rightarrow> JNull | Some h \<Rightarrow> JStr h),
     (''epoch'', JInt (gb_epoch b)), (''threshold'', JInt (gb_threshold b)),
     (''groupPublicKey'', JStr (gb_groupPublicKey b)),
     (''publicCoefficients'', JArr (map JStr (gb_publicCoefficients b))), (''keyHash'', JStr (gb_keyHash b)),
     (''dkgTranscriptHash'', JStr (gb_dkgTranscriptHash b)), (''softwareCommit'', gb_softwareCommit b),
     (''containerDigest'', gb_containerDigest b),
     (''participants'', JArr (map participant_json (gb_participants b)))]"

definition prepareGroupManifest ::
  "ethers \<Rightarrow> ('p, 'q, 't) bls \<Rightarrow> 'k node \<Rightarrow> bool \<Rightarrow> json \<Rightarrow> (group_body \<times> string) result" where
  "prepareGroupManifest E B N allowLoopback manifest = bindR (normalizeBody E B N allowLoopback manifest) (\<lambda>body.
     bindR (canonicalJson (body_json body)) (\<lambda>text. Inr (body, keccak256 E (toUtf8Bytes E text))))"

definition ed25519PublicKey :: "ethers \<Rightarrow> 'k node \<Rightarrow> string \<Rightarrow> 'k result" where
  "ed25519PublicKey E N rawHex = bindR (getBytes E rawHex) (\<lambda>b. createPublicKey N (ED25519_SPKI_PREFIX @ b))"

subsection \<open>Attestations\<close>

text \<open>One round of the loop of \<open>validateAttestations\<close>; the accepted attesters so far in order.\<close>

definition check_attestation ::
  "ethers \<Rightarrow> 'k node \<Rightarrow> participant list \<Rightarrow> string \<Rightarrow> string \<Rightarrow> string list \<Rightarrow> nat \<times> json \<Rightarrow> string list result" where
  "check_attestation E N participants manifestHash label attesters pv =
     bindR (exactKeys (snd pv) ATTESTATION_KEYS (label @ ''['' @ showInt (int (fst pv)) @ '']'')) (\<lambda>fs.
     (case List.find (\<lambda>p. JStr (pa_id p) = field fs ''participantId'') participants of
        None \<Rightarrow> Inl (label @ '' references unknown participant '' @ js_string (field fs ''participantId''))
      | Some p \<Rightarrow>
          if pa_id p \<in> set attesters then Inl (''duplicate '' @ label @ '' from '' @ pa_id p)
          else bindR (fixedHex E (field fs ''signature'') 64 (label @ '' signature'')) (\<lambda>signature.
            bindR (getBytes E manifestHash) (\<lambda>message.
            bindR (ed25519PublicKey E N (pa_identityPublicKey p)) (\<lambda>key.
            bindR (getBytes E signature) (\<lambda>sig.
            if \<not> ed_verify N message key sig then Inl (''invalid '' @ label @ '' from '' @ pa_id p)
            else Inr (attesters @ [pa_id p])))))))"

definition validateAttestations ::
  "ethers \<Rightarrow> 'k node \<Rightarrow> json \<Rightarrow> participant list \<Rightarrow> int \<Rightarrow> string \<Rightarrow> string \<Rightarrow> string list result" where
  "validateAttestations E N attestations participants required manifestHash label = (case attestations of
     JArr vs \<Rightarrow> bindR (foldR (check_attestation E N participants manifestHash label) [] (enumerate 0 vs)) (\<lambda>attesters.
       if int (length attesters) < required
       then Inl (''at least '' @ showInt required @ '' valid '' @ label @ '' are required'')
       else Inr (sort attesters))
   | _ \<Rightarrow> Inl (label @ '' must be an array''))"

record group_options =
  op_allowLoopback :: bool
  op_previousManifest :: json
  op_trustedPreviousManifestHash :: json

record threshold_group =
  gr_manifest :: group_body
  gr_attestations :: json
  gr_handoffAttestations :: json
  gr_manifestHash :: string
  gr_keyHash :: string
  gr_validAttesters :: "string list"
  gr_validHandoffAttesters :: "string list"

text \<open>The fields a resharing may not change, in the order of the code's loop.\<close>

definition check_unchanged :: "group_body \<Rightarrow> group_body \<Rightarrow> unit result" where
  "check_unchanged body previous =
     (if gb_network body \<noteq> gb_network previous then Inl ''resharing cannot change network''
      else if gb_chainId body \<noteq> gb_chainId previous then Inl ''resharing cannot change chainId''
      else if gb_verifierAdapter body \<noteq> gb_verifierAdapter previous then Inl ''resharing cannot change verifierAdapter''
      else if gb_groupPublicKey body \<noteq> gb_groupPublicKey previous then Inl ''resharing cannot change groupPublicKey''
      else if gb_keyHash body \<noteq> gb_keyHash previous then Inl ''resharing cannot change keyHash''
      else Inr ())"

definition validate_handoff ::
  "ethers \<Rightarrow> ('p, 'q, 't) bls \<Rightarrow> 'k node \<Rightarrow> group_options \<Rightarrow> group_body \<Rightarrow> string \<Rightarrow> json \<Rightarrow> string list result" where
  "validate_handoff E B N opts body manifestHash handoffAttestations =
     (if gb_ceremony body = ''dkg''
      then (if handoffAttestations \<noteq> JArr [] then Inl ''initial DKG cannot contain handoff attestations'' else Inr [])
      else if \<not> truthy (op_previousManifest opts) \<or> \<not> truthy (op_trustedPreviousManifestHash opts)
      then Inl ''resharing requires the previous manifest and its separately trusted hash''
      else bindR (prepareGroupManifest E B N (op_allowLoopback opts) (op_previousManifest opts)) (\<lambda>(previous, previousHash).
        bindR (fixedHex E (op_trustedPreviousManifestHash opts) 32 ''trustedPreviousManifestHash'') (\<lambda>trusted.
        if previousHash \<noteq> trusted \<or> gb_previousManifestHash body \<noteq> Some previousHash
        then Inl ''resharing previous manifest does not match the trusted hash''
        else bindR (check_unchanged body previous) (\<lambda>_.
        if gb_epoch body \<noteq> gb_epoch previous + 1
        then Inl ''resharing epoch must immediately follow the previous epoch''
        else validateAttestations E N handoffAttestations (gb_participants previous) (gb_threshold previous)
          manifestHash ''handoff attestations''))))"

definition validateGroupManifest ::
  "ethers \<Rightarrow> ('p, 'q, 't) bls \<Rightarrow> 'k node \<Rightarrow> json \<Rightarrow> group_options \<Rightarrow> threshold_group result" where
  "validateGroupManifest E B N manifest opts =
     bindR (prepareGroupManifest E B N (op_allowLoopback opts) manifest) (\<lambda>(body, manifestHash).
     (let fs = (case manifest of JObj fs \<Rightarrow> fs | _ \<Rightarrow> []) in
      bindR (validateAttestations E N (field fs ''attestations'') (gb_participants body) (gb_threshold body)
        manifestHash ''identity attestations'') (\<lambda>validAttesters.
      bindR (validate_handoff E B N opts body manifestHash (field fs ''handoffAttestations'')) (\<lambda>validHandoffAttesters.
      Inr \<lparr>gr_manifest = body, gr_attestations = field fs ''attestations'',
        gr_handoffAttestations = field fs ''handoffAttestations'', gr_manifestHash = manifestHash,
        gr_keyHash = gb_keyHash body, gr_validAttesters = validAttesters,
        gr_validHandoffAttesters = validHandoffAttesters\<rparr>))))"

subsection \<open>Aggregation for a validated group\<close>

definition share_from_file ::
  "ethers \<Rightarrow> participant list \<Rightarrow> nat \<times> json \<Rightarrow> share result" where
  "share_from_file E participants pv =
     (let name = ''shares['' @ showInt (int (fst pv)) @ '']'' in
      bindR (exactKeys (snd pv) [''participantId'', ''index'', ''signature''] name) (\<lambda>fs.
      (case List.find (\<lambda>p. JStr (pa_id p) = field fs ''participantId'') participants of
         None \<Rightarrow> Inl (''share '' @ showInt (int (fst pv)) @ '' does not match a manifest participant'')
       | Some p \<Rightarrow>
           if JInt (pa_index p) \<noteq> field fs ''index''
           then Inl (''share '' @ showInt (int (fst pv)) @ '' does not match a manifest participant'')
           else bindR (fixedHex E (field fs ''signature'') 96 (name @ ''.signature'')) (\<lambda>signature.
             Inr \<lparr>sh_index = pa_index p, sh_publicKey = HexString (pa_sharePublicKey p),
               sh_signature = HexString signature\<rparr>))))"

record aggregate_output =
  ag_manifestHash :: string
  ag_keyHash :: string
  ag_message :: string
  ag_signature :: string
  ag_proofData :: string
  ag_shareIndexes :: "string list"

definition aggregateFromFiles ::
  "ethers \<Rightarrow> ('p, 'q, 't) bls \<Rightarrow> 'k node \<Rightarrow> json \<Rightarrow> json \<Rightarrow> group_options \<Rightarrow> aggregate_output result" where
  "aggregateFromFiles E B N manifest shareSet opts =
     bindR (validateGroupManifest E B N manifest opts) (\<lambda>grp.
     bindR (exactKeys shareSet [''manifestHash'', ''message'', ''shares''] ''share set'') (\<lambda>fs.
     bindR (fixedHex E (field fs ''manifestHash'') 32 ''share set manifestHash'') (\<lambda>h.
     if h \<noteq> gr_manifestHash grp then Inl ''share set belongs to a different group manifest''
     else bindR (fixedHex E (field fs ''message'') 32 ''share set message'') (\<lambda>message.
     (case field fs ''shares'' of
        JArr vs \<Rightarrow> bindR (mapR (share_from_file E (gb_participants (gr_manifest grp))) (enumerate 0 vs)) (\<lambda>shares.
          bindR (aggregateThresholdShares E B (HexString message)
            (HexString (gb_groupPublicKey (gr_manifest grp))) (gb_threshold (gr_manifest grp)) shares)
            (\<lambda>(signature, indexes).
          Inr \<lparr>ag_manifestHash = gr_manifestHash grp, ag_keyHash = gr_keyHash grp, ag_message = message,
            ag_signature = signature,
            ag_proofData = encodeBytesPair E (gb_groupPublicKey (gr_manifest grp)) signature,
            ag_shareIndexes = indexes\<rparr>))
      | _ \<Rightarrow> Inl ''share set shares must be an array'')))))"

subsection \<open>What a normalised manifest satisfies\<close>

definition roster_ok ::
  "ethers \<Rightarrow> ('p, 'q, 't) bls \<Rightarrow> string list \<Rightarrow> int \<Rightarrow> participant list \<Rightarrow> bool" where
  "roster_ok E B publicCoefficients threshold ps \<longleftrightarrow>
     3 \<le> length ps \<and> length ps \<le> 31 \<and> threshold \<le> int (length ps) \<and> int (length ps) < 2 * threshold \<and>
     map pa_index ps = map (\<lambda>k. int k + 1) [0..<length ps] \<and>
     distinct (map pa_id ps) \<and> distinct (map pa_identityPublicKey ps) \<and> distinct (map pa_transportPublicKey ps) \<and>
     distinct (map pa_sharePublicKey ps) \<and> distinct (map pa_endpoint ps) \<and>
     (\<forall>p \<in> set ps. verifyPublicShareCommitment E B (pa_index p) (HexString (pa_sharePublicKey p))
        (map HexString publicCoefficients) = Inr True)"

lemma check_unique_Inr [result_simps]: "check_unique ps fg = Inr u \<longleftrightarrow> distinct (map (snd fg) ps)"
proof -
  have "card (set xs) = length xs \<longleftrightarrow> distinct xs" for xs :: "string list"
    using card_distinct distinct_card by blast
  then show ?thesis by (auto simp: check_unique_def Let_def simp del: set_map length_map split: if_splits)
qed

lemma check_commitment_Inr [result_simps]:
  "check_commitment E B cs p = Inr u \<longleftrightarrow> verifyPublicShareCommitment E B (pa_index p)
     (HexString (pa_sharePublicKey p)) (map HexString cs) = Inr True"
  by (auto simp: check_commitment_def result_simps split: if_splits)

lemma mapR_unit_Inr: "mapR (f :: 'a \<Rightarrow> unit result) xs = Inr us \<Longrightarrow> \<forall>x \<in> set xs. f x = Inr ()"
  by (induction xs arbitrary: us) (auto simp: result_simps)

lemma contiguous_indexes:
  "(\<forall>k < length ps. pa_index (ps ! k) = int k + 1) \<Longrightarrow> map pa_index ps = map (\<lambda>k. int k + 1) [0..<length ps]"
  by (intro nth_equalityI) auto

lemma normalize_roster_Inr:
  assumes "normalize_roster E B N al v threshold cs = Inr ps"
  shows "roster_ok E B cs threshold ps"
proof -
  obtain vs where vs: "\<not> length vs < 3" "\<not> length vs > 31" "\<not> threshold > int (length vs)"
      "\<not> threshold * 2 \<le> int (length vs)"
      "mapR (normalize_participant E B N al) (enumerate 0 vs) = Inr ps" "check_roster E B cs ps = Inr ()"
    using assms by (cases v) (auto simp: normalize_roster_def result_simps split: if_splits)
  have len: "length ps = length vs" using mapR_length [OF vs(5)] by simp
  from vs(6) have idx: "\<forall>k < length ps. pa_index (ps ! k) = int k + 1"
    and cm: "\<exists>us. mapR (check_commitment E B cs) ps = Inr us"
    and un: "check_unique ps (''participant IDs'', pa_id) = Inr ()"
      "check_unique ps (''identity public keys'', pa_identityPublicKey) = Inr ()"
      "check_unique ps (''transport public keys'', pa_transportPublicKey) = Inr ()"
      "check_unique ps (''share public keys'', pa_sharePublicKey) = Inr ()"
      "check_unique ps (''endpoints'', pa_endpoint) = Inr ()"
    by (auto simp: check_roster_def result_simps split: if_splits)
  show ?thesis
    using vs(1-4) len contiguous_indexes [OF idx] un cm
    by (auto simp: roster_ok_def result_simps dest: mapR_unit_Inr)
qed

definition body_ok :: "ethers \<Rightarrow> ('p, 'q, 't) bls \<Rightarrow> group_body \<Rightarrow> bool" where
  "body_ok E B b \<longleftrightarrow> 2 \<le> gb_threshold b \<and> 1 \<le> gb_chainId b \<and>
     int (length (gb_publicCoefficients b)) = gb_threshold b \<and>
     hd (gb_publicCoefficients b) = gb_groupPublicKey b \<and>
     roster_ok E B (gb_publicCoefficients b) (gb_threshold b) (gb_participants b) \<and>
     adapterKeyHash E B (JStr (gb_groupPublicKey b)) = Inr (gb_keyHash b) \<and>
     (gb_ceremony b = ''dkg'' \<and> gb_epoch b = 1 \<and> gb_previousManifestHash b = None \<or>
      gb_ceremony b = ''reshare'' \<and> 2 \<le> gb_epoch b \<and> gb_previousManifestHash b \<noteq> None)"

lemma integer_field_Inr [result_simps]:
  "integer_field v name lo = Inr n \<longleftrightarrow> v = JInt n \<and> isSafeInteger n \<and> lo \<le> n"
  by (cases v) (auto simp: integer_field_def)

lemma normalize_coefficients_Inr:
  assumes "normalize_coefficients E B v threshold gpk = Inr cs"
  shows "int (length cs) = threshold \<and> hd cs = gpk"
  using assms by (cases v) (auto simp: normalize_coefficients_def result_simps dest: mapR_length split: if_splits)

lemma normalize_previous_Inr:
  assumes "normalize_previous E fs epoch = Inr (c, h)"
  shows "c = ''dkg'' \<and> epoch = 1 \<and> h = None \<or> c = ''reshare'' \<and> 2 \<le> epoch \<and> h \<noteq> None"
  using assms by (auto simp: normalize_previous_def result_simps split: if_splits)

lemma normalizeBody_Inr:
  assumes "normalizeBody E B N al m = Inr b"
  shows "body_ok E B b"
  using assms
  by (auto simp: normalizeBody_def body_ok_def result_simps split: if_splits json.splits prod.splits
      dest: normalize_coefficients_Inr normalize_previous_Inr normalize_roster_Inr)

lemma prepareGroupManifest_Inr:
  assumes "prepareGroupManifest E B N al m = Inr (b, h)"
  shows "body_ok E B b \<and> (\<exists>t. canonicalJson (body_json b) = Inr t \<and> h = keccak256 E (toUtf8Bytes E t))"
  using assms by (auto simp: prepareGroupManifest_def result_simps dest: normalizeBody_Inr)

subsection \<open>What accepted attestations satisfy\<close>

text \<open>\<open>attested\<close>: the participant's identity key has signed the hash.\<close>

definition attested :: "ethers \<Rightarrow> 'k node \<Rightarrow> string \<Rightarrow> participant \<Rightarrow> bool" where
  "attested E N h p \<longleftrightarrow> (\<exists>message key sig. getBytes E h = Inr message \<and>
     ed25519PublicKey E N (pa_identityPublicKey p) = Inr key \<and> ed_verify N message key sig)"

lemma check_attestation_Inr:
  assumes "check_attestation E N ps h label as pv = Inr bs"
  shows "\<exists>p \<in> set ps. pa_id p \<notin> set as \<and> bs = as @ [pa_id p] \<and> attested E N h p"
  using assms
  by (auto simp: check_attestation_def result_simps attested_def
      split: if_splits dest!: find_SomeD)

lemma foldR_attestations:
  assumes "foldR (check_attestation E N ps h label) [] pvs = Inr as"
  shows "distinct as \<and> (\<forall>a \<in> set as. \<exists>p \<in> set ps. pa_id p = a \<and> attested E N h p)"
  using assms
  by (rule foldR_invariant) (auto dest!: check_attestation_Inr)

lemma validateAttestations_Inr:
  assumes "validateAttestations E N v ps required h label = Inr as"
  shows "distinct as \<and> required \<le> int (length as) \<and> (\<forall>a \<in> set as. \<exists>p \<in> set ps. pa_id p = a \<and> attested E N h p)"
  using assms
  by (cases v) (auto simp: validateAttestations_def result_simps split: if_splits dest!: foldR_attestations)

lemma validateGroupManifest_Inr:
  assumes "validateGroupManifest E B N m opts = Inr g"
  obtains fs where "prepareGroupManifest E B N (op_allowLoopback opts) m = Inr (gr_manifest g, gr_manifestHash g)"
    "validateAttestations E N (field fs ''attestations'') (gb_participants (gr_manifest g))
       (gb_threshold (gr_manifest g)) (gr_manifestHash g) ''identity attestations'' = Inr (gr_validAttesters g)"
    "validate_handoff E B N opts (gr_manifest g) (gr_manifestHash g) (field fs ''handoffAttestations'') =
       Inr (gr_validHandoffAttesters g)"
    "gr_keyHash g = gb_keyHash (gr_manifest g)"
  using assms by (auto simp: validateGroupManifest_def result_simps Let_def split: prod.splits)

lemma share_from_file_Inr:
  assumes "share_from_file E ps pv = Inr s"
  shows "\<exists>p \<in> set ps. sh_index s = pa_index p \<and> sh_publicKey s = HexString (pa_sharePublicKey p)"
  using assms
  by (auto simp: share_from_file_def result_simps Let_def split: if_splits dest!: find_SomeD)

lemma quorums_meet:
  assumes "distinct xs" "distinct ys" "set xs \<subseteq> S" "set ys \<subseteq> S" "finite S"
    "card S < length xs + length ys"
  shows "\<exists>a. a \<in> set xs \<and> a \<in> set ys"
proof (rule ccontr)
  assume "\<not> ?thesis"
  then have "card (set xs \<union> set ys) = length xs + length ys"
    using assms(1,2) by (subst card_Un_disjoint) (auto simp: distinct_card)
  moreover have "card (set xs \<union> set ys) \<le> card S" using assms(3-5) by (intro card_mono) auto
  ultimately show False using assms(6) by linarith
qed

subsection \<open>A concrete group\<close>

text \<open>
  Three operators with threshold two over the sample groups: the polynomial is \<open>3 + x\<close>, the
  group key is 3 and the share keys are 4, 5 and 6.
\<close>

definition sample_node :: "bytes node" where
  "sample_node = \<lparr>createPublicKey = Inr, ed_verify = (\<lambda>m k s. length s = 64), ed_sign = (\<lambda>m k. replicate 64 1),
     parseUrl = (\<lambda>s. Inr \<lparr>url_protocol = ''https:'', url_hostname = s, url_username = [], url_password = [],
        url_hash = [], url_href = s, url_origin = s\<rparr>)\<rparr>"

definition sample_key :: "int \<Rightarrow> string" where
  "sample_key k = wireHex sample_ethers (G2 sample_bls) (sample_ex k)"

definition sample_hex :: "nat \<Rightarrow> nat \<Rightarrow> string" where
  "sample_hex bytes k = ''0x'' @ concat (replicate (bytes - 1) ''00'') @ ''0'' @ digits_nat k"

definition sample_participant :: "nat \<Rightarrow> string \<Rightarrow> json" where
  "sample_participant k name = JObj [(''id'', JStr name), (''index'', JInt (int k)),
     (''identityPublicKey'', JStr (sample_hex 32 k)), (''transportPublicKey'', JStr (sample_hex 32 k)),
     (''sharePublicKey'', JStr (sample_key (3 + int k))), (''endpoint'', JStr name)]"

definition sample_attestation :: "string \<Rightarrow> json" where
  "sample_attestation name = JObj [(''participantId'', JStr name), (''signature'', JStr (sample_hex 64 1))]"

definition sample_manifest_for :: "string \<Rightarrow> json \<Rightarrow> int \<Rightarrow> json list \<Rightarrow> json" where
  "sample_manifest_for ceremony previous epoch handoff = JObj [(''format'', JStr GROUP_FORMAT), (''scheme'', JStr BLS_SCHEME),
     (''network'', JStr ''testnet''), (''chainId'', JInt 1), (''verifierAdapter'', JStr (sample_hex 20 1)),
     (''ceremony'', JStr ceremony), (''previousManifestHash'', previous), (''epoch'', JInt epoch), (''threshold'', JInt 2),
     (''groupPublicKey'', JStr (sample_key 3)), (''publicCoefficients'', JArr [JStr (sample_key 3), JStr (sample_key 1)]),
     (''keyHash'', JStr (keccak256 sample_ethers (replicate 132 0))), (''dkgTranscriptHash'', JStr (sample_hex 32 1)),
     (''softwareCommit'', JStr (replicate 40 (CHR ''a''))),
     (''containerDigest'', JStr (''sha256:'' @ replicate 64 (CHR ''a''))),
     (''participants'', JArr [sample_participant 1 ''aa'', sample_participant 2 ''bb'', sample_participant 3 ''cc'']),
     (''attestations'', JArr [sample_attestation ''cc'', sample_attestation ''aa'']),
     (''handoffAttestations'', JArr handoff)]"

definition sample_manifest :: json where
  "sample_manifest = sample_manifest_for ''dkg'' JNull 1 []"

definition sample_options :: group_options where
  "sample_options = \<lparr>op_allowLoopback = False, op_previousManifest = JUndefined,
     op_trustedPreviousManifestHash = JUndefined\<rparr>"

lemma sample_key_hex: "fixedHex sample_ethers (JStr (sample_key k)) 192 name = Inr (sample_key k)"
proof -
  have "length (concat (map hexByte bs)) = 2 * length bs" for bs
    by (induction bs) (simp_all add: hexByte_def)
  moreover have "length (toRawBytes (G2 sample_bls) a) = 192" for a
    by (simp add: sample_bls_def sample_group_def)
  ultimately show ?thesis
    by (simp add: fixedHex_def sample_key_def wireHex_def sample_ethers_def sample_getBytes_hexlify
        sample_hexlify_lower) (simp add: sample_hexlify_def)
qed

lemma sample_key_bytes: "getBytes sample_ethers (sample_key k) = Inr (toRawBytes (G2 sample_bls) (sample_ex k))"
  by (simp add: sample_key_def wireHex_def sample_ethers_def sample_getBytes_hexlify)

lemma sample_key_point:
  "\<not> eqm 7 k 0 \<Longrightarrow> g2Point sample_ethers sample_bls (HexString (sample_key k)) name = Inr (sample_ex k)"
  "g2CommitmentPoint sample_ethers sample_bls (HexString (sample_key k)) name = Inr (sample_ex k)"
  using bls_lawsD(3) [OF sample_bls_laws]
  by (auto simp: g2Point_def g2CommitmentPoint_def pointFor_Inr [OF sample_hex_codec] sample_key_def
      wireBytes_wireHex sample_bls_def)

lemma sample_infinity:
  "g2CommitmentPoint sample_ethers sample_bls (HexString infinity_hex) name = Inr 0"
proof -
  have "infinity_hex = sample_key 0" by code_simp
  then show ?thesis using sample_key_point(2) [of 0 name] by (simp only:) (simp add: sample_ex_def)
qed

lemma sample_commitment:
  assumes "k \<in> {1, 2, 3}"
  shows "verifyPublicShareCommitment sample_ethers sample_bls k (HexString (sample_key (3 + k)))
     [HexString (sample_key 3), HexString (sample_key 1)] = Inr True"
  using assms
  by (auto simp: verifyPublicShareCommitment_def sample_key_point eqm_def zdvd_not_zless scalarIndex_def)
    (simp_all add: sample_bls_def sample_group_def sample_ex_def)

lemmas sample_field_rules = sample_key_hex sample_key_bytes sample_key_point sample_infinity

lemma sample_participant_ok:
  assumes "k \<in> {1, 2, 3}" "participant_name name"
  shows "normalize_participant sample_ethers sample_bls sample_node al (j, sample_participant k name) =
    Inr \<lparr>pa_id = name, pa_index = int k, pa_identityPublicKey = sample_hex 32 k,
      pa_transportPublicKey = sample_hex 32 k, pa_sharePublicKey = sample_key (3 + int k),
      pa_endpoint = if name \<noteq> [] \<and> last name = CHR ''/'' then butlast name else name\<rparr>"
proof -
  have "fixedNonzeroHex sample_ethers (JStr (sample_hex 32 k)) 32 n = Inr (sample_hex 32 k)" for n
    using assms(1) by (elim insertE) (simp_all, code_simp+)
  moreover have "\<not> eqm 7 (3 + int k) 0" using assms(1) by (auto simp: eqm_def)
  ultimately show ?thesis
    using assms
    by (auto simp: normalize_participant_def sample_participant_def exactKeys_def PARTICIPANT_KEYS_def has_field_def
        field_def integer_field_def isSafeInteger_def Let_def sample_field_rules endpoint_def sample_node_def)
qed

definition sample_roster_entry :: "nat \<Rightarrow> string \<Rightarrow> participant" where
  "sample_roster_entry k name = \<lparr>pa_id = name, pa_index = int k, pa_identityPublicKey = sample_hex 32 k,
     pa_transportPublicKey = sample_hex 32 k, pa_sharePublicKey = sample_key (3 + int k), pa_endpoint = name\<rparr>"

definition sample_roster :: "participant list" where
  "sample_roster = [sample_roster_entry 1 ''aa'', sample_roster_entry 2 ''bb'', sample_roster_entry 3 ''cc'']"

lemma sample_key_inj: "sample_key a = sample_key b \<Longrightarrow> a mod 7 = b mod 7"
  using sample_key_point(2) [of a "[]"] sample_key_point(2) [of b "[]"] by (simp add: sample_ex_def)

lemma sample_hex_distinct: "distinct [sample_hex 32 1, sample_hex 32 2, sample_hex 32 3]"
  by code_simp

lemma sample_check_roster:
  "check_roster sample_ethers sample_bls [sample_key 3, sample_key 1] sample_roster = Inr ()"
proof -
  have keys: "distinct [sample_key 4, sample_key 5, sample_key 6]" by (auto dest: sample_key_inj)
  have "check_unique sample_roster fg = Inr ()"
    if "fg \<in> {(''participant IDs'', pa_id), (''identity public keys'', pa_identityPublicKey),
           (''transport public keys'', pa_transportPublicKey), (''share public keys'', pa_sharePublicKey),
           (''endpoints'', pa_endpoint)}" for fg
    using that sample_hex_distinct keys
    by (auto simp: check_unique_Inr sample_roster_def sample_roster_entry_def)
  moreover have "check_commitment sample_ethers sample_bls [sample_key 3, sample_key 1] p = Inr ()"
    if "p \<in> set sample_roster" for p
    using that sample_commitment [of 1] sample_commitment [of 2] sample_commitment [of 3]
    by (auto simp: check_commitment_Inr sample_roster_def sample_roster_entry_def)
  moreover have "pa_index (sample_roster ! j) = int j + 1" if "j < length sample_roster" for j
    using that by (auto simp: sample_roster_def sample_roster_entry_def nth_Cons' split: if_splits)
  ultimately show ?thesis
    by (auto simp: check_roster_def mapR_total [where g = "\<lambda>_. ()"])
qed

lemma sample_normalize_roster:
  "normalize_roster sample_ethers sample_bls sample_node False
     (JArr [sample_participant 1 ''aa'', sample_participant 2 ''bb'', sample_participant 3 ''cc'']) 2
     [sample_key 3, sample_key 1] = Inr sample_roster"
proof -
  have names: "participant_name ''aa''" "participant_name ''bb''" "participant_name ''cc''" by code_simp+
  show ?thesis
    using sample_check_roster names
    by (simp add: normalize_roster_def sample_participant_ok sample_roster_def sample_roster_entry_def)
qed

definition sample_body_for :: "string \<Rightarrow> int \<Rightarrow> string option \<Rightarrow> group_body" where
  "sample_body_for ceremony epoch previous = \<lparr>gb_network = ''testnet'', gb_chainId = 1,
     gb_verifierAdapter = sample_hex 20 1, gb_ceremony = ceremony, gb_previousManifestHash = previous,
     gb_epoch = epoch, gb_threshold = 2,
     gb_groupPublicKey = sample_key 3, gb_publicCoefficients = [sample_key 3, sample_key 1],
     gb_keyHash = keccak256 sample_ethers (replicate 132 0), gb_dkgTranscriptHash = sample_hex 32 1,
     gb_softwareCommit = JStr (replicate 40 (CHR ''a'')),
     gb_containerDigest = JStr (''sha256:'' @ replicate 64 (CHR ''a'')), gb_participants = sample_roster\<rparr>"

definition sample_body :: group_body where
  "sample_body = sample_body_for ''dkg'' 1 None"

lemma length_sample_hexlify: "length (sample_hexlify bs) = 2 * length bs + 2"
  by (induction bs) (simp_all add: sample_hexlify_def hexByte_def)

lemma sample_keccak_hex:
  "fixedHex sample_ethers (JStr (keccak256 sample_ethers b)) 32 n = Inr (keccak256 sample_ethers b)"
  by (simp add: fixedHex_def sample_ethers_def sample_getBytes_hexlify sample_hexlify_lower length_sample_hexlify)

lemma sample_body_fields:
  "network_name ''testnet''" "normalize_adapter sample_ethers (JStr (sample_hex 20 1)) = Inr (sample_hex 20 1)"
  "fixedNonzeroHex sample_ethers (JStr (sample_hex 32 1)) 32 n = Inr (sample_hex 32 1)"
  "commit_name (replicate 40 (CHR ''a''))" "digest_name (''sha256:'' @ replicate 64 (CHR ''a''))"
  by code_simp+

lemma sample_adapterKeyHash:
  "adapterKeyHash sample_ethers sample_bls (JStr (sample_key 3)) = Inr (keccak256 sample_ethers (replicate 132 0))"
proof -
  have "\<not> eqm 7 3 0" by (simp add: eqm_def)
  then show ?thesis
    by (simp add: adapterKeyHash_def sample_field_rules BLS_SCHEME_ID_def)
      (simp add: sample_ethers_def length_sample_hexlify)
qed

lemma sample_coefficients:
  "normalize_coefficients sample_ethers sample_bls (JArr [JStr (sample_key 3), JStr (sample_key 1)]) 2 (sample_key 3) =
     Inr [sample_key 3, sample_key 1]"
  by (simp add: normalize_coefficients_def normalize_coefficient_def sample_field_rules sample_ex_def)

lemma sample_normalizeBody:
  assumes "c = ''dkg'' \<and> pv = JNull \<and> ep = 1 \<and> ph = None \<or>
    c = ''reshare'' \<and> ep = 2 \<and> ph = Some (keccak256 sample_ethers b) \<and> pv = JStr (keccak256 sample_ethers b)"
  shows "normalizeBody sample_ethers sample_bls sample_node False (sample_manifest_for c pv ep ho) =
    Inr (sample_body_for c ep ph)"
proof -
  have "\<not> eqm 7 3 0" by (simp add: eqm_def)
  moreover have "1 \<le> ep" "isSafeInteger ep" using assms by (auto simp: isSafeInteger_def)
  ultimately show ?thesis
    using assms
    by (simp add: normalizeBody_def sample_manifest_for_def exactKeys_def TOP_LEVEL_KEYS_def has_field_def field_def
        integer_field_def isSafeInteger_def normalize_previous_def sample_body_fields [simplified] sample_adapterKeyHash
        sample_keccak_hex sample_field_rules sample_coefficients sample_normalize_roster [simplified] sample_body_for_def)
      (auto simp: sample_keccak_hex)
qed

definition sample_hash :: string where
  "sample_hash = (case canonicalJson (body_json sample_body) of
     Inr t \<Rightarrow> keccak256 sample_ethers (toUtf8Bytes sample_ethers t) | Inl e \<Rightarrow> e)"

lemma sample_body_text:
  "isSafeInteger ep \<Longrightarrow> \<exists>t. canonicalJson (body_json (sample_body_for c ep ph)) = Inr t"
  by (cases ph) (simp_all add: body_json_def sample_body_for_def sample_roster_def sample_roster_entry_def
      participant_json_def isSafeInteger_def sort_key_def)

lemma sample_prepare:
  "prepareGroupManifest sample_ethers sample_bls sample_node False sample_manifest = Inr (sample_body, sample_hash)"
  using sample_body_text [of 1 "''dkg''" None] sample_normalizeBody [of "''dkg''" JNull 1 None]
  by (auto simp: prepareGroupManifest_def sample_manifest_def sample_body_def sample_hash_def isSafeInteger_def)

lemma sample_attestations:
  "\<exists>as. validateAttestations sample_ethers sample_node (JArr [sample_attestation ''cc'', sample_attestation ''aa''])
      sample_roster 2 (keccak256 sample_ethers b) label = Inr as"
proof -
  have sig: "fixedHex sample_ethers (JStr (sample_hex 64 (Suc 0))) 64 n = Inr (sample_hex 64 (Suc 0))"
    "\<exists>b. getBytes sample_ethers (sample_hex 64 (Suc 0)) = Inr b \<and> length b = 64" for n
    by (code_simp, rule exI [of _ "replicate 63 0 @ [1]"], code_simp)
  have key: "\<exists>b. getBytes sample_ethers (sample_hex 32 k) = Inr b" if "k \<in> {1, 3}" for k
    using that by (auto simp: isOk_iff [symmetric]) (code_simp+)
  have h: "\<exists>m. getBytes sample_ethers (keccak256 sample_ethers b) = Inr m"
    by (simp add: sample_ethers_def sample_getBytes_hexlify)
  show ?thesis
    using sig(2) key [of 1] key [of 3] h
    by (auto simp: validateAttestations_def check_attestation_def sample_attestation_def exactKeys_def ATTESTATION_KEYS_def
        has_field_def field_def sample_roster_def sample_roster_entry_def sig(1) ed25519PublicKey_def sample_node_def)
qed

lemma sample_manifest_valid:
  "\<exists>g. validateGroupManifest sample_ethers sample_bls sample_node sample_manifest sample_options = Inr g \<and>
     gr_manifest g = sample_body"
proof -
  obtain b where b: "sample_hash = keccak256 sample_ethers b"
    using sample_body_text [of 1 "''dkg''" None]
    by (auto simp: sample_hash_def sample_body_def isSafeInteger_def)
  show ?thesis
    using sample_prepare sample_attestations [of b "''identity attestations''"] unfolding b
    by (auto simp: validateGroupManifest_def sample_options_def sample_manifest_def sample_manifest_for_def field_def
        validate_handoff_def sample_body_def sample_body_for_def)
qed

definition sample_reshare :: json where
  "sample_reshare = sample_manifest_for ''reshare'' (JStr sample_hash) 2
     [sample_attestation ''cc'', sample_attestation ''aa'']"

definition sample_reshare_options :: group_options where
  "sample_reshare_options = \<lparr>op_allowLoopback = False, op_previousManifest = sample_manifest,
     op_trustedPreviousManifestHash = JStr sample_hash\<rparr>"

lemma sample_reshare_valid:
  "\<exists>g. validateGroupManifest sample_ethers sample_bls sample_node sample_reshare sample_reshare_options = Inr g \<and>
     gr_manifest g = sample_body_for ''reshare'' 2 (Some sample_hash)"
proof -
  obtain b where b: "sample_hash = keccak256 sample_ethers b"
    using sample_body_text [of 1 "''dkg''" None]
    by (auto simp: sample_hash_def sample_body_def isSafeInteger_def)
  have ne: "sample_hash \<noteq> []" unfolding b by (simp add: sample_ethers_def sample_hexlify_def)
  obtain t where t: "canonicalJson (body_json (sample_body_for ''reshare'' 2 (Some sample_hash))) = Inr t"
    using sample_body_text [of 2 "''reshare''" "Some sample_hash"] by (auto simp: isSafeInteger_def)
  have prep: "prepareGroupManifest sample_ethers sample_bls sample_node False sample_reshare =
      Inr (sample_body_for ''reshare'' 2 (Some sample_hash), keccak256 sample_ethers (toUtf8Bytes sample_ethers t))"
    using t sample_normalizeBody [of "''reshare''" "JStr sample_hash" 2 "Some sample_hash" b]
    by (simp add: prepareGroupManifest_def sample_reshare_def b)
  have hash: "fixedHex sample_ethers (JStr sample_hash) 32 n = Inr sample_hash" for n
    by (simp add: b sample_keccak_hex)
  have "truthy sample_manifest" "truthy (JStr sample_hash)"
    using ne by (simp_all add: sample_manifest_def sample_manifest_for_def)
  then have handoff: "\<exists>as. validate_handoff sample_ethers sample_bls sample_node sample_reshare_options
      (sample_body_for ''reshare'' 2 (Some sample_hash)) (keccak256 sample_ethers (toUtf8Bytes sample_ethers t))
      (JArr [sample_attestation ''cc'', sample_attestation ''aa'']) = Inr as"
    using sample_attestations [of "toUtf8Bytes sample_ethers t" "''handoff attestations''"] hash
    by (auto simp: validate_handoff_def sample_reshare_options_def sample_prepare sample_body_def check_unchanged_def
        sample_body_for_def)
  show ?thesis
    using prep handoff sample_attestations [of "toUtf8Bytes sample_ethers t" "''identity attestations''"]
    by (auto simp: validateGroupManifest_def sample_reshare_options_def sample_reshare_def sample_manifest_for_def field_def
        sample_body_for_def)
qed

subsection \<open>The manifest hash binds the manifest\<close>

lemma sorted_fields_lookup:
  assumes "sorted_fields (JObj xs) = sorted_fields (JObj ys)" "distinct (map fst xs)" "distinct (map fst ys)"
  shows "map_option sorted_fields (map_of xs k) = map_option sorted_fields (map_of ys k)"
proof -
  have eq: "map_of (map (\<lambda>kv. (fst kv, sorted_fields (snd kv))) (sort_key fst zs)) k =
      map_option sorted_fields (map_of zs k)" if "distinct (map fst zs)" for zs :: fields
  proof -
    have "map_of (sort_key fst zs) = map_of zs"
      using that by (subst map_of_inject_set) (simp_all add: distinct_map)
    moreover have "map_of (map (\<lambda>kv. (fst kv, sorted_fields (snd kv))) ws) k =
        map_option sorted_fields (map_of ws k)" for ws :: fields
      by (induction ws) auto
    ultimately show ?thesis by simp
  qed
  show ?thesis using assms(1) eq [OF assms(2)] eq [OF assms(3)] by simp
qed

lemma participant_json_inj:
  assumes "sorted_fields (participant_json p) = sorted_fields (participant_json q)"
  shows "p = q"
proof -
  have d: "distinct (map fst [(''id'', a), (''index'', b), (''identityPublicKey'', c), (''transportPublicKey'', d),
      (''sharePublicKey'', e), (''endpoint'', f)])" for a b c d e f :: json
    by simp
  note l = sorted_fields_lookup [OF assms [unfolded participant_json_def] d d]
  show ?thesis
    using l [of "''id''"] l [of "''index''"] l [of "''identityPublicKey''"] l [of "''transportPublicKey''"]
      l [of "''sharePublicKey''"] l [of "''endpoint''"]
    by (intro participant.equality) simp_all
qed

definition body_keys :: "string list" where
  "body_keys = [''format'', ''scheme'', ''network'', ''chainId'', ''verifierAdapter'', ''ceremony'',
     ''previousManifestHash'', ''epoch'', ''threshold'', ''groupPublicKey'', ''publicCoefficients'', ''keyHash'',
     ''dkgTranscriptHash'', ''softwareCommit'', ''containerDigest'', ''participants'']"

definition body_values :: "group_body \<Rightarrow> json list" where
  "body_values b = [JStr GROUP_FORMAT, JStr BLS_SCHEME, JStr (gb_network b), JInt (gb_chainId b),
     JStr (gb_verifierAdapter b), JStr (gb_ceremony b),
     (case gb_previousManifestHash b of None \<Rightarrow> JNull | Some h \<Rightarrow> JStr h),
     JInt (gb_epoch b), JInt (gb_threshold b), JStr (gb_groupPublicKey b),
     JArr (map JStr (gb_publicCoefficients b)), JStr (gb_keyHash b), JStr (gb_dkgTranscriptHash b),
     gb_softwareCommit b, gb_containerDigest b, JArr (map participant_json (gb_participants b))]"

lemma body_json_zip: "body_json b = JObj (zip body_keys (body_values b))"
  by (simp add: body_json_def body_keys_def body_values_def)

lemma body_keys_distinct: "distinct body_keys"
  by code_simp

lemma sorted_fields_zip:
  assumes "sorted_fields (JObj (zip ks vs)) = sorted_fields (JObj (zip ks ws))" "distinct ks"
    "length vs = length ks" "length ws = length ks"
  shows "map sorted_fields vs = map sorted_fields ws"
proof (rule nth_equalityI)
  fix j assume "j < length (map sorted_fields vs)"
  then have j: "j < length ks" using assms(3) by simp
  have "map_of (zip ks us) (ks ! j) = Some (us ! j)" if "length us = length ks" for us :: "json list"
    using that j assms(2) by (auto simp: map_of_zip_nth)
  moreover have "map_option sorted_fields (map_of (zip ks vs) (ks ! j)) = map_option sorted_fields (map_of (zip ks ws) (ks ! j))"
    using assms by (intro sorted_fields_lookup) simp_all
  ultimately show "map sorted_fields vs ! j = map sorted_fields ws ! j" using j assms(3,4) by simp
qed (use assms(3,4) in simp)

lemma body_json_inj:
  assumes "sorted_fields (body_json a) = sorted_fields (body_json b)"
  shows "a\<lparr>gb_softwareCommit := x, gb_containerDigest := y\<rparr> = b\<lparr>gb_softwareCommit := x, gb_containerDigest := y\<rparr>"
proof -
  have len: "length (body_values c) = length body_keys" for c by (simp add: body_values_def body_keys_def)
  have eq: "map sorted_fields (body_values a) = map sorted_fields (body_values b)"
    by (rule sorted_fields_zip [OF assms [unfolded body_json_zip] body_keys_distinct len len])
  then have "map (\<lambda>p. sorted_fields (participant_json p)) (gb_participants a) =
      map (\<lambda>p. sorted_fields (participant_json p)) (gb_participants b)"
    by (simp add: body_values_def comp_def)
  then have "gb_participants a = gb_participants b"
    by (rule map_injective) (auto intro: injI participant_json_inj)
  moreover have "gb_publicCoefficients a = gb_publicCoefficients b"
    using eq by (simp add: body_values_def comp_def map_injective inj_def)
  moreover have "gb_previousManifestHash a = gb_previousManifestHash b"
    using eq by (simp add: body_values_def split: option.splits)
  ultimately show ?thesis
    using eq by (intro group_body.equality) (simp_all add: body_values_def)
qed

subsection \<open>Properties\<close>

text \<open>
  C5: What a validated manifest guarantees. The threshold is a strict majority of 3 to 31 operators with indexes
  1, 2, 3, ..., whose ids and identity, transport and share keys are pairwise distinct; every share key lies on
  the committed polynomial, whose constant commitment is the group key; the key hash is that of the group key; and at least a threshold of distinct
  operators of the roster have signed the manifest hash with their identity keys.
\<close>

theorem validateGroupManifest_sound:
  assumes "validateGroupManifest E B N m opts = Inr g"
  shows "body_ok E B (gr_manifest g) \<and> distinct (gr_validAttesters g) \<and>
    gb_threshold (gr_manifest g) \<le> int (length (gr_validAttesters g)) \<and>
    (\<forall>a \<in> set (gr_validAttesters g). \<exists>p \<in> set (gb_participants (gr_manifest g)).
       pa_id p = a \<and> attested E N (gr_manifestHash g) p)"
  using assms
  by (elim validateGroupManifest_Inr) (auto dest!: prepareGroupManifest_Inr validateAttestations_Inr)

theorem validateGroupManifest_sound_witness:
  "\<exists>g. validateGroupManifest sample_ethers sample_bls sample_node sample_manifest sample_options = Inr g \<and>
     body_ok sample_ethers sample_bls (gr_manifest g) \<and> 2 \<le> int (length (gr_validAttesters g))"
proof -
  obtain g where g: "validateGroupManifest sample_ethers sample_bls sample_node sample_manifest sample_options = Inr g"
      "gr_manifest g = sample_body"
    using sample_manifest_valid by blast
  then show ?thesis using validateGroupManifest_sound [OF g(1)] by (auto simp: sample_body_def sample_body_for_def)
qed

text \<open>
  Two validated manifests over the same roster always have an attester in common, so an operator that signs
  only one manifest per ceremony keeps two conflicting ones from both being accepted.
\<close>

theorem validated_quorums_intersect:
  assumes "validateGroupManifest E B N m opts = Inr g" "validateGroupManifest E B N m' opts' = Inr g'"
    "gb_participants (gr_manifest g) = gb_participants (gr_manifest g')"
  shows "\<exists>a. a \<in> set (gr_validAttesters g) \<and> a \<in> set (gr_validAttesters g')"
proof -
  let ?ids = "pa_id ` set (gb_participants (gr_manifest g))"
  have facts: "distinct (gr_validAttesters h) \<and> set (gr_validAttesters h) \<subseteq> pa_id ` set (gb_participants (gr_manifest h)) \<and>
      length (gb_participants (gr_manifest h)) < 2 * length (gr_validAttesters h)"
    if "validateGroupManifest E B N k o' = Inr h" for k o' h
    using that
    by (elim validateGroupManifest_Inr)
      (fastforce dest!: prepareGroupManifest_Inr validateAttestations_Inr simp: body_ok_def roster_ok_def)
  have "card ?ids \<le> length (gb_participants (gr_manifest g))"
    by (metis card_length length_map set_map)
  then show ?thesis
    using facts [OF assms(1)] facts [OF assms(2)] assms(3)
    by (intro quorums_meet [where S = ?ids]) auto
qed

text \<open>
  C10: A validated resharing continues the previous group. The previous manifest is itself well formed and hashes to the trusted hash that the new
  manifest names; network, chain, adapter, group key and key hash are unchanged; the epoch is the next one; and at least the
  previous threshold of the previous operators have signed the new manifest's hash.
\<close>

theorem reshare_continuity:
  assumes "validateGroupManifest E B N m opts = Inr g" "gb_ceremony (gr_manifest g) = ''reshare''"
  shows "\<exists>prev h. prepareGroupManifest E B N (op_allowLoopback opts) (op_previousManifest opts) = Inr (prev, h) \<and>
    body_ok E B prev \<and> op_trustedPreviousManifestHash opts \<noteq> JUndefined \<and>
    fixedHex E (op_trustedPreviousManifestHash opts) 32 ''trustedPreviousManifestHash'' = Inr h \<and>
    gb_previousManifestHash (gr_manifest g) = Some h \<and>
    gb_groupPublicKey (gr_manifest g) = gb_groupPublicKey prev \<and> gb_keyHash (gr_manifest g) = gb_keyHash prev \<and>
    gb_network (gr_manifest g) = gb_network prev \<and> gb_chainId (gr_manifest g) = gb_chainId prev \<and>
    gb_verifierAdapter (gr_manifest g) = gb_verifierAdapter prev \<and>
    gb_epoch (gr_manifest g) = gb_epoch prev + 1 \<and>
    distinct (gr_validHandoffAttesters g) \<and> gb_threshold prev \<le> int (length (gr_validHandoffAttesters g)) \<and>
    (\<forall>a \<in> set (gr_validHandoffAttesters g). \<exists>p \<in> set (gb_participants prev).
       pa_id p = a \<and> attested E N (gr_manifestHash g) p)"
proof -
  obtain fs where h: "validate_handoff E B N opts (gr_manifest g) (gr_manifestHash g) (field fs ''handoffAttestations'') =
       Inr (gr_validHandoffAttesters g)"
    using assms(1) by (elim validateGroupManifest_Inr)
  then show ?thesis
    using assms(2)
    by (auto simp: validate_handoff_def check_unchanged_def result_simps split: if_splits prod.splits
        dest: prepareGroupManifest_Inr dest!: validateAttestations_Inr)
qed

theorem reshare_continuity_witness:
  "\<exists>g. validateGroupManifest sample_ethers sample_bls sample_node sample_reshare sample_reshare_options = Inr g \<and>
     gb_epoch (gr_manifest g) = 2 \<and> gb_groupPublicKey (gr_manifest g) = sample_key 3 \<and>
     2 \<le> int (length (gr_validHandoffAttesters g))"
proof -
  obtain g where g: "validateGroupManifest sample_ethers sample_bls sample_node sample_reshare sample_reshare_options = Inr g"
      "gr_manifest g = sample_body_for ''reshare'' 2 (Some sample_hash)"
    using sample_reshare_valid by blast
  then have "gb_ceremony (gr_manifest g) = ''reshare''" by (simp add: sample_body_for_def)
  from reshare_continuity [OF g(1) this] show ?thesis
    using g by (auto simp: sample_prepare sample_reshare_options_def sample_body_for_def sample_body_def)
qed

text \<open>
  The manifest hash binds the manifest. Two manifests that prepare to the same hash have the same normalised body
  (up to the two build fields, which are passed through as they were written), unless the texts of their bodies are a collision of the hash function.
\<close>

theorem manifestHash_binding:
  assumes "prepareGroupManifest E B N al m = Inr (a, h)" "prepareGroupManifest E B N al' m' = Inr (b, h)"
    and "inj (toUtf8Bytes E)"
  shows "a\<lparr>gb_softwareCommit := x, gb_containerDigest := y\<rparr> = b\<lparr>gb_softwareCommit := x, gb_containerDigest := y\<rparr> \<or>
    (\<exists>t u. canonicalJson (body_json a) = Inr t \<and> canonicalJson (body_json b) = Inr u \<and>
       toUtf8Bytes E t \<noteq> toUtf8Bytes E u \<and> keccak256 E (toUtf8Bytes E t) = keccak256 E (toUtf8Bytes E u))"
proof -
  obtain t u where t: "canonicalJson (body_json a) = Inr t" "canonicalJson (body_json b) = Inr u"
      "h = keccak256 E (toUtf8Bytes E t)" "h = keccak256 E (toUtf8Bytes E u)"
    using prepareGroupManifest_Inr [OF assms(1)] prepareGroupManifest_Inr [OF assms(2)] by auto
  show ?thesis
  proof (cases "t = u")
    case True
    have "sorted_fields (body_json a) = sorted_fields (body_json b)"
      using canonicalJson_text [OF t(1)] canonicalJson_text [OF t(2)] True
        text_unique [of "sorted_fields (body_json a)" "sorted_fields (body_json b)" "[]" "[]"] by simp
    then show ?thesis using body_json_inj by blast
  next
    case False
    then have "toUtf8Bytes E t \<noteq> toUtf8Bytes E u" using assms(3) by (simp add: inj_eq)
    then show ?thesis using t by (intro disjI2 exI [of _ t] exI [of _ u]) simp
  qed
qed

text \<open>
  What \<open>aggregateFromFiles\<close> outputs for a validated group verifies under the group public key of the manifest, for the message
  and the manifest named in the share set, and rests on at least a threshold of partial signatures with distinct
  indexes, each verified under the share key that the manifest lists for its index.
\<close>

theorem aggregateFromFiles_sound:
  assumes "aggregateFromFiles E B N m shareSet opts = Inr out"
  shows "\<exists>g (shares :: share list). validateGroupManifest E B N m opts = Inr g \<and> ag_manifestHash out = gr_manifestHash g \<and>
    verifyAggregateSignature E B (HexString (ag_message out)) (HexString (gb_groupPublicKey (gr_manifest g)))
      (HexString (ag_signature out)) \<and>
    gb_threshold (gr_manifest g) \<le> int (length shares) \<and> distinct (map sh_index shares) \<and>
    (\<forall>s \<in> set shares. verifyPartialSignature E B (HexString (ag_message out)) (sh_publicKey s) (sh_signature s) \<and>
       (\<exists>p \<in> set (gb_participants (gr_manifest g)).
          sh_index s = pa_index p \<and> sh_publicKey s = HexString (pa_sharePublicKey p)))"
proof -
  obtain g fs message vs shares sig ids where a: "validateGroupManifest E B N m opts = Inr g"
      "mapR (share_from_file E (gb_participants (gr_manifest g))) (enumerate 0 vs) = Inr shares"
      "aggregateThresholdShares E B (HexString message) (HexString (gb_groupPublicKey (gr_manifest g)))
         (gb_threshold (gr_manifest g)) shares = Inr (sig, ids)"
      "ag_manifestHash out = gr_manifestHash g" "ag_message out = message" "ag_signature out = sig"
    using assms by (auto simp: aggregateFromFiles_def result_simps split: if_splits)
  have "\<forall>s \<in> set shares. \<exists>p \<in> set (gb_participants (gr_manifest g)).
      sh_index s = pa_index p \<and> sh_publicKey s = HexString (pa_sharePublicKey p)"
    using mapR_set_rev [OF a(2)] share_from_file_Inr by blast
  then show ?thesis
    using a(1) aggregate_sound [OF a(3)] unfolding a(4-6) by (intro exI [of _ g] exI [of _ shares]) auto
qed

definition sample_share_json :: "string \<Rightarrow> int \<Rightarrow> json" where
  "sample_share_json name k = JObj [(''participantId'', JStr name), (''index'', JInt k),
     (''signature'', JStr (wireHex sample_ethers (G1 sample_bls) (sample_ex (3 * (3 + k)))))]"

definition sample_share_set :: json where
  "sample_share_set = JObj [(''manifestHash'', JStr sample_hash), (''message'', JStr (sample_hex 32 1)),
     (''shares'', JArr [sample_share_json ''aa'' 1, sample_share_json ''cc'' 3])]"

lemma sample_aggregate:
  "\<exists>ids. aggregateThresholdShares sample_ethers sample_bls (HexString (sample_hex 32 1)) (HexString (sample_key 3)) 2
     [\<lparr>sh_index = 1, sh_publicKey = HexString (sample_key 4),
        sh_signature = HexString (wireHex sample_ethers (G1 sample_bls) (sample_ex (3 * 4)))\<rparr>,
      \<lparr>sh_index = 3, sh_publicKey = HexString (sample_key 6),
        sh_signature = HexString (wireHex sample_ethers (G1 sample_bls) (sample_ex (3 * 6)))\<rparr>] =
     Inr (wireHex sample_ethers (G1 sample_bls) (sample_ex (3 * 3)), ids)" (is "\<exists>ids. ?agg = _")
proof -
  have bytes: "getBytes sample_ethers (sample_hex 32 1) = Inr (replicate 31 0 @ [1])" by code_simp
  have h: "hashToCurve sample_bls (replicate 31 0 @ [1]) BLS_DST = Inr (sample_ex 3)"
    by (simp add: sample_bls_def sample_ex_def)
  have "?agg = Inr (wireHex sample_ethers (G1 sample_bls) (sample_ex (3 * peval [3, 1] 0)), map (\<lambda>s. showInt (sh_index s))
     [\<lparr>sh_index = 1, sh_publicKey = HexString (sample_key 4),
        sh_signature = HexString (wireHex sample_ethers (G1 sample_bls) (sample_ex (3 * 4)))\<rparr>,
      \<lparr>sh_index = 3, sh_publicKey = HexString (sample_key 6),
        sh_signature = HexString (wireHex sample_ethers (G1 sample_bls) (sample_ex (3 * 6)))\<rparr>])"
  proof (rule aggregate_honest [OF sample_hex_codec sample_bls_laws _ h])
    show "wireBytes sample_ethers (HexString (sample_hex 32 1)) = Some (replicate 31 0 @ [1])"
      by (simp only: wireBytes_def bytes wire.case sum.case)
    show "encodes sample_ethers (G2 sample_bls) (sample_ex (peval [3, 1] 0)) (HexString (sample_key 3))"
      by (simp add: sample_key_def)
  qed (auto simp: honest_share_def sample_key_def sample_bls_def eqm_def isSafeInteger_def)
  then show ?thesis by simp
qed

end
