(* ===== verification/Rpc_Consensus.thy ===== *)
theory Rpc_Consensus
  imports Threshold_Group
begin

section \<open>Independent RPC endpoints (operator/rpc-policy.mjs, operator/rpc.mjs and the consensus checks)\<close>

text \<open>
  The operators never act on the answer of one endpoint. Endpoint URLs are normalised and must have distinct
  origins; each reader of chain state collects one answer per endpoint and stops unless all of them agree. The
  contract of these checks is the locale \<open>agreement\<close>; the consensus functions of the archiver,
  the compact worker and the fee calibration, the nonce reader and (in Threshold\_Node) the canonical
  request reader are its instances.
\<close>

subsection \<open>The contract\<close>

locale agreement =
  fixes decide :: "'a list \<Rightarrow> 'b result"
    and key :: "'a \<Rightarrow> 'k"
    and key_of :: "'b \<Rightarrow> 'k"
  assumes unanimous: "decide xs = Inr y \<Longrightarrow> x \<in> set xs \<Longrightarrow> key x = key_of y"
begin

lemma disagreement_detected: "x \<in> set xs \<Longrightarrow> y \<in> set xs \<Longrightarrow> key x \<noteq> key y \<Longrightarrow> \<exists>e. decide xs = Inl e"
  by (cases "decide xs") (auto, metis unanimous)

text \<open>One honest endpoint suffices: what is accepted is what it answered.\<close>

lemma honest_answer: "decide xs = Inr y \<Longrightarrow> honest \<in> set xs \<Longrightarrow> key_of y = key honest"
  using unanimous by metis

end

subsection \<open>Endpoint URLs\<close>

definition isSpace :: "char \<Rightarrow> bool" where
  "isSpace c \<longleftrightarrow> (of_char c :: nat) \<in> {9, 10, 11, 12, 13, 32, 160}"

definition trim :: "string \<Rightarrow> string" where
  "trim s = rev (dropWhile isSpace (rev (dropWhile isSpace s)))"

fun split_on :: "char \<Rightarrow> string \<Rightarrow> string list" where
  "split_on c [] = [[]]"
| "split_on c (d # ds) = (if d = c then [] # split_on c ds
     else (case split_on c ds of [] \<Rightarrow> [[d]] | w # ws \<Rightarrow> (d # w) # ws))"

definition rpc_item :: "json \<Rightarrow> string result" where
  "rpc_item v = (case v of JStr s \<Rightarrow> Inr (trim s) | JNull \<Rightarrow> Inr [] | JUndefined \<Rightarrow> Inr []
     | _ \<Rightarrow> Inl ''value?.trim is not a function'')"

definition rpc_items :: "json \<Rightarrow> string list result" where
  "rpc_items values = bindR (mapR rpc_item (case values of JArr vs \<Rightarrow> vs
      | v \<Rightarrow> map JStr (split_on (CHR '','') (if truthy v then js_string v else [])))) (\<lambda>items.
    Inr (filter (\<lambda>s. s \<noteq> []) items))"

definition parse_rpc_url :: "'k node \<Rightarrow> string \<Rightarrow> string \<Rightarrow> url result" where
  "parse_rpc_url N label value = (case parseUrl N value of
     Inl _ \<Rightarrow> Inl (label @ '' RPC URL is invalid'')
   | Inr u \<Rightarrow> if url_protocol u \<noteq> ''https:'' \<and>
         \<not> (url_protocol u = ''http:'' \<and> url_hostname u \<in> {''localhost'', ''127.0.0.1'', ''::1''})
       then Inl (label @ '' RPC endpoints must use HTTPS'') else Inr u)"

definition normalizeRpcUrls :: "'k node \<Rightarrow> json \<Rightarrow> nat \<Rightarrow> string \<Rightarrow> bool \<Rightarrow> string list result" where
  "normalizeRpcUrls N values minimum label allowSharedOrigin = bindR (rpc_items values) (\<lambda>items.
     if length items < minimum
     then Inl (label @ '' requires at least '' @ showInt (int minimum) @ '' independent RPC endpoints'')
     else bindR (mapR (parse_rpc_url N label) items) (\<lambda>parsed.
       if card (set (map url_href parsed)) \<noteq> length parsed
       then Inl (label @ '' RPC endpoint URLs must be distinct'')
       else if \<not> allowSharedOrigin \<and> card (set (map url_origin parsed)) \<noteq> length parsed
       then Inl (label @ '' independent RPC endpoints must use distinct origins'')
       else Inr (map url_href parsed)))"

definition rpcOriginCount :: "'k node \<Rightarrow> string list \<Rightarrow> nat result" where
  "rpcOriginCount N rpcUrls = bindR (mapR (parseUrl N) rpcUrls) (\<lambda>us. Inr (card (set (map url_origin us))))"

subsection \<open>Agreement of answers\<close>

definition hex_number :: "string \<Rightarrow> int" where
  "hex_number s = foldl (\<lambda>n c. 16 * n + (case hexValue c of Some d \<Rightarrow> int d | None \<Rightarrow> 0)) 0 s"

definition hex_quantity :: "string \<Rightarrow> bool" where
  "hex_quantity s \<longleftrightarrow> take 2 (toLowerCase s) = ''0x'' \<and> length s > 2 \<and> (\<forall>c \<in> set (drop 2 s). hexValue c \<noteq> None)"

definition rpc_nonce :: "json \<Rightarrow> int result" where
  "rpc_nonce raw = (if \<not> hex_quantity (js_string raw) then Inl ''InvalidRpcNonce''
     else (let nonce = hex_number (drop 2 (js_string raw)) in
       if \<not> isSafeInteger nonce \<or> nonce < 0 then Inl ''InvalidRpcNonce'' else Inr nonce))"

definition pendingNonceConsensus :: "json list \<Rightarrow> int result" where
  "pendingNonceConsensus answers = bindR (mapR rpc_nonce answers) (\<lambda>values.
     if values = [] \<or> (\<exists>v \<in> set values. v \<noteq> hd values) then Inl ''RpcNonceDisagreement''
     else Inr (hd values))"

text \<open>\<open>consensus\<close> of the archiver, \<open>equal\<close> of the compact worker, \<open>assertConsensus\<close> of the calibration.\<close>

definition consensus :: "json list \<Rightarrow> string \<Rightarrow> json result" where
  "consensus values name =
     (if values = [] \<or> (\<exists>v \<in> set values. JSON_stringify v \<noteq> JSON_stringify (hd values))
      then Inl (''ArchiverRpcDisagreement:'' @ name) else Inr (hd values))"

definition compact_equal :: "json list \<Rightarrow> string \<Rightarrow> json result" where
  "compact_equal values label =
     (if values = [] \<or> (\<exists>v \<in> set values. JSON_stringify v \<noteq> JSON_stringify (hd values))
      then Inl (''CompactRpcDisagreement:'' @ label) else Inr (hd values))"

definition assertConsensus :: "json list \<Rightarrow> string \<Rightarrow> unit result" where
  "assertConsensus values label =
     (if \<exists>v \<in> set values. JSON_stringify v \<noteq> JSON_stringify (hd values)
      then Inl (''independent RPC endpoints disagree on '' @ label) else Inr ())"

interpretation archiver_rpc: agreement "\<lambda>xs. consensus xs name" JSON_stringify JSON_stringify for name
  by unfold_locales (auto simp: consensus_def split: if_splits)

interpretation compact_rpc: agreement "\<lambda>xs. compact_equal xs label" JSON_stringify JSON_stringify for label
  by unfold_locales (auto simp: compact_equal_def split: if_splits)

interpretation calibrate_rpc: agreement "\<lambda>xs. bindR (assertConsensus xs label) (\<lambda>_. Inr (hd xs))"
  JSON_stringify JSON_stringify for label
  by unfold_locales (auto simp: assertConsensus_def split: if_splits)

interpretation nonce_rpc: agreement pendingNonceConsensus rpc_nonce "Inr :: int \<Rightarrow> int result"
proof
  fix xs y x
  assume "pendingNonceConsensus xs = Inr y" "x \<in> set xs"
  then obtain vs where "mapR rpc_nonce xs = Inr vs" "\<forall>v \<in> set vs. v = y"
    by (auto simp: pendingNonceConsensus_def result_simps split: if_splits)
  then show "rpc_nonce x = Inr y" using mapR_set [of rpc_nonce xs vs x] \<open>x \<in> set xs\<close> by auto
qed

lemma normalizeRpcUrls_Inr:
  assumes "normalizeRpcUrls N values minimum label False = Inr urls"
  shows "minimum \<le> length urls \<and> distinct urls \<and>
    (\<exists>us. urls = map url_href us \<and> distinct (map url_origin us) \<and>
      (\<forall>u \<in> set us. (\<exists>s. parseUrl N s = Inr u) \<and> (url_protocol u = ''https:'' \<or>
         url_protocol u = ''http:'' \<and> url_hostname u \<in> {''localhost'', ''127.0.0.1'', ''::1''})))"
proof -
  obtain items parsed where p: "\<not> length items < minimum" "mapR (parse_rpc_url N label) items = Inr parsed"
      "card (set (map url_href parsed)) = length parsed" "card (set (map url_origin parsed)) = length parsed"
      "urls = map url_href parsed"
    using assms by (auto simp: normalizeRpcUrls_def result_simps split: if_splits)
  have d: "distinct (map url_href parsed)" "distinct (map url_origin parsed)"
    using p(3,4) by (auto intro!: card_distinct simp del: set_map)
  have "(\<exists>s. parseUrl N s = Inr u) \<and> (url_protocol u = ''https:'' \<or>
      url_protocol u = ''http:'' \<and> url_hostname u \<in> {''localhost'', ''127.0.0.1'', ''::1''})" if "u \<in> set parsed" for u
    using mapR_set_rev [OF p(2) that] by (auto simp: parse_rpc_url_def result_simps split: if_splits)
  then show ?thesis using p d mapR_length [OF p(2)] by auto
qed

subsection \<open>Properties\<close>

text \<open>
  Endpoints are independent. The URLs that \<open>normalizeRpcUrls\<close> returns are at least as many as required, pairwise distinct and
  come from pairwise distinct origins, and each uses HTTPS or plain HTTP on a loopback host.
\<close>

theorem normalizeRpcUrls_independent:
  assumes "normalizeRpcUrls N values minimum label False = Inr urls"
  shows "minimum \<le> length urls \<and> distinct urls \<and>
    (\<exists>us. urls = map url_href us \<and> distinct (map url_origin us) \<and>
      (\<forall>u \<in> set us. (\<exists>s. parseUrl N s = Inr u) \<and> (url_protocol u = ''https:'' \<or>
         url_protocol u = ''http:'' \<and> url_hostname u \<in> {''localhost'', ''127.0.0.1'', ''::1''})))"
  by (rule normalizeRpcUrls_Inr [OF assms])

text \<open>
  No answer of a single endpoint is trusted. When the nonce reader, the archiver's, the compact worker's or the calibration's consensus returns a value,
  every endpoint gave that value; in particular a single honest endpoint fixes it, and any disagreement stops the operation.
\<close>

theorem rpc_agreement:
  "(\<forall>n. pendingNonceConsensus answers = Inr n \<longrightarrow> answers \<noteq> [] \<and> (\<forall>a \<in> set answers. rpc_nonce a = Inr n)) \<and>
   (\<forall>v name. consensus values name = Inr v \<longrightarrow> (\<forall>x \<in> set values. JSON_stringify x = JSON_stringify v)) \<and>
   (\<forall>v label. compact_equal values label = Inr v \<longrightarrow> (\<forall>x \<in> set values. JSON_stringify x = JSON_stringify v)) \<and>
   (\<forall>x \<in> set values. \<forall>y \<in> set values. JSON_stringify x \<noteq> JSON_stringify y \<longrightarrow>
      (\<exists>e. assertConsensus values label' = Inl e))"
proof (intro conjI allI impI ballI)
  fix x y assume "x \<in> set values" "y \<in> set values" "JSON_stringify x \<noteq> JSON_stringify y"
  from calibrate_rpc.disagreement_detected [OF this, of label']
  show "\<exists>e. assertConsensus values label' = Inl e" by (auto simp: result_simps)
next
  show "answers \<noteq> []" if "pendingNonceConsensus answers = Inr n" for n
    using that by (auto simp: pendingNonceConsensus_def)
qed (auto dest: nonce_rpc.unanimous archiver_rpc.unanimous compact_rpc.unanimous)

end
