(* ===== verification/Archiver.thy ===== *)
theory Archiver
  imports Rpc_Consensus Transition
begin

section \<open>The blockhash archiver (operator/archiver.mjs)\<close>

text \<open>
  The archiver stores the block hashes of pending requests before the 256-block window of the chain closes, within a
  fee budget that survives restarts. The state of \<open>ArchiveBudget\<close> is a record whose every change is written to the
  journal file before the method returns; wei amounts are integers (the file holds their decimal text). An endpoint
  is a record of the answers its calls give, each of which may fail. A cycle returns the budget, its statistics and the
  archive transactions it asked for, in order.
\<close>

subsection \<open>The budget journal\<close>

record archived_transaction =
  at_transactionHash :: string
  at_maximumFeeWei :: int
  at_at :: string

record budget_state =
  bs_format :: string
  bs_identity :: json
  bs_maximumWei :: int
  bs_reservedWei :: int
  bs_transactions :: "archived_transaction list"
  bs_lastHead :: "int option"
  bs_coverageGap :: "(int \<times> int) option"
  bs_budgetBlocked :: bool
  bs_missedRequestIds :: "string list"
  bs_reviewRequestIds :: "string list"

definition new_budget :: "json \<Rightarrow> int \<Rightarrow> budget_state" where
  "new_budget ident maximumWei = \<lparr>bs_format = ''proof-vrf-archiver-state/v1'', bs_identity = ident,
     bs_maximumWei = maximumWei, bs_reservedWei = 0, bs_transactions = [], bs_lastHead = None,
     bs_coverageGap = None, bs_budgetBlocked = False, bs_missedRequestIds = [], bs_reviewRequestIds = []\<rparr>"

text \<open>
  The constructor, given the contents of the file if it exists and whether its metadata are safe. It
  yields the state, which is also what the file then holds.
\<close>

definition ArchiveBudget :: "json \<Rightarrow> int \<Rightarrow> bool \<Rightarrow> budget_state option \<Rightarrow> budget_state result" where
  "ArchiveBudget ident maximumWei safeFile file =
     (if maximumWei \<le> 0 then Inl ''archive budget must be positive''
      else bindR (case file of
          Some st \<Rightarrow>
            if \<not> safeFile then Inl ''unsafe archive state file''
            else if bs_format st \<noteq> ''proof-vrf-archiver-state/v1'' \<or>
              JSON_stringify (bs_identity st) \<noteq> JSON_stringify ident \<or> bs_maximumWei st \<noteq> maximumWei
            then Inl ''archive identity/budget differs from durable state'' else Inr st
        | None \<Rightarrow> Inr (new_budget ident maximumWei)) (\<lambda>st.
        if bs_reservedWei st < 0 \<or> bs_reservedWei st > maximumWei then Inl ''invalid archived budget'' else Inr st))"

definition remaining :: "budget_state \<Rightarrow> int" where
  "remaining st = bs_maximumWei st - bs_reservedWei st"

definition reserve :: "int \<Rightarrow> int \<Rightarrow> string \<Rightarrow> string \<Rightarrow> budget_state \<Rightarrow> budget_state \<times> unit result" where
  "reserve gasLimit gasPriceWei transactionHash now st =
     (let cost = gasLimit * gasPriceWei in
      if gasLimit \<le> 0 \<or> gasPriceWei \<le> 0 then (st, Inl ''invalid archive fee reservation'')
      else if cost > remaining st then (st\<lparr>bs_budgetBlocked := True\<rparr>, Inl ''ArchiveBudgetExhausted'')
      else (st\<lparr>bs_reservedWei := bs_reservedWei st + cost,
        bs_transactions := bs_transactions st @ [\<lparr>at_transactionHash = transactionHash, at_maximumFeeWei = cost,
          at_at = now\<rparr>]\<rparr>, Inr ()))"

definition checkpoint :: "int \<Rightarrow> budget_state \<Rightarrow> budget_state" where
  "checkpoint head st =
     (let st' = (case bs_lastHead st of
          Some l \<Rightarrow> if head - l > 192 \<and> bs_coverageGap st = None then st\<lparr>bs_coverageGap := Some (l, head)\<rparr> else st
        | None \<Rightarrow> st)
      in st'\<lparr>bs_lastHead := Some head\<rparr>)"

definition recordMissed :: "string \<Rightarrow> budget_state \<Rightarrow> budget_state" where
  "recordMissed requestId st = (if requestId \<in> set (bs_missedRequestIds st) then st
     else st\<lparr>bs_missedRequestIds := bs_missedRequestIds st @ [requestId]\<rparr>)"

definition recordReview :: "string \<Rightarrow> budget_state \<Rightarrow> budget_state" where
  "recordReview requestId st = (if requestId \<in> set (bs_reviewRequestIds st) then st
     else st\<lparr>bs_reviewRequestIds := bs_reviewRequestIds st @ [requestId]\<rparr>)"

subsection \<open>The decision\<close>

definition ZERO_HASH :: string where
  "ZERO_HASH = ''0x'' @ concat (replicate 32 ''00'')"

datatype archive_action = Finalized | Protected | MissedWindow | Archive | Young

definition archiveDecision :: "int \<Rightarrow> int \<Rightarrow> string \<Rightarrow> int \<Rightarrow> int \<Rightarrow> archive_action" where
  "archiveDecision status requestBlock storedHash head archiveAfterBlocks =
     (if status \<noteq> 1 then Finalized
      else if storedHash \<noteq> ZERO_HASH then Protected
      else (let age = head - requestBlock in
        if age > 256 then MissedWindow else if age \<ge> archiveAfterBlocks then Archive else Young))"

subsection \<open>Endpoints and the snapshot\<close>

record request_view =
  rv_fields :: "json list"
  rv_keyHash :: string
  rv_requestBlock :: int
  rv_status :: int
  rv_maxGasPriceWei :: int

record archive_rpc =
  ar_getBlockNumber :: "int result"
  ar_getBlock :: "int \<Rightarrow> string option result"
  ar_contextBlockNumber :: "int \<Rightarrow> int result"
  ar_events :: "int \<Rightarrow> int \<Rightarrow> json list result"
  ar_getRequest :: "string \<Rightarrow> int \<Rightarrow> request_view result"
  ar_blockhashes :: "int \<Rightarrow> string result"

definition snapshot_of :: "int \<Rightarrow> int \<Rightarrow> archive_rpc \<Rightarrow> (string \<times> json list) result" where
  "snapshot_of fromBlock head p =
     bindR (ar_getBlock p head) (\<lambda>boundary.
     bindR (ar_contextBlockNumber p head) (\<lambda>context.
     bindR (ar_events p fromBlock head) (\<lambda>events.
     (case boundary of None \<Rightarrow> Inl ''ArchiverL2BlockContextMismatch''
      | Some h \<Rightarrow> if context \<noteq> head then Inl ''ArchiverL2BlockContextMismatch'' else Inr (h, events)))))"

definition snapshot_json :: "string \<times> json list \<Rightarrow> json" where
  "snapshot_json s = JObj [(''boundary'', JStr (fst s)), (''events'', JArr (snd s))]"

definition snapshot :: "int \<Rightarrow> archive_rpc list \<Rightarrow> (int \<times> json list) result" where
  "snapshot deploymentBlock providers =
     bindR (mapR ar_getBlockNumber providers) (\<lambda>heads.
     if Max (set heads) - Min (set heads) > 32 then Inl ''ArchiverRpcHeadSkew''
     else (let head = Min (set heads) - 2; fromBlock = max deploymentBlock (head - 511) in
       if head < fromBlock then Inl ''ArchiverWaitingForConfirmations''
       else bindR (mapR (snapshot_of fromBlock head) providers) (\<lambda>results.
         bindR (consensus (map snapshot_json results) ''recent requests and boundary'') (\<lambda>_.
         Inr (head, snd (hd results))))))"

subsection \<open>One cycle\<close>

record observation =
  ob_request :: "json list"
  ob_requestBlock :: int
  ob_status :: int
  ob_maxGasPriceWei :: int
  ob_storedHash :: string

definition observation_json :: "observation \<Rightarrow> json" where
  "observation_json b = JObj [(''request'', JArr (ob_request b)), (''requestBlock'', JStr (showInt (ob_requestBlock b))),
     (''status'', JInt (ob_status b)), (''maxGasPriceWei'', JStr (showInt (ob_maxGasPriceWei b))),
     (''storedHash'', JStr (ob_storedHash b))]"

definition observe :: "string \<Rightarrow> string \<Rightarrow> int \<Rightarrow> archive_rpc \<Rightarrow> observation result" where
  "observe keyHash requestId head p =
     bindR (ar_getRequest p requestId head) (\<lambda>request.
     if toLowerCase (rv_keyHash request) \<noteq> toLowerCase keyHash then Inl ''ArchiverKeyMismatch''
     else bindR (ar_blockhashes p (rv_requestBlock request)) (\<lambda>storedHash.
       Inr \<lparr>ob_request = rv_fields request, ob_requestBlock = rv_requestBlock request, ob_status = rv_status request,
         ob_maxGasPriceWei = rv_maxGasPriceWei request, ob_storedHash = storedHash\<rparr>))"

record archive_stats =
  st_head :: int
  st_cursor :: int
  st_pending :: nat
  st_archived :: nat
  st_protected :: nat
  st_missedWindow :: nat
  st_errors :: "(string \<times> string) list"

record archive_run =
  ru_budget :: budget_state
  ru_stats :: archive_stats
  ru_sent :: "(string \<times> int \<times> int) list"

type_synonym send_archive = "string \<Rightarrow> int \<Rightarrow> int \<Rightarrow> budget_state \<Rightarrow> budget_state \<times> unit result"

definition archive_error :: "string \<Rightarrow> string \<Rightarrow> archive_run \<Rightarrow> archive_run" where
  "archive_error requestId e r = r\<lparr>ru_stats := (ru_stats r)\<lparr>st_errors := st_errors (ru_stats r) @ [(requestId, e)]\<rparr>\<rparr>"

text \<open>The effect of the decision on the run; \<open>fresh\<close> is the refreshed height.\<close>

definition archive_act ::
  "send_archive \<Rightarrow> string \<Rightarrow> observation \<Rightarrow> archive_action \<Rightarrow> archive_run \<Rightarrow> archive_run" where
  "archive_act sendArchive requestId observed action r = (case action of
     Protected \<Rightarrow> r\<lparr>ru_stats := (ru_stats r)\<lparr>st_protected := st_protected (ru_stats r) + 1\<rparr>\<rparr>
   | MissedWindow \<Rightarrow> r\<lparr>ru_stats := (ru_stats r)\<lparr>st_missedWindow := st_missedWindow (ru_stats r) + 1\<rparr>,
       ru_budget := recordMissed requestId (ru_budget r)\<rparr>
   | Archive \<Rightarrow>
       (case sendArchive requestId (ob_requestBlock observed) (ob_maxGasPriceWei observed) (ru_budget r) of
          (b, res) \<Rightarrow> (let r' = r\<lparr>ru_budget := b,
              ru_sent := ru_sent r @ [(requestId, ob_requestBlock observed, ob_maxGasPriceWei observed)]\<rparr> in
            case res of Inl e \<Rightarrow> archive_error requestId e r'
            | Inr _ \<Rightarrow> r'\<lparr>ru_stats := (ru_stats r')\<lparr>st_archived := st_archived (ru_stats r') + 1\<rparr>\<rparr>))
   | _ \<Rightarrow> r)"

definition archive_event ::
  "archive_rpc list \<Rightarrow> string \<Rightarrow> int \<Rightarrow> (string \<Rightarrow> int list result) \<Rightarrow> send_archive \<Rightarrow> int \<Rightarrow> archive_run \<Rightarrow> string \<Rightarrow> archive_run" where
  "archive_event providers keyHash head freshHeads sendArchive after r requestId =
     (case bindR (mapR (observe keyHash requestId head) providers) (\<lambda>observations.
           bindR (consensus (map observation_json observations) ''request and archive'') (\<lambda>_. Inr (hd observations))) of
        Inl e \<Rightarrow> archive_error requestId e r
      | Inr observed \<Rightarrow>
          if ob_status observed \<noteq> 1 then r
          else (let r' = r\<lparr>ru_stats := (ru_stats r)\<lparr>st_pending := st_pending (ru_stats r) + 1\<rparr>\<rparr> in
            case freshHeads requestId of
              Inl e \<Rightarrow> archive_error requestId e r'
            | Inr hs \<Rightarrow> archive_act sendArchive requestId observed
                (archiveDecision (ob_status observed) (ob_requestBlock observed) (ob_storedHash observed)
                  (Max (set hs)) after) r'))"

definition archiveCycle ::
  "archive_rpc list \<Rightarrow> string \<Rightarrow> int \<Rightarrow> (string \<Rightarrow> int list result) \<Rightarrow> send_archive \<Rightarrow> int \<Rightarrow> budget_state \<Rightarrow> archive_run result" where
  "archiveCycle providers keyHash deploymentBlock freshHeads sendArchive after budget =
     bindR (snapshot deploymentBlock providers) (\<lambda>(head, events).
     (let r = foldl (archive_event providers keyHash head freshHeads sendArchive after)
         \<lparr>ru_budget = budget, ru_stats = \<lparr>st_head = head, st_cursor = head + 1, st_pending = 0, st_archived = 0,
            st_protected = 0, st_missedWindow = 0, st_errors = []\<rparr>, ru_sent = []\<rparr>
         (map (\<lambda>e. js_string (case e of JObj fs \<Rightarrow> field fs ''requestId'' | _ \<Rightarrow> JUndefined)) events)
      in Inr (r\<lparr>ru_budget := checkpoint head (ru_budget r)\<rparr>)))"

text \<open>The health verdict of the main loop.\<close>

definition archive_healthy :: "archive_stats \<Rightarrow> budget_state \<Rightarrow> bool" where
  "archive_healthy stats b \<longleftrightarrow> st_missedWindow stats = 0 \<and> st_errors stats = [] \<and> bs_coverageGap b = None \<and>
     \<not> bs_budgetBlocked b \<and> bs_missedRequestIds b = [] \<and> remaining b > 0"

subsection \<open>Runs of the budget\<close>

inductive budget_step :: "budget_state \<Rightarrow> budget_state \<Rightarrow> bool" where
  reserve_step: "budget_step st (fst (reserve gasLimit gasPrice h now st))"
| checkpoint_step: "budget_step st (checkpoint head st)"
| missed_step: "budget_step st (recordMissed rid st)"
| review_step: "budget_step st (recordReview rid st)"
| restart_step: "ArchiveBudget ident m safe (Some st) = Inr st' \<Longrightarrow> budget_step st st'"

inductive_cases budget_stepE: "budget_step st st'"

definition budget_ok :: "budget_state \<Rightarrow> bool" where
  "budget_ok st \<longleftrightarrow> bs_reservedWei st = sum_list (map at_maximumFeeWei (bs_transactions st)) \<and>
     0 \<le> bs_reservedWei st \<and> bs_reservedWei st \<le> bs_maximumWei st \<and>
     (\<forall>t \<in> set (bs_transactions st). 0 < at_maximumFeeWei t)"

definition budget_le :: "budget_state \<Rightarrow> budget_state \<Rightarrow> bool" where
  "budget_le st st' \<longleftrightarrow> bs_maximumWei st' = bs_maximumWei st \<and> bs_identity st' = bs_identity st \<and>
     prefix (bs_transactions st) (bs_transactions st') \<and> bs_reservedWei st \<le> bs_reservedWei st' \<and>
     (bs_budgetBlocked st \<longrightarrow> bs_budgetBlocked st') \<and>
     (bs_coverageGap st \<noteq> None \<longrightarrow> bs_coverageGap st' = bs_coverageGap st) \<and>
     set (bs_missedRequestIds st) \<subseteq> set (bs_missedRequestIds st')"

lemma reserve_ok:
  assumes "budget_ok st"
  shows "budget_ok (fst (reserve gl gp h now st)) \<and> budget_le st (fst (reserve gl gp h now st))"
proof -
  have "0 < gl * gp" if "0 < gl" "0 < gp" using that by simp
  then show ?thesis
    using assms by (auto simp: reserve_def Let_def budget_ok_def budget_le_def remaining_def)
qed

lemma ArchiveBudget_restart: "ArchiveBudget ident m safe (Some st) = Inr st' \<Longrightarrow> st' = st"
  by (auto simp: ArchiveBudget_def result_simps split: if_splits)

lemma budget_step_ok:
  assumes "budget_ok st" "budget_step st st'"
  shows "budget_ok st' \<and> budget_le st st'"
  using assms(2)
proof (cases rule: budget_step.cases)
  case (reserve_step gl gp h now)
  then show ?thesis using reserve_ok [OF assms(1)] by simp
next
  case (restart_step ident m safe)
  then show ?thesis using assms(1) by (auto simp: budget_le_def dest: ArchiveBudget_restart)
qed (use assms(1) in \<open>auto simp: checkpoint_def recordMissed_def recordReview_def budget_ok_def budget_le_def Let_def
    split: option.splits\<close>)

lemma budget_le_refl: "budget_le st st" by (simp add: budget_le_def)

lemma budget_le_trans: "budget_le a b \<Longrightarrow> budget_le b c \<Longrightarrow> budget_le a c"
  by (auto simp: budget_le_def)

interpretation budget_runs: monotone_system budget_step budget_ok budget_le
  by unfold_locales (use budget_step_ok budget_le_refl budget_le_trans in blast)+

subsection \<open>What a cycle asks for\<close>

lemma JSON_stringify_text: "has_text v \<Longrightarrow> JSON_stringify v = text_of v"
proof (induction v rule: has_text.induct)
  case (2 vs)
  then have "map (\<lambda>v. if v = JUndefined then ''null'' else JSON_stringify v) vs = map text_of vs"
    by (auto simp: map_eq_conv)
  then show ?case by (simp only: JSON_stringify.simps text_of.simps)
next
  case (3 kvs)
  then have "(\<lambda>(k, v). if v = JUndefined then [] else [stringify k @ '':'' @ JSON_stringify v]) kv =
      [stringify (fst kv) @ '':'' @ text_of (snd kv)]" if "kv \<in> set kvs" for kv
  proof -
    have "has_text (snd kv)" using "3.prems" that by simp
    then have "snd kv \<noteq> JUndefined" by auto
    then show ?thesis using "3.IH" [OF that \<open>has_text (snd kv)\<close>] by (simp add: case_prod_beta)
  qed
  then have "concat (map (\<lambda>(k, v). if v = JUndefined then [] else [stringify k @ '':'' @ JSON_stringify v]) kvs) =
      map (\<lambda>kv. stringify (fst kv) @ '':'' @ text_of (snd kv)) kvs"
    by (induction kvs) auto
  then show ?case by (simp only: JSON_stringify.simps text_of.simps)
qed auto

text \<open>
  \<open>archivable\<close>: every endpoint sees the request pending under the operator's key, at the block, with no archived hash, and the refreshed height is
  at least \<open>after\<close> and at most 256 blocks past it.
\<close>

definition archivable ::
  "archive_rpc list \<Rightarrow> string \<Rightarrow> int \<Rightarrow> (string \<Rightarrow> int list result) \<Rightarrow> int \<Rightarrow> string \<times> int \<times> int \<Rightarrow> bool" where
  "archivable providers keyHash head freshHeads after s = (case s of (requestId, requestBlock, gas) \<Rightarrow>
     (\<forall>p \<in> set providers. \<exists>b. observe keyHash requestId head p = Inr b \<and> ob_status b = 1 \<and>
        ob_requestBlock b = requestBlock \<and> ob_storedHash b = ZERO_HASH \<and> ob_maxGasPriceWei b = gas) \<and>
     (\<exists>hs. freshHeads requestId = Inr hs \<and> after \<le> Max (set hs) - requestBlock \<and> Max (set hs) - requestBlock \<le> 256))"

lemma observation_json_inj:
  assumes "JSON_stringify (observation_json a) = JSON_stringify (observation_json b)"
    "has_text (observation_json a)" "has_text (observation_json b)"
  shows "a = b"
proof -
  have "observation_json a = observation_json b"
    using assms text_unique [of "observation_json a" "observation_json b" "[]" "[]"]
    by (simp add: JSON_stringify_text)
  then show ?thesis
    using showInt_unique [of "[]" "[]"] by (auto simp: observation_json_def intro!: observation.equality)
qed

definition plain_observations :: "archive_rpc list \<Rightarrow> bool" where
  "plain_observations providers \<longleftrightarrow> (\<forall>p \<in> set providers. \<forall>k rid h b. observe k rid h p = Inr b \<longrightarrow> has_text (observation_json b))"

lemma archive_act_sent:
  "ru_sent (archive_act sendArchive rid b action r) = ru_sent r @ (if action = Archive
     then [(rid, ob_requestBlock b, ob_maxGasPriceWei b)] else [])"
  by (cases action) (auto simp: archive_act_def archive_error_def Let_def split: prod.split sum.split)

lemma observations_agree:
  assumes "plain_observations providers" "mapR (observe k rid head) providers = Inr obs"
    "consensus (map observation_json obs) name = Inr v" "p \<in> set providers"
  shows "observe k rid head p = Inr (hd obs)"
proof -
  obtain b where b: "b \<in> set obs" "observe k rid head p = Inr b" using mapR_set [OF assms(2,4)] by blast
  have hd: "hd obs \<in> set obs" using b(1) by (cases obs) auto
  then obtain q where "q \<in> set providers" "observe k rid head q = Inr (hd obs)"
    using mapR_set_rev [OF assms(2)] by blast
  then have "has_text (observation_json b)" "has_text (observation_json (hd obs))"
    using assms(1,4) b(2) unfolding plain_observations_def by blast+
  moreover have "JSON_stringify (observation_json b) = JSON_stringify (observation_json (hd obs))"
    using archiver_rpc.unanimous [OF assms(3)] b(1) hd by simp
  ultimately show ?thesis using b(2) observation_json_inj by metis
qed

lemma archive_event_sent:
  assumes "plain_observations providers" "s \<in> set (ru_sent (archive_event providers k head fresh send after r rid))"
  shows "s \<in> set (ru_sent r) \<or> archivable providers k head fresh after s"
proof (cases "mapR (observe k rid head) providers")
  case (Inr obs)
  show ?thesis
  proof (cases "consensus (map observation_json obs) ''request and archive''")
    case c: (Inr v)
    note agree = observations_agree [OF assms(1) Inr c]
    show ?thesis
      using assms(2) agree
      by (auto simp: archive_event_def Inr c archive_act_sent archive_error_def Let_def archivable_def archiveDecision_def
          split: if_splits sum.splits)
  qed (use assms Inr in \<open>simp add: archive_event_def archive_error_def\<close>)
qed (use assms in \<open>simp add: archive_event_def archive_error_def\<close>)

lemma archive_events_sent:
  assumes "plain_observations providers"
    "s \<in> set (ru_sent (foldl (archive_event providers k head fresh send after) r rids))"
  shows "s \<in> set (ru_sent r) \<or> archivable providers k head fresh after s"
  using assms(2)
proof (induction rids arbitrary: r)
  case (Cons rid rids)
  then show ?case using archive_event_sent [OF assms(1)] by fastforce
qed simp

subsection \<open>Properties\<close>

text \<open>
  The archiver never plans to spend more than its budget. From a fresh journal, along every sequence of reservations, checkpoints,
  recorded misses and restarts, the maximum fees of all transactions it was allowed to broadcast add up to the reserved amount, which stays
  within the configured maximum; nothing reserved is ever given back, and a blocked budget, a coverage gap and a missed request stay recorded.
\<close>

theorem archive_budget_never_exceeded:
  assumes "ArchiveBudget ident maximumWei safe None = Inr st0" "budget_step\<^sup>*\<^sup>* st0 st"
  shows "sum_list (map at_maximumFeeWei (bs_transactions st)) = bs_reservedWei st \<and>
    bs_reservedWei st \<le> maximumWei \<and> budget_le st0 st"
proof -
  have "budget_ok st0" "bs_maximumWei st0 = maximumWei"
    using assms(1) by (auto simp: ArchiveBudget_def new_budget_def budget_ok_def split: if_splits)
  with budget_runs.reachable_inv [OF assms(2)] budget_runs.reachable_le [OF assms(2)]
  show ?thesis by (auto simp: budget_ok_def budget_le_def)
qed

text \<open>
  What a cycle asks to archive. For every archive transaction a cycle requests, every endpoint saw the request pending under the operator's key at that
  block with no hash archived yet, and the refreshed chain height was at least the configured number of blocks and at most 256 blocks past the request, so the
  block hash is still available on chain.
\<close>

theorem archiveCycle_sends_archivable:
  assumes "archiveCycle providers keyHash deploymentBlock fresh send after budget = Inr r"
    "plain_observations providers" "s \<in> set (ru_sent r)"
  shows "archivable providers keyHash (st_head (ru_stats r)) fresh after s"
proof -
  have head: "st_head (ru_stats (archive_event ps k h fr sd af r' rid)) = st_head (ru_stats r')" for ps k h fr sd af r' rid
    by (auto simp: archive_event_def archive_act_def archive_error_def Let_def
        split: sum.splits archive_action.splits prod.splits)
  have heads: "st_head (ru_stats (foldl (archive_event ps k h fr sd af) r' rids)) = st_head (ru_stats r')"
    for ps k h fr sd af r' rids
    by (induction rids arbitrary: r') (simp_all add: head)
  obtain h events where "snapshot deploymentBlock providers = Inr (h, events)"
      and r: "r = (let q = foldl (archive_event providers keyHash h fresh send after)
         \<lparr>ru_budget = budget, ru_stats = \<lparr>st_head = h, st_cursor = h + 1, st_pending = 0, st_archived = 0,
            st_protected = 0, st_missedWindow = 0, st_errors = []\<rparr>, ru_sent = []\<rparr>
         (map (\<lambda>e. js_string (case e of JObj fs \<Rightarrow> field fs ''requestId'' | _ \<Rightarrow> JUndefined)) events)
       in q\<lparr>ru_budget := checkpoint h (ru_budget q)\<rparr>)"
    using assms(1) by (auto simp: archiveCycle_def result_simps Let_def)
  then show ?thesis
    using assms(3) archive_events_sent [OF assms(2)] by (fastforce simp: Let_def heads)
qed

definition sample_archive_rpc :: archive_rpc where
  "sample_archive_rpc = \<lparr>ar_getBlockNumber = Inr 502, ar_getBlock = (\<lambda>h. Inr (Some ''0xb'')),
     ar_contextBlockNumber = Inr, ar_events = (\<lambda>f t. Inr [JObj [(''requestId'', JStr ''7'')]]),
     ar_getRequest = (\<lambda>rid h. Inr \<lparr>rv_fields = [JStr ''x''], rv_keyHash = ''0xk'', rv_requestBlock = 400,
        rv_status = 1, rv_maxGasPriceWei = 9\<rparr>), ar_blockhashes = (\<lambda>b. Inr ZERO_HASH)\<rparr>"

end
