(* ===== verification/Threshold_Node.thy ===== *)
theory Threshold_Node
  imports Rpc_Consensus "HOL-Library.AList"
begin

section \<open>The signing node (operator/threshold-node.mjs)\<close>

text \<open>
  A node of the threshold group signs the message of a pending on-chain request with its share. It first
  reads the request from several endpoints, which must agree; it refuses a message that differs from the one it signed before for the same request; it writes its decision
  to the state file before it produces the signature; and it keeps a hash-chained audit log. The queue of the server runs one
  signing job at a time, so a job is a function from the node's memory to the new memory, the list of durable writes in order
  (the state file is replaced atomically, the audit log is appended to) and the response or error. A crash keeps a prefix of the writes.
  HTTP transport and TLS are not modelled; endpoints and the key store are parameters.
\<close>

subsection \<open>Partial responses\<close>

definition PARTIAL_RESPONSE_FORMAT :: string where
  "PARTIAL_RESPONSE_FORMAT = ''robinhood-proof-vrf-threshold-partial/v1''"

definition AUDIT_ZERO_HASH :: string where
  "AUDIT_ZERO_HASH = ''0x'' @ concat (replicate 32 ''00'')"

definition responseHash :: "ethers \<Rightarrow> json \<Rightarrow> string result" where
  "responseHash E body = bindR (canonicalJson body) (\<lambda>text. Inr (keccak256 E (toUtf8Bytes E text)))"

text \<open>\<open>value.toLowerCase()\<close>, which only strings have.\<close>

definition lower :: "json \<Rightarrow> string result" where
  "lower v = (case v of JStr s \<Rightarrow> Inr (toLowerCase s) | _ \<Rightarrow> Inl ''toLowerCase is not a function'')"

definition fields_of :: "json \<Rightarrow> fields" where
  "fields_of v = (case v of JObj fs \<Rightarrow> fs | _ \<Rightarrow> [])"

record expected_response =
  ex_manifestHash :: string
  ex_keyHash :: string
  ex_requestId :: string
  ex_message :: string

definition check_binding :: "participant \<Rightarrow> expected_response \<Rightarrow> fields \<Rightarrow> string result" where
  "check_binding p ex b =
     (let wrong = Inl (''partial response from '' @ pa_id p @ '' is bound to the wrong request'') in
      if field b ''format'' \<noteq> JStr PARTIAL_RESPONSE_FORMAT \<or> field b ''participantId'' \<noteq> JStr (pa_id p) \<or>
        field b ''index'' \<noteq> JInt (pa_index p) then wrong
      else bindR (lower (field b ''manifestHash'')) (\<lambda>m. if m \<noteq> toLowerCase (ex_manifestHash ex) then wrong
      else bindR (lower (field b ''keyHash'')) (\<lambda>k. if k \<noteq> toLowerCase (ex_keyHash ex) then wrong
      else if js_string (field b ''requestId'') \<noteq> ex_requestId ex then wrong
      else (case field b ''message'' of
          JStr message \<Rightarrow> if toLowerCase message \<noteq> toLowerCase (ex_message ex) then wrong else Inr message
        | _ \<Rightarrow> Inl ''toLowerCase is not a function''))))"

definition verifyPartialResponse ::
  "ethers \<Rightarrow> ('p, 'q, 't) bls \<Rightarrow> 'k node \<Rightarrow> json \<Rightarrow> participant \<Rightarrow> expected_response \<Rightarrow> json result" where
  "verifyPartialResponse E B N response p ex =
     (let body = field (fields_of response) ''body'' in
      bindR (check_binding p ex (fields_of body)) (\<lambda>message.
      (case field (fields_of response) ''identitySignature'' of
         JStr hex \<Rightarrow> bindR (getBytes E hex) (\<lambda>signature.
           if length signature \<noteq> 64
           then Inl (''partial response from '' @ pa_id p @ '' has an invalid identity signature'')
           else bindR (responseHash E body) (\<lambda>h. bindR (getBytes E h) (\<lambda>digest.
             bindR (ed25519PublicKey E N (pa_identityPublicKey p)) (\<lambda>key.
             if \<not> ed_verify N digest key signature
             then Inl (''partial response from '' @ pa_id p @ '' has an invalid identity signature'')
             else (case field (fields_of body) ''signature'' of
                 JStr sig \<Rightarrow> if verifyPartialSignature E B (HexString message) (HexString (pa_sharePublicKey p)) (HexString sig)
                   then Inr body else Inl (''partial response from '' @ pa_id p @ '' has an invalid BLS share'')
               | _ \<Rightarrow> Inl (''partial response from '' @ pa_id p @ '' has an invalid BLS share''))))))
       | _ \<Rightarrow> Inl ''invalid BytesLike value'')))"

definition partial_body :: "participant \<Rightarrow> string \<Rightarrow> string \<Rightarrow> string \<Rightarrow> string \<Rightarrow> string \<Rightarrow> json" where
  "partial_body p manifestHash keyHash requestId message signature = JObj [(''format'', JStr PARTIAL_RESPONSE_FORMAT),
     (''participantId'', JStr (pa_id p)), (''index'', JInt (pa_index p)), (''manifestHash'', JStr manifestHash),
     (''keyHash'', JStr keyHash), (''requestId'', JStr requestId), (''message'', JStr message),
     (''signature'', JStr signature)]"

text \<open>The response is the pair of its body's signature and the identity signature, with its JSON.\<close>

record partial_response =
  pr_body :: json
  pr_signature :: string
  pr_identitySignature :: string

definition response_json :: "partial_response \<Rightarrow> json" where
  "response_json r = JObj [(''body'', pr_body r), (''identitySignature'', JStr (pr_identitySignature r))]"

definition buildPartialResponse ::
  "ethers \<Rightarrow> ('p, 'q, 't) bls \<Rightarrow> 'k node \<Rightarrow> participant \<Rightarrow> string \<Rightarrow> string \<Rightarrow> string \<Rightarrow> string \<Rightarrow> int \<Rightarrow> 'k \<Rightarrow>
     partial_response result" where
  "buildPartialResponse E B N p manifestHash keyHash requestId message secretShare identityPrivateKey =
     bindR (publicKeyForShare E B secretShare) (\<lambda>publicKey.
     if toLowerCase publicKey \<noteq> toLowerCase (pa_sharePublicKey p)
     then Inl ''secret share does not match the manifest share public key''
     else bindR (signPartial E B (HexString message) secretShare) (\<lambda>signature.
       (let body = partial_body p manifestHash keyHash requestId message signature in
        bindR (responseHash E body) (\<lambda>h. bindR (getBytes E h) (\<lambda>digest.
        Inr \<lparr>pr_body = body, pr_signature = signature,
          pr_identitySignature = hexlify E (ed_sign N digest identityPrivateKey)\<rparr>)))))"

subsection \<open>The canonical request\<close>

record chain_request =
  cr_consumer :: string
  cr_verifier :: string
  cr_verifierCodeHash :: string
  cr_fulfiller :: string
  cr_payee :: string
  cr_keyHash :: string
  cr_subscriptionId :: int
  cr_preSeed :: int
  cr_reservedPayment :: int
  cr_randomness :: int
  cr_minimumFeeWei :: int
  cr_requestBlock :: int
  cr_expiresAtBlock :: int
  cr_maxGasPriceWei :: int
  cr_verificationGasLimit :: int
  cr_proofDataLength :: int
  cr_callbackGasLimit :: int
  cr_numWords :: int
  cr_callbackAttempts :: int
  cr_fulfillmentOverheadGas :: int
  cr_confirmations :: int
  cr_premiumBps :: int
  cr_operatorPremiumShareBps :: int
  cr_status :: int
  cr_sponsored :: bool
  cr_waiveMinimumFee :: bool
  cr_callbackSucceeded :: bool

definition canonical_request_json :: "chain_request \<Rightarrow> int \<Rightarrow> string \<Rightarrow> json" where
  "canonical_request_json r actualSeed message = JObj [
     (''consumer'', JStr (toLowerCase (cr_consumer r))), (''verifier'', JStr (toLowerCase (cr_verifier r))),
     (''verifierCodeHash'', JStr (toLowerCase (cr_verifierCodeHash r))),
     (''fulfiller'', JStr (toLowerCase (cr_fulfiller r))), (''payee'', JStr (toLowerCase (cr_payee r))),
     (''keyHash'', JStr (toLowerCase (cr_keyHash r))), (''subscriptionId'', JStr (showInt (cr_subscriptionId r))),
     (''preSeed'', JStr (showInt (cr_preSeed r))), (''reservedPayment'', JStr (showInt (cr_reservedPayment r))),
     (''randomness'', JStr (showInt (cr_randomness r))), (''minimumFeeWei'', JStr (showInt (cr_minimumFeeWei r))),
     (''requestBlock'', JStr (showInt (cr_requestBlock r))), (''expiresAtBlock'', JStr (showInt (cr_expiresAtBlock r))),
     (''maxGasPriceWei'', JStr (showInt (cr_maxGasPriceWei r))),
     (''verificationGasLimit'', JInt (cr_verificationGasLimit r)), (''proofDataLength'', JInt (cr_proofDataLength r)),
     (''callbackGasLimit'', JInt (cr_callbackGasLimit r)), (''numWords'', JInt (cr_numWords r)),
     (''callbackAttempts'', JInt (cr_callbackAttempts r)),
     (''fulfillmentOverheadGas'', JInt (cr_fulfillmentOverheadGas r)), (''confirmations'', JInt (cr_confirmations r)),
     (''premiumBps'', JInt (cr_premiumBps r)), (''operatorPremiumShareBps'', JInt (cr_operatorPremiumShareBps r)),
     (''status'', JInt (cr_status r)), (''sponsored'', JBool (cr_sponsored r)),
     (''waiveMinimumFee'', JBool (cr_waiveMinimumFee r)), (''callbackSucceeded'', JBool (cr_callbackSucceeded r)),
     (''actualSeed'', JStr (showInt actualSeed)), (''message'', JStr (toLowerCase message))]"

definition normalizeCanonicalRequest :: "chain_request \<Rightarrow> int \<Rightarrow> string \<Rightarrow> string result" where
  "normalizeCanonicalRequest r actualSeed message = canonicalJson (canonical_request_json r actualSeed message)"

record signing_rpc =
  sr_chainId :: "int result"
  sr_getRequest :: "string \<Rightarrow> string \<Rightarrow> chain_request result"
  sr_requestSeed :: "string \<Rightarrow> string \<Rightarrow> int result"
  sr_messageFor :: "string \<Rightarrow> string \<Rightarrow> int \<Rightarrow> int \<Rightarrow> string result"

record canonical_state =
  cs_request :: chain_request
  cs_actualSeed :: int
  cs_message :: string
  cs_normalized :: string

definition endpoint_state :: "string \<Rightarrow> threshold_group \<Rightarrow> string \<Rightarrow> signing_rpc \<Rightarrow> canonical_state result" where
  "endpoint_state coordinatorAddress grp requestId rpc =
     bindR (sr_chainId rpc) (\<lambda>chainId.
     if chainId \<noteq> gb_chainId (gr_manifest grp)
     then Inl (''RPC chain '' @ showInt chainId @ '' does not match the threshold manifest'')
     else bindR (sr_getRequest rpc coordinatorAddress requestId) (\<lambda>request.
     if cr_status request \<noteq> 1 then Inl ''request is not pending''
     else if toLowerCase (cr_keyHash request) \<noteq> toLowerCase (gr_keyHash grp)
     then Inl ''request keyHash does not match the threshold group''
     else if toLowerCase (cr_verifier request) \<noteq> toLowerCase (gb_verifierAdapter (gr_manifest grp))
     then Inl ''request verifier does not match the threshold adapter''
     else bindR (sr_requestSeed rpc coordinatorAddress requestId) (\<lambda>actualSeed.
     bindR (sr_messageFor rpc (gb_verifierAdapter (gr_manifest grp)) (gr_keyHash grp) actualSeed (cr_preSeed request)) (\<lambda>message.
     bindR (normalizeCanonicalRequest request actualSeed message) (\<lambda>normalized.
     Inr \<lparr>cs_request = request, cs_actualSeed = actualSeed, cs_message = message, cs_normalized = normalized\<rparr>)))))"

definition agree_on_request :: "canonical_state list \<Rightarrow> canonical_state result" where
  "agree_on_request states =
     (if \<exists>s \<in> set states. cs_normalized s \<noteq> cs_normalized (hd states)
      then Inl ''independent RPC endpoints disagree on the canonical request''
      else Inr (hd states))"

definition resolveCanonicalRequest ::
  "'k node \<Rightarrow> (string \<Rightarrow> signing_rpc) \<Rightarrow> json \<Rightarrow> string \<Rightarrow> threshold_group \<Rightarrow> string \<Rightarrow> canonical_state result" where
  "resolveCanonicalRequest N connect rpcUrls coordinatorAddress grp requestId =
     bindR (normalizeRpcUrls N rpcUrls 2 ''threshold signing'' False) (\<lambda>endpoints.
     bindR (mapR (\<lambda>url. endpoint_state coordinatorAddress grp requestId (connect url)) endpoints) agree_on_request)"

subsection \<open>Signing state and audit log\<close>

definition SIGNING_STATE_FORMAT :: string where
  "SIGNING_STATE_FORMAT = ''robinhood-proof-vrf-threshold-signing-state/v1''"

record signing_state =
  ss_manifestHash :: string
  ss_signedRequests :: "(string \<times> string) list"
  ss_auditedRequests :: "(string \<times> string) list"
  ss_auditHead :: string

text \<open>What the state file may hold: the last two fields are absent in files of older versions.\<close>

record state_file =
  sf_format :: string
  sf_manifestHash :: string
  sf_signedRequests :: "(string \<times> string) list option"
  sf_auditedRequests :: "(string \<times> string) list option"
  sf_auditHead :: "string option"

definition saved :: "signing_state \<Rightarrow> state_file" where
  "saved st = \<lparr>sf_format = SIGNING_STATE_FORMAT, sf_manifestHash = ss_manifestHash st,
     sf_signedRequests = Some (ss_signedRequests st), sf_auditedRequests = Some (ss_auditedRequests st),
     sf_auditHead = Some (ss_auditHead st)\<rparr>"

definition loadSigningState :: "state_file option \<Rightarrow> string \<Rightarrow> signing_state result" where
  "loadSigningState file manifestHash = (case file of
     None \<Rightarrow> Inr \<lparr>ss_manifestHash = manifestHash, ss_signedRequests = [], ss_auditedRequests = [],
       ss_auditHead = AUDIT_ZERO_HASH\<rparr>
   | Some f \<Rightarrow>
       if sf_format f \<noteq> SIGNING_STATE_FORMAT \<or> toLowerCase (sf_manifestHash f) \<noteq> toLowerCase manifestHash
       then Inl ''threshold signing state does not match this manifest''
       else (case sf_signedRequests f of
           None \<Rightarrow> Inl ''threshold signing state does not match this manifest''
         | Some sreqs \<Rightarrow> Inr \<lparr>ss_manifestHash = sf_manifestHash f, ss_signedRequests = sreqs,
             ss_auditedRequests = (case sf_auditedRequests f of None \<Rightarrow> [] | Some a \<Rightarrow> a),
             ss_auditHead = (case sf_auditHead f of None \<Rightarrow> AUDIT_ZERO_HASH | Some h \<Rightarrow> h)\<rparr>))"

text \<open>\<open>object[key]\<close> when it holds a non-empty string, and \<open>object[key] = value\<close>.\<close>

definition entry :: "(string \<times> string) list \<Rightarrow> string \<Rightarrow> string option" where
  "entry m k = (case map_of m k of Some v \<Rightarrow> if v = [] then None else Some v | None \<Rightarrow> None)"

definition set_entry :: "string \<Rightarrow> string \<Rightarrow> (string \<times> string) list \<Rightarrow> (string \<times> string) list" where
  "set_entry k v m = AList.update k v m"

definition digits_text :: "string \<Rightarrow> bool" where
  "digits_text s \<longleftrightarrow> s \<noteq> [] \<and> (\<forall>c \<in> set s. isDigit c)"

text \<open>The number that a text of digits denotes.\<close>

definition decimal_value :: "string \<Rightarrow> int" where
  "decimal_value s = foldl (\<lambda>n c. 10 * n + int (of_char c - 48)) 0 s"

definition hex_text :: "nat \<Rightarrow> string \<Rightarrow> bool" where
  "hex_text n s \<longleftrightarrow> take 2 s \<in> {''0x'', ''0X''} \<and> length s = n + 2 \<and> (\<forall>c \<in> set (drop 2 s). hexValue c \<noteq> None)"

definition AUDIT_FORMAT :: string where
  "AUDIT_FORMAT = ''robinhood-proof-vrf-threshold-audit/v1''"

record audit_expectation =
  ae_participant :: participant
  ae_manifestHash :: string
  ae_keyHash :: string

definition audit_response :: "audit_expectation \<Rightarrow> fields \<Rightarrow> json" where
  "audit_response ae r = JObj [(''body'', JObj [(''format'', JStr PARTIAL_RESPONSE_FORMAT),
       (''participantId'', field r ''participantId''), (''index'', JInt (pa_index (ae_participant ae))),
       (''manifestHash'', field r ''manifestHash''), (''keyHash'', field r ''keyHash''),
       (''requestId'', JStr (js_string (field r ''requestId''))), (''message'', field r ''message''),
       (''signature'', field r ''signature'')]),
     (''identitySignature'', field r ''identitySignature'')]"

definition same_hash :: "json \<Rightarrow> string \<Rightarrow> bool" where
  "same_hash v h = (case v of JStr s \<Rightarrow> toLowerCase s = toLowerCase h | _ \<Rightarrow> False)"

text \<open>One line of the loop of \<open>loadAuditLog\<close>; the head and the audited requests so far.\<close>

definition check_audit_record ::
  "ethers \<Rightarrow> ('p, 'q, 't) bls \<Rightarrow> 'k node \<Rightarrow> audit_expectation option \<Rightarrow> (string \<times> string) list \<Rightarrow>
     string \<times> (string \<times> string) list \<Rightarrow> json \<Rightarrow> (string \<times> (string \<times> string) list) result" where
  "check_audit_record E B N expected signedRequests acc record =
     (case acc of (head, audited) \<Rightarrow>
      let r = fields_of record; rid = js_string (field r ''requestId'') in
      if field r ''format'' \<noteq> JStr AUDIT_FORMAT \<or> \<not> digits_text rid \<or>
        \<not> hex_text 64 (js_string (field r ''message'')) \<or> \<not> hex_text 192 (js_string (field r ''signature'')) \<or>
        \<not> hex_text 128 (js_string (field r ''identitySignature'')) \<or> entry audited rid \<noteq> None
      then Inl ''threshold audit log contains an invalid or duplicate record''
      else if \<not> same_hash (field r ''previousHash'') head then Inl ''threshold audit log hash chain is broken''
      else bindR (canonicalJson (JObj (filter (\<lambda>kv. fst kv \<noteq> ''eventHash'') r))) (\<lambda>text.
        if \<not> same_hash (field r ''eventHash'') (keccak256 E (toUtf8Bytes E text))
        then Inl ''threshold audit log event hash is invalid''
        else (case entry signedRequests rid of
            None \<Rightarrow> Inl ''threshold audit log conflicts with anti-equivocation state''
          | Some smsg \<Rightarrow>
              if \<not> same_hash (field r ''message'') smsg
              then Inl ''threshold audit log conflicts with anti-equivocation state''
              else bindR (case expected of None \<Rightarrow> Inr JNull
                  | Some ae \<Rightarrow> verifyPartialResponse E B N (audit_response ae r) (ae_participant ae)
                      \<lparr>ex_manifestHash = ae_manifestHash ae, ex_keyHash = ae_keyHash ae, ex_requestId = rid,
                        ex_message = js_string (field r ''message'')\<rparr>) (\<lambda>_.
                Inr (js_string (field r ''eventHash''), set_entry rid (js_string (field r ''eventHash'')) audited)))))"

text \<open>\<open>loadAuditLog\<close> yields the state it also writes; without a log file it changes nothing.\<close>

definition loadAuditLog ::
  "ethers \<Rightarrow> ('p, 'q, 't) bls \<Rightarrow> 'k node \<Rightarrow> audit_expectation option \<Rightarrow> bool \<Rightarrow> json list option \<Rightarrow> signing_state \<Rightarrow>
     (signing_state \<times> bool) result" where
  "loadAuditLog E B N expected safeFile lines st = (case lines of
     None \<Rightarrow> Inr (st, False)
   | Some records \<Rightarrow>
       if \<not> safeFile then Inl ''threshold audit log must be a mode-0600 regular file''
       else bindR (foldR (check_audit_record E B N expected (ss_signedRequests st)) (AUDIT_ZERO_HASH, []) records)
         (\<lambda>(head, audited). Inr (st\<lparr>ss_auditedRequests := audited, ss_auditHead := head\<rparr>, True)))"

definition appendAuditRecord :: "ethers \<Rightarrow> fields \<Rightarrow> string \<Rightarrow> signing_state \<Rightarrow> (signing_state \<times> json) result" where
  "appendAuditRecord E body requestId st =
     (let r = body @ [(''previousHash'', JStr (ss_auditHead st))] in
      bindR (canonicalJson (JObj r)) (\<lambda>text.
      (let h = keccak256 E (toUtf8Bytes E text) in
       Inr (st\<lparr>ss_auditHead := h, ss_auditedRequests := set_entry requestId h (ss_auditedRequests st)\<rparr>,
         JObj (r @ [(''eventHash'', JStr h)])))))"

subsection \<open>The signing job\<close>

datatype effect = WriteState state_file | AppendAudit json

record 'k node_config =
  nc_participant :: participant
  nc_manifestHash :: string
  nc_keyHash :: string
  nc_secretShare :: int
  nc_identityPrivateKey :: 'k

definition audit_body :: "'k node_config \<Rightarrow> string \<Rightarrow> string \<Rightarrow> string \<Rightarrow> partial_response \<Rightarrow> fields" where
  "audit_body c signedAt requestId message resp = [(''format'', JStr AUDIT_FORMAT), (''signedAt'', JStr signedAt),
     (''participantId'', JStr (pa_id (nc_participant c))), (''manifestHash'', JStr (nc_manifestHash c)),
     (''keyHash'', JStr (nc_keyHash c)), (''requestId'', JStr requestId), (''message'', JStr message),
     (''signature'', JStr (pr_signature resp)), (''identitySignature'', JStr (pr_identitySignature resp))]"

definition sign_job ::
  "ethers \<Rightarrow> ('p, 'q, 't) bls \<Rightarrow> 'k node \<Rightarrow> 'k node_config \<Rightarrow> string \<Rightarrow> string \<Rightarrow> string \<Rightarrow> signing_state \<Rightarrow>
     signing_state \<times> effect list \<times> partial_response result" where
  "sign_job E B N c signedAt requestId message st =
     (if (case entry (ss_signedRequests st) requestId of
            None \<Rightarrow> False | Some previous \<Rightarrow> toLowerCase previous \<noteq> toLowerCase message)
      then (st, [], Inl ''refusing to sign a conflicting message for this requestId'')
      else (let st1 = st\<lparr>ss_signedRequests := set_entry requestId message (ss_signedRequests st)\<rparr> in
        case buildPartialResponse E B N (nc_participant c) (nc_manifestHash c) (nc_keyHash c) requestId message
            (nc_secretShare c) (nc_identityPrivateKey c) of
          Inl e \<Rightarrow> (st1, [WriteState (saved st1)], Inl e)
        | Inr resp \<Rightarrow>
            if entry (ss_auditedRequests st1) requestId \<noteq> None then (st1, [WriteState (saved st1)], Inr resp)
            else (case appendAuditRecord E (audit_body c signedAt requestId message resp) requestId st1 of
                Inl e \<Rightarrow> (st1, [WriteState (saved st1)], Inl e)
              | Inr (st2, line) \<Rightarrow>
                  (st2, [WriteState (saved st1), AppendAudit line, WriteState (saved st2)], Inr resp))))"

subsection \<open>The request handler and start-up\<close>

record http_request =
  hr_authorization :: "string option"
  hr_method :: string
  hr_url :: string
  hr_chunks :: "bytes list"

fun readBody_loop :: "bytes list \<Rightarrow> nat \<Rightarrow> bytes \<Rightarrow> bytes result" where
  "readBody_loop [] n acc = Inr acc"
| "readBody_loop (chunk # chunks) n acc = (let n' = n + length chunk in
     if n' > 4096 then Inl ''request body is too large'' else readBody_loop chunks n' (acc @ chunk))"

definition readBody :: "(bytes \<Rightarrow> json result) \<Rightarrow> bytes list \<Rightarrow> json result" where
  "readBody parseJson chunks = bindR (readBody_loop chunks 0 []) parseJson"

definition status_json :: "'k node_config \<Rightarrow> threshold_group \<Rightarrow> json" where
  "status_json c grp = JObj [(''status'', JStr ''ready''), (''participantId'', JStr (pa_id (nc_participant c))),
     (''index'', JInt (pa_index (nc_participant c))), (''manifestHash'', JStr (gr_manifestHash grp)),
     (''keyHash'', JStr (gr_keyHash grp)), (''epoch'', JInt (gb_epoch (gr_manifest grp)))]"

definition requested_id :: "json \<Rightarrow> string result" where
  "requested_id body = (if body = JNull \<or> body = JUndefined then Inl ''Cannot read properties of null''
     else (let rid = js_string (field (fields_of body) ''requestId'') in
       if digits_text rid then Inr rid else Inl ''requestId must be an integer''))"

definition handler ::
  "ethers \<Rightarrow> ('p, 'q, 't) bls \<Rightarrow> 'k node \<Rightarrow> 'k node_config \<Rightarrow> threshold_group \<Rightarrow> string \<Rightarrow> (bytes \<Rightarrow> json result) \<Rightarrow>
     (string \<Rightarrow> canonical_state result) \<Rightarrow> string \<Rightarrow> http_request \<Rightarrow> signing_state \<Rightarrow>
     signing_state \<times> effect list \<times> nat \<times> json" where
  "handler E B N c grp bearerToken parseJson resolve signedAt req st =
     (if bearerToken \<noteq> [] \<and> hr_authorization req \<noteq> Some (''Bearer '' @ bearerToken)
      then (st, [], 401, JObj [(''error'', JStr ''unauthorized'')])
      else if hr_method req = ''GET'' \<and> hr_url req = ''/v1/status'' then (st, [], 200, status_json c grp)
      else if hr_method req \<noteq> ''POST'' \<or> hr_url req \<noteq> ''/v1/partial''
      then (st, [], 404, JObj [(''error'', JStr ''not found'')])
      else (case bindR (readBody parseJson (hr_chunks req)) (\<lambda>body. bindR (requested_id body) (\<lambda>rid.
              bindR (resolve rid) (\<lambda>canonical. Inr (rid, cs_message canonical)))) of
          Inl e \<Rightarrow> (st, [], 400, JObj [(''error'', JStr e)])
        | Inr (rid, message) \<Rightarrow> (case sign_job E B N c signedAt rid message st of
            (st', effects, Inr resp) \<Rightarrow> (st', effects, 200, response_json resp)
          | (st', effects, Inl e) \<Rightarrow> (st', effects, 400, JObj [(''error'', JStr e)]))))"

record 'k loaded_keystore =
  lk_participantId :: string
  lk_identityPublicKey :: string
  lk_transportPublicKey :: string
  lk_thresholdManifestHash :: "string option"
  lk_thresholdShare :: "int option"
  lk_identityPrivateKey :: 'k

record node_options =
  no_statePath :: string
  no_auditPath :: string
  no_host :: string
  no_manifest :: json
  no_group :: group_options

text \<open>The checks of \<open>startThresholdNode\<close> before it serves, given the decrypted key store and the two files.\<close>

definition startThresholdNode ::
  "ethers \<Rightarrow> ('p, 'q, 't) bls \<Rightarrow> 'k node \<Rightarrow> node_options \<Rightarrow> 'k loaded_keystore result \<Rightarrow> state_file option \<Rightarrow> bool \<Rightarrow>
     json list option \<Rightarrow> (threshold_group \<times> 'k node_config \<times> signing_state \<times> effect list) result" where
  "startThresholdNode E B N opts keystore stateFile safeAudit auditLines =
     (if no_statePath opts = [] then Inl ''threshold signing state path is required''
      else if no_auditPath opts = [] then Inl ''threshold append-only audit log path is required''
      else if op_allowLoopback (no_group opts) \<and> no_host opts \<notin> {''localhost'', ''127.0.0.1'', ''::1''}
      then Inl ''plaintext threshold mode may bind only to a loopback host''
      else bindR (validateGroupManifest E B N (no_manifest opts) (no_group opts)) (\<lambda>grp.
        bindR keystore (\<lambda>loaded.
        if (case lk_thresholdManifestHash loaded of None \<Rightarrow> True
            | Some h \<Rightarrow> toLowerCase h \<noteq> toLowerCase (gr_manifestHash grp))
        then Inl ''threshold share keystore is not bound to this manifest''
        else (case List.find (\<lambda>p. pa_id p = lk_participantId loaded) (gb_participants (gr_manifest grp)) of
            None \<Rightarrow> Inl ''threshold share owner is not in the manifest''
          | Some p \<Rightarrow> (case lk_thresholdShare loaded of
              None \<Rightarrow> Inl ''threshold keystore has no secret share''
            | Some share \<Rightarrow>
                if toLowerCase (pa_identityPublicKey p) \<noteq> toLowerCase (lk_identityPublicKey loaded) \<or>
                  toLowerCase (pa_transportPublicKey p) \<noteq> toLowerCase (lk_transportPublicKey loaded)
                then Inl ''threshold keystore identity or share does not match the manifest''
                else bindR (publicKeyForShare E B share) (\<lambda>publicKey.
                  if toLowerCase publicKey \<noteq> toLowerCase (pa_sharePublicKey p)
                  then Inl ''threshold keystore identity or share does not match the manifest''
                  else bindR (loadSigningState stateFile (gr_manifestHash grp)) (\<lambda>st.
                    bindR (loadAuditLog E B N (Some \<lparr>ae_participant = p, ae_manifestHash = gr_manifestHash grp,
                        ae_keyHash = gr_keyHash grp\<rparr>) safeAudit auditLines st) (\<lambda>(st', written).
                    Inr (grp, \<lparr>nc_participant = p, nc_manifestHash = gr_manifestHash grp, nc_keyHash = gr_keyHash grp,
                        nc_secretShare = share, nc_identityPrivateKey = lk_identityPrivateKey loaded\<rparr>, st',
                      if written then [WriteState (saved st')] else []))))))))) "

subsection \<open>Library\<close>

lemma entry_set_entry: "v \<noteq> [] \<Longrightarrow> entry (set_entry k v m) k' = (if k' = k then Some v else entry m k')"
  by (auto simp: entry_def set_entry_def update_conv)

text \<open>A list of signed requests extends another one: no decision is lost or changed (up to letter case).\<close>

definition signed_le :: "(string \<times> string) list \<Rightarrow> (string \<times> string) list \<Rightarrow> bool" where
  "signed_le s s' \<longleftrightarrow> (\<forall>rid p. entry s rid = Some p \<longrightarrow>
     (\<exists>p'. entry s' rid = Some p' \<and> toLowerCase p' = toLowerCase p))"

lemma signed_le_refl [simp]: "signed_le s s"
  by (simp add: signed_le_def)

lemma signed_le_trans: "signed_le a b \<Longrightarrow> signed_le b c \<Longrightarrow> signed_le a c"
  unfolding signed_le_def by metis

lemma signed_le_set_entry:
  assumes "m \<noteq> []" "\<And>p. entry s rid = Some p \<Longrightarrow> toLowerCase p = toLowerCase m"
  shows "signed_le s (set_entry rid m s)"
  using assms by (auto simp: signed_le_def entry_set_entry)

interpretation signing_rpc: agreement agree_on_request cs_normalized cs_normalized
  by unfold_locales (auto simp: agree_on_request_def split: if_splits)

subsection \<open>An honest node\<close>

text \<open>
  The setting of a correctly provisioned node: the libraries' laws hold, the share is not zero and belongs to the manifest's share key, and
  the identity key signs for the manifest's identity public key. Messages are 32-byte hex texts that hash to a point other than zero.
\<close>

definition honest_node ::
  "ethers \<Rightarrow> ('p, 'q, 't) bls \<Rightarrow> 'k node \<Rightarrow> 'k node_config \<Rightarrow> (int \<Rightarrow> 'p) \<Rightarrow> (int \<Rightarrow> 'q) \<Rightarrow> (int \<Rightarrow> 't) \<Rightarrow> bool" where
  "honest_node E B N c ex1 ex2 exT \<longleftrightarrow> hex_codec E \<and> bls_laws B ex1 ex2 exT \<and>
     \<not> eqm (params_r B) (nc_secretShare c) 0 \<and> isSafeInteger (pa_index (nc_participant c)) \<and>
     pa_sharePublicKey (nc_participant c) = wireHex E (G2 B) (ex2 (nc_secretShare c mod params_r B)) \<and>
     (\<forall>b. keccak256 E b \<noteq> [] \<and> (\<exists>d. getBytes E (keccak256 E b) = Inr d)) \<and>
     (\<forall>b. hex_text (2 * length b) (hexlify E b)) \<and>
     (\<exists>key. ed25519PublicKey E N (pa_identityPublicKey (nc_participant c)) = Inr key \<and>
        (\<forall>d. length (ed_sign N d (nc_identityPrivateKey c)) = 64 \<and> ed_verify N d key (ed_sign N d (nc_identityPrivateKey c))))"

definition message_ok :: "ethers \<Rightarrow> ('p, 'q, 't) bls \<Rightarrow> (int \<Rightarrow> 'p) \<Rightarrow> string \<Rightarrow> bool" where
  "message_ok E B ex1 m \<longleftrightarrow> hex_text 64 m \<and>
     (\<exists>b h. getBytes E m = Inr b \<and> hashToCurve B b BLS_DST = Inr (ex1 h) \<and> \<not> eqm (params_r B) h 0)"

definition binding :: "'k node_config \<Rightarrow> string \<Rightarrow> string \<Rightarrow> expected_response" where
  "binding c rid m = \<lparr>ex_manifestHash = nc_manifestHash c, ex_keyHash = nc_keyHash c, ex_requestId = rid, ex_message = m\<rparr>"

lemma partial_body_text: "isSafeInteger (pa_index p) \<Longrightarrow> \<exists>t. canonicalJson (partial_body p mh kh rid m sig) = Inr t"
  by (rule canonicalJson_total) (simp add: partial_body_def)

lemma build_honest:
  assumes "honest_node E B N c ex1 ex2 exT" "message_ok E B ex1 m"
  shows "\<exists>sig isig. buildPartialResponse E B N (nc_participant c) (nc_manifestHash c) (nc_keyHash c) rid m
      (nc_secretShare c) (nc_identityPrivateKey c) =
      Inr \<lparr>pr_body = partial_body (nc_participant c) (nc_manifestHash c) (nc_keyHash c) rid m sig,
        pr_signature = sig, pr_identitySignature = isig\<rparr> \<and> hex_text 192 sig \<and> hex_text 128 isig \<and>
    verifyPartialResponse E B N (JObj [(''body'', partial_body (nc_participant c) (nc_manifestHash c) (nc_keyHash c) rid m sig),
        (''identitySignature'', JStr isig)]) (nc_participant c) (binding c rid m) =
      Inr (partial_body (nc_participant c) (nc_manifestHash c) (nc_keyHash c) rid m sig)"
proof -
  let ?p = "nc_participant c" and ?x = "nc_secretShare c mod params_r B"
  obtain b h where b: "getBytes E m = Inr b" "hashToCurve B b BLS_DST = Inr (ex1 h)" "\<not> eqm (params_r B) h 0"
    using assms(2) by (auto simp: message_ok_def)
  note H = assms(1) [unfolded honest_node_def]
  have wb: "wireBytes E (HexString m) = Some b" by (simp add: wireBytes_def b(1))
  note sr = signing_results [OF H [THEN conjunct1] H [THEN conjunct2, THEN conjunct1] wb b(2,3)
      H [THEN conjunct2, THEN conjunct2, THEN conjunct1]]
  define sig where "sig = wireHex E (G1 B) (ex1 (h * ?x))"
  define body where "body = partial_body ?p (nc_manifestHash c) (nc_keyHash c) rid m sig"
  obtain t where t: "canonicalJson body = Inr t" using H partial_body_text unfolding body_def by blast
  obtain d where d: "getBytes E (keccak256 E (toUtf8Bytes E t)) = Inr d" using H by blast
  define isig where "isig = hexlify E (ed_sign N d (nc_identityPrivateKey c))"
  obtain key where key: "ed25519PublicKey E N (pa_identityPublicKey ?p) = Inr key"
      "\<And>d. length (ed_sign N d (nc_identityPrivateKey c)) = 64" "\<And>d. ed_verify N d key (ed_sign N d (nc_identityPrivateKey c))"
    using H by blast
  have hash: "responseHash E body = Inr (keccak256 E (toUtf8Bytes E t))" by (simp add: responseHash_def t)
  have "length (toRawBytes (G1 B) (ex1 (h * ?x))) = 96"
    using prime_order_groupD(6) [OF bls_lawsD(2)] H by blast
  then have "hex_text 192 sig" using H by (metis mult_numeral_1 numeral_times_numeral semiring_norm(12,13) sig_def wireHex_def
        mult_2 numeral_Bit0)
  moreover have "hex_text (2 * 64) isig" unfolding isig_def using H key(2) by metis
  moreover have "buildPartialResponse E B N ?p (nc_manifestHash c) (nc_keyHash c) rid m (nc_secretShare c)
      (nc_identityPrivateKey c) = Inr \<lparr>pr_body = body, pr_signature = sig, pr_identitySignature = isig\<rparr>"
    using H sr(1,2) by (simp add: buildPartialResponse_def sig_def [symmetric] body_def [symmetric] hash d isig_def)
  moreover have "check_binding ?p (binding c rid m) (fields_of body) = Inr m"
    by (simp add: check_binding_def binding_def body_def partial_body_def fields_of_def field_def lower_def)
  then have "verifyPartialResponse E B N (JObj [(''body'', body), (''identitySignature'', JStr isig)]) ?p (binding c rid m) = Inr body"
    using H sr(3) hash d key
    by (simp add: verifyPartialResponse_def fields_of_def field_def isig_def hex_codec_def)
      (simp add: body_def partial_body_def sig_def)
  ultimately show ?thesis unfolding body_def by auto
qed

definition sample_participant_record :: participant where
  "sample_participant_record = \<lparr>pa_id = ''aa'', pa_index = 1, pa_identityPublicKey = sample_hex 32 1,
     pa_transportPublicKey = sample_hex 32 1, pa_sharePublicKey = sample_key 4, pa_endpoint = ''aa''\<rparr>"

definition sample_config :: "bytes node_config" where
  "sample_config = \<lparr>nc_participant = sample_participant_record, nc_manifestHash = sample_hex 32 2, nc_keyHash = sample_hex 32 3,
     nc_secretShare = 4, nc_identityPrivateKey = []\<rparr>"

lemma sample_hexlify_text: "hex_text (2 * length b) (sample_hexlify b)"
proof -
  have "length (concat (map hexByte b)) = 2 * length b \<and> (\<forall>c \<in> set (concat (map hexByte b)). hexValue c \<noteq> None)"
    by (induction b) (auto simp: hexByte_def hexValue_hexDigit unat_byte_bounds)
  then show ?thesis by (simp add: hex_text_def sample_hexlify_def)
qed

lemma sample_honest: "honest_node sample_ethers sample_bls sample_node sample_config sample_ex sample_ex sample_ex"
proof -
  have "getBytes sample_ethers (sample_hex 32 1) = Inr (replicate 31 0 @ [1])" by code_simp
  then have "ed25519PublicKey sample_ethers sample_node (sample_hex 32 1) =
      Inr (ED25519_SPKI_PREFIX @ replicate 31 0 @ [1])"
    by (simp add: ed25519PublicKey_def sample_node_def)
  moreover have "keccak256 sample_ethers b \<noteq> []" "\<exists>d. getBytes sample_ethers (keccak256 sample_ethers b) = Inr d" for b
    by (simp_all add: sample_ethers_def sample_getBytes_hexlify) (simp add: sample_hexlify_def)
  moreover have "hex_text (2 * length b) (hexlify sample_ethers b)" for b
    using sample_hexlify_text by (simp add: sample_ethers_def)
  moreover have "length (ed_sign sample_node d k) = 64" "ed_verify sample_node d key (ed_sign sample_node d k)" for d k key
    by (simp_all add: sample_node_def)
  moreover have "params_r sample_bls = 7" by (simp add: sample_bls_def)
  ultimately show ?thesis
    by (simp add: honest_node_def sample_bls_laws sample_config_def sample_participant_record_def
        sample_key_def eqm_def isSafeInteger_def)
qed

lemma sample_message:
  "message_ok sample_ethers sample_bls sample_ex (sample_hex 32 1)"
  "message_ok sample_ethers sample_bls sample_ex (sample_hex 32 2)"
proof -
  have h: "hex_text 64 (sample_hex 32 1)" "hex_text 64 (sample_hex 32 2)"
    "getBytes sample_ethers (sample_hex 32 1) = Inr (replicate 31 0 @ [1])"
    "getBytes sample_ethers (sample_hex 32 2) = Inr (replicate 31 0 @ [2])" by code_simp+
  have "hashToCurve sample_bls (replicate 31 0 @ [k]) BLS_DST = Inr (sample_ex 3)" for k
    by (simp add: sample_bls_def sample_ex_def)
  moreover have "\<not> eqm (params_r sample_bls) 3 0" by (simp add: sample_bls_def eqm_def)
  ultimately show "message_ok sample_ethers sample_bls sample_ex (sample_hex 32 1)"
    "message_ok sample_ethers sample_bls sample_ex (sample_hex 32 2)"
    using h unfolding message_ok_def by blast+
qed

subsection \<open>Properties\<close>

lemma honest_job:
  assumes "honest_node E B N c ex1 ex2 exT" "message_ok E B ex1 m"
    and "\<And>p. entry (ss_signedRequests st) rid = Some p \<Longrightarrow> toLowerCase p = toLowerCase m"
  shows "\<exists>st' effs resp. sign_job E B N c at rid m st = (st', effs, Inr resp) \<and>
    ss_signedRequests st' = set_entry rid m (ss_signedRequests st) \<and>
    verifyPartialResponse E B N (response_json resp) (nc_participant c) (binding c rid m) = Inr (pr_body resp)"
proof -
  let ?st1 = "st\<lparr>ss_signedRequests := set_entry rid m (ss_signedRequests st)\<rparr>"
  obtain resp where b: "buildPartialResponse E B N (nc_participant c) (nc_manifestHash c) (nc_keyHash c) rid m
      (nc_secretShare c) (nc_identityPrivateKey c) = Inr resp"
    "verifyPartialResponse E B N (response_json resp) (nc_participant c) (binding c rid m) = Inr (pr_body resp)"
    using build_honest [OF assms(1,2), of rid] by (auto simp: response_json_def)
  obtain st2 line where a: "appendAuditRecord E (audit_body c at rid m resp) rid ?st1 = Inr (st2, line)"
      "ss_signedRequests st2 = set_entry rid m (ss_signedRequests st)"
    using canonicalJson_total [of "JObj (audit_body c at rid m resp @ [(''previousHash'', JStr (ss_auditHead ?st1))])"]
    by (auto simp: appendAuditRecord_def Let_def audit_body_def)
  show ?thesis using assms(3) a b by (auto simp: sign_job_def Let_def split: option.splits)
qed

lemma readBody_loop_Inr:
  "readBody_loop cs n acc = Inr b \<Longrightarrow> n \<le> 4096 \<Longrightarrow> b = acc @ concat cs \<and> n + length (concat cs) \<le> 4096"
proof (induction cs arbitrary: n acc)
  case (Cons a cs)
  then have "readBody_loop cs (n + length a) (acc @ a) = Inr b" "n + length a \<le> 4096"
    by (auto simp: Let_def split: if_splits)
  from Cons.IH [OF this] show ?case by simp
qed simp

lemma sign_job_conflict:
  assumes "sign_job E B N c at rid m st = (st', effs, res)" "st' \<noteq> st \<or> effs \<noteq> [] \<or> isOk res"
  shows "\<forall>p. entry (ss_signedRequests st) rid = Some p \<longrightarrow> toLowerCase p = toLowerCase m"
  using assms by (auto simp: sign_job_def split: if_splits)

lemma resolve_agreed:
  assumes "resolveCanonicalRequest N connect rpcUrls coordinator grp rid = Inr canonical"
  shows "\<exists>urls. normalizeRpcUrls N rpcUrls 2 ''threshold signing'' False = Inr urls \<and>
    (\<forall>u \<in> set urls. \<exists>s. endpoint_state coordinator grp rid (connect u) = Inr s \<and>
       cs_normalized s = cs_normalized canonical)"
proof -
  obtain urls states where u: "normalizeRpcUrls N rpcUrls 2 ''threshold signing'' False = Inr urls"
      "mapR (\<lambda>url. endpoint_state coordinator grp rid (connect url)) urls = Inr states" "agree_on_request states = Inr canonical"
    using assms by (auto simp: resolveCanonicalRequest_def result_simps)
  then show ?thesis using mapR_set [OF u(2)] signing_rpc.unanimous [OF u(3)] by blast
qed

lemma endpoint_state_checks:
  assumes "endpoint_state coordinator grp rid rpc = Inr s"
  shows "sr_chainId rpc = Inr (gb_chainId (gr_manifest grp))"
    "sr_getRequest rpc coordinator rid = Inr (cs_request s)" "cr_status (cs_request s) = 1"
    "toLowerCase (cr_keyHash (cs_request s)) = toLowerCase (gr_keyHash grp)"
    "toLowerCase (cr_verifier (cs_request s)) = toLowerCase (gb_verifierAdapter (gr_manifest grp))"
    "sr_requestSeed rpc coordinator rid = Inr (cs_actualSeed s)"
    "sr_messageFor rpc (gb_verifierAdapter (gr_manifest grp)) (gr_keyHash grp) (cs_actualSeed s) (cr_preSeed (cs_request s)) = Inr (cs_message s)"
    "normalizeCanonicalRequest (cs_request s) (cs_actualSeed s) (cs_message s) = Inr (cs_normalized s)"
  using assms by (auto simp: endpoint_state_def result_simps split: if_splits)

text \<open>
  C22: What a request must pass. The handler of \<open>/v1/partial\<close> changes its state, writes a file or answers a signature only when the bearer token matches (where one is set), the body has at most
  4096 bytes, the request id is a decimal number, at least two endpoints of distinct origins, each on the manifest's chain, report the request as pending for this group's key and
  for the manifest's verifier adapter with one canonical text that includes seed and message, and the message agrees with the earlier decision for the id; in every other case it answers 400, 401 or 404 and nothing changes.
\<close>

theorem handler_guards:
  assumes "handler E B N c grp bearerToken parseJson (resolveCanonicalRequest N connect rpcUrls coordinator grp) at req st = (st', effs, code, out)"
    and "st' \<noteq> st \<or> effs \<noteq> [] \<or> code = 200 \<and> hr_method req = ''POST''"
  shows "(bearerToken = [] \<or> hr_authorization req = Some (''Bearer '' @ bearerToken)) \<and>
    hr_method req = ''POST'' \<and> hr_url req = ''/v1/partial'' \<and> length (concat (hr_chunks req)) \<le> 4096 \<and>
    (\<exists>rid (canonical :: canonical_state) urls. digits_text rid \<and> normalizeRpcUrls N rpcUrls 2 ''threshold signing'' False = Inr urls \<and>
       (\<forall>u \<in> set urls. \<exists>s :: canonical_state. sr_chainId (connect u) = Inr (gb_chainId (gr_manifest grp)) \<and>
          sr_getRequest (connect u) coordinator rid = Inr (cs_request s) \<and> cr_status (cs_request s) = 1 \<and>
          toLowerCase (cr_keyHash (cs_request s)) = toLowerCase (gr_keyHash grp) \<and>
          toLowerCase (cr_verifier (cs_request s)) = toLowerCase (gb_verifierAdapter (gr_manifest grp)) \<and>
          sr_requestSeed (connect u) coordinator rid = Inr (cs_actualSeed s) \<and>
          sr_messageFor (connect u) (gb_verifierAdapter (gr_manifest grp)) (gr_keyHash grp) (cs_actualSeed s) (cr_preSeed (cs_request s)) =
            Inr (cs_message s) \<and>
          normalizeCanonicalRequest (cs_request s) (cs_actualSeed s) (cs_message s) = Inr (cs_normalized canonical)) \<and>
       (\<forall>p. entry (ss_signedRequests st) rid = Some p \<longrightarrow> toLowerCase p = toLowerCase (cs_message canonical)))"
proof -
  let ?resolve = "resolveCanonicalRequest N connect rpcUrls coordinator grp"
  have g: "bearerToken = [] \<or> hr_authorization req = Some (''Bearer '' @ bearerToken)" "hr_method req = ''POST''"
    "hr_url req = ''/v1/partial''"
    using assms by (auto simp: handler_def split: if_splits)
  obtain body rid canonical where b: "readBody parseJson (hr_chunks req) = Inr body" "requested_id body = Inr rid"
      "?resolve rid = Inr canonical"
    and j: "\<exists>res. sign_job E B N c at rid (cs_message canonical) st = (st', effs, res) \<and> (code = 200 \<longrightarrow> isOk res)"
  proof (cases "bindR (readBody parseJson (hr_chunks req)) (\<lambda>body. bindR (requested_id body) (\<lambda>rid.
      bindR (?resolve rid) (\<lambda>canonical. Inr (rid, cs_message canonical))))")
    case (Inl e)
    then show ?thesis using assms g by (auto simp: handler_def)
  next
    case (Inr x)
    then show ?thesis using assms(1) g that
      by (fastforce simp: handler_def result_simps split: prod.splits sum.splits)
  qed
  have "length (concat (hr_chunks req)) \<le> 4096"
    using b(1) readBody_loop_Inr [of "hr_chunks req" 0 "[]"] by (auto simp: readBody_def result_simps)
  moreover have "digits_text rid" using b(2) by (auto simp: requested_id_def Let_def split: if_splits)
  moreover have "\<forall>p. entry (ss_signedRequests st) rid = Some p \<longrightarrow> toLowerCase p = toLowerCase (cs_message canonical)"
    using j assms(2) sign_job_conflict by blast
  moreover obtain urls where urls: "normalizeRpcUrls N rpcUrls 2 ''threshold signing'' False = Inr urls"
      "\<And>u. u \<in> set urls \<Longrightarrow> \<exists>s. endpoint_state coordinator grp rid (connect u) = Inr s \<and> cs_normalized s = cs_normalized canonical"
    using resolve_agreed [OF b(3)] by blast
  moreover have "\<exists>s :: canonical_state. sr_chainId (connect u) = Inr (gb_chainId (gr_manifest grp)) \<and>
      sr_getRequest (connect u) coordinator rid = Inr (cs_request s) \<and> cr_status (cs_request s) = 1 \<and>
      toLowerCase (cr_keyHash (cs_request s)) = toLowerCase (gr_keyHash grp) \<and>
      toLowerCase (cr_verifier (cs_request s)) = toLowerCase (gb_verifierAdapter (gr_manifest grp)) \<and>
      sr_requestSeed (connect u) coordinator rid = Inr (cs_actualSeed s) \<and>
      sr_messageFor (connect u) (gb_verifierAdapter (gr_manifest grp)) (gr_keyHash grp) (cs_actualSeed s) (cr_preSeed (cs_request s)) =
        Inr (cs_message s) \<and>
      normalizeCanonicalRequest (cs_request s) (cs_actualSeed s) (cs_message s) = Inr (cs_normalized canonical)"
    if u: "u \<in> set urls" for u
  proof -
    obtain s where "endpoint_state coordinator grp rid (connect u) = Inr s" "cs_normalized s = cs_normalized canonical"
      using urls(2) [OF u] by blast
    then show ?thesis using endpoint_state_checks [of coordinator grp rid "connect u" s] by (intro exI [of _ s]) simp
  qed
  ultimately show ?thesis using g by (intro conjI exI [of _ rid] exI [of _ canonical] exI [of _ urls]) auto
qed

definition sample_request :: chain_request where
  "sample_request = \<lparr>cr_consumer = ''a'', cr_verifier = ''v'', cr_verifierCodeHash = ''h'', cr_fulfiller = ''f'', cr_payee = ''p'',
     cr_keyHash = ''k'', cr_subscriptionId = 0, cr_preSeed = 5, cr_reservedPayment = 0, cr_randomness = 0,
     cr_minimumFeeWei = 0, cr_requestBlock = 1, cr_expiresAtBlock = 9, cr_maxGasPriceWei = 0, cr_verificationGasLimit = 0,
     cr_proofDataLength = 0, cr_callbackGasLimit = 0, cr_numWords = 1, cr_callbackAttempts = 0,
     cr_fulfillmentOverheadGas = 0, cr_confirmations = 1, cr_premiumBps = 0, cr_operatorPremiumShareBps = 0, cr_status = 1,
     cr_sponsored = False, cr_waiveMinimumFee = False, cr_callbackSucceeded = False\<rparr>"

definition sample_rpc :: signing_rpc where
  "sample_rpc = \<lparr>sr_chainId = Inr 1, sr_getRequest = (\<lambda>_ _. Inr sample_request), sr_requestSeed = (\<lambda>_ _. Inr 6),
     sr_messageFor = (\<lambda>_ _ _ _. Inr (sample_hex 32 1))\<rparr>"

text \<open>The same endpoints with another message.\<close>

definition sample_rpc_for :: "nat \<Rightarrow> signing_rpc" where
  "sample_rpc_for k = sample_rpc\<lparr>sr_messageFor := (\<lambda>_ _ _ _. Inr (sample_hex 32 k))\<rparr>"

definition sample_group_record :: threshold_group where
  "sample_group_record = \<lparr>gr_manifest = sample_body\<lparr>gb_verifierAdapter := ''v''\<rparr>, gr_attestations = JNull, gr_handoffAttestations = JNull,
     gr_manifestHash = sample_hex 32 2, gr_keyHash = ''k'', gr_validAttesters = [], gr_validHandoffAttesters = []\<rparr>"

definition sample_http :: http_request where
  "sample_http = \<lparr>hr_authorization = Some ''Bearer t'', hr_method = ''POST'', hr_url = ''/v1/partial'', hr_chunks = [[1], [2]]\<rparr>"

definition empty_state :: "'k node_config \<Rightarrow> signing_state" where
  "empty_state c = \<lparr>ss_manifestHash = nc_manifestHash c, ss_signedRequests = [], ss_auditedRequests = [],
     ss_auditHead = AUDIT_ZERO_HASH\<rparr>"

lemma sample_resolved: "\<exists>s. resolveCanonicalRequest sample_node (\<lambda>_. sample_rpc_for k) (JStr ''https://a, https://b'') ''c'' sample_group_record ''7'' =
    Inr s \<and> cs_message s = sample_hex 32 k"
proof -
  have "normalizeRpcUrls sample_node (JStr ''https://a, https://b'') 2 ''threshold signing'' False = Inr [''https://a'', ''https://b'']"
    by code_simp
  moreover have "gb_chainId sample_body = 1" by (simp add: sample_body_def sample_body_for_def)
  then have "\<exists>s. endpoint_state ''c'' sample_group_record ''7'' (sample_rpc_for k) = Inr s \<and> cs_message s = sample_hex 32 k"
    using canonicalJson_total [of "canonical_request_json sample_request 6 (sample_hex 32 k)"]
    by (auto simp: endpoint_state_def sample_group_record_def sample_rpc_for_def sample_rpc_def normalizeCanonicalRequest_def
        sample_request_def canonical_request_json_def isSafeInteger_def)
  ultimately show ?thesis by (auto simp: resolveCanonicalRequest_def agree_on_request_def)
qed

theorem handler_guards_witness:
  "\<exists>st' effs code out. handler sample_ethers sample_bls sample_node sample_config sample_group_record ''t''
      (\<lambda>_. Inr (JObj [(''requestId'', JInt 7)]))
      (resolveCanonicalRequest sample_node (\<lambda>_. sample_rpc_for 1) (JStr ''https://a, https://b'') ''c'' sample_group_record) ''now''
      sample_http (empty_state sample_config) = (st', effs, code, out) \<and> code = 200 \<and> length (concat (hr_chunks sample_http)) \<le> 4096"
proof -
  let ?resolve = "resolveCanonicalRequest sample_node (\<lambda>_. sample_rpc_for 1) (JStr ''https://a, https://b'') ''c'' sample_group_record"
  obtain s where s: "?resolve ''7'' = Inr s" "cs_message s = sample_hex 32 1" using sample_resolved by blast
  obtain st' effs resp where j: "sign_job sample_ethers sample_bls sample_node sample_config ''now'' ''7'' (sample_hex 32 1)
      (empty_state sample_config) = (st', effs, Inr resp)"
    using honest_job [OF sample_honest sample_message(1), of "empty_state sample_config" "''7''" "''now''"]
    by (auto simp: empty_state_def entry_def)
  have "requested_id (JObj [(''requestId'', JInt 7)]) = Inr ''7''" by code_simp
  then have h: "handler sample_ethers sample_bls sample_node sample_config sample_group_record ''t''
      (\<lambda>_. Inr (JObj [(''requestId'', JInt 7)])) ?resolve ''now'' sample_http (empty_state sample_config) =
      (st', effs, 200, response_json resp)"
    using s j by (simp add: handler_def sample_http_def readBody_def)
  then show ?thesis using handler_guards [OF h] by (simp add: sample_http_def)
qed

text \<open>
  A correctly provisioned node signs every request it has not decided otherwise, and the recipient's checks accept the result: for a message that is valid and does not
  conflict with an earlier decision, the job records the decision and responds, and \<open>verifyPartialResponse\<close> accepts the response for exactly this
  manifest, key, request and message.
\<close>

theorem sign_job_responds:
  assumes "honest_node E B N c ex1 ex2 exT" "message_ok E B ex1 m"
    and "\<And>p. entry (ss_signedRequests st) rid = Some p \<Longrightarrow> toLowerCase p = toLowerCase m"
  shows "\<exists>st' effs resp. sign_job E B N c at rid m st = (st', effs, Inr resp) \<and>
    ss_signedRequests st' = set_entry rid m (ss_signedRequests st) \<and>
    verifyPartialResponse E B N (response_json resp) (nc_participant c) (binding c rid m) = Inr (pr_body resp)"
  by (rule honest_job [OF assms])

text \<open>A call of \<open>/v1/partial\<close>, and endpoints that read the id as the number it denotes, as the \<open>uint256\<close> argument of the coordinator's calls.\<close>

definition post_partial :: "string \<Rightarrow> bytes \<Rightarrow> http_request" where
  "post_partial bearerToken body = \<lparr>hr_authorization = Some (''Bearer '' @ bearerToken), hr_method = ''POST'', hr_url = ''/v1/partial'', hr_chunks = [body]\<rparr>"

definition numeric_ids :: "signing_rpc \<Rightarrow> bool" where
  "numeric_ids rpc \<longleftrightarrow> (\<forall>coordinator rid rid'. digits_text rid \<longrightarrow> digits_text rid' \<longrightarrow> decimal_value rid = decimal_value rid' \<longrightarrow>
     sr_getRequest rpc coordinator rid = sr_getRequest rpc coordinator rid' \<and>
     sr_requestSeed rpc coordinator rid = sr_requestSeed rpc coordinator rid')"

lemma resolve_numeric:
  assumes "\<And>u. numeric_ids (connect u)" "digits_text rid" "digits_text rid'" "decimal_value rid = decimal_value rid'"
  shows "resolveCanonicalRequest N connect rpcUrls coordinator grp rid = resolveCanonicalRequest N connect rpcUrls coordinator grp rid'"
proof -
  have same: "sr_getRequest (connect u) coordinator rid = sr_getRequest (connect u) coordinator rid'"
    "sr_requestSeed (connect u) coordinator rid = sr_requestSeed (connect u) coordinator rid'" for u
    using assms unfolding numeric_ids_def by blast+
  have "endpoint_state coordinator grp rid (connect u) = endpoint_state coordinator grp rid' (connect u)" for u
    unfolding endpoint_state_def same ..
  then show ?thesis by (simp add: resolveCanonicalRequest_def)
qed

lemma handler_post:
  assumes "length body \<le> 4096" "parseJson body = Inr (JObj [(''requestId'', JStr rid)])" "digits_text rid"
    "resolve rid = Inr canonical"
  shows "handler E B N c grp bearerToken parseJson resolve at (post_partial bearerToken body) st =
    (case sign_job E B N c at rid (cs_message canonical) st of
       (st', effects, Inr resp) \<Rightarrow> (st', effects, 200, response_json resp)
     | (st', effects, Inl e) \<Rightarrow> (st', effects, 400, JObj [(''error'', JStr e)]))"
proof -
  have "requested_id (JObj [(''requestId'', JStr rid)]) = Inr rid"
    using assms(3) by (simp add: requested_id_def fields_of_def field_def)
  then have "bindR (readBody parseJson [body]) (\<lambda>body. bindR (requested_id body) (\<lambda>rid.
      bindR (resolve rid) (\<lambda>canonical. Inr (rid, cs_message canonical)))) = Inr (rid, cs_message canonical)"
    using assms by (simp add: readBody_def)
  then show ?thesis by (simp add: handler_def post_partial_def)
qed

text \<open>
  C23: The decision is keyed by the text of the request id, not by its value. A correctly provisioned node that has answered the id 7 with a signature, and whose endpoints later report
  another valid message for that on-chain request, refuses the id 7 but answers the id 07 with a signature on the other message, although its endpoints take both
  ids for one request: both answers pass the recipient's checks, and the node has signed two messages for one request.
\<close>

theorem equivocation_by_leading_zero:
  assumes "honest_node E B N c ex1 ex2 exT" "message_ok E B ex1 (cs_message before)" "message_ok E B ex1 (cs_message after)"
    and "toLowerCase (cs_message before) \<noteq> toLowerCase (cs_message after)"
    and "\<And>u. numeric_ids (connect' u)"
    and "resolveCanonicalRequest N connect rpcUrls coordinator grp ''7'' = Inr before"
    and "resolveCanonicalRequest N connect' rpcUrls coordinator grp ''7'' = Inr after"
    and "length body7 \<le> 4096" "parseJson body7 = Inr (JObj [(''requestId'', JStr ''7'')])"
    and "length body07 \<le> 4096" "parseJson body07 = Inr (JObj [(''requestId'', JStr ''07'')])"
  shows "let serve = handler E B N c grp bearerToken parseJson; post = post_partial bearerToken;
      first = resolveCanonicalRequest N connect rpcUrls coordinator grp; later = resolveCanonicalRequest N connect' rpcUrls coordinator grp
    in later ''07'' = later ''7'' \<and> (\<exists>st effs r st' effs' r'.
      serve first at (post body7) (empty_state c) = (st, effs, 200, response_json r) \<and>
      (\<exists>e. serve later at' (post body7) st = (st, [], 400, JObj [(''error'', JStr e)])) \<and>
      serve later at' (post body07) st = (st', effs', 200, response_json r') \<and>
      verifyPartialResponse E B N (response_json r) (nc_participant c) (binding c ''7'' (cs_message before)) = Inr (pr_body r) \<and>
      verifyPartialResponse E B N (response_json r') (nc_participant c) (binding c ''07'' (cs_message after)) = Inr (pr_body r'))"
proof -
  have d: "digits_text ''7''" "digits_text ''07''" "decimal_value ''07'' = decimal_value ''7''" by code_simp+
  have same: "resolveCanonicalRequest N connect' rpcUrls coordinator grp ''07'' = resolveCanonicalRequest N connect' rpcUrls coordinator grp ''7''"
    by (rule resolve_numeric [OF assms(5) d(2,1,3)])
  obtain st effs r where r: "sign_job E B N c at ''7'' (cs_message before) (empty_state c) = (st, effs, Inr r)"
      "ss_signedRequests st = set_entry ''7'' (cs_message before) []"
      "verifyPartialResponse E B N (response_json r) (nc_participant c) (binding c ''7'' (cs_message before)) = Inr (pr_body r)"
    using honest_job [OF assms(1,2), of "empty_state c" "''7''" "at"] by (auto simp: empty_state_def entry_def)
  have "cs_message before \<noteq> []" using assms(2) by (auto simp: message_ok_def hex_text_def)
  then have "entry (ss_signedRequests st) ''7'' = Some (cs_message before)" by (simp add: r(2) entry_set_entry)
  then have refused: "sign_job E B N c at' ''7'' (cs_message after) st = (st, [], Inl ''refusing to sign a conflicting message for this requestId'')"
    using assms(4) by (simp add: sign_job_def)
  have "entry (ss_signedRequests st) ''07'' = None" by (simp add: r(2) entry_def set_entry_def)
  then obtain st' effs' r' where r': "sign_job E B N c at' ''07'' (cs_message after) st = (st', effs', Inr r')"
      "verifyPartialResponse E B N (response_json r') (nc_participant c) (binding c ''07'' (cs_message after)) = Inr (pr_body r')"
    using honest_job [OF assms(1,3), of st "''07''" "at'"] by auto
  note first = handler_post [where parseJson = parseJson and rid = "''7''" and resolve = "resolveCanonicalRequest N connect rpcUrls coordinator grp", OF assms(8,9) d(1) assms(6)]
  note again = handler_post [where parseJson = parseJson and rid = "''7''" and resolve = "resolveCanonicalRequest N connect' rpcUrls coordinator grp", OF assms(8,9) d(1) assms(7)]
  note other = handler_post [where parseJson = parseJson and rid = "''07''" and resolve = "resolveCanonicalRequest N connect' rpcUrls coordinator grp", OF assms(10,11) d(2) same [THEN trans, OF assms(7)]]
  show ?thesis
    unfolding Let_def first again other
    by (rule conjI [OF same], rule exI [of _ st], rule exI [of _ effs], rule exI [of _ r], rule exI [of _ st'], rule exI [of _ effs'],
      rule exI [of _ r']) (simp add: r r' refused)
qed

theorem equivocation_by_leading_zero_witness:
  "\<exists>resolve resolve' parseJson st effs r e st' effs' r'.
    resolve' ''07'' = resolve' ''7'' \<and>
    handler sample_ethers sample_bls sample_node sample_config sample_group_record ''t'' parseJson resolve ''now'' (post_partial ''t'' [7]) (empty_state sample_config) =
      (st, effs, 200, response_json r) \<and>
    handler sample_ethers sample_bls sample_node sample_config sample_group_record ''t'' parseJson resolve' ''now'' (post_partial ''t'' [7]) st =
      (st, [], 400, JObj [(''error'', JStr e)]) \<and>
    handler sample_ethers sample_bls sample_node sample_config sample_group_record ''t'' parseJson resolve' ''now'' (post_partial ''t'' [0]) st =
      (st', effs', 200, response_json r')"
proof -
  let ?resolve = "\<lambda>k. resolveCanonicalRequest sample_node (\<lambda>_. sample_rpc_for k) (JStr ''https://a, https://b'') ''c'' sample_group_record"
  let ?parse = "\<lambda>b :: bytes. Inr (JObj [(''requestId'', JStr (if b = [7] then ''7'' else ''07''))]) :: json result"
  obtain s1 s2 where s: "?resolve 1 ''7'' = Inr s1" "cs_message s1 = sample_hex 32 1" "?resolve 2 ''7'' = Inr s2" "cs_message s2 = sample_hex 32 2"
    using sample_resolved by blast
  have ne: "toLowerCase (cs_message s1) \<noteq> toLowerCase (cs_message s2)" unfolding s(2,4) by code_simp
  have n: "numeric_ids (sample_rpc_for 2)" by (simp add: numeric_ids_def sample_rpc_for_def sample_rpc_def)
  have p: "length ([7] :: bytes) \<le> 4096" "?parse [7] = Inr (JObj [(''requestId'', JStr ''7'')])"
    "length ([0] :: bytes) \<le> 4096" "?parse [0] = Inr (JObj [(''requestId'', JStr ''07'')])" by simp_all
  show ?thesis
    using equivocation_by_leading_zero [where parseJson = ?parse and bearerToken = "''t''" and at = "''now''" and at' = "''now''",
      OF sample_honest sample_message [folded s(2,4)] ne n s(1,3) p]
    unfolding Let_def by blast
qed

end
