(* ===== verification/Node_Runs.thy ===== *)
theory Node_Runs
  imports Threshold_Node Transition
begin

section \<open>A signing node over time\<close>

text \<open>
  The runs of a signing node: jobs served or refused, crashes between the durable writes of a job, and restarts from the two files. The invariants
  show that a node never signs two messages for one request, even across crashes, and that it can always be started again.
\<close>

subsection \<open>Runs of a node with crashes\<close>

text \<open>
  The world of a node: the two files, the memory of the running process (absent while it is down), and the
  responses it has given, as the pairs of request and message that their bodies name. A step serves or refuses a job, crashes during a job with a prefix of its writes done,
  or restarts from the files.
\<close>

record world =
  wd_file :: "state_file option"
  wd_audit :: "json list option"
  wd_memory :: "signing_state option"
  wd_sent :: "(string \<times> string) list"

fun apply_effect :: "world \<Rightarrow> effect \<Rightarrow> world" where
  "apply_effect w (WriteState f) = w\<lparr>wd_file := Some f\<rparr>"
| "apply_effect w (AppendAudit line) = w\<lparr>wd_audit := Some ((case wd_audit w of None \<Rightarrow> [] | Some ls \<Rightarrow> ls) @ [line])\<rparr>"

definition expectation :: "'k node_config \<Rightarrow> audit_expectation" where
  "expectation c = \<lparr>ae_participant = nc_participant c, ae_manifestHash = nc_manifestHash c, ae_keyHash = nc_keyHash c\<rparr>"

definition signed_pair :: "partial_response \<Rightarrow> string \<times> string" where
  "signed_pair resp = (js_string (field (fields_of (pr_body resp)) ''requestId''),
     js_string (field (fields_of (pr_body resp)) ''message''))"

inductive node_step ::
  "ethers \<Rightarrow> ('p, 'q, 't) bls \<Rightarrow> 'k node \<Rightarrow> 'k node_config \<Rightarrow> (string \<Rightarrow> bool) \<Rightarrow> world \<Rightarrow> world \<Rightarrow> bool"
  for E :: ethers and B :: "('p, 'q, 't) bls" and N :: "'k node" and c :: "'k node_config" and ok :: "string \<Rightarrow> bool" where
  serve: "wd_memory w = Some st \<Longrightarrow> ok m \<Longrightarrow> digits_text rid \<Longrightarrow> sign_job E B N c at rid m st = (st', effs, Inr resp) \<Longrightarrow>
     node_step E B N c ok w ((foldl apply_effect w effs)\<lparr>wd_memory := Some st', wd_sent := wd_sent w @ [signed_pair resp]\<rparr>)"
| refuse: "wd_memory w = Some st \<Longrightarrow> ok m \<Longrightarrow> digits_text rid \<Longrightarrow> sign_job E B N c at rid m st = (st', effs, Inl e) \<Longrightarrow>
     node_step E B N c ok w ((foldl apply_effect w effs)\<lparr>wd_memory := Some st'\<rparr>)"
| crash: "wd_memory w = Some st \<Longrightarrow> ok m \<Longrightarrow> digits_text rid \<Longrightarrow> sign_job E B N c at rid m st = (st', effs, res) \<Longrightarrow>
     node_step E B N c ok w ((foldl apply_effect w (take k effs))\<lparr>wd_memory := None\<rparr>)"
| restart: "wd_memory w = None \<Longrightarrow> loadSigningState (wd_file w) (nc_manifestHash c) = Inr st \<Longrightarrow>
     loadAuditLog E B N (Some (expectation c)) True (wd_audit w) st = Inr (st', written) \<Longrightarrow>
     node_step E B N c ok w (w\<lparr>wd_memory := Some st', wd_file := (if written then Some (saved st') else wd_file w)\<rparr>)"

definition file_signed :: "world \<Rightarrow> (string \<times> string) list" where
  "file_signed w = (case wd_file w of None \<Rightarrow> []
     | Some f \<Rightarrow> (case sf_signedRequests f of None \<Rightarrow> [] | Some s \<Rightarrow> s))"

definition audit_lines :: "world \<Rightarrow> json list" where
  "audit_lines w = (case wd_audit w of None \<Rightarrow> [] | Some ls \<Rightarrow> ls)"

definition node_inv :: "world \<Rightarrow> bool" where
  "node_inv w \<longleftrightarrow> (\<forall>(rid, m) \<in> set (wd_sent w). \<exists>p. entry (file_signed w) rid = Some p \<and> toLowerCase p = toLowerCase m) \<and>
     (\<forall>st. wd_memory w = Some st \<longrightarrow> signed_le (file_signed w) (ss_signedRequests st))"

definition world_le :: "world \<Rightarrow> world \<Rightarrow> bool" where
  "world_le w w' \<longleftrightarrow> signed_le (file_signed w) (file_signed w') \<and> prefix (wd_sent w) (wd_sent w') \<and>
     prefix (audit_lines w) (audit_lines w')"

text \<open>What a job does to the signed requests, in memory and in every state it writes.\<close>

lemma sign_job_signed:
  assumes "sign_job E B N c at rid m st = (st', effs, res)" "m \<noteq> []"
  shows "signed_le (ss_signedRequests st) (ss_signedRequests st')"
    "\<forall>f. WriteState f \<in> set effs \<longrightarrow> sf_signedRequests f = Some (ss_signedRequests st')"
    "res = Inr resp \<Longrightarrow> entry (ss_signedRequests st') rid = Some m \<and> (\<exists>f fs. effs = WriteState f # fs)"
    "effs = [] \<Longrightarrow> st' = st"
  using assms
  by (auto simp: sign_job_def appendAuditRecord_def result_simps Let_def saved_def entry_set_entry
      split: if_splits sum.splits option.splits prod.splits intro!: signed_le_set_entry)

lemma sign_job_pair:
  assumes "sign_job E B N c at rid m st = (st', effs, Inr resp)"
  shows "signed_pair resp = (rid, m)"
  using assms
  by (auto simp: sign_job_def buildPartialResponse_def result_simps Let_def signed_pair_def partial_body_def fields_of_def
      field_def split: if_splits sum.splits option.splits prod.splits)

lemma apply_effects_sent [simp]: "wd_sent (foldl apply_effect w effs) = wd_sent w"
proof (induction effs arbitrary: w)
  case (Cons e effs)
  then show ?case by (cases e) simp_all
qed simp

lemma file_signed_apply:
  "file_signed (apply_effect w (WriteState f)) = (case sf_signedRequests f of None \<Rightarrow> [] | Some s \<Rightarrow> s)"
  "file_signed (apply_effect w (AppendAudit l)) = file_signed w"
  by (simp_all add: file_signed_def)

lemma apply_effects_signed:
  assumes "\<forall>f. WriteState f \<in> set effs \<longrightarrow> sf_signedRequests f = Some s"
  shows "file_signed (foldl apply_effect w effs) = (if \<exists>f. WriteState f \<in> set effs then s else file_signed w)"
  using assms
proof (induction effs arbitrary: w)
  case (Cons e effs)
  then have IH: "file_signed (foldl apply_effect (apply_effect w e) effs) =
      (if \<exists>f. WriteState f \<in> set effs then s else file_signed (apply_effect w e))" by simp
  show ?case
  proof (cases e)
    case (WriteState f)
    have "sf_signedRequests f = Some s" using Cons.prems unfolding WriteState by (meson list.set_intros(1))
    then have "file_signed (apply_effect w e) = s" by (simp only: WriteState file_signed_apply option.case)
    with IH have "file_signed (foldl apply_effect (apply_effect w e) effs) = s" by (simp only: if_cancel)
    moreover have "\<exists>f. WriteState f \<in> set (e # effs)" using WriteState by auto
    ultimately show ?thesis by (simp only: foldl_Cons if_True)
  next
    case (AppendAudit l)
    then have "file_signed (apply_effect w e) = file_signed w" by (simp only: file_signed_apply)
    moreover have "(\<exists>f. WriteState f \<in> set (e # effs)) = (\<exists>f. WriteState f \<in> set effs)" using AppendAudit by auto
    ultimately show ?thesis using IH by (simp only: foldl_Cons)
  qed
qed simp

lemma audit_lines_apply:
  "audit_lines (apply_effect w (WriteState f)) = audit_lines w"
  "audit_lines (apply_effect w (AppendAudit l)) = audit_lines w @ [l]"
  by (simp_all add: audit_lines_def split: option.split)

lemma audit_lines_update [simp]:
  "audit_lines (w\<lparr>wd_memory := x\<rparr>) = audit_lines w" "audit_lines (w\<lparr>wd_sent := y\<rparr>) = audit_lines w"
  "audit_lines (w\<lparr>wd_file := z\<rparr>) = audit_lines w"
  by (simp_all add: audit_lines_def)

lemma apply_effects_audit: "prefix (audit_lines w) (audit_lines (foldl apply_effect w effs))"
proof (induction effs arbitrary: w)
  case (Cons e effs)
  have "prefix (audit_lines w) (audit_lines (apply_effect w e))"
    by (cases e) (simp_all only: audit_lines_apply prefix_order.refl prefixI)
  then show ?case using Cons.IH [of "apply_effect w e"] by (simp add: prefix_order.trans)
qed simp

lemma job_world:
  assumes "sign_job E B N c at rid m st = (st', effs, res)" "m \<noteq> []" "node_inv w" "wd_memory w = Some st"
    and "es = take k effs"
  shows "signed_le (file_signed w) (file_signed (foldl apply_effect w es))"
    "signed_le (file_signed (foldl apply_effect w es)) (ss_signedRequests st')"
proof -
  note j = sign_job_signed(1,2) [OF assms(1,2)]
  have "\<forall>f. WriteState f \<in> set es \<longrightarrow> sf_signedRequests f = Some (ss_signedRequests st')"
    using j(2) set_take_subset unfolding assms(5) by fastforce
  note a = apply_effects_signed [OF this, of w]
  have "signed_le (file_signed w) (ss_signedRequests st')"
    using assms(3,4) j(1) signed_le_trans unfolding node_inv_def by blast
  then show "signed_le (file_signed w) (file_signed (foldl apply_effect w es))"
    "signed_le (file_signed (foldl apply_effect w es)) (ss_signedRequests st')"
    by (simp_all add: a)
qed

lemma sent_kept:
  assumes "\<forall>(rid, m) \<in> set sent. \<exists>p. entry s rid = Some p \<and> toLowerCase p = toLowerCase m" "signed_le s s'"
  shows "\<forall>(rid, m) \<in> set sent. \<exists>p. entry s' rid = Some p \<and> toLowerCase p = toLowerCase m"
proof (clarify)
  fix rid m assume "(rid, m) \<in> set sent"
  then obtain p where "entry s rid = Some p" "toLowerCase p = toLowerCase m" using assms(1) by blast
  then show "\<exists>p. entry s' rid = Some p \<and> toLowerCase p = toLowerCase m"
    using assms(2) unfolding signed_le_def by metis
qed

lemma file_signed_update [simp]:
  "file_signed (w\<lparr>wd_memory := x\<rparr>) = file_signed w" "file_signed (w\<lparr>wd_sent := y\<rparr>) = file_signed w"
  by (simp_all add: file_signed_def)

lemma restart_signed:
  assumes "loadSigningState (wd_file w) mh = Inr st" "loadAuditLog E B N ex safe (wd_audit w) st = Inr (st', wr)"
  shows "ss_signedRequests st' = file_signed w"
  using assms
  by (auto simp: loadSigningState_def loadAuditLog_def file_signed_def result_simps split: option.splits if_splits)

lemma node_step_inv:
  assumes "node_step E B N c ok w w'" "node_inv w" "\<And>m. ok m \<Longrightarrow> m \<noteq> []"
  shows "node_inv w' \<and> world_le w w'"
  using assms(1)
proof cases
  case (serve st m rid at st' effs resp)
  note j = job_world [OF serve(5) assms(3) [OF serve(3)] assms(2) serve(2), where k = "length effs", simplified]
  have "file_signed (foldl apply_effect w effs) = ss_signedRequests st'"
    using sign_job_signed [OF serve(5) assms(3) [OF serve(3)]] by (subst apply_effects_signed) auto
  then have "\<exists>p. entry (file_signed (foldl apply_effect w effs)) rid = Some p \<and> toLowerCase p = toLowerCase m"
    using sign_job_signed(3) [OF serve(5) assms(3) [OF serve(3)]] by auto
  then show ?thesis
    using j sent_kept [of "wd_sent w", OF _ j(1)] assms(2) serve(1) apply_effects_audit [of w effs] sign_job_pair [OF serve(5)]
    by (simp add: node_inv_def world_le_def)
next
  case (refuse st m rid at st' effs e)
  note j = job_world [OF refuse(5) assms(3) [OF refuse(3)] assms(2) refuse(2), where k = "length effs", simplified]
  show ?thesis
    using j sent_kept [of "wd_sent w", OF _ j(1)] assms(2) refuse(1) apply_effects_audit [of w effs]
    by (simp add: node_inv_def world_le_def)
next
  case (crash st m rid at st' effs res k)
  note j = job_world [OF crash(5) assms(3) [OF crash(3)] assms(2) crash(2) refl [of "take k effs"]]
  show ?thesis
    using j sent_kept [of "wd_sent w", OF _ j(1)] assms(2) crash(1) apply_effects_audit [of w "take k effs"]
    by (simp add: node_inv_def world_le_def)
next
  case (restart st st' written)
  have s: "ss_signedRequests st' = file_signed w" by (rule restart_signed [OF restart(3,4)])
  then have "file_signed w' = file_signed w" using restart(1) by (simp add: file_signed_def saved_def)
  then show ?thesis using assms(2) s restart(1) by (simp add: node_inv_def world_le_def)
qed


definition fresh :: world where
  "fresh = \<lparr>wd_file = None, wd_audit = None, wd_memory = None, wd_sent = []\<rparr>"

interpretation node_runs: monotone_system "node_step E B N c (\<lambda>m. m \<noteq> [])" node_inv world_le for E B N c
proof
  show "node_inv t" if "node_inv s" "node_step E B N c (\<lambda>m. m \<noteq> []) s t" for s t using node_step_inv [OF that(2,1)] by blast
  show "world_le s t" if "node_inv s" "node_step E B N c (\<lambda>m. m \<noteq> []) s t" for s t using node_step_inv [OF that(2,1)] by blast
  show "world_le s s" for s by (simp add: world_le_def)
  show "world_le s u" if "world_le s t" "world_le t u" for s t u
    using that signed_le_trans [of "file_signed s" "file_signed t" "file_signed u"]
      prefix_order.trans [of "wd_sent s" "wd_sent t" "wd_sent u"]
      prefix_order.trans [of "audit_lines s" "audit_lines t" "audit_lines u"] by (simp add: world_le_def)
qed

subsection \<open>The audit log can always be replayed\<close>

lemma check_audit_record_Inr:
  "check_audit_record E B N ex s (head, audited) rec = Inr acc' \<longleftrightarrow>
     (let r = fields_of rec; rid = js_string (field r ''requestId'') in
      field r ''format'' = JStr AUDIT_FORMAT \<and> digits_text rid \<and> hex_text 64 (js_string (field r ''message'')) \<and>
      hex_text 192 (js_string (field r ''signature'')) \<and> hex_text 128 (js_string (field r ''identitySignature'')) \<and>
      entry audited rid = None \<and> same_hash (field r ''previousHash'') head \<and>
      (\<exists>text. canonicalJson (JObj (filter (\<lambda>kv. fst kv \<noteq> ''eventHash'') r)) = Inr text \<and>
         same_hash (field r ''eventHash'') (keccak256 E (toUtf8Bytes E text))) \<and>
      (\<exists>p. entry s rid = Some p \<and> same_hash (field r ''message'') p) \<and>
      (\<forall>ae. ex = Some ae \<longrightarrow> isOk (verifyPartialResponse E B N (audit_response ae r) (ae_participant ae)
         \<lparr>ex_manifestHash = ae_manifestHash ae, ex_keyHash = ae_keyHash ae, ex_requestId = rid,
           ex_message = js_string (field r ''message'')\<rparr>)) \<and>
      acc' = (js_string (field r ''eventHash''), set_entry rid (js_string (field r ''eventHash'')) audited))"
  by (cases ex) (auto simp only: check_audit_record_def Let_def prod.case if_Inl_result option_case_result bindR_Inr isOk_iff
      option.case option.inject option.distinct sum.inject de_Morgan_disj not_not simp_thms)

lemma check_audit_mono:
  assumes "check_audit_record E B N ex s acc r = Inr acc'" "signed_le s s'"
  shows "check_audit_record E B N ex s' acc r = Inr acc'"
proof -
  obtain head audited where acc: "acc = (head, audited)" by fastforce
  have "\<exists>p'. entry s' rid = Some p' \<and> same_hash v p'" if "entry s rid = Some p" "same_hash v p" for rid p v
    using that assms(2) unfolding signed_le_def same_hash_def by (cases v) fastforce+
  then show ?thesis using assms(1) unfolding acc check_audit_record_Inr Let_def by blast
qed

definition replay ::
  "ethers \<Rightarrow> ('p, 'q, 't) bls \<Rightarrow> 'k node \<Rightarrow> 'k node_config \<Rightarrow> (string \<times> string) list \<Rightarrow> json list \<Rightarrow>
     (string \<times> (string \<times> string) list) result" where
  "replay E B N c s ls = foldR (check_audit_record E B N (Some (expectation c)) s) (AUDIT_ZERO_HASH, []) ls"

lemma foldR_mono:
  assumes "\<And>a x b. f a x = Inr b \<Longrightarrow> g a x = Inr b" "foldR f a xs = Inr b"
  shows "foldR g a xs = Inr b"
  using assms(2) by (induction xs arbitrary: a) (auto simp: result_simps assms(1))

lemma replay_mono: "replay E B N c s ls = Inr a \<Longrightarrow> signed_le s s' \<Longrightarrow> replay E B N c s' ls = Inr a"
  unfolding replay_def by (rule foldR_mono [OF check_audit_mono])

lemma replay_snoc:
  "replay E B N c s (ls @ [l]) = bindR (replay E B N c s ls) (\<lambda>a. check_audit_record E B N (Some (expectation c)) s a l)"
  unfolding replay_def foldR_append by simp

lemma appended_line_checks:
  assumes h: "honest_node E B N c ex1 ex2 exT" "message_ok E B ex1 m" "digits_text rid"
    and b: "buildPartialResponse E B N (nc_participant c) (nc_manifestHash c) (nc_keyHash c) rid m
      (nc_secretShare c) (nc_identityPrivateKey c) = Inr resp"
    and a: "appendAuditRecord E (audit_body c at rid m resp) rid st1 = Inr (st2, line)"
    and e: "entry (ss_auditedRequests st1) rid = None" "entry s rid = Some m"
  shows "check_audit_record E B N (Some (expectation c)) s (ss_auditHead st1, ss_auditedRequests st1) line =
      Inr (ss_auditHead st2, ss_auditedRequests st2)"
    "entry (ss_auditedRequests st2) rid \<noteq> None" "signed_le (ss_auditedRequests st1) (ss_auditedRequests st2)"
proof -
  let ?p = "nc_participant c"
  obtain sig isig where r: "resp = \<lparr>pr_body = partial_body ?p (nc_manifestHash c) (nc_keyHash c) rid m sig,
        pr_signature = sig, pr_identitySignature = isig\<rparr>" "hex_text 192 sig" "hex_text 128 isig"
      "verifyPartialResponse E B N (JObj [(''body'', partial_body ?p (nc_manifestHash c) (nc_keyHash c) rid m sig),
        (''identitySignature'', JStr isig)]) ?p (binding c rid m) =
      Inr (partial_body ?p (nc_manifestHash c) (nc_keyHash c) rid m sig)"
    using build_honest [OF h(1,2), of rid] b by auto
  define r0 where "r0 = audit_body c at rid m resp @ [(''previousHash'', JStr (ss_auditHead st1))]"
  obtain tx where t: "canonicalJson (JObj r0) = Inr tx" using a by (auto simp: appendAuditRecord_def r0_def Let_def result_simps)
  let ?h = "keccak256 E (toUtf8Bytes E tx)"
  have st2: "ss_auditHead st2 = ?h" "ss_auditedRequests st2 = set_entry rid ?h (ss_auditedRequests st1)"
    and line: "line = JObj (r0 @ [(''eventHash'', JStr ?h)])"
    using a t by (auto simp: appendAuditRecord_def r0_def Let_def result_simps)
  have ne: "?h \<noteq> []" using h(1) by (simp add: honest_node_def)
  have "filter (\<lambda>kv. fst kv \<noteq> ''eventHash'') (fields_of line) = r0"
    by (simp add: line fields_of_def r0_def audit_body_def)
  moreover have "field (fields_of line) ''eventHash'' = JStr ?h" "field (fields_of line) ''previousHash'' = JStr (ss_auditHead st1)"
    "field (fields_of line) ''requestId'' = JStr rid" "field (fields_of line) ''message'' = JStr m"
    "field (fields_of line) ''signature'' = JStr sig" "field (fields_of line) ''identitySignature'' = JStr isig"
    "field (fields_of line) ''format'' = JStr AUDIT_FORMAT" "field (fields_of line) ''participantId'' = JStr (pa_id ?p)"
    "field (fields_of line) ''manifestHash'' = JStr (nc_manifestHash c)" "field (fields_of line) ''keyHash'' = JStr (nc_keyHash c)"
    by (simp_all add: line fields_of_def r0_def audit_body_def field_def r(1))
  moreover have "hex_text 64 m" using h(2) by (simp add: message_ok_def)
  ultimately show "check_audit_record E B N (Some (expectation c)) s (ss_auditHead st1, ss_auditedRequests st1) line =
      Inr (ss_auditHead st2, ss_auditedRequests st2)"
    using h(3) e r(2,3,4) t unfolding check_audit_record_Inr Let_def
    by (simp add: js_string.simps same_hash_def st2 audit_response_def expectation_def binding_def partial_body_def)
  show "entry (ss_auditedRequests st2) rid \<noteq> None" using ne by (simp add: st2 entry_set_entry)
  show "signed_le (ss_auditedRequests st1) (ss_auditedRequests st2)"
    using e(1) ne unfolding st2 by (intro signed_le_set_entry) simp_all
qed

definition head_of :: "signing_state \<Rightarrow> string \<times> (string \<times> string) list" where
  "head_of st = (ss_auditHead st, ss_auditedRequests st)"

lemma snd_head_of [simp]: "snd (head_of st) = ss_auditedRequests st"
  by (simp add: head_of_def)

definition ours :: "'k node_config \<Rightarrow> signing_state \<Rightarrow> bool" where
  "ours c st \<longleftrightarrow> toLowerCase (ss_manifestHash st) = toLowerCase (nc_manifestHash c)"

text \<open>The files replay to the head and the audited requests \<open>a\<close>.\<close>

definition log_ok ::
  "ethers \<Rightarrow> ('p, 'q, 't) bls \<Rightarrow> 'k node \<Rightarrow> 'k node_config \<Rightarrow> world \<Rightarrow> string \<times> (string \<times> string) list \<Rightarrow> bool" where
  "log_ok E B N c w a \<longleftrightarrow> replay E B N c (file_signed w) (audit_lines w) = Inr a \<and>
     (\<forall>f. wd_file w = Some f \<longrightarrow> (\<exists>st. f = saved st \<and> ours c st \<and> (wd_audit w = None \<longrightarrow> head_of st = (AUDIT_ZERO_HASH, []))))"

definition log_inv :: "ethers \<Rightarrow> ('p, 'q, 't) bls \<Rightarrow> 'k node \<Rightarrow> 'k node_config \<Rightarrow> world \<Rightarrow> bool" where
  "log_inv E B N c w \<longleftrightarrow> (\<exists>a. log_ok E B N c w a \<and> (\<forall>(rid, m) \<in> set (wd_sent w). entry (snd a) rid \<noteq> None) \<and>
     (\<forall>st. wd_memory w = Some st \<longrightarrow> ss_signedRequests st = file_signed w \<and> head_of st = a \<and> ours c st))"

lemma file_signed_saved [simp]: "file_signed (w\<lparr>wd_file := Some (saved st)\<rparr>) = ss_signedRequests st"
  by (simp add: file_signed_def saved_def)

lemma log_ok_write:
  assumes "log_ok E B N c w a" "signed_le (file_signed w) (ss_signedRequests st)" "ours c st" "head_of st = a"
  shows "log_ok E B N c (apply_effect w (WriteState (saved st))) a"
proof -
  have "a = (AUDIT_ZERO_HASH, [])" if "wd_audit w = None"
    using assms(1) that by (simp add: log_ok_def replay_def audit_lines_def)
  moreover have "replay E B N c (ss_signedRequests st) (audit_lines w) = Inr a"
    using assms(1,2) replay_mono unfolding log_ok_def by blast
  ultimately show ?thesis using assms(3,4) by (auto simp: log_ok_def)
qed

lemma log_ok_append:
  assumes "log_ok E B N c w a" "check_audit_record E B N (Some (expectation c)) (file_signed w) a line = Inr a'"
  shows "log_ok E B N c (apply_effect w (AppendAudit line)) a'"
proof -
  have "file_signed (apply_effect w (AppendAudit line)) = file_signed w" by (rule file_signed_apply)
  moreover have "replay E B N c (file_signed w) (audit_lines w @ [line]) = Inr a'"
    using assms by (simp add: log_ok_def replay_snoc)
  ultimately show ?thesis
    using assms(1) by (simp only: log_ok_def audit_lines_apply) auto
qed

text \<open>The three ways a job of an honest node ends.\<close>

lemma sign_job_cases:
  assumes "honest_node E B N c ex1 ex2 exT" "message_ok E B ex1 m"
    and "sign_job E B N c at rid m st = (st', effs, res)"
  obtains (conflict) e where "st' = st" "effs = []" "res = Inl e"
  | (known) resp where "st' = st\<lparr>ss_signedRequests := set_entry rid m (ss_signedRequests st)\<rparr>"
      "effs = [WriteState (saved st')]" "res = Inr resp" "entry (ss_auditedRequests st) rid \<noteq> None"
      "signed_le (ss_signedRequests st) (ss_signedRequests st')"
  | (audited) resp line st1 where "st1 = st\<lparr>ss_signedRequests := set_entry rid m (ss_signedRequests st)\<rparr>"
      "effs = [WriteState (saved st1), AppendAudit line, WriteState (saved st')]" "res = Inr resp"
      "entry (ss_auditedRequests st) rid = None" "signed_le (ss_signedRequests st) (ss_signedRequests st1)"
      "appendAuditRecord E (audit_body c at rid m resp) rid st1 = Inr (st', line)"
      "buildPartialResponse E B N (nc_participant c) (nc_manifestHash c) (nc_keyHash c) rid m
        (nc_secretShare c) (nc_identityPrivateKey c) = Inr resp"
proof -
  let ?st1 = "st\<lparr>ss_signedRequests := set_entry rid m (ss_signedRequests st)\<rparr>"
  obtain resp where b: "buildPartialResponse E B N (nc_participant c) (nc_manifestHash c) (nc_keyHash c) rid m
      (nc_secretShare c) (nc_identityPrivateKey c) = Inr resp" using build_honest [OF assms(1,2), of rid] by blast
  have m: "m \<noteq> []" using assms(2) by (auto simp: message_ok_def hex_text_def)
  obtain st2 line where a: "appendAuditRecord E (audit_body c at rid m resp) rid ?st1 = Inr (st2, line)"
    using canonicalJson_total [of "JObj (audit_body c at rid m resp @ [(''previousHash'', JStr (ss_auditHead ?st1))])"]
    by (auto simp: appendAuditRecord_def Let_def audit_body_def)
  show ?thesis
  proof (cases "case entry (ss_signedRequests st) rid of None \<Rightarrow> False | Some p \<Rightarrow> toLowerCase p \<noteq> toLowerCase m")
    case True
    then show ?thesis using assms(3) by (intro conflict) (auto simp: sign_job_def)
  next
    case False
    then have le: "signed_le (ss_signedRequests st) (set_entry rid m (ss_signedRequests st))"
      using m by (intro signed_le_set_entry) auto
    show ?thesis
    proof (cases "entry (ss_auditedRequests st) rid")
      case None
      then show ?thesis using assms(3) False b a le by (intro audited [OF refl]) (auto simp: sign_job_def Let_def)
    next
      case (Some h)
      then show ?thesis using assms(3) False b le by (intro known [of resp]) (auto simp: sign_job_def Let_def)
    qed
  qed
qed

lemma job_log:
  assumes h: "honest_node E B N c ex1 ex2 exT" "message_ok E B ex1 m" "digits_text rid"
    and j: "sign_job E B N c at rid m st = (st', effs, res)"
    and l: "log_ok E B N c w (head_of st)" "ss_signedRequests st = file_signed w" "ours c st"
  shows "\<exists>a. log_ok E B N c (foldl apply_effect w (take k effs)) a \<and> signed_le (ss_auditedRequests st) (snd a)"
    "log_ok E B N c (foldl apply_effect w effs) (head_of st') \<and> signed_le (ss_auditedRequests st) (ss_auditedRequests st') \<and>
     ss_signedRequests st' = file_signed (foldl apply_effect w effs) \<and> ours c st' \<and>
     (isOk res \<longrightarrow> entry (ss_auditedRequests st') rid \<noteq> None)"
proof -
  have "(\<exists>a. log_ok E B N c (foldl apply_effect w (take k effs)) a \<and> signed_le (ss_auditedRequests st) (snd a)) \<and>
    log_ok E B N c (foldl apply_effect w effs) (head_of st') \<and> signed_le (ss_auditedRequests st) (ss_auditedRequests st') \<and>
    ss_signedRequests st' = file_signed (foldl apply_effect w effs) \<and> ours c st' \<and>
    (isOk res \<longrightarrow> entry (ss_auditedRequests st') rid \<noteq> None)"
    using h(1,2) j
  proof (cases rule: sign_job_cases)
    case conflict
    then show ?thesis using l by (intro conjI exI [of _ "head_of st"]) simp_all
  next
    case (known resp)
    have w1: "log_ok E B N c (apply_effect w (WriteState (saved st'))) (head_of st')"
      using l known(1,5) by (intro log_ok_write) (auto simp: head_of_def ours_def)
    moreover have "head_of st' = head_of st" using known(1) by (simp add: head_of_def)
    ultimately show ?thesis using l known
      by (intro conjI exI [of _ "head_of st"]; cases k) (simp_all add: ours_def)
  next
    case (audited resp line st1)
    let ?w1 = "apply_effect w (WriteState (saved st1))"
    let ?w2 = "apply_effect ?w1 (AppendAudit line)"
    have w1: "log_ok E B N c ?w1 (head_of st1)"
      using l audited(1,5) by (intro log_ok_write) (auto simp: head_of_def ours_def)
    have "m \<noteq> []" using h(2) by (auto simp: message_ok_def hex_text_def)
    then have e: "entry (ss_auditedRequests st1) rid = None" "entry (file_signed ?w1) rid = Some m"
      using audited(1,4) by (simp_all add: entry_set_entry)
    note line = appended_line_checks [OF h audited(7,6) e]
    have w2: "log_ok E B N c ?w2 (head_of st')"
      using log_ok_append [OF w1] line(1) by (simp add: head_of_def)
    have s: "ss_signedRequests st' = ss_signedRequests st1" "ss_manifestHash st' = ss_manifestHash st1"
      using audited(6) by (auto simp: appendAuditRecord_def Let_def result_simps)
    then have o: "ours c st'" using l(3) audited(1) by (simp add: ours_def)
    have "signed_le (file_signed ?w2) (ss_signedRequests st')" using s by (simp add: file_signed_def saved_def)
    then have w3: "log_ok E B N c (apply_effect ?w2 (WriteState (saved st'))) (head_of st')"
      using w2 o by (intro log_ok_write refl)
    have "\<exists>a. log_ok E B N c (foldl apply_effect w (take k effs)) a \<and> signed_le (ss_auditedRequests st) (snd a)"
    proof -
      consider "k = 0" | "k = 1" | "k = 2" | "k \<ge> 3" by linarith
      then show ?thesis
      proof cases
        case 1 then show ?thesis using l by (intro exI [of _ "head_of st"]) simp
      next
        case 2 then show ?thesis using w1 audited(1,2) by (intro exI [of _ "head_of st1"]) simp
      next
        case 3 then show ?thesis
          using w2 line(3) audited(1,2) by (intro exI [of _ "head_of st'"]) (simp add: numeral_eq_Suc)
      next
        case 4 then show ?thesis using w3 line(3) audited(1,2) by (intro exI [of _ "head_of st'"]) simp
      qed
    qed
    then show ?thesis using w3 o line(2,3) audited(1,2) by (auto simp: file_signed_def saved_def)
  qed
  then show "\<exists>a. log_ok E B N c (foldl apply_effect w (take k effs)) a \<and> signed_le (ss_auditedRequests st) (snd a)"
    "log_ok E B N c (foldl apply_effect w effs) (head_of st') \<and> signed_le (ss_auditedRequests st) (ss_auditedRequests st') \<and>
     ss_signedRequests st' = file_signed (foldl apply_effect w effs) \<and> ours c st' \<and>
     (isOk res \<longrightarrow> entry (ss_auditedRequests st') rid \<noteq> None)" by blast+
qed

lemma loadSigningState_saved: "ours c st \<Longrightarrow> loadSigningState (Some (saved st)) (nc_manifestHash c) = Inr st"
  by (simp add: loadSigningState_def saved_def ours_def)

lemma restart_log:
  assumes "log_ok E B N c w a"
  shows "\<exists>st st' written. loadSigningState (wd_file w) (nc_manifestHash c) = Inr st \<and>
    loadAuditLog E B N (Some (expectation c)) True (wd_audit w) st = Inr (st', written) \<and>
    ss_signedRequests st' = file_signed w \<and> head_of st' = a \<and> ours c st' \<and> (\<not> written \<longrightarrow> wd_audit w = None)"
proof -
  have r: "replay E B N c (file_signed w) (audit_lines w) = Inr a" using assms by (simp add: log_ok_def)
  obtain st where st: "loadSigningState (wd_file w) (nc_manifestHash c) = Inr st" "ss_signedRequests st = file_signed w"
      "ours c st" "wd_audit w = None \<longrightarrow> head_of st = (AUDIT_ZERO_HASH, [])"
  proof (cases "wd_file w")
    case None
    then show ?thesis using that by (simp add: loadSigningState_def file_signed_def ours_def head_of_def)
  next
    case (Some f)
    then show ?thesis using that assms loadSigningState_saved by (fastforce simp: log_ok_def file_signed_def saved_def)
  qed
  show ?thesis
  proof (cases "wd_audit w")
    case None
    then show ?thesis using st r 
      by (intro exI [of _ st] exI [of _ False]) (simp add: loadAuditLog_def replay_def audit_lines_def)
  next
    case (Some ls)
    then show ?thesis using st r
      by (intro exI [of _ st] exI [of _ "st\<lparr>ss_auditedRequests := snd a, ss_auditHead := fst a\<rparr>"] exI [of _ True])
        (simp add: loadAuditLog_def replay_def audit_lines_def head_of_def ours_def split: prod.split)
  qed
qed

lemma log_inv_step:
  assumes h: "honest_node E B N c ex1 ex2 exT" and i: "log_inv E B N c w"
    and st: "node_step E B N c (message_ok E B ex1) w w'"
  shows "log_inv E B N c w'"
proof -
  obtain a where a: "log_ok E B N c w a" "\<And>rid m. (rid, m) \<in> set (wd_sent w) \<Longrightarrow> entry (snd a) rid \<noteq> None"
      "\<And>st. wd_memory w = Some st \<Longrightarrow> ss_signedRequests st = file_signed w \<and> head_of st = a \<and> ours c st"
    using i unfolding log_inv_def by blast
  have kept: "entry (snd a') rid \<noteq> None" if "signed_le (snd a) (snd a')" "(rid, m) \<in> set (wd_sent w)"
    for a' :: "string \<times> (string \<times> string) list" and rid m
    using that a(2) unfolding signed_le_def by blast
  have mem: "log_ok E B N c (v\<lparr>wd_memory := x, wd_sent := y\<rparr>) b = log_ok E B N c v b"
    "log_ok E B N c (v\<lparr>wd_memory := x\<rparr>) b = log_ok E B N c v b" for v x y b
    by (simp_all add: log_ok_def)
  show ?thesis using st
  proof cases
    case (serve st m rid at st' effs resp)
    have l: "ss_signedRequests st = file_signed w" "head_of st = a" "ours c st" using a(3) serve(2) by auto
    note j = job_log(2) [OF h serve(3,4,5) _ l(1,3)]
    show ?thesis unfolding log_inv_def serve(1) using j a(1) l(2) kept [of "head_of st'"] sign_job_pair [OF serve(5)]
      by (intro exI [of _ "head_of st'"]) (auto simp: mem)
  next
    case (refuse st m rid at st' effs e)
    have l: "ss_signedRequests st = file_signed w" "head_of st = a" "ours c st" using a(3) refuse(2) by auto
    note j = job_log(2) [OF h refuse(3,4,5) _ l(1,3)]
    show ?thesis unfolding log_inv_def refuse(1) using j a(1) l(2) kept [of "head_of st'"]
      by (intro exI [of _ "head_of st'"]) (auto simp: mem)
  next
    case (crash st m rid at st' effs res k)
    have l: "ss_signedRequests st = file_signed w" "head_of st = a" "ours c st" using a(3) crash(2) by auto
    obtain a' where "log_ok E B N c (foldl apply_effect w (take k effs)) a'" "signed_le (ss_auditedRequests st) (snd a')"
      using job_log(1) [OF h crash(3,4,5) _ l(1,3)] a(1) l(2) by blast
    then show ?thesis unfolding log_inv_def crash(1) using l(2) kept [of a']
      by (intro exI [of _ a']) (auto simp: mem)
  next
    case (restart st st' written)
    then have r: "ss_signedRequests st' = file_signed w" "head_of st' = a" "ours c st'"
      using restart_log [OF a(1)] by auto
    have "log_ok E B N c (apply_effect w (WriteState (saved st'))) a" using log_ok_write [OF a(1) _ r(3,2)] r(1) by simp
    then have "log_ok E B N c (w\<lparr>wd_file := if written then Some (saved st') else wd_file w\<rparr>) a" using a(1) by simp
    then show ?thesis unfolding log_inv_def restart(1) using r a(2)
      by (intro exI [of _ a]) (auto simp: log_ok_def file_signed_def saved_def)
  qed
qed

lemma log_inv_fresh: "log_inv E B N c fresh"
  by (simp add: log_inv_def log_ok_def fresh_def replay_def audit_lines_def)

lemma node_inv_fresh: "node_inv fresh"
  by (simp add: node_inv_def fresh_def)

lemma honest_run:
  assumes "honest_node E B N c ex1 ex2 exT" "(node_step E B N c (message_ok E B ex1))\<^sup>*\<^sup>* fresh w"
  shows "log_inv E B N c w \<and> node_inv w"
  using assms(2)
proof (induction rule: rtranclp_induct)
  case base
  show ?case using log_inv_fresh node_inv_fresh by blast
next
  case (step w w')
  have "\<And>m. message_ok E B ex1 m \<Longrightarrow> m \<noteq> []" by (auto simp: message_ok_def hex_text_def)
  then show ?case using step node_step_inv log_inv_step [OF assms(1)] by blast
qed

lemma replay_entry:
  assumes "replay E B N c s ls = Inr a" "entry (snd a) rid \<noteq> None"
  shows "\<exists>line \<in> set ls. js_string (field (fields_of line) ''requestId'') = rid \<and>
    (\<exists>p. entry s rid = Some p \<and> same_hash (field (fields_of line) ''message'') p)"
  using assms
proof (induction ls arbitrary: a rule: rev_induct)
  case Nil
  then show ?case by (auto simp: replay_def entry_def)
next
  case (snoc l ls)
  then obtain head au where r: "replay E B N c s ls = Inr (head, au)"
      "check_audit_record E B N (Some (expectation c)) s (head, au) l = Inr a"
    by (auto simp: replay_snoc result_simps)
  note ck = r(2) [unfolded check_audit_record_Inr Let_def]
  show ?case
  proof (cases "js_string (field (fields_of l) ''requestId'') = rid")
    case True
    then show ?thesis using ck by auto
  next
    case False
    then have "entry (snd a) rid = entry au rid" using ck by (auto simp: entry_def set_entry_def update_conv)
    then show ?thesis using snoc r(1) by fastforce
  qed
qed

subsection \<open>The hash chain\<close>

text \<open>The text whose hash is the event hash of a line.\<close>

definition event_text :: "json \<Rightarrow> string result" where
  "event_text line = canonicalJson (JObj (filter (\<lambda>kv. fst kv \<noteq> ''eventHash'') (fields_of line)))"

lemma map_of_filter_key: "map_of xs k = (case filter (\<lambda>x. fst x = k) xs of [] \<Rightarrow> None | x # _ \<Rightarrow> Some (snd x))"
  by (induction xs) auto

lemma map_of_sort_key: "map_of (sort_key fst (kvs :: (string \<times> json) list)) = map_of kvs"
proof
  fix k
  show "map_of (sort_key fst kvs) k = map_of kvs k"
    using sort_key_stable [of fst k kvs] by (simp add: map_of_filter_key [of _ k])
qed

lemma field_filter: "k \<noteq> k' \<Longrightarrow> field (filter (\<lambda>kv. fst kv \<noteq> k') fs) k = field fs k"
  unfolding field_def by (induction fs) auto

lemma field_JStr: "field fs k = JStr s \<Longrightarrow> map_of fs k = Some (JStr s)"
  by (simp add: field_def split: option.splits)

lemma event_text_previous:
  assumes "event_text l = Inr t" "event_text l' = Inr t"
    "field (fields_of l) ''previousHash'' = JStr h" "field (fields_of l') ''previousHash'' = JStr h'"
  shows "h = h'"
proof -
  let ?f = "\<lambda>l. filter (\<lambda>kv. fst kv \<noteq> ''eventHash'') (fields_of l)"
  have "sorted_fields (JObj (?f l)) = sorted_fields (JObj (?f l'))"
    using canonicalJson_text [OF assms(1) [unfolded event_text_def]] canonicalJson_text [OF assms(2) [unfolded event_text_def]]
      text_unique [of "sorted_fields (JObj (?f l))" "sorted_fields (JObj (?f l'))" "[]" "[]"] by simp
  then have "map_of (map (\<lambda>kv. (fst kv, sorted_fields (snd kv))) (sort_key fst (?f l))) ''previousHash'' =
      map_of (map (\<lambda>kv. (fst kv, sorted_fields (snd kv))) (sort_key fst (?f l'))) ''previousHash''" by simp
  moreover have "map_of (?f l) ''previousHash'' = Some (JStr h)" "map_of (?f l') ''previousHash'' = Some (JStr h')"
    using assms(3,4) by (simp_all add: field_JStr field_filter)
  ultimately show ?thesis by (simp add: map_of_map [unfolded case_prod_beta] map_of_sort_key)
qed

lemma same_hash_both: "same_hash v a \<Longrightarrow> same_hash v b \<Longrightarrow> toLowerCase a = toLowerCase b"
  by (cases v) (simp_all add: same_hash_def)

text \<open>A clash of two logs: two of their texts with one hash, or a text that hashes to the zero hash.\<close>

definition hash_clash :: "ethers \<Rightarrow> json list \<Rightarrow> bool" where
  "hash_clash E ls \<longleftrightarrow> (\<exists>l \<in> set ls. \<exists>t. event_text l = Inr t \<and>
     (toLowerCase (keccak256 E (toUtf8Bytes E t)) = toLowerCase AUDIT_ZERO_HASH \<or>
      (\<exists>l' \<in> set ls. \<exists>t'. event_text l' = Inr t' \<and> t \<noteq> t' \<and>
         toLowerCase (keccak256 E (toUtf8Bytes E t)) = toLowerCase (keccak256 E (toUtf8Bytes E t')))))"

lemma hash_clash_mono: "hash_clash E ls \<Longrightarrow> set ls \<subseteq> set ls' \<Longrightarrow> hash_clash E ls'"
  unfolding hash_clash_def by (meson subsetD)

lemma check_event:
  assumes "check_audit_record E B N ex s (head, audited) l = Inr (h, a)"
  shows "\<exists>t p. event_text l = Inr t \<and> toLowerCase h = toLowerCase (keccak256 E (toUtf8Bytes E t)) \<and>
    field (fields_of l) ''previousHash'' = JStr p \<and> toLowerCase p = toLowerCase head"
proof -
  note ck = assms [unfolded check_audit_record_Inr Let_def]
  obtain t where t: "event_text l = Inr t" "same_hash (field (fields_of l) ''eventHash'') (keccak256 E (toUtf8Bytes E t))"
    using ck unfolding event_text_def by blast
  have "toLowerCase h = toLowerCase (keccak256 E (toUtf8Bytes E t))"
    using t(2) ck by (cases "field (fields_of l) ''eventHash''") (simp_all add: same_hash_def)
  moreover have "\<exists>p. field (fields_of l) ''previousHash'' = JStr p \<and> toLowerCase p = toLowerCase head"
    using ck by (cases "field (fields_of l) ''previousHash''") (simp_all add: same_hash_def)
  ultimately show ?thesis using t(1) by blast
qed

lemma replay_chain:
  assumes "replay E B N c s ls = Inr (h, a)" "replay E B N c s' ls' = Inr (h', a')" "toLowerCase h = toLowerCase h'"
  shows "map event_text ls = map event_text ls' \<or> hash_clash E (ls @ ls')"
  using assms
proof (induction ls arbitrary: ls' h a h' a' rule: rev_induct)
  case Nil
  show ?case
  proof (cases ls' rule: rev_cases)
    case (snoc l's l')
    then obtain t where "event_text l' = Inr t" "toLowerCase h' = toLowerCase (keccak256 E (toUtf8Bytes E t))"
      using Nil(2) by (auto simp: replay_snoc result_simps dest!: check_event)
    then show ?thesis using Nil(1,3) snoc unfolding hash_clash_def by (auto simp: replay_def)
  qed simp
next
  case (snoc l ls)
  obtain hd1 a1 where r: "replay E B N c s ls = Inr (hd1, a1)"
      "check_audit_record E B N (Some (expectation c)) s (hd1, a1) l = Inr (h, a)"
    using snoc.prems(1) by (auto simp: replay_snoc result_simps)
  obtain t p where t: "event_text l = Inr t" "toLowerCase h = toLowerCase (keccak256 E (toUtf8Bytes E t))"
      "field (fields_of l) ''previousHash'' = JStr p" "toLowerCase p = toLowerCase hd1"
    using check_event [OF r(2)] by blast
  show ?case
  proof (cases ls' rule: rev_cases)
    case Nil
    then have "toLowerCase h = toLowerCase AUDIT_ZERO_HASH" using snoc.prems(2,3) by (simp add: replay_def)
    then show ?thesis using t(1,2) unfolding hash_clash_def by auto
  next
    case (snoc l's l')
    obtain hd2 a2 where r': "replay E B N c s' l's = Inr (hd2, a2)"
        "check_audit_record E B N (Some (expectation c)) s' (hd2, a2) l' = Inr (h', a')"
      using snoc.prems(2) snoc by (auto simp: replay_snoc result_simps)
    obtain t' p' where t': "event_text l' = Inr t'" "toLowerCase h' = toLowerCase (keccak256 E (toUtf8Bytes E t'))"
        "field (fields_of l') ''previousHash'' = JStr p'" "toLowerCase p' = toLowerCase hd2"
      using check_event [OF r'(2)] by blast
    show ?thesis
    proof (cases "t = t'")
      case True
      then have "p = p'" using event_text_previous t(1,3) t'(1,3) by blast
      then have "map event_text ls = map event_text l's \<or> hash_clash E (ls @ l's)"
        using snoc.IH [OF r(1) r'(1)] t(4) t'(4) by simp
      then show ?thesis using True t(1) t'(1) snoc hash_clash_mono [of E "ls @ l's" "(ls @ [l]) @ ls'"] by auto
    next
      case False
      then have "hash_clash E ((ls @ [l]) @ ls')"
        using t(1,2) t'(1,2) snoc.prems(3) snoc unfolding hash_clash_def by auto
      then show ?thesis ..
    qed
  qed
qed

lemma node_step_weaken:
  "node_step E B N c ok w w' \<Longrightarrow> (\<And>m. ok m \<Longrightarrow> ok' m) \<Longrightarrow> node_step E B N c ok' w w'"
  by (induction rule: node_step.induct) (blast intro: node_step.intros)+

lemma run_weaken:
  assumes "(node_step E B N c ok)\<^sup>*\<^sup>* w w'" "\<And>m. ok m \<Longrightarrow> ok' m"
  shows "(node_step E B N c ok')\<^sup>*\<^sup>* w w'"
  using assms(1) by (rule rtranclp_mono [THEN predicate2D, rotated]) (auto intro: node_step_weaken assms(2))

text \<open>A run that starts a node, serves a request and then loses the process.\<close>

lemma honest_run_exists:
  assumes "honest_node E B N c ex1 ex2 exT" "message_ok E B ex1 m" "digits_text rid"
  shows "\<exists>w. (node_step E B N c (message_ok E B ex1))\<^sup>*\<^sup>* fresh w \<and> (rid, m) \<in> set (wd_sent w) \<and> wd_memory w = None"
proof -
  let ?R = "node_step E B N c (message_ok E B ex1)"
  define w1 where "w1 = fresh\<lparr>wd_memory := Some (empty_state c)\<rparr>"
  have "?R fresh (fresh\<lparr>wd_memory := Some (empty_state c), wd_file := (if False then Some (saved (empty_state c)) else wd_file fresh)\<rparr>)"
    by (rule node_step.restart [where st = "empty_state c"])
      (simp_all add: fresh_def loadSigningState_def loadAuditLog_def empty_state_def)
  then have 1: "?R fresh w1" by (simp add: w1_def fresh_def)
  obtain st' effs resp where j: "sign_job E B N c [] rid m (empty_state c) = (st', effs, Inr resp)"
    using honest_job [OF assms(1,2), of "empty_state c" rid "[]"] by (auto simp: empty_state_def entry_def)
  define w2 where "w2 = (foldl apply_effect w1 effs)\<lparr>wd_memory := Some st', wd_sent := wd_sent w1 @ [signed_pair resp]\<rparr>"
  have 2: "?R w1 w2" unfolding w2_def by (rule node_step.serve [where ok = "message_ok E B ex1", OF _ assms(2,3) j]) (simp add: w1_def)
  obtain st2 effs2 res2 where j2: "sign_job E B N c [] rid m st' = (st2, effs2, res2)" by (metis prod_cases3)
  have 3: "?R w2 (w2\<lparr>wd_memory := None\<rparr>)"
    using node_step.crash [where ok = "message_ok E B ex1", OF _ assms(2,3) j2, of w2 0] by (simp add: w2_def)
  have "?R\<^sup>*\<^sup>* fresh (w2\<lparr>wd_memory := None\<rparr>)" using 1 2 3 by (meson r_into_rtranclp rtranclp_trans)
  then show ?thesis using sign_job_pair [OF j] by (intro exI [of _ "w2\<lparr>wd_memory := None\<rparr>"]) (simp add: w2_def)
qed

lemmas sample_run = honest_run_exists [OF sample_honest sample_message(1), of "''7''"]

subsection \<open>Properties\<close>

text \<open>
  C2: No equivocation. Over any run of a node from an empty installation, with crashes between any two durable writes and restarts from the files, two responses
  that left the node for the same request id carry the same message (up to letter case).
\<close>

theorem no_equivocation:
  assumes "(node_step E B N c (\<lambda>m. m \<noteq> []))\<^sup>*\<^sup>* fresh w" "(rid, m) \<in> set (wd_sent w)" "(rid, m') \<in> set (wd_sent w)"
  shows "toLowerCase m = toLowerCase m'"
proof -
  have "node_inv w" by (rule node_runs.reachable_inv [OF assms(1) node_inv_fresh])
  then have "\<exists>p. entry (file_signed w) rid = Some p \<and> toLowerCase p = toLowerCase m"
    "\<exists>p. entry (file_signed w) rid = Some p \<and> toLowerCase p = toLowerCase m'"
    using assms(2,3) unfolding node_inv_def by blast+
  then show ?thesis by auto
qed

theorem no_equivocation_witness:
  "\<exists>w :: world. (''7'', sample_hex 32 1) \<in> set (wd_sent w) \<and>
     (\<forall>m'. (''7'', m') \<in> set (wd_sent w) \<longrightarrow> toLowerCase (sample_hex 32 1) = toLowerCase m')"
proof -
  obtain w where w: "(node_step sample_ethers sample_bls sample_node sample_config (message_ok sample_ethers sample_bls sample_ex))\<^sup>*\<^sup>* fresh w"
      "(''7'', sample_hex 32 1) \<in> set (wd_sent w)" using sample_run by (auto simp: digits_text_def isDigit_def)
  have "(node_step sample_ethers sample_bls sample_node sample_config (\<lambda>m. m \<noteq> []))\<^sup>*\<^sup>* fresh w"
    by (rule run_weaken [OF w(1)]) (auto simp: message_ok_def hex_text_def)
  from no_equivocation [OF this w(2)] w(2) show ?thesis by (intro exI [of _ w]) simp
qed

text \<open>
  C20: A node can always be started again. Whatever jobs an honest node ran, and wherever it crashed between two durable writes, loading its state
  and replaying its audit log succeed, and give back every signing decision of the state file.
\<close>

theorem restart_always_possible:
  assumes "honest_node E B N c ex1 ex2 exT" "(node_step E B N c (message_ok E B ex1))\<^sup>*\<^sup>* fresh w" "wd_memory w = None"
  shows "\<exists>st st' written. loadSigningState (wd_file w) (nc_manifestHash c) = Inr st \<and>
    loadAuditLog E B N (Some (expectation c)) True (wd_audit w) st = Inr (st', written) \<and>
    ss_signedRequests st' = file_signed w"
proof -
  obtain a where "log_ok E B N c w a" using honest_run [OF assms(1,2)] unfolding log_inv_def by blast
  from restart_log [OF this] show ?thesis by blast
qed

theorem restart_always_possible_witness:
  "\<exists>w st st' written. (''7'', sample_hex 32 1) \<in> set (wd_sent w) \<and>
    loadSigningState (wd_file w) (nc_manifestHash sample_config) = Inr st \<and>
    loadAuditLog sample_ethers sample_bls sample_node (Some (expectation sample_config)) True (wd_audit w) st = Inr (st', written) \<and>
    ss_signedRequests st' = file_signed w"
proof -
  obtain w where w: "(node_step sample_ethers sample_bls sample_node sample_config (message_ok sample_ethers sample_bls sample_ex))\<^sup>*\<^sup>* fresh w"
      "(''7'', sample_hex 32 1) \<in> set (wd_sent w)" "wd_memory w = None"
    using sample_run by (auto simp: digits_text_def isDigit_def)
  from restart_always_possible [OF sample_honest w(1,3)] w(2) show ?thesis by blast
qed

text \<open>
  The audit log is complete. Every response of an honest node, across crashes and restarts, has a line in its audit log with its
  request id and message.
\<close>

theorem audit_log_complete:
  assumes "honest_node E B N c ex1 ex2 exT" "(node_step E B N c (message_ok E B ex1))\<^sup>*\<^sup>* fresh w" "(rid, m) \<in> set (wd_sent w)"
  shows "\<exists>line \<in> set (audit_lines w). js_string (field (fields_of line) ''requestId'') = rid \<and>
    same_hash (field (fields_of line) ''message'') m"
proof -
  obtain a where a: "log_ok E B N c w a" "entry (snd a) rid \<noteq> None"
    using honest_run [OF assms(1,2)] assms(3) unfolding log_inv_def by blast
  obtain q where q: "entry (file_signed w) rid = Some q" "toLowerCase q = toLowerCase m"
    using honest_run [OF assms(1,2)] assms(3) unfolding node_inv_def by blast
  have "same_hash v m" if "same_hash v q" for v using that q(2) by (cases v) (simp_all add: same_hash_def)
  then show ?thesis using replay_entry [OF _ a(2)] a(1) q(1) unfolding log_ok_def by (metis option.inject)
qed

text \<open>
  C21: The audit log is tamper evident. Two logs that \<open>loadAuditLog\<close> accepts with the same head hash have the same canonical text line by line, so that a record
  cannot be changed, dropped, added or reordered under a published head, unless the texts of the two logs themselves contain a collision of the hash or one that hashes to zero.
\<close>

theorem audit_log_tamper_evident:
  fixes c :: "'k node_config" and N :: "'k node"
  assumes "loadAuditLog E B N (Some (expectation c)) True (Some ls) st = Inr (st1, w1)"
    and "loadAuditLog E B N (Some (expectation c)) True (Some ls') st' = Inr (st2, w2)"
    and "toLowerCase (ss_auditHead st1) = toLowerCase (ss_auditHead st2)"
  shows "map event_text ls = map event_text ls' \<or> hash_clash E (ls @ ls')"
proof -
  have "\<exists>h a. replay E B N c (ss_signedRequests s) l = Inr (h, a) \<and> ss_auditHead s' = h"
    if "loadAuditLog E B N (Some (expectation c)) True (Some l) s = Inr (s', w)" for s s' l w
    using that by (auto simp: loadAuditLog_def replay_def result_simps)
  from this [OF assms(1)] this [OF assms(2)] assms(3) show ?thesis by (auto dest: replay_chain)
qed

text \<open>A record whose event hash is its first field, not its last, is another line with the same text, and it is checked alike.\<close>

lemma check_moved_hash:
  assumes "''eventHash'' \<notin> fst ` set r"
  shows "check_audit_record E B N ex s acc (JObj ((''eventHash'', h) # r)) = check_audit_record E B N ex s acc (JObj (r @ [(''eventHash'', h)]))"
proof -
  have "map_of r ''eventHash'' = None" using assms by (simp add: map_of_eq_None_iff)
  then have f: "field ((''eventHash'', h) # r) = field (r @ [(''eventHash'', h)])"
    by (auto simp: field_def map_add_def split: option.splits)
  have g: "filter (\<lambda>kv. fst kv \<noteq> ''eventHash'') ((''eventHash'', h) # r) =
      filter (\<lambda>kv. fst kv \<noteq> ''eventHash'') (r @ [(''eventHash'', h)])" by simp
  show ?thesis unfolding check_audit_record_def Let_def fields_of_def json.case audit_response_def f g ..
qed

lemma sample_hash_not_zero: "toLowerCase (keccak256 sample_ethers b) \<noteq> toLowerCase AUDIT_ZERO_HASH"
proof
  let ?x = "replicate 31 1 @ [of_nat (length b mod 256)] :: bytes"
  assume "toLowerCase (keccak256 sample_ethers b) = toLowerCase AUDIT_ZERO_HASH"
  moreover have "toLowerCase AUDIT_ZERO_HASH = AUDIT_ZERO_HASH" "sample_getBytes AUDIT_ZERO_HASH = Inr (replicate 32 0)" by code_simp+
  ultimately have "Inr ?x = (Inr (replicate 32 0) :: bytes result)"
    using sample_getBytes_hexlify [of ?x] by (simp add: sample_ethers_def sample_hexlify_lower)
  then have "hd ?x = hd (replicate 32 0)" by simp
  then show False by simp
qed

theorem audit_log_tamper_evident_witness:
  "\<exists>l l' st. l \<noteq> l' \<and>
     loadAuditLog sample_ethers sample_bls sample_node (Some (expectation sample_config)) True (Some [l]) st = Inr (st, True) \<and>
     loadAuditLog sample_ethers sample_bls sample_node (Some (expectation sample_config)) True (Some [l']) st = Inr (st, True) \<and>
     map event_text [l] = map event_text [l'] \<and> \<not> hash_clash sample_ethers [l, l']"
proof -
  obtain st1 effs resp where j: "sign_job sample_ethers sample_bls sample_node sample_config [] ''7'' (sample_hex 32 1)
      (empty_state sample_config) = (st1, effs, Inr resp)"
    using honest_job [OF sample_honest sample_message(1), of "empty_state sample_config" "''7''" "[]"]
    by (auto simp: empty_state_def entry_def)
  show ?thesis
    using sample_honest sample_message(1) j
  proof (cases rule: sign_job_cases)
    case (audited resp line st0)
    let ?w = "fresh\<lparr>wd_memory := Some (empty_state sample_config)\<rparr>"
    have "log_ok sample_ethers sample_bls sample_node sample_config (foldl apply_effect ?w effs) (head_of st1)"
      using job_log(2) [OF sample_honest sample_message(1) _ j, of ?w]
      by (auto simp: fresh_def log_ok_def replay_def audit_lines_def file_signed_def ours_def head_of_def empty_state_def
        digits_text_def isDigit_def)
    then have r: "replay sample_ethers sample_bls sample_node sample_config (ss_signedRequests st1) [line] = Inr (head_of st1)"
      using audited(2) by (simp add: log_ok_def audit_lines_def fresh_def file_signed_def saved_def)
    let ?r = "audit_body sample_config [] ''7'' (sample_hex 32 1) resp @ [(''previousHash'', JStr (ss_auditHead st0))]"
    obtain h where line: "line = JObj (?r @ [(''eventHash'', JStr h)])"
      using audited(6) by (auto simp: appendAuditRecord_def Let_def result_simps)
    have "''eventHash'' \<notin> fst ` set ?r" by (simp add: audit_body_def)
    note moved = check_moved_hash [OF this]
    have r': "replay sample_ethers sample_bls sample_node sample_config (ss_signedRequests st1) [JObj ((''eventHash'', JStr h) # ?r)] = Inr (head_of st1)"
      using r unfolding line replay_def foldR.simps moved .
    have load: "loadAuditLog sample_ethers sample_bls sample_node (Some (expectation sample_config)) True (Some [l]) st1 = Inr (st1, True)"
      if "replay sample_ethers sample_bls sample_node sample_config (ss_signedRequests st1) [l] = Inr (head_of st1)" for l
      using that by (simp add: loadAuditLog_def replay_def head_of_def)
    have "line \<noteq> JObj ((''eventHash'', JStr h) # ?r)" unfolding line by (simp add: audit_body_def)
    moreover have "\<not> hash_clash sample_ethers [line, JObj ((''eventHash'', JStr h) # ?r)]"
      using sample_hash_not_zero unfolding hash_clash_def line by (auto simp: event_text_def fields_of_def)
    ultimately show ?thesis
      using audit_log_tamper_evident [OF load [OF r] load [OF r'] refl] load [OF r] load [OF r'] by (intro exI [of _ line] exI) auto
  qed (auto simp: empty_state_def entry_def)
qed

end
