(* ===== verification/Io.thy ===== *)
theory Io
  imports Prelude
begin

section \<open>Effectful code\<close>

text \<open>
  An asynchronous function of the operator runs to an outcome in a world: it returns a value or throws, and it
  has changed the world in both cases. \<open>hoare P m Q R\<close> states that from a world with \<open>P\<close> the program \<open>m\<close> ends in a world with
  \<open>Q x\<close> when it returns \<open>x\<close> and with \<open>R\<close> when it throws. Its rules are collected in \<open>wp\<close> and follow the shape of the code.
\<close>

type_synonym ('s, 'a) io = "'s \<Rightarrow> 's \<times> 'a result"

definition returnIO :: "'a \<Rightarrow> ('s, 'a) io" where
  "returnIO x = (\<lambda>s. (s, Inr x))"

definition throwIO :: "string \<Rightarrow> ('s, 'a) io" where
  "throwIO e = (\<lambda>s. (s, Inl e))"

definition liftR :: "'a result \<Rightarrow> ('s, 'a) io" where
  "liftR r = (\<lambda>s. (s, r))"

definition bindIO :: "('s, 'a) io \<Rightarrow> ('a \<Rightarrow> ('s, 'b) io) \<Rightarrow> ('s, 'b) io" where
  "bindIO m f = (\<lambda>s. case m s of (s', Inl e) \<Rightarrow> (s', Inl e) | (s', Inr x) \<Rightarrow> f x s')"

text \<open>\<open>try { m } catch (error) { h error }\<close>.\<close>

definition tryIO :: "('s, 'a) io \<Rightarrow> (string \<Rightarrow> ('s, 'a) io) \<Rightarrow> ('s, 'a) io" where
  "tryIO m h = (\<lambda>s. case m s of (s', Inl e) \<Rightarrow> h e s' | (s', Inr x) \<Rightarrow> (s', Inr x))"

definition modifyIO :: "('s \<Rightarrow> 's) \<Rightarrow> ('s, unit) io" where
  "modifyIO f = (\<lambda>s. (f s, Inr ()))"

definition getsIO :: "('s \<Rightarrow> 'a) \<Rightarrow> ('s, 'a) io" where
  "getsIO f = (\<lambda>s. (s, Inr (f s)))"

definition whenIO :: "bool \<Rightarrow> ('s, unit) io \<Rightarrow> ('s, unit) io" where
  "whenIO b m = (if b then m else returnIO ())"

text \<open>\<open>for (const x of xs)\<close>, and \<open>Promise.all(xs.map(f))\<close> with its calls in order.\<close>

fun forIO :: "'a list \<Rightarrow> ('a \<Rightarrow> ('s, unit) io) \<Rightarrow> ('s, unit) io" where
  "forIO [] f = returnIO ()"
| "forIO (x # xs) f = bindIO (f x) (\<lambda>_. forIO xs f)"

fun mapIO :: "('a \<Rightarrow> ('s, 'b) io) \<Rightarrow> 'a list \<Rightarrow> ('s, 'b list) io" where
  "mapIO f [] = returnIO []"
| "mapIO f (x # xs) = bindIO (f x) (\<lambda>y. bindIO (mapIO f xs) (\<lambda>ys. returnIO (y # ys)))"

lemmas io_defs = returnIO_def throwIO_def liftR_def bindIO_def tryIO_def modifyIO_def getsIO_def whenIO_def

subsection \<open>Triples\<close>

definition hoare :: "('s \<Rightarrow> bool) \<Rightarrow> ('s, 'a) io \<Rightarrow> ('a \<Rightarrow> 's \<Rightarrow> bool) \<Rightarrow> ('s \<Rightarrow> bool) \<Rightarrow> bool" where
  "hoare P m Q R \<longleftrightarrow> (\<forall>s s'. P s \<longrightarrow> (\<forall>x. m s = (s', Inr x) \<longrightarrow> Q x s') \<and> (\<forall>e. m s = (s', Inl e) \<longrightarrow> R s'))"

named_theorems wp "rules of the triples, one per construct"

lemma hoareI:
  assumes "\<And>s s' x. P s \<Longrightarrow> m s = (s', Inr x) \<Longrightarrow> Q x s'" "\<And>s s' e. P s \<Longrightarrow> m s = (s', Inl e) \<Longrightarrow> R s'"
  shows "hoare P m Q R"
  using assms unfolding hoare_def by blast

lemma hoare_return: "hoare P m Q R \<Longrightarrow> P s \<Longrightarrow> m s = (s', Inr x) \<Longrightarrow> Q x s'"
  unfolding hoare_def by blast

lemma hoare_throw: "hoare P m Q R \<Longrightarrow> P s \<Longrightarrow> m s = (s', Inl e) \<Longrightarrow> R s'"
  unfolding hoare_def by blast

lemma hoare_pre: "hoare P m Q R \<Longrightarrow> (\<And>s. P' s \<Longrightarrow> P s) \<Longrightarrow> hoare P' m Q R"
  unfolding hoare_def by blast

lemma hoare_post: "hoare P m Q R \<Longrightarrow> (\<And>x s. Q x s \<Longrightarrow> Q' x s) \<Longrightarrow> (\<And>s. R s \<Longrightarrow> R' s) \<Longrightarrow> hoare P m Q' R'"
  unfolding hoare_def by blast

lemma hoare_conj: "hoare P m Q R \<Longrightarrow> hoare P' m Q' R' \<Longrightarrow>
    hoare (\<lambda>s. P s \<and> P' s) m (\<lambda>x s. Q x s \<and> Q' x s) (\<lambda>s. R s \<and> R' s)"
  unfolding hoare_def by blast

lemma hoare_returnIO [wp]: "hoare (Q x) (returnIO x) Q R"
  by (simp add: hoare_def io_defs)

lemma hoare_throwIO [wp]: "hoare R (throwIO e) Q R"
  by (simp add: hoare_def io_defs)

lemma hoare_liftR [wp]: "hoare (\<lambda>s. (\<forall>x. r = Inr x \<longrightarrow> Q x s) \<and> R s) (liftR r) Q R"
  by (auto simp: hoare_def io_defs)

lemma hoare_modifyIO [wp]: "hoare (\<lambda>s. Q () (f s)) (modifyIO f) Q R"
  by (simp add: hoare_def io_defs)

lemma hoare_getsIO [wp]: "hoare (\<lambda>s. Q (f s) s) (getsIO f) Q R"
  by (simp add: hoare_def io_defs)

lemma hoare_bindIO [wp]:
  assumes "hoare P m Q' R" "\<And>x. hoare (Q' x) (f x) Q R"
  shows "hoare P (bindIO m f) Q R"
proof (rule hoareI)
  fix s s' x assume "P s" "bindIO m f s = (s', Inr x)"
  then show "Q x s'" using assms unfolding hoare_def by (auto simp: bindIO_def split: prod.splits sum.splits)
next
  fix s s' e assume "P s" "bindIO m f s = (s', Inl e)"
  then show "R s'" using assms unfolding hoare_def by (auto simp: bindIO_def split: prod.splits sum.splits)
qed

lemma hoare_tryIO [wp]:
  assumes "hoare P m Q R'" "\<And>e. hoare R' (h e) Q R"
  shows "hoare P (tryIO m h) Q R"
proof (rule hoareI)
  fix s s' x assume "P s" "tryIO m h s = (s', Inr x)"
  then show "Q x s'" using assms unfolding hoare_def by (auto simp: tryIO_def split: prod.splits sum.splits)
next
  fix s s' e assume "P s" "tryIO m h s = (s', Inl e)"
  moreover then obtain s1 e1 where "m s = (s1, Inl e1)" "h e1 s1 = (s', Inl e)"
    by (auto simp: tryIO_def split: prod.splits sum.splits)
  ultimately show "R s'" using hoare_throw [OF assms(1)] hoare_throw [OF assms(2)] by blast
qed

lemma hoare_if: "(b \<Longrightarrow> hoare P m Q R) \<Longrightarrow> (\<not> b \<Longrightarrow> hoare P m' Q R) \<Longrightarrow> hoare P (if b then m else m') Q R"
  by simp

lemma hoare_whenIO: "(b \<Longrightarrow> hoare P m (\<lambda>_. Q) R) \<Longrightarrow> (\<And>s. \<not> b \<Longrightarrow> P s \<Longrightarrow> Q s) \<Longrightarrow> hoare P (whenIO b m) (\<lambda>_. Q) R"
  by (auto simp: whenIO_def hoare_def returnIO_def)

lemma hoare_forIO:
  assumes "\<And>x. x \<in> set xs \<Longrightarrow> hoare I (f x) (\<lambda>_. I) R"
  shows "hoare I (forIO xs f) (\<lambda>_. I) R"
  using assms
proof (induction xs)
  case Nil
  show ?case by (simp add: hoare_def returnIO_def)
next
  case (Cons x xs)
  then show ?case by (auto intro!: hoare_bindIO [where Q' = "\<lambda>_. I"])
qed

lemma hoare_mapIO:
  assumes "\<And>x. x \<in> set xs \<Longrightarrow> hoare I (f x) (\<lambda>_. I) R"
  shows "hoare I (mapIO f xs) (\<lambda>_. I) R"
  using assms
proof (induction xs)
  case Nil
  show ?case by (simp add: hoare_def returnIO_def)
next
  case (Cons x xs)
  then have "hoare I (f x) (\<lambda>_. I) R" "hoare I (mapIO f xs) (\<lambda>_. I) R" by simp_all
  moreover have "hoare I (returnIO (y # ys)) (\<lambda>_. I) R" for y ys by (rule hoare_returnIO)
  ultimately show ?case unfolding mapIO.simps by (intro hoare_bindIO [where Q' = "\<lambda>_. I"])
qed

text \<open>A predicate that a program keeps whatever happens.\<close>

definition keeps :: "('s \<Rightarrow> bool) \<Rightarrow> ('s, 'a) io \<Rightarrow> bool" where
  "keeps I m \<longleftrightarrow> (\<forall>s. I s \<longrightarrow> I (fst (m s)))"

lemma keeps_hoare: "keeps I m \<longleftrightarrow> hoare I m (\<lambda>_. I) I"
  unfolding keeps_def hoare_def by (metis (no_types) fst_conv obj_sumE surj_pair)

lemma keeps_return [wp]: "keeps I (returnIO x)"
  and keeps_throw [wp]: "keeps I (throwIO e)"
  and keeps_lift [wp]: "keeps I (liftR r)"
  and keeps_gets [wp]: "keeps I (getsIO f)"
  by (simp_all add: keeps_def io_defs)

lemma keeps_bind [wp]: "keeps I m \<Longrightarrow> (\<And>x. keeps I (f x)) \<Longrightarrow> keeps I (bindIO m f)"
  unfolding keeps_hoare by (rule hoare_bindIO)

lemma keeps_try [wp]: "keeps I m \<Longrightarrow> (\<And>e. keeps I (h e)) \<Longrightarrow> keeps I (tryIO m h)"
  unfolding keeps_hoare by (rule hoare_tryIO)

lemma keeps_when [wp]: "keeps I m \<Longrightarrow> keeps I (whenIO b m)"
  by (simp add: whenIO_def keeps_return)

lemma keeps_for [wp]: "(\<And>x. x \<in> set xs \<Longrightarrow> keeps I (f x)) \<Longrightarrow> keeps I (forIO xs f)"
  unfolding keeps_hoare by (rule hoare_forIO)

lemma keeps_map [wp]: "(\<And>x. x \<in> set xs \<Longrightarrow> keeps I (f x)) \<Longrightarrow> keeps I (mapIO f xs)"
  unfolding keeps_hoare by (rule hoare_mapIO)

lemma keeps_if [wp]: "keeps I m \<Longrightarrow> keeps I m' \<Longrightarrow> keeps I (if b then m else m')"
  by simp

lemma keeps_option [wp]: "keeps I m \<Longrightarrow> (\<And>x. keeps I (f x)) \<Longrightarrow> keeps I (case v of None \<Rightarrow> m | Some x \<Rightarrow> f x)"
  by (simp split: option.split)

text \<open>Inversion of the constructs on a given run.\<close>

lemma bindIO_Inr: "bindIO m f s = (s', Inr y) \<longleftrightarrow> (\<exists>s1 x. m s = (s1, Inr x) \<and> f x s1 = (s', Inr y))"
  by (auto simp: bindIO_def split: prod.splits sum.splits)

lemma mapIO_length: "mapIO f xs s = (s', Inr ys) \<Longrightarrow> length ys = length xs"
  by (induction xs arbitrary: s ys) (auto simp: bindIO_Inr returnIO_def)

end
