(* ===== verification/Relayer.thy ===== *)
theory Relayer
  imports Io Postgres_Store Archiver
begin

section \<open>Sending transactions (operator/cli.mjs, operator/archiver.mjs)\<close>

text \<open>
  How a relayer puts a transaction on the chain: it holds the nonce lock of its account, settles what its journal left open, takes the
  nonce on which all endpoints agree, and broadcasts the transaction with a rising gas price until it is mined, with every attempt journalled before it leaves the process.
  The world of the process is its database, the archiver's budget file, the transactions it has handed to the network so far, and the outside
  (chain, endpoints, clock) of an arbitrary type, which only the parameters that stand for remote calls may read and change.
\<close>

record sent_transaction =
  sn_hash :: string
  sn_nonce :: int
  sn_gasLimit :: int
  sn_gasPriceWei :: int

record 'x op_world =
  ow_db :: db
  ow_budget :: budget_state
  ow_sent :: "sent_transaction list"
  ow_ext :: 'x

text \<open>A remote call, and a call of the store.\<close>

definition ext :: "('x, 'a) io \<Rightarrow> ('x op_world, 'a) io" where
  "ext f = (\<lambda>w. case f (ow_ext w) of (x, r) \<Rightarrow> (w\<lparr>ow_ext := x\<rparr>, r))"

definition onDb :: "(db \<Rightarrow> db \<times> 'a result) \<Rightarrow> ('x op_world, 'a) io" where
  "onDb f = (\<lambda>w. case f (ow_db w) of (d, r) \<Rightarrow> (w\<lparr>ow_db := d\<rparr>, r))"

record receipt =
  rc_hash :: string
  rc_blockNumber :: int
  rc_blockHash :: string
  rc_status :: int

text \<open>\<open>waitForReceipt\<close>: mined, replaced by another transaction of the nonce, or not yet mined when the timer ends.\<close>

datatype wait_outcome = Confirmed receipt | Replaced receipt | TimedOut

record 'x wallet_rpc =
  wr_address :: string
  wr_estimateGas :: "string \<Rightarrow> ('x, int) io"
  wr_getFeeData :: "('x, int option \<times> int option) io"
  wr_getNonce :: "('x, int) io"
  wr_sign :: "string \<Rightarrow> int \<Rightarrow> int \<Rightarrow> int \<Rightarrow> ('x, string) io"
  wr_keccak256 :: "string \<Rightarrow> string"
  wr_broadcastTransaction :: "string \<Rightarrow> ('x, string) io"
  wr_waitForReceipt :: "string \<Rightarrow> ('x, wait_outcome) io"

record 'x send_hooks =
  sh_assertLease :: "('x op_world, unit) io option"
  sh_beforeBroadcast :: "(int \<Rightarrow> int \<Rightarrow> string \<Rightarrow> ('x op_world, unit) io) option"
  sh_onBroadcast :: "(string \<Rightarrow> int \<Rightarrow> int \<Rightarrow> ('x op_world, unit) io) option"

definition assert_lease :: "'x send_hooks \<Rightarrow> ('x op_world, unit) io" where
  "assert_lease h = (case sh_assertLease h of None \<Rightarrow> returnIO () | Some f \<Rightarrow> f)"

definition before_broadcast :: "'x send_hooks \<Rightarrow> int \<Rightarrow> int \<Rightarrow> string \<Rightarrow> ('x op_world, unit) io" where
  "before_broadcast h gasLimit gasPrice hash =
     (case sh_beforeBroadcast h of None \<Rightarrow> returnIO () | Some f \<Rightarrow> f gasLimit gasPrice hash)"

definition on_broadcast :: "'x send_hooks \<Rightarrow> string \<Rightarrow> int \<Rightarrow> int \<Rightarrow> ('x op_world, unit) io" where
  "on_broadcast h hash nonce gasPrice =
     (case sh_onBroadcast h of None \<Rightarrow> returnIO () | Some f \<Rightarrow> f hash nonce gasPrice)"

definition announce :: "'x send_hooks \<Rightarrow> int \<Rightarrow> int \<Rightarrow> string \<Rightarrow> int \<Rightarrow> ('x op_world, unit) io" where
  "announce h gasLimit gasPrice hash nonce =
     bindIO (before_broadcast h gasLimit gasPrice hash) (\<lambda>_. on_broadcast h hash nonce gasPrice)"

text \<open>
  From the call of \<open>broadcastTransaction\<close> on the transaction may be on the network, whatever the call returns.
\<close>

definition broadcast :: "'x wallet_rpc \<Rightarrow> string \<Rightarrow> sent_transaction \<Rightarrow> ('x op_world, string) io" where
  "broadcast rpc raw t = bindIO (modifyIO (\<lambda>w. w\<lparr>ow_sent := ow_sent w @ [t]\<rparr>)) (\<lambda>_. ext (wr_broadcastTransaction rpc raw))"

text \<open>One round of the loop up to and including the wait.\<close>

definition send_attempt ::
  "'x wallet_rpc \<Rightarrow> 'x send_hooks \<Rightarrow> string \<Rightarrow> int \<Rightarrow> int \<Rightarrow> int \<Rightarrow> ('x op_world, string \<times> wait_outcome) io" where
  "send_attempt rpc hooks request nonce gasLimit gasPrice =
     bindIO (ext (wr_sign rpc request nonce gasLimit gasPrice)) (\<lambda>raw.
     (let hash = wr_keccak256 rpc raw in
      bindIO (assert_lease hooks) (\<lambda>_.
      bindIO (announce hooks gasLimit gasPrice hash nonce) (\<lambda>_.
      bindIO (assert_lease hooks) (\<lambda>_.
      bindIO (broadcast rpc raw \<lparr>sn_hash = hash, sn_nonce = nonce, sn_gasLimit = gasLimit, sn_gasPriceWei = gasPrice\<rparr>) (\<lambda>returned.
      if toLowerCase returned \<noteq> toLowerCase hash
      then throwIO ''RPC returned a transaction hash that differs from the signed transaction''
      else bindIO (ext (wr_waitForReceipt rpc returned)) (\<lambda>outcome. returnIO (hash, outcome))))))))"

text \<open>The first argument counts the attempts that are left.\<close>

fun send_loop ::
  "nat \<Rightarrow> 'x wallet_rpc \<Rightarrow> 'x send_hooks \<Rightarrow> string \<Rightarrow> int \<Rightarrow> int \<Rightarrow> int \<Rightarrow> int \<Rightarrow> string \<Rightarrow> ('x op_world, receipt) io" where
  "send_loop 0 rpc hooks request maxGasPrice nonce gasLimit gasPrice lastHash =
     throwIO (''transaction not confirmed before replacement limit: '' @ lastHash)"
| "send_loop (Suc n) rpc hooks request maxGasPrice nonce gasLimit gasPrice lastHash =
     bindIO (send_attempt rpc hooks request nonce gasLimit gasPrice) (\<lambda>(hash, outcome).
     (case outcome of
        Confirmed r \<Rightarrow> returnIO r
      | Replaced r \<Rightarrow> returnIO r
      | TimedOut \<Rightarrow>
          (let bumped = (gasPrice * 9) sdiv 8 + 1 in
           if bumped > maxGasPrice \<or> n = 0
           then throwIO (''transaction not confirmed before replacement limit: '' @ hash)
           else send_loop n rpc hooks request maxGasPrice nonce gasLimit bumped hash)))"

definition sendWithReplacement ::
  "'x wallet_rpc \<Rightarrow> 'x send_hooks \<Rightarrow> string \<Rightarrow> int \<Rightarrow> nat \<Rightarrow> int option \<Rightarrow> ('x op_world, receipt) io" where
  "sendWithReplacement rpc hooks request maxGasPrice maximumAttempts suppliedNonce =
     bindIO (ext (wr_estimateGas rpc request)) (\<lambda>estimated.
     (let gasLimit = (estimated * 120) sdiv 100 in
      bindIO (ext (wr_getFeeData rpc)) (\<lambda>(price, maxFeePerGas).
      (case (case price of Some p \<Rightarrow> Some p | None \<Rightarrow> maxFeePerGas) of
         None \<Rightarrow> throwIO ''RPC did not return a gas price''
       | Some gasPrice \<Rightarrow>
           if gasPrice > maxGasPrice
           then throwIO (''GasPriceAboveLane:'' @ showInt gasPrice @ '':'' @ showInt maxGasPrice)
           else bindIO (case suppliedNonce of Some n \<Rightarrow> returnIO n | None \<Rightarrow> ext (wr_getNonce rpc)) (\<lambda>nonce.
             send_loop maximumAttempts rpc hooks request maxGasPrice nonce gasLimit gasPrice ''undefined'')))))"

subsection \<open>Settling the journal\<close>

record 'x endpoint =
  ep_getTransactionReceipt :: "string \<Rightarrow> ('x, receipt option) io"
  ep_getTransaction :: "string \<Rightarrow> ('x, bool) io"
  ep_latestNonce :: "string \<Rightarrow> ('x, int) io"
  ep_pendingNonce :: "string \<Rightarrow> ('x, json) io"

text \<open>\<open>byNonce\<close>: a \<open>Map\<close> keeps the order in which its keys were first set.\<close>

definition byNonce :: "transaction_row list \<Rightarrow> (int \<times> transaction_row list) list" where
  "byNonce rows = map (\<lambda>n. (n, filter (\<lambda>t. tx_nonce t = n) rows)) (remdups (map tx_nonce rows))"

definition receipt_of ::
  "'x endpoint list \<Rightarrow> int \<Rightarrow> transaction_row \<Rightarrow> ('x op_world, receipt option) io" where
  "receipt_of eps nonce t =
     bindIO (mapIO (\<lambda>ep. ext (ep_getTransactionReceipt ep (tx_transaction_hash t))) eps) (\<lambda>receipts.
     (let observed = map the (filter (\<lambda>r. r \<noteq> None) receipts);
          disagreement = throwIO (''RpcReceiptDisagreement:'' @ showInt nonce) in
      if observed \<noteq> [] \<and> length observed \<noteq> length receipts then disagreement
      else if length observed = length receipts \<and> (\<exists>r \<in> set observed.
          toLowerCase (rc_blockHash r) \<noteq> toLowerCase (rc_blockHash (hd observed)) \<or> rc_status r \<noteq> rc_status (hd observed))
      then disagreement
      else if length observed = length receipts
      then (if observed = [] then throwIO ''Cannot read properties of undefined'' else returnIO (Some (hd observed)))
      else returnIO None))"

text \<open>The first transaction of the nonce that is mined on every endpoint.\<close>

fun find_mined ::
  "'x endpoint list \<Rightarrow> int \<Rightarrow> transaction_row list \<Rightarrow> ('x op_world, (string \<times> receipt) option) io" where
  "find_mined eps nonce [] = returnIO None"
| "find_mined eps nonce (t # ts) = bindIO (receipt_of eps nonce t) (\<lambda>r. (case r of
     Some rc \<Rightarrow> returnIO (Some (tx_transaction_hash t, rc)) | None \<Rightarrow> find_mined eps nonce ts))"

text \<open>An unmined nonce is consumed or can be used again, if no endpoint knows its transactions and all agree.\<close>

definition unmined_status ::
  "'x endpoint list \<Rightarrow> string \<Rightarrow> int \<Rightarrow> transaction_row list \<Rightarrow> ('x op_world, string) io" where
  "unmined_status eps relayer nonce ts =
     bindIO (mapIO (\<lambda>(t, ep). ext (ep_getTransaction ep (tx_transaction_hash t))) (List.product ts eps)) (\<lambda>known.
     if True \<in> set known then throwIO (''RelayerTransactionPending:'' @ showInt nonce)
     else bindIO (mapIO (\<lambda>ep. ext (ep_latestNonce ep relayer)) eps) (\<lambda>latest.
       (let allConsumed = (\<forall>n \<in> set latest. n > nonce); allReusable = (\<forall>n \<in> set latest. n \<le> nonce) in
        if \<not> allConsumed \<and> \<not> allReusable then throwIO (''RpcNonceDisagreement:'' @ showInt nonce)
        else returnIO (if allConsumed then ''consumed'' else ''dropped''))))"

definition reconcile_nonce ::
  "identity \<Rightarrow> ('x \<Rightarrow> int) \<Rightarrow> 'x endpoint list \<Rightarrow> string \<Rightarrow> int \<times> transaction_row list \<Rightarrow> ('x op_world, unit) io" where
  "reconcile_nonce i clock eps relayer nt = (case nt of (nonce, ts) \<Rightarrow>
     bindIO (find_mined eps nonce ts) (\<lambda>mined. (case mined of
       Some (hash, rc) \<Rightarrow> bindIO (getsIO (\<lambda>w. clock (ow_ext w))) (\<lambda>now.
         onDb (resolveNonce i now relayer nonce ''replaced'' (Some hash) (Some (rc_blockNumber rc))))
     | None \<Rightarrow> bindIO (unmined_status eps relayer nonce ts) (\<lambda>status.
         bindIO (getsIO (\<lambda>w. clock (ow_ext w))) (\<lambda>now. onDb (resolveNonce i now relayer nonce status None None))))))"

definition reconcileRelayerTransactions ::
  "identity \<Rightarrow> ('x \<Rightarrow> int) \<Rightarrow> 'x endpoint list \<Rightarrow> string \<Rightarrow> ('x op_world, unit) io" where
  "reconcileRelayerTransactions i clock eps relayer =
     bindIO (onDb (\<lambda>d. (d, listUnresolvedTransactions i relayer d))) (\<lambda>rows.
     forIO (byNonce rows) (reconcile_nonce i clock eps relayer))"

subsection \<open>Sending under the nonce lock\<close>

record 'x operator_env =
  oe_identity :: identity
  oe_instanceId :: string
  oe_wallet :: "'x wallet_rpc"
  oe_endpoints :: "'x endpoint list"
  oe_clock :: "'x \<Rightarrow> int"
  oe_lost :: "'x \<Rightarrow> bool"
  oe_lockHash :: "string \<Rightarrow> int"
  oe_dbSend :: "('x, unit) io"
  oe_dbReply :: "('x, unit) io"

definition under_nonce_lock :: "'x operator_env \<Rightarrow> ('x op_world, 'a) io \<Rightarrow> ('x op_world, 'a) io" where
  "under_nonce_lock env operation = (\<lambda>w.
     case withRelayerNonceLock (oe_lockHash env) (oe_identity env) (wr_address (oe_wallet env))
         (\<lambda>d. case operation (w\<lparr>ow_db := d\<rparr>) of (w', res) \<Rightarrow> (ow_db w', oe_lost env (ow_ext w'), Inr (w', res))) (ow_db w) of
       (d, Inl e) \<Rightarrow> (w\<lparr>ow_db := d\<rparr>, Inl e)
     | (d, Inr (w', res)) \<Rightarrow> (w'\<lparr>ow_db := d\<rparr>, res))"

definition journal_broadcast ::
  "'x operator_env \<Rightarrow> int option \<Rightarrow> string \<Rightarrow> string \<Rightarrow> int \<Rightarrow> int \<Rightarrow> ('x op_world, unit) io" where
  "journal_broadcast env requestId kind hash nonce gasPrice =
     bindIO (getsIO (\<lambda>w. oe_clock env (ow_ext w))) (\<lambda>now.
     modifyIO (\<lambda>w. w\<lparr>ow_db := recordBroadcast (oe_identity env) now hash (wr_address (oe_wallet env)) nonce requestId kind
       gasPrice (oe_instanceId env) (ow_db w)\<rparr>))"

definition lease_held_or_throw :: "'x operator_env \<Rightarrow> ('x op_world, unit) io" where
  "lease_held_or_throw env = bindIO (getsIO (\<lambda>w. oe_lost env (ow_ext w))) (\<lambda>lost. liftR (assertHeld lost))"

definition send_locked ::
  "'x operator_env \<Rightarrow> string \<Rightarrow> int \<Rightarrow> nat \<Rightarrow> int option \<Rightarrow> string \<Rightarrow>
     (int \<Rightarrow> int \<Rightarrow> string \<Rightarrow> ('x op_world, unit) io) option \<Rightarrow> ('x op_world, receipt) io" where
  "send_locked env request maxGasPrice maximumAttempts requestId kind before =
     (let relayer = wr_address (oe_wallet env) in
      bindIO (reconcileRelayerTransactions (oe_identity env) (oe_clock env) (oe_endpoints env) relayer) (\<lambda>_.
      bindIO (mapIO (\<lambda>ep. ext (ep_pendingNonce ep relayer)) (oe_endpoints env)) (\<lambda>answers.
      bindIO (liftR (pendingNonceConsensus answers)) (\<lambda>nonce.
      sendWithReplacement (oe_wallet env)
        \<lparr>sh_assertLease = Some (lease_held_or_throw env), sh_beforeBroadcast = before,
          sh_onBroadcast = Some (journal_broadcast env requestId kind)\<rparr>
        request maxGasPrice maximumAttempts (Some nonce)))))"

definition sendPostgresTransaction ::
  "'x operator_env \<Rightarrow> string \<Rightarrow> int \<Rightarrow> nat \<Rightarrow> int option \<Rightarrow> string \<Rightarrow>
     (int \<Rightarrow> int \<Rightarrow> string \<Rightarrow> ('x op_world, unit) io) option \<Rightarrow> ('x op_world, receipt) io" where
  "sendPostgresTransaction env request maxGasPrice maximumAttempts requestId kind before =
     bindIO (under_nonce_lock env (send_locked env request maxGasPrice maximumAttempts requestId kind before)) (\<lambda>receipt.
     bindIO (getsIO (\<lambda>w. oe_clock env (ow_ext w))) (\<lambda>now.
     bindIO (modifyIO (\<lambda>w. w\<lparr>ow_db := markMined now (rc_hash receipt) (rc_blockNumber receipt) (ow_db w)\<rparr>)) (\<lambda>_.
     returnIO receipt)))"

text \<open>The archiver's \<open>sendArchive\<close>: every attempt is paid for from the budget before it is broadcast.\<close>

definition reserve_budget :: "('x \<Rightarrow> string) \<Rightarrow> int \<Rightarrow> int \<Rightarrow> string \<Rightarrow> ('x op_world, unit) io" where
  "reserve_budget timestamp gasLimit gasPrice hash = (\<lambda>w.
     case reserve gasLimit gasPrice hash (timestamp (ow_ext w)) (ow_budget w) of (b, r) \<Rightarrow> (w\<lparr>ow_budget := b\<rparr>, r))"

record 'x archive_contract =
  ac_blockhashes :: "int \<Rightarrow> ('x, string) io"
  ac_storeRequest :: "int \<Rightarrow> ('x, string) io"
  ac_getBalance :: "('x, int) io"

definition sendArchive ::
  "'x operator_env \<Rightarrow> 'x archive_contract \<Rightarrow> ('x \<Rightarrow> string) \<Rightarrow> int \<Rightarrow> int \<Rightarrow> int \<Rightarrow> int \<Rightarrow> ('x op_world, unit) io" where
  "sendArchive env archive timestamp maximumGasPrice requestId requestBlock maxGasPriceWei =
     bindIO (ext (ac_blockhashes archive requestBlock)) (\<lambda>stored.
     if stored \<noteq> ZERO_HASH then returnIO ()
     else bindIO (ext (ac_getBalance archive)) (\<lambda>balance.
       if balance < 2000000000000000 then throwIO ''ArchiverRelayerBalanceFloor''
       else bindIO (ext (ac_storeRequest archive requestBlock)) (\<lambda>request.
         bindIO (sendPostgresTransaction env request (if maxGasPriceWei < maximumGasPrice then maxGasPriceWei else maximumGasPrice)
           1 (Some requestId) ''independent-blockhash-archive'' (Some (reserve_budget timestamp))) (\<lambda>_. returnIO ()))))"

subsection \<open>The contract of the hooks\<close>

lemma hoare_ex: "(\<And>h. hoare (P h) m Q R) \<Longrightarrow> hoare (\<lambda>w. \<exists>h. P h w) m Q R"
  unfolding hoare_def by blast

lemma keeps_ext: "(\<And>w x. I w \<Longrightarrow> I (w\<lparr>ow_ext := x\<rparr>)) \<Longrightarrow> keeps I (ext f)"
  by (auto simp: keeps_def ext_def split: prod.split)

definition tx_of :: "int \<Rightarrow> int \<Rightarrow> int \<Rightarrow> string \<Rightarrow> sent_transaction" where
  "tx_of nonce gasLimit gasPrice hash = \<lparr>sn_hash = hash, sn_nonce = nonce, sn_gasLimit = gasLimit, sn_gasPriceWei = gasPrice\<rparr>"

fun price_ladder :: "int \<Rightarrow> int list \<Rightarrow> bool" where
  "price_ladder p [] = True"
| "price_ladder p (q # qs) = (q = p \<and> price_ladder ((p * 9) sdiv 8 + 1) qs)"

text \<open>The attempts of one call: one nonce, one gas limit, rising prices within the cap.\<close>

definition attempts_of :: "nat \<Rightarrow> int \<Rightarrow> int \<Rightarrow> int \<Rightarrow> int \<Rightarrow> sent_transaction list \<Rightarrow> bool" where
  "attempts_of n cap nonce gasLimit gasPrice ts \<longleftrightarrow> length ts \<le> n \<and> price_ladder gasPrice (map sn_gasPriceWei ts) \<and>
     (\<forall>t \<in> set ts. sn_nonce t = nonce \<and> sn_gasLimit t = gasLimit \<and> sn_gasPriceWei t \<le> cap)"

text \<open>
  What the callers of \<open>sendWithReplacement\<close> rely on: a relation \<open>paid w ts\<close> between the world and the broadcasts of this call that the
  hooks establish for a transaction before it leaves the process, and that neither remote calls nor the broadcast itself disturb.
\<close>

locale broadcast_contract =
  fixes hooks :: "'x send_hooks"
    and paid :: "'x op_world \<Rightarrow> sent_transaction list \<Rightarrow> bool"
    and nonce :: int
  assumes paid_ext: "paid w ts \<Longrightarrow> paid (w\<lparr>ow_ext := x\<rparr>) ts"
    and paid_sent: "paid w ts \<Longrightarrow> paid (w\<lparr>ow_sent := y\<rparr>) ts"
    and paid_less: "paid w (ts @ [t]) \<Longrightarrow> paid w ts"
    and assert_keeps: "keeps (\<lambda>w. paid w ts \<and> ow_sent w = s) (assert_lease hooks)"
    and announce_pays: "hoare (\<lambda>w. paid w ts \<and> ow_sent w = s) (announce hooks gasLimit gasPrice hash nonce)
        (\<lambda>_ w. paid w (ts @ [tx_of nonce gasLimit gasPrice hash]) \<and> ow_sent w = s) (\<lambda>w. paid w ts \<and> ow_sent w = s)"
begin

lemma ext_keeps: "keeps (\<lambda>w. paid w ts \<and> ow_sent w = s) (ext f)"
  by (rule keeps_ext) (simp add: paid_ext)

lemma attempt:
  "hoare (\<lambda>w. paid w ts \<and> ow_sent w = s) (send_attempt rpc hooks request nonce gasLimit gasPrice)
     (\<lambda>_ w. \<exists>h. paid w (ts @ [tx_of nonce gasLimit gasPrice h]) \<and> ow_sent w = s @ [tx_of nonce gasLimit gasPrice h])
     (\<lambda>w. paid w ts \<and> ow_sent w = s \<or>
        (\<exists>h. paid w (ts @ [tx_of nonce gasLimit gasPrice h]) \<and> ow_sent w = s @ [tx_of nonce gasLimit gasPrice h]))"
  (is "hoare ?P _ (\<lambda>_. ?Q) ?R")
proof -
  let ?tx = "tx_of nonce gasLimit gasPrice"
  have k: "hoare (\<lambda>w. paid w us \<and> ow_sent w = s') (ext f) (\<lambda>_ w. paid w us \<and> ow_sent w = s') ?R"
    if "us = ts \<and> s' = s \<or> (\<exists>h. us = ts @ [?tx h] \<and> s' = s @ [?tx h])" for f us s'
    using that by (intro hoare_post [OF ext_keeps [unfolded keeps_hoare]]) auto
  have a: "hoare (\<lambda>w. paid w us \<and> ow_sent w = s) (assert_lease hooks) (\<lambda>_ w. paid w us \<and> ow_sent w = s) ?R"
    if "us = ts \<or> us = ts @ [?tx h]" for us h
    using that by (intro hoare_post [OF assert_keeps [unfolded keeps_hoare]]) (auto dest: paid_less)
  have n: "hoare ?P (announce hooks gasLimit gasPrice h nonce) (\<lambda>_ w. paid w (ts @ [?tx h]) \<and> ow_sent w = s) ?R" for h
    by (rule hoare_post [OF announce_pays]) auto
  have b: "hoare (\<lambda>w. paid w (ts @ [?tx h]) \<and> ow_sent w = s) (broadcast rpc raw (?tx h))
      (\<lambda>_ w. paid w (ts @ [?tx h]) \<and> ow_sent w = s @ [?tx h]) ?R" for raw h
    unfolding broadcast_def
    by (rule hoare_bindIO [OF hoare_pre [OF hoare_modifyIO] k [of "ts @ [?tx h]" "s @ [?tx h]"]]) (auto simp: paid_sent)
  have w: "hoare (\<lambda>w. paid w (ts @ [?tx h]) \<and> ow_sent w = s @ [?tx h])
      (if b then throwIO e else bindIO (ext (wr_waitForReceipt rpc r)) (\<lambda>outcome. returnIO (h, outcome))) (\<lambda>_. ?Q) ?R" for h b e r
    by (intro hoare_if hoare_pre [OF hoare_throwIO] hoare_bindIO [OF k] hoare_pre [OF hoare_returnIO]) auto
  show ?thesis
    unfolding send_attempt_def Let_def tx_of_def [symmetric]
    by (rule hoare_bindIO [OF k], simp, rule hoare_bindIO [OF a [of ts]], simp, rule hoare_bindIO [OF n],
        rule hoare_bindIO [OF a], simp, rule hoare_bindIO [OF b w])
qed

lemma loop:
  assumes "gasPrice \<le> cap"
  shows "hoare (\<lambda>w. paid w ts \<and> ow_sent w = s)
     (send_loop n rpc hooks request cap nonce gasLimit gasPrice lastHash)
     (\<lambda>_ w. \<exists>us. paid w (ts @ us) \<and> ow_sent w = s @ us \<and> attempts_of n cap nonce gasLimit gasPrice us)
     (\<lambda>w. \<exists>us. paid w (ts @ us) \<and> ow_sent w = s @ us \<and> attempts_of n cap nonce gasLimit gasPrice us)"
  using assms
proof (induction n arbitrary: gasPrice ts s lastHash)
  case 0
  have "attempts_of 0 cap nonce gasLimit gasPrice []" by (simp add: attempts_of_def)
  then show ?case unfolding send_loop.simps by (intro hoare_pre [OF hoare_throwIO] exI [of _ "[]"]) simp
next
  case (Suc n)
  let ?tx = "tx_of nonce gasLimit gasPrice"
  let ?Q = "\<lambda>w. \<exists>us. paid w (ts @ us) \<and> ow_sent w = s @ us \<and> attempts_of (Suc n) cap nonce gasLimit gasPrice us"
  have none: "attempts_of (Suc n) cap nonce gasLimit gasPrice []" by (simp add: attempts_of_def)
  have one: "attempts_of (Suc n) cap nonce gasLimit gasPrice [?tx h]" for h
    using Suc.prems by (simp add: attempts_of_def tx_of_def)
  have more: "attempts_of (Suc n) cap nonce gasLimit gasPrice (?tx h # us)"
    if "attempts_of n cap nonce gasLimit ((gasPrice * 9) sdiv 8 + 1) us" for h us
    using that Suc.prems by (simp add: attempts_of_def tx_of_def)
  have att: "hoare (\<lambda>w. paid w ts \<and> ow_sent w = s) (send_attempt rpc hooks request nonce gasLimit gasPrice)
      (\<lambda>_ w. \<exists>h. paid w (ts @ [?tx h]) \<and> ow_sent w = s @ [?tx h]) ?Q"
    using none one by (intro hoare_post [OF attempt]) (auto intro: exI [of _ "[]"])
  have rec: "hoare (\<lambda>w. \<exists>h. paid w (ts @ [?tx h]) \<and> ow_sent w = s @ [?tx h])
      (send_loop n rpc hooks request cap nonce gasLimit ((gasPrice * 9) sdiv 8 + 1) l) (\<lambda>_. ?Q) ?Q"
    if "(gasPrice * 9) sdiv 8 + 1 \<le> cap" for l
  proof (rule hoare_ex)
    fix h
    show "hoare (\<lambda>w. paid w (ts @ [?tx h]) \<and> ow_sent w = s @ [?tx h])
        (send_loop n rpc hooks request cap nonce gasLimit ((gasPrice * 9) sdiv 8 + 1) l) (\<lambda>_. ?Q) ?Q"
      by (rule hoare_post [OF Suc.IH [OF that]]) (elim exE, use more in \<open>(intro exI, auto)\<close>)+
  qed
  have keep: "?Q w" if "\<exists>h. paid w (ts @ [?tx h]) \<and> ow_sent w = s @ [?tx h]" for w using that one by blast
  have "hoare (\<lambda>w. \<exists>h. paid w (ts @ [?tx h]) \<and> ow_sent w = s @ [?tx h])
      (case ho of (hash, outcome) \<Rightarrow> (case outcome of
        Confirmed r \<Rightarrow> returnIO r
      | Replaced r \<Rightarrow> returnIO r
      | TimedOut \<Rightarrow>
          (let bumped = (gasPrice * 9) sdiv 8 + 1 in
           if bumped > cap \<or> n = 0
           then throwIO (''transaction not confirmed before replacement limit: '' @ hash)
           else send_loop n rpc hooks request cap nonce gasLimit bumped hash))) (\<lambda>_. ?Q) ?Q" for ho
    unfolding Let_def split_def
    by (cases "snd ho") (simp_all only: wait_outcome.case, (intro hoare_pre [OF hoare_returnIO] keep hoare_if rec hoare_pre [OF hoare_throwIO]; simp)+)
  then show ?case unfolding send_loop.simps by (rule hoare_bindIO [OF att])
qed

text \<open>The whole call with a supplied nonce; \<open>P\<close> is the state before it.\<close>

lemma send:
  "hoare (\<lambda>w. paid w [] \<and> ow_sent w = s)
     (sendWithReplacement rpc hooks request cap n (Some nonce))
     (\<lambda>_ w. \<exists>us gl gp. paid w us \<and> ow_sent w = s @ us \<and> gp \<le> cap \<and> attempts_of n cap nonce gl gp us)
     (\<lambda>w. \<exists>us gl gp. paid w us \<and> ow_sent w = s @ us \<and> attempts_of n cap nonce gl gp us)"
proof -
  let ?P = "\<lambda>w. paid w [] \<and> ow_sent w = s"
  let ?Q = "\<lambda>w. \<exists>us gl gp. paid w us \<and> ow_sent w = s @ us \<and> gp \<le> cap \<and> attempts_of n cap nonce gl gp us"
  let ?R = "\<lambda>w. \<exists>us gl gp. paid w us \<and> ow_sent w = s @ us \<and> attempts_of n cap nonce gl gp us"
  have none: "?R w" if "?P w" for w
    using that by (intro exI [of _ "[]"]) (simp add: attempts_of_def)
  have k: "hoare ?P (ext f) (\<lambda>_. ?P) ?R" for f
    by (rule hoare_post [OF ext_keeps [unfolded keeps_hoare]]) (use none in blast)+
  have l: "hoare ?P (send_loop n rpc hooks request cap nonce gl gp last) (\<lambda>_. ?Q) ?R" if "gp \<le> cap" for gl gp last
    by (rule hoare_post [OF loop [OF that]]) (use that in auto)
  have b: "hoare ?P (bindIO (returnIO nonce) (\<lambda>nonce'. send_loop n rpc hooks request cap nonce' gl gp last)) (\<lambda>_. ?Q) ?R"
    if "gp \<le> cap" for gl gp last
    using l [OF that, of gl last] by (simp add: bindIO_def returnIO_def)
  have t: "hoare ?P (throwIO e) (\<lambda>_. ?Q) ?R" for e by (rule hoare_pre [OF hoare_throwIO none])
  have "hoare ?P (case fees of (price, maxFee) \<Rightarrow> (case (case price of Some p \<Rightarrow> Some p | None \<Rightarrow> maxFee) of
         None \<Rightarrow> throwIO ''RPC did not return a gas price''
       | Some gasPrice \<Rightarrow>
           if gasPrice > cap
           then throwIO (''GasPriceAboveLane:'' @ showInt gasPrice @ '':'' @ showInt cap)
           else bindIO (returnIO nonce) (\<lambda>nonce'. send_loop n rpc hooks request cap nonce' gl gasPrice ''undefined''))) (\<lambda>_. ?Q) ?R"
    for fees gl
  proof (cases "case fst fees of Some p \<Rightarrow> Some p | None \<Rightarrow> snd fees")
    case None
    show ?thesis unfolding split_def None option.case by (rule t)
  next
    case (Some gp)
    show ?thesis unfolding split_def Some option.case by (rule hoare_if [OF t b]) simp
  qed
  then show ?thesis
    unfolding sendWithReplacement_def Let_def option.case by (intro hoare_bindIO [OF k]) simp
qed

end

subsection \<open>The journal of the operator and the budget of the archiver\<close>

text \<open>
  The journal hook pays for a transaction by its row; while a call runs, every unresolved row of the relayer has the nonce of the call.
\<close>

definition journalled :: "'x operator_env \<Rightarrow> int \<Rightarrow> 'x op_world \<Rightarrow> sent_transaction list \<Rightarrow> bool" where
  "journalled env nonce w ts \<longleftrightarrow> (\<forall>t \<in> set ts. \<exists>r \<in> set (transactions (ow_db w)). tx_transaction_hash r = sn_hash t) \<and>
     (\<forall>r \<in> set (transactions (ow_db w)). unresolved (oe_identity env) (wr_address (oe_wallet env)) r \<longrightarrow> tx_nonce r = nonce)"

definition operator_hooks ::
  "'x operator_env \<Rightarrow> int option \<Rightarrow> string \<Rightarrow> (int \<Rightarrow> int \<Rightarrow> string \<Rightarrow> ('x op_world, unit) io) option \<Rightarrow> 'x send_hooks" where
  "operator_hooks env requestId kind before = \<lparr>sh_assertLease = Some (lease_held_or_throw env), sh_beforeBroadcast = before,
     sh_onBroadcast = Some (journal_broadcast env requestId kind)\<rparr>"

lemma journal_succeeds: "journal_broadcast env rid kind h nonce gp w \<noteq> (w', Inl e)"
  by (simp add: journal_broadcast_def io_defs)

lemma journal_pays:
  assumes "journalled env nonce w ts"
  shows "journalled env nonce (fst (journal_broadcast env rid kind h nonce gp w)) (ts @ [tx_of nonce gl gp h])"
    "ow_sent (fst (journal_broadcast env rid kind h nonce gp w)) = ow_sent w"
    "ow_budget (fst (journal_broadcast env rid kind h nonce gp w)) = ow_budget w"
    "\<exists>x. snd (journal_broadcast env rid kind h nonce gp w) = Inr x"
  using assms
  by (auto simp: journal_broadcast_def io_defs recordBroadcast_def journalled_def tx_of_def)

lemma lease_world: "fst (lease_held_or_throw env w) = w"
  by (simp add: lease_held_or_throw_def io_defs assertHeld_def)

lemma lease_keeps: "keeps I (assert_lease (operator_hooks env rid kind before))"
  by (simp add: keeps_def assert_lease_def operator_hooks_def lease_world)

lemma announce_operator:
  "announce (operator_hooks env rid kind None) gl gp h nonce = journal_broadcast env rid kind h nonce gp"
  by (simp add: announce_def before_broadcast_def on_broadcast_def operator_hooks_def bindIO_def returnIO_def)

lemma journalled_update [simp]:
  "journalled env nonce (w\<lparr>ow_ext := x\<rparr>) ts = journalled env nonce w ts"
  "journalled env nonce (w\<lparr>ow_sent := y\<rparr>) ts = journalled env nonce w ts"
  "journalled env nonce (w\<lparr>ow_budget := b\<rparr>) ts = journalled env nonce w ts"
  by (simp_all add: journalled_def)

interpretation operator_sends: broadcast_contract "operator_hooks env rid kind None" "journalled env nonce" nonce
  for env :: "'x operator_env" and rid kind nonce
proof
  show "hoare (\<lambda>w. journalled env nonce w ts \<and> ow_sent w = s) (announce (operator_hooks env rid kind None) gl gp h nonce)
      (\<lambda>_ w. journalled env nonce w (ts @ [tx_of nonce gl gp h]) \<and> ow_sent w = s)
      (\<lambda>w. journalled env nonce w ts \<and> ow_sent w = s)" for ts s gl gp h
  proof (rule hoareI)
    fix w w' u assume P: "journalled env nonce w ts \<and> ow_sent w = s"
      and r: "announce (operator_hooks env rid kind None) gl gp h nonce w = (w', Inr u)"
    then have "w' = fst (journal_broadcast env rid kind h nonce gp w)" by (simp add: announce_operator)
    then show "journalled env nonce w' (ts @ [tx_of nonce gl gp h]) \<and> ow_sent w' = s"
      using P by (simp add: journal_pays [OF conjunct1 [OF P]])
  next
    fix w w' e assume P: "journalled env nonce w ts \<and> ow_sent w = s"
      and r: "announce (operator_hooks env rid kind None) gl gp h nonce w = (w', Inl e)"
    then show "journalled env nonce w' ts \<and> ow_sent w' = s"
      using journal_pays(4) [OF P [THEN conjunct1], of rid kind h gp] by (simp add: announce_operator)
  qed
qed (simp_all add: lease_keeps, simp add: journalled_def)

definition cost :: "sent_transaction \<Rightarrow> int" where
  "cost t = sn_gasLimit t * sn_gasPriceWei t"

text \<open>The budget covers the attempts: since \<open>b\<close> at least their cost was reserved.\<close>

definition covered :: "'x operator_env \<Rightarrow> int \<Rightarrow> budget_state \<Rightarrow> 'x op_world \<Rightarrow> sent_transaction list \<Rightarrow> bool" where
  "covered env nonce b w ts \<longleftrightarrow> journalled env nonce w ts \<and> budget_ok (ow_budget w) \<and>
     bs_maximumWei (ow_budget w) = bs_maximumWei b \<and> (\<forall>t \<in> set ts. 0 \<le> cost t) \<and>
     bs_reservedWei b + sum_list (map cost ts) \<le> bs_reservedWei (ow_budget w)"

lemma announce_archive:
  "announce (operator_hooks env rid kind (Some (reserve_budget ts))) gl gp h nonce w =
     (case reserve gl gp h (ts (ow_ext w)) (ow_budget w) of
        (b, Inl e) \<Rightarrow> (w\<lparr>ow_budget := b\<rparr>, Inl e)
      | (b, Inr _) \<Rightarrow> journal_broadcast env rid kind h nonce gp (w\<lparr>ow_budget := b\<rparr>))"
  by (simp add: announce_def before_broadcast_def on_broadcast_def operator_hooks_def bindIO_def reserve_budget_def
      split: prod.split sum.split)

interpretation archiver_sends: broadcast_contract "operator_hooks env rid kind (Some (reserve_budget timestamp))"
    "covered env nonce b" nonce
  for env :: "'x operator_env" and rid kind nonce timestamp b
proof
  show "hoare (\<lambda>w. covered env nonce b w ts \<and> ow_sent w = s)
      (announce (operator_hooks env rid kind (Some (reserve_budget timestamp))) gl gp h nonce)
      (\<lambda>_ w. covered env nonce b w (ts @ [tx_of nonce gl gp h]) \<and> ow_sent w = s)
      (\<lambda>w. covered env nonce b w ts \<and> ow_sent w = s)" for ts s gl gp h
  proof (rule hoareI)
    fix w w' u assume P: "covered env nonce b w ts \<and> ow_sent w = s"
      and r: "announce (operator_hooks env rid kind (Some (reserve_budget timestamp))) gl gp h nonce w = (w', Inr u)"
    obtain b' v where b': "reserve gl gp h (timestamp (ow_ext w)) (ow_budget w) = (b', Inr v)"
        "w' = fst (journal_broadcast env rid kind h nonce gp (w\<lparr>ow_budget := b'\<rparr>))"
      using r by (auto simp: announce_archive split: prod.splits sum.splits)
    have "bs_reservedWei b' = bs_reservedWei (ow_budget w) + gl * gp" "bs_maximumWei b' = bs_maximumWei (ow_budget w)" "0 < gl * gp"
      using b'(1) by (auto simp: reserve_def Let_def split: if_splits)
    moreover have "budget_ok b'" using reserve_ok [of "ow_budget w" gl gp h "timestamp (ow_ext w)"] P b'(1) by (simp add: covered_def)
    moreover have "journalled env nonce (w\<lparr>ow_budget := b'\<rparr>) ts" using P by (simp add: covered_def)
    note j = journal_pays [OF this]
    ultimately show "covered env nonce b w' (ts @ [tx_of nonce gl gp h]) \<and> ow_sent w' = s"
      using P b'(2) by (simp add: covered_def j) (simp add: cost_def tx_of_def)
  next
    fix w w' e assume P: "covered env nonce b w ts \<and> ow_sent w = s"
      and r: "announce (operator_hooks env rid kind (Some (reserve_budget timestamp))) gl gp h nonce w = (w', Inl e)"
    obtain b' where b': "reserve gl gp h (timestamp (ow_ext w)) (ow_budget w) = (b', Inl e)" "w' = w\<lparr>ow_budget := b'\<rparr>"
      using r journal_succeeds by (fastforce simp: announce_archive split: prod.splits sum.splits)
    have "bs_reservedWei b' = bs_reservedWei (ow_budget w)" "bs_maximumWei b' = bs_maximumWei (ow_budget w)"
      using b'(1) by (auto simp: reserve_def Let_def split: if_splits)
    moreover have "budget_ok b'" using reserve_ok [of "ow_budget w" gl gp h "timestamp (ow_ext w)"] P b'(1) by (simp add: covered_def)
    ultimately show "covered env nonce b w' ts \<and> ow_sent w' = s" using P b'(2) by (simp add: covered_def)
  qed
  show "covered env nonce b w ts" if "covered env nonce b w (ts @ [t])" for w ts t
    using that by (auto simp: covered_def journalled_def)
qed (simp_all add: lease_keeps, simp_all add: covered_def)

subsection \<open>Reconciliation\<close>

definition open_rows :: "identity \<Rightarrow> string \<Rightarrow> 'x op_world \<Rightarrow> transaction_row list" where
  "open_rows i relayer w = filter (unresolved i relayer) (transactions (ow_db w))"

lemma resolveNonce_opens:
  assumes "resolveNonce i now relayer nonce st h b d = (d', r)"
  shows "set (filter (unresolved i relayer) (transactions d')) \<subseteq>
    {t \<in> set (filter (unresolved i relayer) (transactions d)). isOk r \<longrightarrow> tx_nonce t \<noteq> nonce}"
proof (cases r)
  case (Inl e)
  then show ?thesis using assms by (auto simp: resolveNonce_def Let_def split: if_splits)
next
  case (Inr u)
  then have "filter (unresolved i relayer) (transactions d') = filter (\<lambda>t. unresolved i relayer t \<and> tx_nonce t \<noteq> nonce \<and>
      (h = None \<or> h = Some [] \<or> h \<noteq> Some (tx_transaction_hash t))) (transactions d)"
    using assms resolveNonce_open [where i = i and now = now and relayer = relayer and nonce = nonce and status = st and h = h and
      b = b and d = d] by simp
  then show ?thesis by auto
qed

lemma resolve_opens_less:
  "hoare (\<lambda>w. set (open_rows i relayer w) \<subseteq> S) (onDb (resolveNonce i now relayer nonce st h b))
     (\<lambda>_ w. set (open_rows i relayer w) \<subseteq> {t \<in> S. tx_nonce t \<noteq> nonce}) (\<lambda>w. set (open_rows i relayer w) \<subseteq> S)"
proof (rule hoareI)
  fix w w' u assume S: "set (open_rows i relayer w) \<subseteq> S" and r: "onDb (resolveNonce i now relayer nonce st h b) w = (w', Inr u)"
  obtain d where d: "resolveNonce i now relayer nonce st h b (ow_db w) = (d, Inr u)" "w' = w\<lparr>ow_db := d\<rparr>"
    using r by (auto simp: onDb_def split: prod.splits)
  show "set (open_rows i relayer w') \<subseteq> {t \<in> S. tx_nonce t \<noteq> nonce}"
    using resolveNonce_opens [OF d(1)] S by (auto simp: open_rows_def d(2))
next
  fix w w' e assume S: "set (open_rows i relayer w) \<subseteq> S" and r: "onDb (resolveNonce i now relayer nonce st h b) w = (w', Inl e)"
  obtain d where d: "resolveNonce i now relayer nonce st h b (ow_db w) = (d, Inl e)" "w' = w\<lparr>ow_db := d\<rparr>"
    using r by (auto simp: onDb_def split: prod.splits)
  show "set (open_rows i relayer w') \<subseteq> S"
    using resolveNonce_opens [OF d(1)] S by (auto simp: open_rows_def d(2))
qed

lemma keeps_receipt_of: "(\<And>w x. I w \<Longrightarrow> I (w\<lparr>ow_ext := x\<rparr>)) \<Longrightarrow> keeps I (receipt_of eps nonce t)"
  unfolding receipt_of_def Let_def by (intro wp keeps_ext)

lemma keeps_find_mined:
  assumes "\<And>w x. I w \<Longrightarrow> I (w\<lparr>ow_ext := x\<rparr>)" shows "keeps I (find_mined eps nonce ts)"
  by (induction ts) (auto intro!: wp keeps_receipt_of assms)

lemma keeps_unmined: "(\<And>w x. I w \<Longrightarrow> I (w\<lparr>ow_ext := x\<rparr>)) \<Longrightarrow> keeps I (unmined_status eps relayer nonce ts)"
  unfolding unmined_status_def Let_def split_def by (intro wp keeps_ext)

text \<open>What a step of the reconciliation may touch: neither the broadcasts nor the budget.\<close>

definition settled_in :: "identity \<Rightarrow> string \<Rightarrow> sent_transaction list \<Rightarrow> budget_state \<Rightarrow> transaction_row set \<Rightarrow> 'x op_world \<Rightarrow> bool" where
  "settled_in i relayer s b S w \<longleftrightarrow> set (open_rows i relayer w) \<subseteq> S \<and> ow_sent w = s \<and> ow_budget w = b"

lemma settled_in_ext: "settled_in i relayer s b S w \<Longrightarrow> settled_in i relayer s b S (w\<lparr>ow_ext := x\<rparr>)"
  by (simp add: settled_in_def open_rows_def)

lemma onDb_frame: "keeps (\<lambda>w. ow_sent w = s \<and> ow_budget w = b) (onDb f)"
  by (simp add: keeps_def onDb_def split: prod.split)

lemma resolve_settles:
  "hoare (settled_in i relayer s b S) (onDb (resolveNonce i now relayer nonce st h n))
     (\<lambda>_. settled_in i relayer s b {t \<in> S. tx_nonce t \<noteq> nonce}) (settled_in i relayer s b S)"
  using hoare_conj [OF resolve_opens_less onDb_frame [unfolded keeps_hoare]] unfolding settled_in_def [abs_def] .

lemma reconcile_nonce_settles:
  "hoare (settled_in i relayer s b S) (reconcile_nonce i clock eps relayer (nonce, ts))
     (\<lambda>_. settled_in i relayer s b {t \<in> S. tx_nonce t \<noteq> nonce}) (settled_in i relayer s b S)"
proof -
  have k: "hoare (settled_in i relayer s b S) m (\<lambda>_. settled_in i relayer s b S) (settled_in i relayer s b S)"
    if "keeps (settled_in i relayer s b S) m" for m :: "('a op_world, 'c) io" using that by (simp add: keeps_hoare)
  have f: "keeps (settled_in i relayer s b S) (find_mined eps nonce ts)" "keeps (settled_in i relayer s b S) (unmined_status eps relayer nonce ts)"
    by (rule keeps_find_mined keeps_unmined, erule settled_in_ext)+
  have g: "hoare (settled_in i relayer s b S) (bindIO (getsIO (\<lambda>w. clock (ow_ext w))) (\<lambda>now.
        onDb (resolveNonce i now relayer nonce st h n)))
      (\<lambda>_. settled_in i relayer s b {t \<in> S. tx_nonce t \<noteq> nonce}) (settled_in i relayer s b S)" for st h n
    by (rule hoare_bindIO [OF k [OF keeps_gets] resolve_settles])
  have m: "hoare (settled_in i relayer s b S) (case mined of
       Some (hash, rc) \<Rightarrow> bindIO (getsIO (\<lambda>w. clock (ow_ext w))) (\<lambda>now.
         onDb (resolveNonce i now relayer nonce ''replaced'' (Some hash) (Some (rc_blockNumber rc))))
     | None \<Rightarrow> bindIO (unmined_status eps relayer nonce ts) (\<lambda>status.
         bindIO (getsIO (\<lambda>w. clock (ow_ext w))) (\<lambda>now. onDb (resolveNonce i now relayer nonce status None None))))
      (\<lambda>_. settled_in i relayer s b {t \<in> S. tx_nonce t \<noteq> nonce}) (settled_in i relayer s b S)" for mined
  proof (cases mined)
    case None
    show ?thesis unfolding None option.case by (rule hoare_bindIO [OF k [OF f(2)] g])
  next
    case (Some hr)
    show ?thesis unfolding Some option.case split_def by (rule g)
  qed
  show ?thesis unfolding reconcile_nonce_def prod.case
    by (rule hoare_bindIO [OF k [OF f(1)] m])
qed

lemma reconcile_all_settles:
  "hoare (settled_in i relayer s b S) (forIO nts (reconcile_nonce i clock eps relayer))
     (\<lambda>_. settled_in i relayer s b {t \<in> S. tx_nonce t \<notin> fst ` set nts}) (settled_in i relayer s b S)"
proof (induction nts arbitrary: S)
  case Nil
  show ?case unfolding forIO.simps by (rule hoare_pre [OF hoare_returnIO]) simp
next
  case (Cons nt nts)
  obtain n ts where nt: "nt = (n, ts)" by fastforce
  have "hoare (settled_in i relayer s b {t \<in> S. tx_nonce t \<noteq> n}) (forIO nts (reconcile_nonce i clock eps relayer))
      (\<lambda>_. settled_in i relayer s b {t \<in> S. tx_nonce t \<notin> fst ` set (nt # nts)}) (settled_in i relayer s b S)"
    by (rule hoare_post [OF Cons.IH]) (auto simp: nt settled_in_def)
  note rest = this
  show ?case unfolding forIO.simps unfolding nt by (rule hoare_bindIO [OF reconcile_nonce_settles rest [unfolded nt]])
qed

lemma reconcile_settles_all:
  "hoare (\<lambda>w. ow_sent w = s \<and> ow_budget w = b) (reconcileRelayerTransactions i clock eps relayer)
     (\<lambda>_. settled_in i relayer s b {}) (\<lambda>w. ow_sent w = s \<and> ow_budget w = b)"
proof -
  have l: "hoare (\<lambda>w. ow_sent w = s \<and> ow_budget w = b) (onDb (\<lambda>d. (d, listUnresolvedTransactions i relayer d)))
      (\<lambda>rows. settled_in i relayer s b (set rows)) (\<lambda>w. ow_sent w = s \<and> ow_budget w = b)"
  proof (rule hoareI)
    fix w w' rows assume "ow_sent w = s \<and> ow_budget w = b"
      "onDb (\<lambda>d. (d, listUnresolvedTransactions i relayer d)) w = (w', Inr rows)"
    then show "settled_in i relayer s b (set rows) w'"
      by (auto simp: onDb_def settled_in_def open_rows_def listUnresolvedTransactions_def result_simps
          dest!: mapR_set)
  qed (auto simp: onDb_def)
  have f: "hoare (settled_in i relayer s b (set rows)) (forIO (byNonce rows) (reconcile_nonce i clock eps relayer))
      (\<lambda>_. settled_in i relayer s b {}) (\<lambda>w. ow_sent w = s \<and> ow_budget w = b)" for rows
  proof (rule hoare_post [OF reconcile_all_settles])
    fix w :: "'a op_world"
    assume "settled_in i relayer s b {t \<in> set rows. tx_nonce t \<notin> fst ` set (byNonce rows)} w"
    moreover have "{t \<in> set rows. tx_nonce t \<notin> fst ` set (byNonce rows)} = {}" by (auto simp: byNonce_def image_image)
    ultimately show "settled_in i relayer s b {} w" by simp
  qed (simp add: settled_in_def)
  show ?thesis unfolding reconcileRelayerTransactions_def by (rule hoare_bindIO [OF l f])
qed

subsection \<open>Sending under the lock\<close>

lemma lock_insensitive:
  assumes "hoare P m Q R" and "\<And>w l. P w \<Longrightarrow> P (w\<lparr>ow_db := (ow_db w)\<lparr>advisory_locks := l\<rparr>\<rparr>)"
    and "\<And>x w l. Q x w \<Longrightarrow> Q x (w\<lparr>ow_db := (ow_db w)\<lparr>advisory_locks := l\<rparr>\<rparr>)"
    and "\<And>w l. R w \<Longrightarrow> R (w\<lparr>ow_db := (ow_db w)\<lparr>advisory_locks := l\<rparr>\<rparr>)" "\<And>w. P w \<Longrightarrow> R w"
  shows "hoare P (under_nonce_lock env m) Q R"
proof -
  have "case under_nonce_lock env m w of (w', Inr x) \<Rightarrow> Q x w' | (w', Inl e) \<Rightarrow> R w'" if P: "P w" for w
  proof -
    define lock where "lock = oe_lockHash env (relayer_lock_name (oe_identity env) (wr_address (oe_wallet env)))"
    let ?w = "w\<lparr>ow_db := (ow_db w)\<lparr>advisory_locks := lock # advisory_locks (ow_db w)\<rparr>\<rparr>"
    obtain w1 r where m: "m ?w = (w1, r)" by fastforce
    have "case r of Inr x \<Rightarrow> Q x w1 | Inl e \<Rightarrow> R w1"
      using assms(1) assms(2) [OF P] m unfolding hoare_def by (cases r) auto
    then show ?thesis
      using m assms(3-5) P
      by (auto simp: under_nonce_lock_def withRelayerNonceLock_def Let_def lock_def [symmetric] pg_advisory_unlock_def split: sum.splits)
  qed
  then show ?thesis by (intro hoareI) fastforce+
qed

lemma settled_journalled:
  "settled_in (oe_identity env) (wr_address (oe_wallet env)) s b {} w \<Longrightarrow> journalled env nonce w []"
  by (auto simp: settled_in_def open_rows_def journalled_def filter_empty_conv)

lemma send_locked_contract:
  assumes contract: "\<And>nonce. broadcast_contract (operator_hooks env rid kind before) (paid nonce) nonce"
    and start: "\<And>w nonce. settled_in (oe_identity env) (wr_address (oe_wallet env)) s b {} w \<Longrightarrow> paid nonce w []"
  shows "hoare (\<lambda>w. ow_sent w = s \<and> ow_budget w = b) (send_locked env request cap n rid kind before)
    (\<lambda>_ w. \<exists>nonce us gl gp. paid nonce w us \<and> ow_sent w = s @ us \<and> attempts_of n cap nonce gl gp us)
    (\<lambda>w. ow_sent w = s \<and> ow_budget w = b \<or>
       (\<exists>nonce us gl gp. paid nonce w us \<and> ow_sent w = s @ us \<and> attempts_of n cap nonce gl gp us))"
    (is "hoare ?P _ (\<lambda>_. ?Q) ?R")
proof -
  let ?S = "settled_in (oe_identity env) (wr_address (oe_wallet env)) s b {}"
  have 1: "hoare ?P (reconcileRelayerTransactions (oe_identity env) (oe_clock env) (oe_endpoints env) (wr_address (oe_wallet env)))
      (\<lambda>_. ?S) ?R"
    by (rule hoare_post [OF reconcile_settles_all]) auto
  have "keeps ?S (mapIO (\<lambda>ep. ext (ep_pendingNonce ep (wr_address (oe_wallet env)))) (oe_endpoints env))"
    by (rule keeps_map, rule keeps_ext) (rule settled_in_ext)
  then have 2: "hoare ?S (mapIO (\<lambda>ep. ext (ep_pendingNonce ep (wr_address (oe_wallet env)))) (oe_endpoints env)) (\<lambda>_. ?S) ?R"
    unfolding keeps_hoare by (rule hoare_post) (simp_all add: settled_in_def)
  have 3: "hoare ?S (liftR v) (\<lambda>_. ?S) ?R" for v :: "int result"
    by (rule hoare_pre [OF hoare_liftR]) (simp add: settled_in_def)
  have 4: "hoare ?S (sendWithReplacement (oe_wallet env) (operator_hooks env rid kind before) request cap n (Some nonce)) (\<lambda>_. ?Q) ?R"
    for nonce
    by (rule hoare_pre [OF hoare_post [OF broadcast_contract.send [OF contract, of nonce s]]])
      (use start in \<open>auto simp: settled_in_def\<close>)
  show ?thesis unfolding send_locked_def Let_def operator_hooks_def [symmetric]
    by (rule hoare_bindIO [OF 1], rule hoare_bindIO [OF 2], rule hoare_bindIO [OF 3 4])
qed

lemma send_contract:
  assumes contract: "\<And>nonce. broadcast_contract (operator_hooks env rid kind before) (paid nonce) nonce"
    and start: "\<And>w nonce. settled_in (oe_identity env) (wr_address (oe_wallet env)) s b {} w \<Longrightarrow> paid nonce w []"
    and locks: "\<And>w nonce us l. paid nonce w us \<Longrightarrow> paid nonce (w\<lparr>ow_db := (ow_db w)\<lparr>advisory_locks := l\<rparr>\<rparr>) us"
    and mined: "\<And>w nonce us now h n. paid nonce w us \<Longrightarrow> paid nonce (w\<lparr>ow_db := markMined now h n (ow_db w)\<rparr>) us"
  shows "hoare (\<lambda>w. ow_sent w = s \<and> ow_budget w = b) (sendPostgresTransaction env request cap n rid kind before)
    (\<lambda>_ w. \<exists>nonce us gl gp. paid nonce w us \<and> ow_sent w = s @ us \<and> attempts_of n cap nonce gl gp us)
    (\<lambda>w. ow_sent w = s \<and> ow_budget w = b \<or>
       (\<exists>nonce us gl gp. paid nonce w us \<and> ow_sent w = s @ us \<and> attempts_of n cap nonce gl gp us))"
    (is "hoare ?P _ (\<lambda>_. ?Q) ?R")
proof -
  have 1: "hoare ?P (under_nonce_lock env (send_locked env request cap n rid kind before)) (\<lambda>_. ?Q) ?R"
    by (rule lock_insensitive [OF send_locked_contract [OF contract start]]) (auto dest: locks)
  have "hoare ?Q (modifyIO (\<lambda>w. w\<lparr>ow_db := markMined now h k (ow_db w)\<rparr>)) (\<lambda>_. ?Q) ?R" for now h k
    by (rule hoare_pre [OF hoare_modifyIO]) (auto dest: mined)
  then show ?thesis unfolding sendPostgresTransaction_def
    by (intro hoare_bindIO [OF 1] hoare_bindIO [where Q' = "\<lambda>_. ?Q"] hoare_returnIO hoare_getsIO)
qed

lemma journalled_db:
  "journalled env nonce w us \<Longrightarrow> journalled env nonce (w\<lparr>ow_db := (ow_db w)\<lparr>advisory_locks := l\<rparr>\<rparr>) us"
  "journalled env nonce w us \<Longrightarrow> journalled env nonce (w\<lparr>ow_db := markMined now h k (ow_db w)\<rparr>) us"
proof -
  assume j: "journalled env nonce w us"
  then show "journalled env nonce (w\<lparr>ow_db := (ow_db w)\<lparr>advisory_locks := l\<rparr>\<rparr>) us" by (simp add: journalled_def)
  show "journalled env nonce (w\<lparr>ow_db := markMined now h k (ow_db w)\<rparr>) us"
    using j unfolding journalled_def
    by (simp add: markMined_def ball_update_where bex_update_where unresolved_def) (metis transaction_row.select_convs)
qed

lemma operator_send:
  "hoare (\<lambda>w. ow_sent w = s \<and> ow_budget w = b) (sendPostgresTransaction env request cap n rid kind None)
    (\<lambda>_ w. \<exists>nonce us gl gp. journalled env nonce w us \<and> ow_sent w = s @ us \<and> attempts_of n cap nonce gl gp us)
    (\<lambda>w. ow_sent w = s \<and> ow_budget w = b \<or>
       (\<exists>nonce us gl gp. journalled env nonce w us \<and> ow_sent w = s @ us \<and> attempts_of n cap nonce gl gp us))"
  by (rule send_contract [OF operator_sends.broadcast_contract_axioms]) (erule settled_journalled journalled_db)+

lemma archiver_send:
  assumes "budget_ok b"
  shows "hoare (\<lambda>w. ow_sent w = s \<and> ow_budget w = b)
    (sendPostgresTransaction env request cap n rid kind (Some (reserve_budget timestamp)))
    (\<lambda>_ w. \<exists>nonce us gl gp. covered env nonce b w us \<and> ow_sent w = s @ us \<and> attempts_of n cap nonce gl gp us)
    (\<lambda>w. ow_sent w = s \<and> ow_budget w = b \<or>
       (\<exists>nonce us gl gp. covered env nonce b w us \<and> ow_sent w = s @ us \<and> attempts_of n cap nonce gl gp us))"
proof (rule send_contract [OF archiver_sends.broadcast_contract_axioms])
  show "covered env nonce b w []" if "settled_in (oe_identity env) (wr_address (oe_wallet env)) s b {} w" for w nonce
    using that assms settled_journalled [OF that] by (simp add: covered_def settled_in_def)
qed (simp_all add: covered_def journalled_db)

subsection \<open>What every program keeps of the store\<close>

definition store_kept :: "db \<Rightarrow> 'x op_world \<Rightarrow> bool" where
  "store_kept d w \<longleftrightarrow> db_ok (ow_db w) \<and> store_le d (ow_db w)"

lemma store_kept_op: "store_kept d w \<Longrightarrow> store_kept d (w\<lparr>ow_db := apply_op i now op (ow_db w)\<rparr>)"
  unfolding store_kept_def by (auto intro: db_ok_apply_op store_le_trans apply_op_le)

lemma keeps_changeDb:
  assumes "\<And>d. \<exists>i now op. f d = apply_op i now op d"
  shows "keeps (store_kept e) (modifyIO (\<lambda>w. w\<lparr>ow_db := f (ow_db w)\<rparr>))"
  unfolding keeps_def modifyIO_def using assms store_kept_op by (metis fst_conv)

lemma keeps_onDb:
  assumes "\<And>d. (\<exists>i now op. fst (f d) = apply_op i now op d) \<or> fst (f d) = d"
  shows "keeps (store_kept e) (onDb f)"
  unfolding keeps_def
proof (intro allI impI)
  fix w assume k: "store_kept e w"
  then have "store_kept e (w\<lparr>ow_db := fst (f (ow_db w))\<rparr>)"
    using assms [of "ow_db w"] store_kept_op [OF k] by auto
  then show "store_kept e (fst (onDb f w))" by (simp add: onDb_def split_def)
qed

lemma keeps_ext_store: "keeps (store_kept e) (ext f)"
  by (rule keeps_ext) (simp add: store_kept_def)

text \<open>
  The contract of a predicate that the journal's operations keep: it may look at the database, but not at what these operations change in it.
\<close>

locale journal_frame =
  fixes I :: "'x op_world \<Rightarrow> bool"
  assumes ext_ok: "I w \<Longrightarrow> I (w\<lparr>ow_ext := x\<rparr>)"
    and sent_ok: "I w \<Longrightarrow> I (w\<lparr>ow_sent := y\<rparr>)"
    and record_ok: "I w \<Longrightarrow> I (w\<lparr>ow_db := recordBroadcast i now h rel n rid k g inst (ow_db w)\<rparr>)"
    and mined_ok: "I w \<Longrightarrow> I (w\<lparr>ow_db := markMined now h b (ow_db w)\<rparr>)"
    and resolve_ok: "I w \<Longrightarrow> I (w\<lparr>ow_db := fst (resolveNonce i now rel n st hh bb (ow_db w))\<rparr>)"
    and locks_ok: "I w \<Longrightarrow> I (w\<lparr>ow_db := (ow_db w)\<lparr>advisory_locks := l\<rparr>\<rparr>)"
begin

lemma ext_keeps: "keeps I (ext f)"
  by (rule keeps_ext) (rule ext_ok)

lemma resolve_keeps: "keeps I (onDb (resolveNonce i now rel n st hh bb))"
  by (simp add: keeps_def onDb_def split_def resolve_ok)

lemma list_keeps: "keeps I (onDb (\<lambda>d. (d, f d)))"
  by (simp add: keeps_def onDb_def)

lemma reconcile_keeps: "keeps I (reconcileRelayerTransactions i clock eps relayer)"
  unfolding reconcileRelayerTransactions_def reconcile_nonce_def split_def
  by (intro wp resolve_keeps keeps_find_mined keeps_unmined list_keeps ext_ok)

lemma journal_keeps: "keeps I (journal_broadcast env rid kind h nonce gp)"
  by (simp add: keeps_def journal_broadcast_def io_defs record_ok)

lemma attempt_keeps: "keeps I (send_attempt rpc (operator_hooks env rid kind None) request nonce gl gp)"
proof -
  have "keeps I (broadcast rpc raw t)" for raw t
    unfolding broadcast_def by (intro keeps_bind ext_keeps) (simp add: keeps_def modifyIO_def sent_ok)
  then show ?thesis
    unfolding send_attempt_def Let_def announce_operator
    by (intro wp ext_keeps lease_keeps journal_keeps)
qed

lemma loop_keeps: "keeps I (send_loop n rpc (operator_hooks env rid kind None) request cap nonce gl gp lh)"
proof (induction n arbitrary: gp lh)
  case 0
  show ?case unfolding send_loop.simps by (rule keeps_throw)
next
  case (Suc n)
  have "keeps I (case ho of (hash, outcome) \<Rightarrow> (case outcome of
        Confirmed r \<Rightarrow> returnIO r
      | Replaced r \<Rightarrow> returnIO r
      | TimedOut \<Rightarrow>
          (let bumped = (gp * 9) sdiv 8 + 1 in
           if bumped > cap \<or> n = 0
           then throwIO (''transaction not confirmed before replacement limit: '' @ hash)
           else send_loop n rpc (operator_hooks env rid kind None) request cap nonce gl bumped hash)))" for ho
    using Suc unfolding Let_def split_def by (cases "snd ho") (simp_all add: keeps_return keeps_throw)
  then show ?case unfolding send_loop.simps by (intro keeps_bind attempt_keeps)
qed

lemma send_keeps: "keeps I (sendWithReplacement rpc (operator_hooks env rid kind None) request cap n nonce)"
  unfolding sendWithReplacement_def Let_def split_def
  by (intro wp ext_keeps loop_keeps)

lemma sendPostgres_keeps: "keeps I (sendPostgresTransaction env request cap n rid kind None)"
proof -
  have "keeps I (send_locked env request cap n rid kind None)"
    unfolding send_locked_def Let_def operator_hooks_def [symmetric]
    by (intro wp reconcile_keeps ext_keeps send_keeps)
  then have "keeps I (under_nonce_lock env (send_locked env request cap n rid kind None))"
    unfolding keeps_hoare by (rule lock_insensitive) (simp_all add: locks_ok)
  moreover have "keeps I (modifyIO (\<lambda>w. w\<lparr>ow_db := markMined now h b (ow_db w)\<rparr>))" for now h b
    by (simp add: keeps_def modifyIO_def mined_ok)
  ultimately show ?thesis unfolding sendPostgresTransaction_def by (intro wp)
qed

end

interpretation journal_kept: journal_frame "store_kept d" for d
proof
  fix w :: "'a op_world" and i now h rel n rid k g inst b st hh bb l
  assume k: "store_kept d w"
  show "store_kept d (w\<lparr>ow_db := recordBroadcast i now h rel n rid k g inst (ow_db w)\<rparr>)"
    "store_kept d (w\<lparr>ow_db := markMined now h b (ow_db w)\<rparr>)"
    "store_kept d (w\<lparr>ow_db := fst (resolveNonce i now rel n st hh bb (ow_db w))\<rparr>)"
    using store_kept_op [OF k, of i now "RecordBroadcast h rel n rid k g inst"]
      store_kept_op [OF k, of i now "MarkMined h b"] store_kept_op [OF k, of i now "ResolveNonce rel n st hh bb"] by simp_all
  show "store_kept d (w\<lparr>ow_db := (ow_db w)\<lparr>advisory_locks := l\<rparr>\<rparr>)"
    using k by (simp add: store_kept_def db_ok_def store_le_def)
qed (simp_all add: store_kept_def)

lemma store_le_op: "store_le d e \<Longrightarrow> store_le d (apply_op i now op e)"
  by (rule store_le_trans [OF _ apply_op_le])

interpretation journal_monotone: journal_frame "\<lambda>w. store_le d (ow_db w)" for d
proof
  fix w :: "'a op_world" and i now h rel n rid k g inst b st hh bb l
  assume k: "store_le d (ow_db w)"
  show "store_le d (ow_db (w\<lparr>ow_db := recordBroadcast i now h rel n rid k g inst (ow_db w)\<rparr>))"
    "store_le d (ow_db (w\<lparr>ow_db := markMined now h b (ow_db w)\<rparr>))"
    "store_le d (ow_db (w\<lparr>ow_db := fst (resolveNonce i now rel n st hh bb (ow_db w))\<rparr>))"
    using store_le_op [OF k, of i now "RecordBroadcast h rel n rid k g inst"]
      store_le_op [OF k, of i now "MarkMined h b"] store_le_op [OF k, of i now "ResolveNonce rel n st hh bb"] by simp_all
  show "store_le d (ow_db (w\<lparr>ow_db := (ow_db w)\<lparr>advisory_locks := l\<rparr>\<rparr>))"
    using k by (simp add: store_le_def)
qed simp_all

interpretation requests_untouched: journal_frame "\<lambda>w. request_rows (ow_db w) = rows" for rows
  by unfold_locales (simp_all add: recordBroadcast_def markMined_def resolveNonce_def Let_def)

text \<open>Every broadcast so far has its journal row.\<close>

definition journal_complete :: "'x op_world \<Rightarrow> bool" where
  "journal_complete w \<longleftrightarrow> (\<forall>t \<in> set (ow_sent w). \<exists>r \<in> set (transactions (ow_db w)). tx_transaction_hash r = sn_hash t)"

definition service_inv :: "db \<Rightarrow> 'x op_world \<Rightarrow> bool" where
  "service_inv d w \<longleftrightarrow> store_kept d w \<and> journal_complete w"

lemma store_le_hash:
  assumes "store_le d e" "r \<in> set (transactions d)"
  shows "\<exists>r' \<in> set (transactions e). tx_transaction_hash r' = tx_transaction_hash r"
proof -
  obtain k where "k < length (transactions d)" "r = transactions d ! k" using assms(2) by (metis in_set_conv_nth)
  then have "k < length (transactions e)" "tx_le r (transactions e ! k)"
    using assms(1) by (auto simp: store_le_def prefix_le_def)
  then show ?thesis by (auto simp: tx_le_def)
qed

text \<open>A program that keeps the store and broadcasts nothing keeps the whole invariant.\<close>

lemma keeps_service:
  fixes m :: "('a op_world, 'b) io"
  assumes "\<And>e. keeps (store_kept e) m" "\<And>w. ow_sent (fst (m w)) = ow_sent w"
  shows "keeps (service_inv d) m"
  unfolding keeps_def
proof (intro allI impI)
  fix w :: "'a op_world" assume i: "service_inv d w"
  then have k: "store_kept d (fst (m w))" using assms(1) unfolding keeps_def service_inv_def by blast
  have "store_kept (ow_db w) w" using i store_le_refl by (auto simp: service_inv_def store_kept_def)
  then have "store_le (ow_db w) (ow_db (fst (m w)))" using assms(1) unfolding keeps_def store_kept_def by blast
  then have "journal_complete (fst (m w))"
    using i assms(2) [of w] store_le_hash unfolding journal_complete_def service_inv_def by metis
  with k show "service_inv d (fst (m w))" by (simp add: service_inv_def)
qed

lemma keeps_service_send: "keeps (service_inv d) (sendPostgresTransaction env request cap n rid kind None)"
  (is "keeps _ ?m")
  unfolding keeps_def
proof (intro allI impI)
  fix w :: "'a op_world" assume i: "service_inv d w"
  then have k: "store_kept d (fst (?m w))" using journal_kept.sendPostgres_keeps unfolding keeps_def service_inv_def by blast
  have "store_kept (ow_db w) w" using i store_le_refl by (auto simp: service_inv_def store_kept_def)
  then have le: "store_le (ow_db w) (ow_db (fst (?m w)))" using journal_kept.sendPostgres_keeps unfolding keeps_def store_kept_def by blast
  obtain us where u: "ow_sent (fst (?m w)) = ow_sent w @ us"
      "\<And>t. t \<in> set us \<Longrightarrow> \<exists>r \<in> set (transactions (ow_db (fst (?m w)))). tx_transaction_hash r = sn_hash t"
  proof -
    have P: "ow_sent w = ow_sent w \<and> ow_budget w = ow_budget w" by simp
    obtain w' res where r: "?m w = (w', res)" by fastforce
    show ?thesis
    proof (cases res)
      case (Inl e)
      show ?thesis using hoare_throw [OF operator_send P r [unfolded Inl]] that [of "[]"] that r by (auto simp: journalled_def)
    next
      case (Inr x)
      show ?thesis using hoare_return [OF operator_send P r [unfolded Inr]] that r by (auto simp: journalled_def)
    qed
  qed
  have "journal_complete (fst (?m w))"
    unfolding journal_complete_def
  proof
    fix t assume "t \<in> set (ow_sent (fst (?m w)))"
    then consider "t \<in> set (ow_sent w)" | "t \<in> set us" using u(1) by auto
    then show "\<exists>r \<in> set (transactions (ow_db (fst (?m w)))). tx_transaction_hash r = sn_hash t"
    proof cases
      case 1
      then obtain r where "r \<in> set (transactions (ow_db w))" "tx_transaction_hash r = sn_hash t"
        using i by (auto simp: service_inv_def journal_complete_def)
      then show ?thesis using store_le_hash [OF le] by metis
    next
      case 2
      then show ?thesis by (rule u(2))
    qed
  qed
  with k show "service_inv d (fst (?m w))" by (simp add: service_inv_def)
qed

subsection \<open>Properties\<close>

text \<open>A wallet and an endpoint on a chain whose first wait runs into the timer, for the witnesses.\<close>

definition sample_wallet :: "nat wallet_rpc" where
  "sample_wallet = \<lparr>wr_address = ''0xR'', wr_estimateGas = (\<lambda>_ k. (k, Inr 100)), wr_getFeeData = (\<lambda>k. (k, Inr (Some 80, None))),
     wr_getNonce = (\<lambda>k. (k, Inr 7)), wr_sign = (\<lambda>r n g p k. (k, Inr (showInt p))), wr_keccak256 = (\<lambda>raw. ''0x'' @ raw),
     wr_broadcastTransaction = (\<lambda>raw k. (k, Inr (''0x'' @ raw))),
     wr_waitForReceipt = (\<lambda>h k. (Suc k, Inr (if k = 0 then TimedOut else Confirmed \<lparr>rc_hash = h, rc_blockNumber = 50,
        rc_blockHash = ''0xb'', rc_status = 1\<rparr>)))\<rparr>"

definition sample_endpoint :: "nat endpoint" where
  "sample_endpoint = \<lparr>ep_getTransactionReceipt = (\<lambda>_ k. (k, Inr None)), ep_getTransaction = (\<lambda>_ k. (k, Inr False)),
     ep_latestNonce = (\<lambda>_ k. (k, Inr 7)), ep_pendingNonce = (\<lambda>_ k. (k, Inr (JStr ''0x7'')))\<rparr>"

definition sample_env :: "nat operator_env" where
  "sample_env = \<lparr>oe_identity = sample_identity, oe_instanceId = ''a'', oe_wallet = sample_wallet,
     oe_endpoints = [sample_endpoint, sample_endpoint], oe_clock = int, oe_lost = (\<lambda>_. False), oe_lockHash = (\<lambda>s. int (size s)),
     oe_dbSend = returnIO (), oe_dbReply = returnIO ()\<rparr>"

definition sample_world :: "nat op_world" where
  "sample_world = \<lparr>ow_db = recordBroadcast sample_identity 0 ''0x1'' ''0xR'' 7 None ''fulfillment'' 5 ''a'' sample_db,
     ow_budget = new_budget JNull 20000, ow_sent = [], ow_ext = 0\<rparr>"

text \<open>
  C7: What a relayer puts on the network. In every run of \<open>sendPostgresTransaction\<close>, returning or throwing, the broadcasts of the call share one nonce and one gas limit,
  are at most as many as the configured attempts, start at the fee and rise by the replacement step without passing the lane's gas price, and each has its
  journal row; once anything was broadcast no other nonce of the account is open in the journal. While another session holds the nonce lock nothing happens at all.
\<close>

theorem sendPostgresTransaction_safe:
  assumes "sendPostgresTransaction env request cap n rid kind None w = (w', res)"
  shows "(\<exists>us. ow_sent w' = ow_sent w @ us \<and>
      (us \<noteq> [] \<or> isOk res \<longrightarrow> (\<exists>nonce gasLimit price. attempts_of n cap nonce gasLimit price us \<and> journalled env nonce w' us))) \<and>
    (oe_lockHash env (relayer_lock_name (oe_identity env) (wr_address (oe_wallet env))) \<in> set (advisory_locks (ow_db w)) \<longrightarrow>
      w' = w \<and> res = Inl ''RelayerNonceLeaseBusy'')"
proof (intro conjI impI)
  have P: "ow_sent w = ow_sent w \<and> ow_budget w = ow_budget w" by simp
  show "\<exists>us. ow_sent w' = ow_sent w @ us \<and>
      (us \<noteq> [] \<or> isOk res \<longrightarrow> (\<exists>nonce gasLimit price. attempts_of n cap nonce gasLimit price us \<and> journalled env nonce w' us))"
  proof (cases res)
    case (Inl e)
    show ?thesis using hoare_throw [OF operator_send P assms [unfolded Inl]] by (auto simp: Inl)
  next
    case (Inr r)
    show ?thesis using hoare_return [OF operator_send P assms [unfolded Inr]] by auto
  qed
next
  assume "oe_lockHash env (relayer_lock_name (oe_identity env) (wr_address (oe_wallet env))) \<in> set (advisory_locks (ow_db w))"
  then show "w' = w" "res = Inl ''RelayerNonceLeaseBusy''"
    using assms by (auto simp: sendPostgresTransaction_def bindIO_def under_nonce_lock_def withRelayerNonceLock_def Let_def)
qed

theorem sendPostgresTransaction_safe_witness:
  "let w' = fst (sendPostgresTransaction sample_env ''tx'' 100 3 (Some 1) ''fulfillment'' None sample_world) in
     map sn_gasPriceWei (ow_sent w') = [80, 91] \<and> (\<exists>nonce. journalled sample_env nonce w' (ow_sent w'))"
proof -
  obtain w' res where r: "sendPostgresTransaction sample_env ''tx'' 100 3 (Some 1) ''fulfillment'' None sample_world = (w', res)" by fastforce
  have "map sn_gasPriceWei (ow_sent (fst (sendPostgresTransaction sample_env ''tx'' 100 3 (Some 1) ''fulfillment'' None sample_world))) = [80, 91]"
    by code_simp
  moreover have "ow_sent sample_world = []" by (simp add: sample_world_def)
  ultimately show ?thesis using sendPostgresTransaction_safe [OF r] r unfolding Let_def by auto
qed

text \<open>The two answers that let \<open>sendArchive\<close> go on: no stored hash, and a balance that reaches the floor.\<close>

definition archivable :: "'x archive_contract \<Rightarrow> int \<Rightarrow> 'x \<Rightarrow> bool" where
  "archivable archive requestBlock x \<longleftrightarrow>
     (\<exists>y z balance. ac_blockhashes archive requestBlock x = (y, Inr ZERO_HASH) \<and>
        ac_getBalance archive y = (z, Inr balance) \<and> 2000000000000000 \<le> balance)"

lemma sendArchive_guard:
  assumes "sendArchive env archive timestamp maximumGasPrice rid requestBlock maxGasPriceWei w = (w', res)"
  shows "archivable archive requestBlock (ow_ext w) \<or> ow_sent w' = ow_sent w"
proof (cases "archivable archive requestBlock (ow_ext w)")
  case False
  obtain y r where y: "ac_blockhashes archive requestBlock (ow_ext w) = (y, r)" by fastforce
  obtain z b where z: "ac_getBalance archive y = (z, b)" by fastforce
  show ?thesis
  proof (cases r)
    case (Inr stored)
    show ?thesis
    proof (cases "stored = ZERO_HASH")
      case True
      then show ?thesis using assms False y z Inr
        by (cases b) (auto simp: sendArchive_def bindIO_def ext_def throwIO_def archivable_def)
    qed (use assms y Inr in \<open>auto simp: sendArchive_def bindIO_def ext_def returnIO_def\<close>)
  qed (use assms y in \<open>auto simp: sendArchive_def bindIO_def ext_def\<close>)
qed simp

text \<open>
  C24: Every wei the archiver can spend on the network is reserved first. In every run of \<open>sendArchive\<close>, returning or throwing, at most one transaction is broadcast, and this only after the
  store has answered, in this run, that it has no hash of the block and the relayer's balance was above the floor; its gas price is within both limits, its maximum fee is at most what the call took from the remaining budget, and the budget stays sound; so the fees of all broadcasts never exceed the configured total.
\<close>

theorem sendArchive_within_budget:
  assumes "sendArchive env archive timestamp maximumGasPrice rid requestBlock maxGasPriceWei w = (w', res)"
    and "budget_ok (ow_budget w)"
  shows "\<exists>us. ow_sent w' = ow_sent w @ us \<and> length us \<le> 1 \<and>
    (us \<noteq> [] \<longrightarrow> archivable archive requestBlock (ow_ext w)) \<and>
    (\<forall>t \<in> set us. sn_gasPriceWei t \<le> maxGasPriceWei \<and> sn_gasPriceWei t \<le> maximumGasPrice) \<and>
    sum_list (map cost us) \<le> remaining (ow_budget w) - remaining (ow_budget w') \<and> 0 \<le> remaining (ow_budget w') \<and>
    budget_ok (ow_budget w')"
proof -
  have guard: "us \<noteq> [] \<longrightarrow> archivable archive requestBlock (ow_ext w)" if "ow_sent w' = ow_sent w @ us" for us
    using sendArchive_guard [OF assms(1)] that by auto
  let ?cap = "if maxGasPriceWei < maximumGasPrice then maxGasPriceWei else maximumGasPrice"
  let ?P = "\<lambda>v. ow_sent v = ow_sent w \<and> ow_budget v = ow_budget w"
  let ?Q = "\<lambda>v. ?P v \<or> (\<exists>nonce us gl gp. covered env nonce (ow_budget w) v us \<and> ow_sent v = ow_sent w @ us \<and>
      attempts_of 1 ?cap nonce gl gp us)"
  have e: "hoare ?P (ext f) (\<lambda>_. ?P) ?Q" for f :: "('a, 'c) io"
    by (rule hoare_post [OF keeps_ext [unfolded keeps_hoare]]) auto
  have s: "hoare ?P (sendPostgresTransaction env request ?cap 1 (Some rid) ''independent-blockhash-archive''
      (Some (reserve_budget timestamp))) (\<lambda>_. ?Q) ?Q" for request
    by (rule hoare_post [OF archiver_send [OF assms(2)]]) auto
  have "hoare ?P (sendArchive env archive timestamp maximumGasPrice rid requestBlock maxGasPriceWei) (\<lambda>_. ?Q) ?Q"
    unfolding sendArchive_def
    by (rule hoare_bindIO [OF e], rule hoare_if, rule hoare_pre [OF hoare_returnIO], blast,
        rule hoare_bindIO [OF e], rule hoare_if, rule hoare_pre [OF hoare_throwIO], blast,
        rule hoare_bindIO [OF e], rule hoare_bindIO [OF s], rule hoare_returnIO)
  then have "?Q w'" using assms(1) unfolding hoare_def by (cases res) auto
  then show ?thesis
  proof
    assume "?P w'"
    then show ?thesis using assms(2) by (intro exI [of _ "[]"]) (simp add: budget_ok_def remaining_def)
  next
    assume "\<exists>nonce us gl gp. covered env nonce (ow_budget w) w' us \<and> ow_sent w' = ow_sent w @ us \<and> attempts_of 1 ?cap nonce gl gp us"
    then obtain nonce us gl gp where u: "covered env nonce (ow_budget w) w' us" "ow_sent w' = ow_sent w @ us"
        "attempts_of 1 ?cap nonce gl gp us" by blast
    have "\<forall>t \<in> set us. sn_gasPriceWei t \<le> maxGasPriceWei \<and> sn_gasPriceWei t \<le> maximumGasPrice"
      using u(3) by (auto simp: attempts_of_def split: if_splits)
    then show ?thesis using u guard [OF u(2)] by (intro exI [of _ us]) (auto simp: covered_def budget_ok_def remaining_def attempts_of_def)
  qed
qed

definition sample_archive :: "nat archive_contract" where
  "sample_archive = \<lparr>ac_blockhashes = (\<lambda>_ k. (k, Inr ZERO_HASH)), ac_storeRequest = (\<lambda>_ k. (k, Inr ''store'')),
     ac_getBalance = (\<lambda>k. (k, Inr 3000000000000000))\<rparr>"

theorem sendArchive_within_budget_witness:
  "let w' = fst (sendArchive sample_env sample_archive (\<lambda>_. ''t'') 100 1 40 90 (sample_world\<lparr>ow_ext := 1\<rparr>)) in
     length (ow_sent w') = 1 \<and> sum_list (map cost (ow_sent w')) \<le> 20000 - remaining (ow_budget w') \<and> 0 \<le> remaining (ow_budget w')"
proof -
  obtain w' res where r: "sendArchive sample_env sample_archive (\<lambda>_. ''t'') 100 1 40 90 (sample_world\<lparr>ow_ext := 1\<rparr>) = (w', res)" by fastforce
  have "length (ow_sent (fst (sendArchive sample_env sample_archive (\<lambda>_. ''t'') 100 1 40 90 (sample_world\<lparr>ow_ext := 1\<rparr>)))) = 1"
    by code_simp
  moreover have "ow_sent (sample_world\<lparr>ow_ext := 1\<rparr>) = []" "remaining (ow_budget (sample_world\<lparr>ow_ext := 1\<rparr>)) = 20000"
    "budget_ok (ow_budget (sample_world\<lparr>ow_ext := 1\<rparr>))"
    by (simp_all add: sample_world_def new_budget_def remaining_def budget_ok_def)
  ultimately show ?thesis using sendArchive_within_budget [OF r] r unfolding Let_def by auto
qed

text \<open>
  Reconciliation leaves no nonce open. When \<open>reconcileRelayerTransactions\<close> returns, the journal has no unresolved transaction of the relayer; returning or throwing it broadcasts nothing
  and never loses, alters or reopens a journalled transaction.
\<close>

theorem reconcile_leaves_none_open:
  assumes "reconcileRelayerTransactions i clock eps relayer w = (w', res)"
  shows "(isOk res \<longrightarrow> open_rows i relayer w' = []) \<and> ow_sent w' = ow_sent w \<and> store_le (ow_db w) (ow_db w')"
proof (intro conjI impI)
  have P: "ow_sent w = ow_sent w \<and> ow_budget w = ow_budget w" by simp
  show "open_rows i relayer w' = []" if "isOk res"
    using hoare_return [OF reconcile_settles_all P] assms that by (auto simp: isOk_iff settled_in_def)
  show "ow_sent w' = ow_sent w"
    using hoare_return [OF reconcile_settles_all P, of i clock eps relayer w' "()"]
      hoare_throw [OF reconcile_settles_all P, of i clock eps relayer w'] assms
    by (cases res) (auto simp: settled_in_def)
  have "keeps (\<lambda>v. store_le (ow_db w) (ow_db v)) (reconcileRelayerTransactions i clock eps relayer)"
    by (rule journal_monotone.reconcile_keeps)
  then show "store_le (ow_db w) (ow_db w')" using assms store_le_refl unfolding keeps_def by (metis fst_conv)
qed

end
