(* ===== verification/Operator_Service.thy ===== *)
theory Operator_Service
  imports Relayer Threshold_Node
begin

section \<open>The operator service (operator/cli.mjs)\<close>

text \<open>
  The service follows the coordinator's events, keeps the pending requests in PostgreSQL or in a state file, and
  works on each: it archives the request's block hash when that is about to leave the window, has the proof made for the seed on which all endpoints agree and
  sends the fulfilment. The contracts, the proof provider, the clock, the failures of the database and the writer of the health file are parameters. Standard output and the loop's pause are not
  modelled, and a thrown value is represented by its message.
\<close>

subsection \<open>Arguments and numbers\<close>

definition starts_dashes :: "string \<Rightarrow> bool" where
  "starts_dashes s \<longleftrightarrow> take 2 s = ''--''"

text \<open>The loop of \<open>parseArgs\<close> over the arguments after the command.\<close>

fun parse_options :: "string list \<Rightarrow> (string \<times> string) list \<Rightarrow> (string \<times> string) list result" where
  "parse_options [] options = Inr options"
| "parse_options [item] options =
     (if \<not> starts_dashes item then Inl (''unexpected argument: '' @ item) else Inl (''missing value for '' @ item))"
| "parse_options (item # v # rest) options =
     (if \<not> starts_dashes item then Inl (''unexpected argument: '' @ item)
      else if starts_dashes v then Inl (''missing value for '' @ item)
      else parse_options rest (AList.update (drop 2 item) v options))"

definition parseArgs :: "string list \<Rightarrow> (string option \<times> (string \<times> string) list) result" where
  "parseArgs argv = (case argv of [] \<Rightarrow> Inr (None, [])
     | command # rest \<Rightarrow> bindR (parse_options rest []) (\<lambda>options. Inr (Some command, options)))"

text \<open>
  \<open>Number(text)\<close> when it is an integer: empty text is zero, and digits may follow a sign. A text with a fraction, an exponent or a radix prefix is taken
  as not an integer.
\<close>

definition integer_text :: "string \<Rightarrow> int option" where
  "integer_text s = (let t = trim s in
     if t = [] then Some 0
     else if list_all isDigit t then Some (decimal_value t)
     else if hd t = CHR ''-'' \<and> tl t \<noteq> [] \<and> list_all isDigit (tl t) then Some (- decimal_value (tl t))
     else if hd t = CHR ''+'' \<and> tl t \<noteq> [] \<and> list_all isDigit (tl t) then Some (decimal_value (tl t))
     else None)"

definition positiveInteger :: "string option \<Rightarrow> string \<Rightarrow> int option \<Rightarrow> int \<Rightarrow> int result" where
  "positiveInteger v name fallback minimum =
     (case (case v of Some s \<Rightarrow> integer_text s | None \<Rightarrow> fallback) of
        None \<Rightarrow> Inl (''invalid --'' @ name)
      | Some n \<Rightarrow> if \<not> isSafeInteger n \<or> n < minimum then Inl (''invalid --'' @ name) else Inr n)"

definition contains :: "string \<Rightarrow> string \<Rightarrow> bool" where
  "contains part s \<longleftrightarrow> list_ex (prefix part) (suffixes s)"

definition retryDelaySeconds :: "string \<Rightarrow> int \<Rightarrow> int" where
  "retryDelaySeconds message attempts =
     (if contains ''RelayerNonceLeaseBusy'' message \<or> contains ''RpcNonceDisagreement'' message then 1
      else if contains ''RelayerTransactionPending'' message then 10
      else if contains ''ConfirmationsPending'' message \<or> contains ''BlockhashUnavailable'' message then 5
      else if contains ''GasPriceAboveLane'' message then 30
      else min 300 (2 ^ nat (min (attempts + 1) 8)))"

subsection \<open>The canonical request\<close>

definition fingerprint_json :: "chain_request \<Rightarrow> int \<Rightarrow> json" where
  "fingerprint_json r actualSeed = JObj [
     (''consumer'', JStr (toLowerCase (cr_consumer r))), (''verifier'', JStr (toLowerCase (cr_verifier r))),
     (''verifierCodeHash'', JStr (toLowerCase (cr_verifierCodeHash r))),
     (''fulfiller'', JStr (toLowerCase (cr_fulfiller r))), (''payee'', JStr (toLowerCase (cr_payee r))),
     (''keyHash'', JStr (toLowerCase (cr_keyHash r))), (''subscriptionId'', JStr (showInt (cr_subscriptionId r))),
     (''preSeed'', JStr (showInt (cr_preSeed r))), (''reservedPayment'', JStr (showInt (cr_reservedPayment r))),
     (''randomness'', JStr (showInt (cr_randomness r))), (''minimumFeeWei'', JStr (showInt (cr_minimumFeeWei r))),
     (''requestBlock'', JStr (showInt (cr_requestBlock r))), (''expiresAtBlock'', JStr (showInt (cr_expiresAtBlock r))),
     (''maxGasPriceWei'', JStr (showInt (cr_maxGasPriceWei r))),
     (''verificationGasLimit'', JInt (cr_verificationGasLimit r)), (''proofDataLength'', JInt (cr_proofDataLength r)),
     (''callbackGasLimit'', JInt (cr_callbackGasLimit r)), (''numWords'', JInt (cr_numWords r)),
     (''callbackAttempts'', JInt (cr_callbackAttempts r)),
     (''fulfillmentOverheadGas'', JInt (cr_fulfillmentOverheadGas r)), (''confirmations'', JInt (cr_confirmations r)),
     (''premiumBps'', JInt (cr_premiumBps r)), (''operatorPremiumShareBps'', JInt (cr_operatorPremiumShareBps r)),
     (''status'', JInt (cr_status r)), (''sponsored'', JBool (cr_sponsored r)),
     (''waiveMinimumFee'', JBool (cr_waiveMinimumFee r)), (''callbackSucceeded'', JBool (cr_callbackSucceeded r)),
     (''actualSeed'', JStr (showInt actualSeed))]"

definition requestFingerprint :: "chain_request \<Rightarrow> int \<Rightarrow> string" where
  "requestFingerprint r actualSeed = JSON_stringify (fingerprint_json r actualSeed)"

record 'x request_rpc =
  rr_getRequest :: "int \<Rightarrow> ('x, chain_request) io"
  rr_requestSeed :: "int \<Rightarrow> ('x, int) io"

record request_state =
  rs_request :: chain_request
  rs_actualSeed :: int
  rs_fingerprint :: string

definition read_request :: "int \<Rightarrow> string \<Rightarrow> 'x request_rpc \<Rightarrow> ('x, request_state) io" where
  "read_request requestId keyHash rpc =
     bindIO (rr_getRequest rpc requestId) (\<lambda>request.
     bindIO (rr_requestSeed rpc requestId) (\<lambda>actualSeed.
     if cr_status request \<noteq> 1 \<or> toLowerCase (cr_keyHash request) \<noteq> toLowerCase keyHash
     then throwIO ''RPC returned a non-pending request or the wrong keyHash''
     else returnIO \<lparr>rs_request = request, rs_actualSeed = actualSeed, rs_fingerprint = requestFingerprint request actualSeed\<rparr>))"

definition agree_on_fingerprint :: "request_state list \<Rightarrow> request_state result" where
  "agree_on_fingerprint states =
     (if \<exists>s \<in> set states. rs_fingerprint s \<noteq> rs_fingerprint (hd states)
      then Inl ''independent RPC endpoints disagree on the canonical request''
      else Inr (hd states))"

definition readRequestConsensus :: "'x request_rpc list \<Rightarrow> int \<Rightarrow> string \<Rightarrow> ('x, request_state) io" where
  "readRequestConsensus rpcs requestId keyHash =
     bindIO (mapIO (read_request requestId keyHash) rpcs) (\<lambda>states. liftR (agree_on_fingerprint states))"

subsection \<open>Scanning\<close>

record 'x event_queries =
  eq_requested :: "int \<Rightarrow> int \<Rightarrow> ('x, request_event list) io"
  eq_fulfilled :: "int \<Rightarrow> int \<Rightarrow> ('x, int list) io"
  eq_expired :: "int \<Rightarrow> int \<Rightarrow> ('x, int list) io"

definition query_range ::
  "'x event_queries \<Rightarrow> int \<Rightarrow> int \<Rightarrow> ('x, request_event list \<times> int list) io" where
  "query_range q fromBlock toBlock =
     bindIO (eq_requested q fromBlock toBlock) (\<lambda>requested.
     bindIO (eq_fulfilled q fromBlock toBlock) (\<lambda>fulfilled.
     bindIO (eq_expired q fromBlock toBlock) (\<lambda>expired.
     returnIO (requested, fulfilled @ expired))))"

record service_state =
  sv_chainId :: string
  sv_coordinator :: string
  sv_keyHash :: string
  sv_deploymentBlock :: int
  sv_cursor :: int
  sv_requests :: "(int \<times> request_event) list"
  sv_updatedAt :: string

text \<open>The state file as it is read: its header, its requests if any, and its cursor.\<close>

record service_file =
  sfl_header :: fields
  sfl_requests :: "(int \<times> request_event) list option"
  sfl_cursor :: json

definition SERVICE_STATE_FORMAT :: string where
  "SERVICE_STATE_FORMAT = ''proof-vrf-service-operator-state-v1''"

definition check_state_field :: "fields \<Rightarrow> string \<times> string \<Rightarrow> unit result" where
  "check_state_field header kv = (if toLowerCase (js_string (field header (fst kv))) \<noteq> toLowerCase (snd kv)
     then Inl (''state file '' @ fst kv @ '' does not match this operator'') else Inr ())"

definition loadServiceState ::
  "service_file option \<Rightarrow> string \<Rightarrow> string \<Rightarrow> string \<Rightarrow> int \<Rightarrow> string \<Rightarrow> service_state result" where
  "loadServiceState file chainId coordinator keyHash deploymentBlock now =
     (case file of
        None \<Rightarrow> Inr \<lparr>sv_chainId = chainId, sv_coordinator = coordinator, sv_keyHash = keyHash,
         sv_deploymentBlock = deploymentBlock, sv_cursor = deploymentBlock, sv_requests = [], sv_updatedAt = now\<rparr>
      | Some f \<Rightarrow>
          bindR (mapR (check_state_field (sfl_header f)) [(''format'', SERVICE_STATE_FORMAT), (''chainId'', chainId),
            (''coordinator'', coordinator), (''keyHash'', keyHash), (''deploymentBlock'', showInt deploymentBlock)]) (\<lambda>_.
          (case sfl_requests f of
             None \<Rightarrow> Inl ''invalid operator state file''
           | Some requests \<Rightarrow> (case sfl_cursor f of
               JInt cursor \<Rightarrow> if isSafeInteger cursor
                 then Inr \<lparr>sv_chainId = js_string (field (sfl_header f) ''chainId''),
                   sv_coordinator = js_string (field (sfl_header f) ''coordinator''), sv_keyHash = js_string (field (sfl_header f) ''keyHash''),
                   sv_deploymentBlock = deploymentBlock, sv_cursor = cursor, sv_requests = requests,
                   sv_updatedAt = js_string (field (sfl_header f) ''updatedAt'')\<rparr>
                 else Inl ''invalid operator state file''
             | _ \<Rightarrow> Inl ''invalid operator state file''))))"

text \<open>The world of the file-backed service: the state in memory and in the file, and the outside.\<close>

record 'y file_world =
  fw_state :: service_state
  fw_file :: "service_state option"
  fw_out :: 'y

definition fext :: "('y, 'a) io \<Rightarrow> ('y file_world, 'a) io" where
  "fext f = (\<lambda>w. case f (fw_out w) of (y, r) \<Rightarrow> (w\<lparr>fw_out := y\<rparr>, r))"

definition onState :: "(service_state \<Rightarrow> service_state) \<Rightarrow> ('y file_world, unit) io" where
  "onState f = modifyIO (\<lambda>w. w\<lparr>fw_state := f (fw_state w)\<rparr>)"

definition writeState :: "('y file_world, unit) io" where
  "writeState = modifyIO (\<lambda>w. w\<lparr>fw_file := Some (fw_state w)\<rparr>)"

definition drop_from :: "int \<Rightarrow> (int \<times> request_event) list \<Rightarrow> (int \<times> request_event) list" where
  "drop_from fromBlock requests = filter (\<lambda>(k, e). ev_eventBlockNumber e < fromBlock) requests"

definition add_requested :: "(int \<times> request_event) list \<Rightarrow> request_event \<Rightarrow> (int \<times> request_event) list" where
  "add_requested requests e = AList.update (ev_requestId e) e requests"

definition scanned_state :: "int \<Rightarrow> string \<Rightarrow> request_event list \<Rightarrow> int list \<Rightarrow> service_state \<Rightarrow> service_state" where
  "scanned_state toBlock now requested finalized st =
     st\<lparr>sv_requests := filter (\<lambda>(k, e). k \<notin> set finalized) (foldl add_requested (sv_requests st) requested),
        sv_cursor := max (sv_cursor st) (toBlock + 1), sv_updatedAt := now\<rparr>"

definition scanServiceEvents ::
  "'y event_queries \<Rightarrow> ('y \<Rightarrow> string) \<Rightarrow> int \<Rightarrow> int \<Rightarrow> int \<Rightarrow> ('y file_world, unit) io" where
  "scanServiceEvents q timestamp latest rangeSize reorgLookback =
     bindIO (getsIO fw_state) (\<lambda>st.
     if sv_cursor st > latest then returnIO ()
     else (case scan_range (sv_deploymentBlock st) (sv_cursor st) latest rangeSize reorgLookback of (fromBlock, toBlock) \<Rightarrow>
       bindIO (onState (\<lambda>st. st\<lparr>sv_requests := drop_from fromBlock (sv_requests st)\<rparr>)) (\<lambda>_.
       bindIO (fext (query_range q fromBlock toBlock)) (\<lambda>(requested, finalized).
       bindIO (getsIO (\<lambda>w. timestamp (fw_out w))) (\<lambda>now.
       bindIO (onState (scanned_state toBlock now requested finalized)) (\<lambda>_. writeState))))))"

subsection \<open>The remote calls and the options\<close>

text \<open>
  \<open>scl_prove\<close> is the proof provider with the encoding of its result; the other calls go to the coordinator and the block hash store.
\<close>

record 'x service_calls =
  scl_getBlockNumber :: "('x, int) io"
  scl_contextBlockNumber :: "('x, int) io"
  scl_getRequest :: "int \<Rightarrow> ('x, chain_request) io"
  scl_blockhashes :: "int \<Rightarrow> ('x, string) io"
  scl_storeRequest :: "int \<Rightarrow> ('x, string) io"
  scl_prove :: "int \<Rightarrow> int \<Rightarrow> int \<Rightarrow> ('x, string) io"
  scl_fulfillRequest :: "int \<Rightarrow> string \<Rightarrow> ('x, string) io"
  scl_queries :: "'x event_queries"
  scl_requestRpcs :: "'x request_rpc list"

record service_config =
  cfg_deploymentBlock :: int
  cfg_pollMs :: int
  cfg_blockRange :: int
  cfg_reorgLookback :: int
  cfg_eventConfirmations :: int
  cfg_replacementMs :: int
  cfg_replacementAttempts :: nat
  cfg_archiveAfterBlocks :: int
  cfg_keyHash :: string
  cfg_scanLeaseSeconds :: int
  cfg_requestLeaseSeconds :: int
  cfg_workLimit :: nat

subsection \<open>The service on PostgreSQL\<close>

definition now_io :: "'x operator_env \<Rightarrow> ('x op_world, int) io" where
  "now_io env = getsIO (\<lambda>w. oe_clock env (ow_ext w))"

text \<open>
  A query of the service: \<open>oe_dbSend\<close> throws when it does not reach the database, \<open>oe_dbReply\<close> when it took effect and its answer is lost.
\<close>

definition query :: "'x operator_env \<Rightarrow> (db \<Rightarrow> db \<times> 'a result) \<Rightarrow> ('x op_world, 'a) io" where
  "query env f =
     bindIO (ext (oe_dbSend env)) (\<lambda>_.
     bindIO (onDb f) (\<lambda>r.
     bindIO (ext (oe_dbReply env)) (\<lambda>_. returnIO r)))"

definition command :: "'x operator_env \<Rightarrow> (db \<Rightarrow> db) \<Rightarrow> ('x op_world, unit) io" where
  "command env f = query env (\<lambda>d. (f d, Inr ()))"

definition scanServiceEventsPostgres ::
  "'x operator_env \<Rightarrow> 'x event_queries \<Rightarrow> int \<Rightarrow> int \<Rightarrow> ('x op_world, unit) io" where
  "scanServiceEventsPostgres env q fromBlock toBlock =
     bindIO (ext (query_range q fromBlock toBlock)) (\<lambda>(requested, finalizedRequestIds).
     bindIO (now_io env) (\<lambda>now.
     query env (commitScan (oe_identity env) now (oe_instanceId env) fromBlock toBlock requested finalizedRequestIds)))"

definition complete_request :: "'x operator_env \<Rightarrow> int \<Rightarrow> ('x op_world, unit) io" where
  "complete_request env requestId = command env (completeRequest (oe_identity env) requestId (oe_instanceId env))"

definition retry_request :: "'x operator_env \<Rightarrow> int \<Rightarrow> string \<Rightarrow> int \<Rightarrow> ('x op_world, unit) io" where
  "retry_request env requestId message attempts =
     bindIO (now_io env) (\<lambda>now. command env (retryRequest (oe_identity env) now requestId (oe_instanceId env) message
       (retryDelaySeconds message attempts)))"

definition archive_block ::
  "'x operator_env \<Rightarrow> 'x service_calls \<Rightarrow> service_config \<Rightarrow> int \<Rightarrow> request_row \<Rightarrow> chain_request \<Rightarrow> ('x op_world, unit) io" where
  "archive_block env calls cfg contextBlock row request =
     whenIO (contextBlock \<ge> rq_request_block row + cfg_archiveAfterBlocks cfg)
       (bindIO (ext (scl_blockhashes calls (rq_request_block row))) (\<lambda>storedHash.
        whenIO (storedHash = ZERO_HASH)
          (bindIO (ext (scl_storeRequest calls (rq_request_block row))) (\<lambda>archiveTransaction.
           bindIO (sendPostgresTransaction env archiveTransaction (cr_maxGasPriceWei request) (cfg_replacementAttempts cfg)
             (Some (rq_request_id row)) ''blockhash-archive'' None) (\<lambda>_. returnIO ())))))"

text \<open>The fulfilment for the seed on which the endpoints agree, its sending, and both together.\<close>

definition populate_fulfillment :: "'x service_calls \<Rightarrow> service_config \<Rightarrow> request_row \<Rightarrow> ('x op_world, string) io" where
  "populate_fulfillment calls cfg row =
     (let requestId = rq_request_id row in
      bindIO (ext (readRequestConsensus (scl_requestRpcs calls) requestId (cfg_keyHash cfg))) (\<lambda>agreed.
      bindIO (ext (scl_prove calls (rs_actualSeed agreed) (rq_pre_seed row) requestId)) (\<lambda>proofData.
      ext (scl_fulfillRequest calls requestId proofData))))"

definition send_fulfillment ::
  "'x operator_env \<Rightarrow> service_config \<Rightarrow> request_row \<Rightarrow> chain_request \<Rightarrow> string \<Rightarrow> ('x op_world, receipt) io" where
  "send_fulfillment env cfg row request fulfillmentTransaction =
     sendPostgresTransaction env fulfillmentTransaction (cr_maxGasPriceWei request) (cfg_replacementAttempts cfg)
       (Some (rq_request_id row)) ''fulfillment'' None"

definition fulfill_request ::
  "'x operator_env \<Rightarrow> 'x service_calls \<Rightarrow> service_config \<Rightarrow> request_row \<Rightarrow> chain_request \<Rightarrow> ('x op_world, unit) io" where
  "fulfill_request env calls cfg row request =
     bindIO (populate_fulfillment calls cfg row) (\<lambda>fulfillmentTransaction.
     bindIO (send_fulfillment env cfg row request fulfillmentTransaction) (\<lambda>_.
     complete_request env (rq_request_id row)))"

definition request_status_final :: "'x service_calls \<Rightarrow> int \<Rightarrow> ('x op_world, bool) io" where
  "request_status_final calls requestId =
     tryIO (bindIO (ext (scl_getRequest calls requestId)) (\<lambda>r. returnIO (cr_status r \<noteq> 1))) (\<lambda>_. returnIO False)"

text \<open>The body of the \<open>try\<close> for one leased request, and the whole with its handler. What fails in the handler is thrown on.\<close>

definition work_request ::
  "'x operator_env \<Rightarrow> 'x service_calls \<Rightarrow> service_config \<Rightarrow> int \<Rightarrow> request_row \<Rightarrow> ('x op_world, unit) io" where
  "work_request env calls cfg contextBlock row =
     bindIO (ext (scl_getRequest calls (rq_request_id row))) (\<lambda>request.
     if cr_status request \<noteq> 1 then complete_request env (rq_request_id row)
     else bindIO (archive_block env calls cfg contextBlock row request) (\<lambda>_. fulfill_request env calls cfg row request))"

definition handle_failure ::
  "'x operator_env \<Rightarrow> 'x service_calls \<Rightarrow> request_row \<Rightarrow> string \<Rightarrow> ('x op_world, unit) io" where
  "handle_failure env calls row message =
     bindIO (request_status_final calls (rq_request_id row)) (\<lambda>finalized.
     if finalized then complete_request env (rq_request_id row)
     else retry_request env (rq_request_id row) message (rq_attempts row))"

definition process_request ::
  "'x operator_env \<Rightarrow> 'x service_calls \<Rightarrow> service_config \<Rightarrow> int \<Rightarrow> request_row \<Rightarrow> ('x op_world, unit) io" where
  "process_request env calls cfg contextBlock row =
     tryIO (work_request env calls cfg contextBlock row) (handle_failure env calls row)"

text \<open>At most \<open>n\<close> more requests are taken in this round; \<open>locked\<close> are the rows that other sessions hold right now.\<close>

fun work_loop ::
  "nat \<Rightarrow> 'x operator_env \<Rightarrow> ('x \<Rightarrow> int \<Rightarrow> bool) \<Rightarrow> 'x service_calls \<Rightarrow> service_config \<Rightarrow> int \<Rightarrow> ('x op_world, unit) io" where
  "work_loop 0 env locked calls cfg contextBlock = returnIO ()"
| "work_loop (Suc n) env locked calls cfg contextBlock =
     bindIO (now_io env) (\<lambda>now.
     bindIO (getsIO (\<lambda>w. locked (ow_ext w))) (\<lambda>taken.
     bindIO (query env (claimRequest (oe_identity env) now taken (oe_instanceId env) (cfg_requestLeaseSeconds cfg))) (\<lambda>claimed.
     (case claimed of
        None \<Rightarrow> returnIO ()
      | Some row \<Rightarrow> bindIO (process_request env calls cfg contextBlock row) (\<lambda>_.
          work_loop n env locked calls cfg contextBlock)))))"

definition service_cycle ::
  "'x operator_env \<Rightarrow> ('x \<Rightarrow> int \<Rightarrow> bool) \<Rightarrow> 'x service_calls \<Rightarrow> service_config \<Rightarrow> ('x op_world, int \<times> nat \<times> int option) io" where
  "service_cycle env locked calls cfg =
     bindIO (ext (scl_getBlockNumber calls)) (\<lambda>head.
     (let latest = max (cfg_deploymentBlock cfg) (head - cfg_eventConfirmations cfg) in
      bindIO (now_io env) (\<lambda>now.
      bindIO (command env (heartbeat now (oe_instanceId env) (showInt head))) (\<lambda>_.
      bindIO (query env (claimScan (oe_identity env) now (oe_instanceId env) latest (cfg_blockRange cfg) (cfg_reorgLookback cfg)
        (cfg_scanLeaseSeconds cfg))) (\<lambda>scan.
      bindIO (case scan of None \<Rightarrow> returnIO () | Some (fromBlock, toBlock) \<Rightarrow>
          tryIO (scanServiceEventsPostgres env (scl_queries calls) fromBlock toBlock)
            (\<lambda>e. bindIO (now_io env) (\<lambda>now. bindIO (command env (releaseScan (oe_identity env) now (oe_instanceId env))) (\<lambda>_. throwIO e)))) (\<lambda>_.
      bindIO (ext (scl_contextBlockNumber calls)) (\<lambda>contextBlock.
      bindIO (work_loop (cfg_workLimit cfg) env locked calls cfg contextBlock) (\<lambda>_.
      query env (\<lambda>d. (d, summary (oe_identity env) d))))))))))"

datatype health = Healthy int nat | Unhealthy string

text \<open>The health file, where one is configured: its writer may throw.\<close>

definition write_health :: "(health \<Rightarrow> ('x, unit) io) option \<Rightarrow> health \<Rightarrow> ('x op_world, unit) io" where
  "write_health healthFile h = (case healthFile of None \<Rightarrow> returnIO () | Some writeJsonAtomic \<Rightarrow> ext (writeJsonAtomic h))"

text \<open>
  One turn of the endless loop: an error is reported in the health file and, with \<open>--once\<close>, ends the service. The handler's own write of the
  health file is not guarded: when it throws, the service ends.
\<close>

definition service_turn ::
  "bool \<Rightarrow> (health \<Rightarrow> ('x, unit) io) option \<Rightarrow> 'x operator_env \<Rightarrow> ('x \<Rightarrow> int \<Rightarrow> bool) \<Rightarrow> 'x service_calls \<Rightarrow> service_config \<Rightarrow>
     ('x op_world, health) io" where
  "service_turn once healthFile env locked calls cfg =
     tryIO (bindIO (service_cycle env locked calls cfg) (\<lambda>(cursor, count, oldest).
         bindIO (write_health healthFile (Healthy cursor count)) (\<lambda>_. returnIO (Healthy cursor count))))
       (\<lambda>e. bindIO (write_health healthFile (Unhealthy e)) (\<lambda>_. if once then throwIO e else returnIO (Unhealthy e)))"

fun service_run ::
  "nat \<Rightarrow> (health \<Rightarrow> ('x, unit) io) option \<Rightarrow> 'x operator_env \<Rightarrow> ('x \<Rightarrow> int \<Rightarrow> bool) \<Rightarrow> 'x service_calls \<Rightarrow> service_config \<Rightarrow>
     ('x op_world, health list) io" where
  "service_run 0 healthFile env locked calls cfg = returnIO []"
| "service_run (Suc n) healthFile env locked calls cfg =
     bindIO (service_turn False healthFile env locked calls cfg) (\<lambda>h.
     bindIO (service_run n healthFile env locked calls cfg) (\<lambda>hs. returnIO (h # hs)))"

subsection \<open>The service on a state file\<close>

text \<open>
  The file-backed service sends without the journal. The keys of the state's object are decimal numbers: JavaScript enumerates those below \<open>2 ^ 32 - 1\<close> in ascending order
  and then the others in the order of insertion.
\<close>

definition object_entries :: "(int \<times> 'a) list \<Rightarrow> (int \<times> 'a) list" where
  "object_entries m = sort_key fst (filter (\<lambda>kv. fst kv < 2 ^ 32 - 1) m) @ filter (\<lambda>kv. fst kv \<ge> 2 ^ 32 - 1) m"

definition no_hooks :: "'x send_hooks" where
  "no_hooks = \<lparr>sh_assertLease = None, sh_beforeBroadcast = None, sh_onBroadcast = None\<rparr>"

definition forget_request :: "int \<Rightarrow> service_state \<Rightarrow> service_state" where
  "forget_request requestId st = st\<lparr>sv_requests := filter (\<lambda>kv. fst kv \<noteq> requestId) (sv_requests st)\<rparr>"

definition forget_and_save :: "('y \<Rightarrow> string) \<Rightarrow> int \<Rightarrow> ('y file_world, unit) io" where
  "forget_and_save timestamp requestId =
     bindIO (getsIO (\<lambda>w. timestamp (fw_out w))) (\<lambda>now.
     bindIO (onState (\<lambda>st. (forget_request requestId st)\<lparr>sv_updatedAt := now\<rparr>)) (\<lambda>_. writeState))"

definition work_file_request ::
  "'y file_world wallet_rpc \<Rightarrow> 'y service_calls \<Rightarrow> service_config \<Rightarrow> ('y \<Rightarrow> string) \<Rightarrow> int \<Rightarrow> int \<times> request_event \<Rightarrow>
     ('y file_world op_world, unit) io" where
  "work_file_request wallet calls cfg timestamp contextBlock kv =
     (let requestId = fst kv; event = snd kv in
      bindIO (ext (fext (scl_getRequest calls requestId))) (\<lambda>request.
      if cr_status request \<noteq> 1 then ext (onState (forget_request requestId))
      else bindIO (whenIO (contextBlock \<ge> ev_requestBlock event + cfg_archiveAfterBlocks cfg)
          (bindIO (ext (fext (scl_blockhashes calls (ev_requestBlock event)))) (\<lambda>storedHash.
           whenIO (storedHash = ZERO_HASH)
             (bindIO (ext (fext (scl_storeRequest calls (ev_requestBlock event)))) (\<lambda>archiveTransaction.
              bindIO (sendWithReplacement wallet no_hooks archiveTransaction (cr_maxGasPriceWei request)
                (cfg_replacementAttempts cfg) None) (\<lambda>_. returnIO ())))))) (\<lambda>_.
        bindIO (ext (fext (readRequestConsensus (scl_requestRpcs calls) requestId (cfg_keyHash cfg)))) (\<lambda>agreed.
        bindIO (ext (fext (scl_prove calls (rs_actualSeed agreed) (ev_preSeed event) requestId))) (\<lambda>proofData.
        bindIO (ext (fext (scl_fulfillRequest calls requestId proofData))) (\<lambda>transactionRequest.
        bindIO (sendWithReplacement wallet no_hooks transactionRequest (cr_maxGasPriceWei request)
          (cfg_replacementAttempts cfg) None) (\<lambda>_.
        ext (forget_and_save timestamp requestId))))))))"

definition process_file_request ::
  "'y file_world wallet_rpc \<Rightarrow> 'y service_calls \<Rightarrow> service_config \<Rightarrow> ('y \<Rightarrow> string) \<Rightarrow> int \<Rightarrow> int \<times> request_event \<Rightarrow>
     ('y file_world op_world, unit) io" where
  "process_file_request wallet calls cfg timestamp contextBlock kv =
     tryIO (work_file_request wallet calls cfg timestamp contextBlock kv)
       (\<lambda>message. if contains ''ConfirmationsPending'' message \<or> contains ''BlockhashUnavailable'' message \<or>
            contains ''GasPriceAboveLane'' message then returnIO ()
          else tryIO (bindIO (ext (fext (scl_getRequest calls (fst kv)))) (\<lambda>request.
              whenIO (cr_status request \<noteq> 1) (ext (forget_and_save timestamp (fst kv))))) (\<lambda>_. returnIO ()))"

definition file_cycle ::
  "'y file_world wallet_rpc \<Rightarrow> 'y service_calls \<Rightarrow> service_config \<Rightarrow> ('y \<Rightarrow> string) \<Rightarrow> ('y file_world op_world, health) io" where
  "file_cycle wallet calls cfg timestamp =
     bindIO (ext (fext (scl_getBlockNumber calls))) (\<lambda>head.
     (let latest = max (cfg_deploymentBlock cfg) (head - cfg_eventConfirmations cfg) in
      bindIO (ext (scanServiceEvents (scl_queries calls) timestamp latest (cfg_blockRange cfg) (cfg_reorgLookback cfg))) (\<lambda>_.
      bindIO (ext (fext (scl_contextBlockNumber calls))) (\<lambda>contextBlock.
      bindIO (getsIO (\<lambda>w. object_entries (sv_requests (fw_state (ow_ext w))))) (\<lambda>entries.
      bindIO (forIO entries (process_file_request wallet calls cfg timestamp contextBlock)) (\<lambda>_.
      getsIO (\<lambda>w. Healthy (sv_cursor (fw_state (ow_ext w))) (length (sv_requests (fw_state (ow_ext w)))))))))))"

subsection \<open>Starting the service\<close>

text \<open>
  What \<open>runService\<close> reads from its surroundings: secrets, environment variables, the readiness check, the proof provider with its key hash and the
  address of its key (where it has one), the chain id, the relayer's address and the fulfiller that the coordinator has for the key.
\<close>

record service_surroundings =
  su_secret :: "string \<Rightarrow> string option"
  su_proverUrl :: "string option"
  su_allowSharedRpcOrigin :: bool
  su_readiness :: "unit result"
  su_proofProvider :: "(string \<times> string option) result"
  su_chainId :: "int result"
  su_relayer :: string
  su_fulfiller :: "string \<Rightarrow> string result"

text \<open>\<open>options[name] ||= value\<close>: an empty text counts as missing.\<close>

definition nonempty :: "string option \<Rightarrow> string option" where
  "nonempty v = (case v of Some s \<Rightarrow> if s = [] then None else Some s | None \<Rightarrow> None)"

definition option_or :: "(string \<times> string) list \<Rightarrow> string \<Rightarrow> string option \<Rightarrow> string option" where
  "option_or options name fallback = (case nonempty (map_of options name) of Some s \<Rightarrow> Some s | None \<Rightarrow> nonempty fallback)"

definition option_given :: "(string \<times> string) list \<Rightarrow> string \<Rightarrow> bool" where
  "option_given options name \<longleftrightarrow> nonempty (map_of options name) \<noteq> None"

text \<open>The numeric options of \<open>runService\<close>, in the order in which they are checked.\<close>

definition numeric_options :: "(string \<times> string) list \<Rightarrow> service_config result" where
  "numeric_options options = (let int_option = (\<lambda>name. positiveInteger (map_of options name) name) in
     bindR (int_option ''from-block'' None 0) (\<lambda>deploymentBlock.
     bindR (int_option ''poll-ms'' (Some 4000) 250) (\<lambda>pollMs.
     bindR (int_option ''block-range'' (Some 2000) 1) (\<lambda>blockRange.
     bindR (int_option ''reorg-lookback'' (Some 32) 1) (\<lambda>reorgLookback.
     bindR (int_option ''event-confirmations'' (Some 2) 0) (\<lambda>eventConfirmations.
     bindR (int_option ''replacement-ms'' (Some 45000) 5000) (\<lambda>replacementMs.
     bindR (int_option ''replacement-attempts'' (Some 3) 1) (\<lambda>replacementAttempts.
     bindR (int_option ''archive-after-blocks'' (Some 128) 1) (\<lambda>archiveAfterBlocks.
     if archiveAfterBlocks \<ge> 256 then Inl ''--archive-after-blocks must be below 256''
     else Inr \<lparr>cfg_deploymentBlock = deploymentBlock, cfg_pollMs = pollMs, cfg_blockRange = blockRange,
       cfg_reorgLookback = reorgLookback, cfg_eventConfirmations = eventConfirmations, cfg_replacementMs = replacementMs,
       cfg_replacementAttempts = nat replacementAttempts, cfg_archiveAfterBlocks = archiveAfterBlocks, cfg_keyHash = [],
       cfg_scanLeaseSeconds = 0, cfg_requestLeaseSeconds = 0, cfg_workLimit = 0\<rparr>)))))))))"

text \<open>The options of \<open>runServicePostgres\<close>; a request lease must outlast all attempts of two transactions.\<close>

definition postgres_options :: "(string \<times> string) list \<Rightarrow> service_config \<Rightarrow> service_config result" where
  "postgres_options options cfg =
     (let int_option = (\<lambda>name. positiveInteger (map_of options name) name) in
      bindR (int_option ''scan-lease-seconds'' (Some 60) 1) (\<lambda>scanLeaseSeconds.
      bindR (int_option ''request-lease-seconds'' (Some 360) 1) (\<lambda>requestLeaseSeconds.
      (let minimumRequestLeaseSeconds = (2 * cfg_replacementMs cfg * int (cfg_replacementAttempts cfg) + 999) div 1000 + 60 in
       if requestLeaseSeconds < minimumRequestLeaseSeconds
       then Inl (''--request-lease-seconds must be at least '' @ showInt minimumRequestLeaseSeconds @ '' for the replacement policy'')
       else bindR (int_option ''work-limit'' (Some 25) 1) (\<lambda>workLimit.
         bindR (int_option ''database-pool-size'' (Some 10) 1) (\<lambda>_.
         Inr (cfg\<lparr>cfg_scanLeaseSeconds := scanLeaseSeconds, cfg_requestLeaseSeconds := requestLeaseSeconds,
           cfg_workLimit := nat workLimit\<rparr>)))))))"

definition runService ::
  "'k node \<Rightarrow> service_surroundings \<Rightarrow> (string \<times> string) list \<Rightarrow> (service_config \<times> string list \<times> bool) result" where
  "runService N su options =
     (let rpcUrls = option_or options ''rpc-urls'' (su_secret su ''VRF_RPC_URLS'');
          databaseUrl = option_or options ''database-url'' (su_secret su ''VRF_DATABASE_URL'');
          proverUrl = option_or options ''prover-url'' (su_proverUrl su);
          threshold = option_given options ''threshold-manifest'' in
      bindR (if map_of options ''readiness'' = Some ''true'' then su_readiness su else Inr ()) (\<lambda>_.
      if rpcUrls = None \<or> \<not> option_given options ''coordinator'' then Inl ''--rpc-urls and --coordinator are required''
      else if length (filter id [option_given options ''keystore'', proverUrl \<noteq> None, threshold]) \<noteq> 1
      then Inl ''configure exactly one of --keystore, --prover-url, or --threshold-manifest''
      else if option_given options ''state'' = (databaseUrl \<noteq> None)
      then Inl ''configure exactly one of --state or --database-url''
      else if su_secret su ''VRF_TX_PRIVATE_KEY'' = None then Inl ''VRF_TX_PRIVATE_KEY is required''
      else bindR (numeric_options options) (\<lambda>cfg.
        (let allowShared = su_allowSharedRpcOrigin su \<and> \<not> threshold in
         bindR (normalizeRpcUrls N (JStr (the rpcUrls)) 1 ''operator'' allowShared) (\<lambda>urls.
         bindR (positiveInteger (map_of options ''prover-timeout-ms'') ''prover-timeout-ms'' (Some 15000) 100) (\<lambda>_.
         bindR (su_proofProvider su) (\<lambda>(keyHash, proofKeyAddress).
         bindR (su_chainId su) (\<lambda>chainId.
         if allowShared \<and> chainId \<noteq> 46630 then Inl ''shared RPC origin override is permitted only on Robinhood testnet''
         else if (chainId = 46630 \<or> chainId = 4663) \<and> length urls < 2
         then Inl ''Robinhood service operation requires at least two independent RPC endpoints''
         else if (chainId = 46630 \<or> chainId = 4663) \<and> databaseUrl = None
         then Inl ''Robinhood service operation requires PostgreSQL persistence''
         else if (case proofKeyAddress of None \<Rightarrow> False | Some a \<Rightarrow> toLowerCase (su_relayer su) = toLowerCase a)
         then Inl ''proof key and relayer transaction key must be different''
         else bindR (su_fulfiller su keyHash) (\<lambda>fulfiller.
           if toLowerCase fulfiller \<noteq> toLowerCase (su_relayer su)
           then Inl (''relayer '' @ su_relayer su @ '' is not the configured fulfiller '' @ fulfiller)
           else bindR (if databaseUrl \<noteq> None then postgres_options options (cfg\<lparr>cfg_keyHash := keyHash\<rparr>)
               else Inr (cfg\<lparr>cfg_keyHash := keyHash\<rparr>)) (\<lambda>cfg'.
             Inr (cfg', urls, databaseUrl \<noteq> None)))))))))))"

subsection \<open>The first version of the operator\<close>

text \<open>
  \<open>run\<close> serves the first coordinator: it scans forward without looking back, keeps the pending requests in memory, in the order in which they were first seen, and fulfils
  each. \<open>lc_fulfill\<close> stands for the local proof and the confirmed transaction.
\<close>

record legacy_state =
  lg_cursor :: int
  lg_pending :: "(int \<times> int) list"

record 'y legacy_calls =
  lc_getBlockNumber :: "('y, int) io"
  lc_queryRequested :: "int \<Rightarrow> int \<Rightarrow> ('y, (int \<times> int) list) io"
  lc_requestSeed :: "int \<Rightarrow> ('y, int) io"
  lc_fulfill :: "int \<Rightarrow> int \<Rightarrow> int \<Rightarrow> ('y, unit) io"
  lc_requests :: "int \<Rightarrow> ('y, bool \<times> bool) io"

record 'y legacy_world =
  lw_state :: legacy_state
  lw_out :: 'y

definition lext :: "('y, 'a) io \<Rightarrow> ('y legacy_world, 'a) io" where
  "lext f = (\<lambda>w. case f (lw_out w) of (y, r) \<Rightarrow> (w\<lparr>lw_out := y\<rparr>, r))"

definition onLegacy :: "(legacy_state \<Rightarrow> legacy_state) \<Rightarrow> ('y legacy_world, unit) io" where
  "onLegacy f = modifyIO (\<lambda>w. w\<lparr>lw_state := f (lw_state w)\<rparr>)"

definition drop_pending :: "int \<Rightarrow> legacy_state \<Rightarrow> legacy_state" where
  "drop_pending requestId st = st\<lparr>lg_pending := filter (\<lambda>kv. fst kv \<noteq> requestId) (lg_pending st)\<rparr>"

definition legacy_request :: "'y legacy_calls \<Rightarrow> int \<times> int \<Rightarrow> ('y legacy_world, unit) io" where
  "legacy_request calls request = (case request of (requestId, preSeed) \<Rightarrow>
     tryIO (bindIO (lext (lc_requestSeed calls requestId)) (\<lambda>actualSeed.
         bindIO (lext (lc_fulfill calls requestId actualSeed preSeed)) (\<lambda>_. onLegacy (drop_pending requestId))))
       (\<lambda>message.
         if contains ''ConfirmationsPending'' message \<or> contains ''BlockhashUnavailable'' message then returnIO ()
         else if contains ''RequestAlreadyFinalized'' message \<or> contains ''RequestNotFulfilled'' message \<or>
           contains ''execution reverted'' message
         then tryIO (bindIO (lext (lc_requests calls requestId)) (\<lambda>(fulfilled, refunded).
             whenIO (fulfilled \<or> refunded) (onLegacy (drop_pending requestId)))) (\<lambda>_. returnIO ())
         else returnIO ()))"

definition legacy_cycle :: "'y legacy_calls \<Rightarrow> int \<Rightarrow> ('y legacy_world, unit) io" where
  "legacy_cycle calls blockRange =
     bindIO (lext (lc_getBlockNumber calls)) (\<lambda>latest.
     bindIO (getsIO (\<lambda>w. lg_cursor (lw_state w))) (\<lambda>cursor.
     bindIO (whenIO (cursor \<le> latest) (let rangeEnd = min latest (cursor + blockRange - 1) in
         bindIO (lext (lc_queryRequested calls cursor rangeEnd)) (\<lambda>events.
         onLegacy (\<lambda>st. st\<lparr>lg_pending := foldl (\<lambda>m (requestId, preSeed). AList.update requestId preSeed m) (lg_pending st) events,
           lg_cursor := rangeEnd + 1\<rparr>)))) (\<lambda>_.
     bindIO (getsIO (\<lambda>w. lg_pending (lw_state w))) (\<lambda>requests.
     forIO requests (legacy_request calls)))))"

subsection \<open>The whole service keeps the store\<close>

lemma service_ext [wp]: "keeps (service_inv d) (ext f)"
  by (rule keeps_service, rule keeps_ext_store) (simp add: ext_def split_def)

lemma service_now [wp]: "keeps (service_inv d) (now_io env)"
  unfolding now_io_def by (rule keeps_gets)

lemma service_onDb:
  "(\<And>d. (\<exists>i now op. fst (f d) = apply_op i now op d) \<or> fst (f d) = d) \<Longrightarrow> keeps (service_inv d) (onDb f)"
  by (rule keeps_service, rule keeps_onDb) (simp_all add: onDb_def split_def)

lemma service_query:
  "(\<And>d. (\<exists>i now op. fst (f d) = apply_op i now op d) \<or> fst (f d) = d) \<Longrightarrow> keeps (service_inv d) (query env f)"
  unfolding query_def by (intro wp service_onDb)

lemma service_command:
  "(\<And>d. \<exists>i now op. f d = apply_op i now op d) \<Longrightarrow> keeps (service_inv d) (command env f)"
  unfolding command_def by (rule service_query) simp

lemma service_health [wp]: "keeps (service_inv d) (write_health healthFile h)"
  unfolding write_health_def by (cases healthFile) (simp_all only: option.case, intro wp, intro wp)

lemma store_op_of:
  "\<exists>i' now' op. completeRequest i rid inst d = apply_op i' now' op d"
  "\<exists>i' now' op. retryRequest i now rid inst err secs d = apply_op i' now' op d"
  "\<exists>i' now' op. releaseScan i now inst d = apply_op i' now' op d"
  "\<exists>i' now' op. heartbeat now inst meta d = apply_op i' now' op d"
  "\<exists>i' now' op. fst (claimScan i now inst latest rs lookback lease d) = apply_op i' now' op d"
  "\<exists>i' now' op. fst (commitScan i now inst f t reqs fin d) = apply_op i' now' op d"
  "\<exists>i' now' op. fst (claimRequest i now locked inst lease2 d) = apply_op i' now' op d"
  by (metis apply_op.simps(5)) (metis apply_op.simps(6), metis apply_op.simps(3), metis apply_op.simps(7),
    metis apply_op.simps(1), metis apply_op.simps(2), metis apply_op.simps(4))

lemma service_complete [wp]: "keeps (service_inv d) (complete_request env rid)"
  unfolding complete_request_def by (rule service_command) (rule store_op_of)

lemma service_archive: "keeps (service_inv d) (archive_block env calls cfg ctx row request)"
  unfolding archive_block_def by (intro wp keeps_service_send)

lemma service_fulfill: "keeps (service_inv d) (fulfill_request env calls cfg row request)"
  unfolding fulfill_request_def populate_fulfillment_def send_fulfillment_def Let_def by (intro wp keeps_service_send)

lemma service_process: "keeps (service_inv d) (process_request env calls cfg ctx row)"
  unfolding process_request_def work_request_def handle_failure_def retry_request_def request_status_final_def
  by (intro wp service_archive service_fulfill service_command store_op_of)

lemma service_work: "keeps (service_inv d) (work_loop n env locked calls cfg ctx)"
proof (induction n)
  case 0
  show ?case unfolding work_loop.simps by (rule keeps_return)
next
  case (Suc n)
  have "keeps (service_inv d) (query env (claimRequest i now taken inst lease))" for i now taken inst lease
    by (rule service_query) (use store_op_of(7) in blast)
  then show ?case unfolding work_loop.simps by (intro wp service_process Suc)
qed

lemma service_scan: "keeps (service_inv d) (scanServiceEventsPostgres env q f t)"
proof -
  have "keeps (service_inv d) (query env (commitScan i now inst f t reqs fin))" for i now inst reqs fin
    by (rule service_query) (use store_op_of(6) in blast)
  then show ?thesis unfolding scanServiceEventsPostgres_def split_def by (intro wp)
qed

lemma service_cycle_keeps: "keeps (service_inv d) (service_cycle env locked calls cfg)"
proof -
  have "keeps (service_inv d) (query env (claimScan i now inst latest rs lookback lease))" for i now inst latest rs lookback lease
    by (rule service_query) (use store_op_of(5) in blast)
  moreover have "keeps (service_inv d) (query env (\<lambda>e. (e, summary i e)))" for i
    by (rule service_query) simp
  ultimately show ?thesis
    unfolding service_cycle_def Let_def split_def
    by (intro wp service_scan service_work service_command store_op_of)
qed

lemma service_run_keeps: "keeps (service_inv d) (service_run n healthFile env locked calls cfg)"
proof (induction n)
  case 0
  show ?case unfolding service_run.simps by (rule keeps_return)
next
  case (Suc n)
  then show ?case unfolding service_run.simps service_turn_def split_def by (intro wp service_cycle_keeps)
qed

end
