(* ===== verification/Service_Runs.thy ===== *)
theory Service_Runs
  imports Operator_Service
begin

section \<open>The operator service over time\<close>

text \<open>
  What the service on PostgreSQL guarantees: it starts only in a sound configuration, a request leaves the queue only with evidence from the run that
  deletes it, and nothing leaves the process without a journal row, over any number of turns and whatever calls fail.
\<close>

subsection \<open>Starting\<close>

lemma nonempty_Some: "nonempty v = Some s \<longleftrightarrow> v = Some s \<and> s \<noteq> []"
  by (cases v) (auto simp: nonempty_def)

lemma positiveInteger_Inr:
  "positiveInteger v name fallback minimum = Inr n \<Longrightarrow> isSafeInteger n \<and> minimum \<le> n"
  by (auto simp: positiveInteger_def split: option.splits if_splits)

lemma numeric_options_Inr:
  assumes "numeric_options options = Inr cfg"
  shows "0 \<le> cfg_deploymentBlock cfg \<and> 250 \<le> cfg_pollMs cfg \<and> 1 \<le> cfg_blockRange cfg \<and> 1 \<le> cfg_reorgLookback cfg \<and>
    0 \<le> cfg_eventConfirmations cfg \<and> 5000 \<le> cfg_replacementMs cfg \<and> 1 \<le> cfg_replacementAttempts cfg \<and>
    1 \<le> cfg_archiveAfterBlocks cfg \<and> cfg_archiveAfterBlocks cfg < 256"
  using assms by (auto simp: numeric_options_def Let_def result_simps if_Inl_result dest!: positiveInteger_Inr)


lemma postgres_options_Inr:
  assumes "postgres_options options cfg = Inr cfg'"
  shows "1 \<le> cfg_scanLeaseSeconds cfg' \<and> 2 * cfg_replacementMs cfg * int (cfg_replacementAttempts cfg) + 60000 \<le> 1000 * cfg_requestLeaseSeconds cfg' \<and>
    0 < cfg_workLimit cfg' \<and> cfg' = cfg\<lparr>cfg_scanLeaseSeconds := cfg_scanLeaseSeconds cfg',
      cfg_requestLeaseSeconds := cfg_requestLeaseSeconds cfg', cfg_workLimit := cfg_workLimit cfg'\<rparr>"
proof -
  let ?m = "2 * cfg_replacementMs cfg * int (cfg_replacementAttempts cfg)"
  obtain scan lease work where
      n: "1 \<le> scan" "(?m + 999) div 1000 + 60 \<le> lease" "1 \<le> work"
    and cfg': "cfg' = cfg\<lparr>cfg_scanLeaseSeconds := scan, cfg_requestLeaseSeconds := lease, cfg_workLimit := nat work\<rparr>"
    using assms by (auto simp: postgres_options_def Let_def bindR_Inr if_Inl_result not_less dest!: positiveInteger_Inr)
  have "?m \<le> 1000 * ((?m + 999) div 1000)" by linarith
  then show ?thesis using n by (simp add: cfg')
qed


lemma runService_Inr:
  assumes "runService N su options = Inr (cfg, urls, postgres)"
  obtains keyHash proofKeyAddress chainId fulfiller v cfg0 where
    "su_proofProvider su = Inr (keyHash, proofKeyAddress)" "su_chainId su = Inr chainId" "su_fulfiller su keyHash = Inr fulfiller"
    "normalizeRpcUrls N v 1 ''operator'' (su_allowSharedRpcOrigin su \<and> \<not> option_given options ''threshold-manifest'') = Inr urls"
    "su_allowSharedRpcOrigin su \<and> \<not> option_given options ''threshold-manifest'' \<longrightarrow> chainId = 46630"
    "chainId \<in> {46630, 4663} \<longrightarrow> 2 \<le> length urls \<and> postgres"
    "\<forall>a. proofKeyAddress = Some a \<longrightarrow> toLowerCase (su_relayer su) \<noteq> toLowerCase a"
    "toLowerCase fulfiller = toLowerCase (su_relayer su)"
    "numeric_options options = Inr cfg0"
    "(if postgres then postgres_options options (cfg0\<lparr>cfg_keyHash := keyHash\<rparr>) else Inr (cfg0\<lparr>cfg_keyHash := keyHash\<rparr>)) = Inr cfg"
    "option_given options ''state'' \<longleftrightarrow> \<not> postgres"
    "postgres \<longleftrightarrow> option_or options ''database-url'' (su_secret su ''VRF_DATABASE_URL'') \<noteq> None"
    "length (filter id [option_given options ''keystore'', option_or options ''prover-url'' (su_proverUrl su) \<noteq> None,
       option_given options ''threshold-manifest'']) = 1"
    "su_secret su ''VRF_TX_PRIVATE_KEY'' \<noteq> None"
proof -
  let ?db = "option_or options ''database-url'' (su_secret su ''VRF_DATABASE_URL'')"
  have pg: "?db \<noteq> None \<longleftrightarrow> postgres"
    using assms by (simp only: runService_def Let_def bindR_Inr if_Inl_result split_paired_Ex prod.case sum.inject prod.inject) (elim exE conjE, assumption)
  have "?db = None \<longleftrightarrow> \<not> postgres" using pg by blast
  note assms [unfolded runService_def Let_def pg this]
  then obtain keyHash proofKeyAddress chainId fulfiller v cfg0 where
    *: "su_proofProvider su = Inr (keyHash, proofKeyAddress)" "su_chainId su = Inr chainId" "su_fulfiller su keyHash = Inr fulfiller"
      "normalizeRpcUrls N v 1 ''operator'' (su_allowSharedRpcOrigin su \<and> \<not> option_given options ''threshold-manifest'') = Inr urls"
    and chain: "\<not> ((su_allowSharedRpcOrigin su \<and> \<not> option_given options ''threshold-manifest'') \<and> chainId \<noteq> 46630)"
      "\<not> ((chainId = 46630 \<or> chainId = 4663) \<and> length urls < 2)" "\<not> ((chainId = 46630 \<or> chainId = 4663) \<and> \<not> postgres)"
      "\<not> (case proofKeyAddress of None \<Rightarrow> False | Some a \<Rightarrow> toLowerCase (su_relayer su) = toLowerCase a)"
    and **: "toLowerCase fulfiller = toLowerCase (su_relayer su)" "numeric_options options = Inr cfg0"
      "(if postgres then postgres_options options (cfg0\<lparr>cfg_keyHash := keyHash\<rparr>) else Inr (cfg0\<lparr>cfg_keyHash := keyHash\<rparr>)) = Inr cfg"
      "option_given options ''state'' \<noteq> postgres"
      "postgres \<longleftrightarrow> option_or options ''database-url'' (su_secret su ''VRF_DATABASE_URL'') \<noteq> None"
      "length (filter id [option_given options ''keystore'', option_or options ''prover-url'' (su_proverUrl su) \<noteq> None,
         option_given options ''threshold-manifest'']) = 1"
      "su_secret su ''VRF_TX_PRIVATE_KEY'' \<noteq> None"
    apply (simp only: bindR_Inr if_Inl_result split_paired_Ex prod.case not_not de_Morgan_disj sum.inject prod.inject)
    apply (elim exE conjE)
    apply hypsubst+
    apply (rule that)
    apply (assumption | rule refl | rule pg [symmetric] | (simp only: pg; fail))+
    done
  show thesis
    by (rule that [OF * _ _ _ **(1-3) _ **(5-)]) (use chain **(4) in \<open>auto simp: not_less\<close>)
qed

subsection \<open>Runs\<close>

text \<open>The service ends before its time only because the handler of a turn could not write the health file.\<close>

definition health_failed :: "(health \<Rightarrow> ('x, unit) io) option \<Rightarrow> string \<Rightarrow> 'x op_world \<Rightarrow> bool" where
  "health_failed healthFile e w \<longleftrightarrow>
     (\<exists>writeJsonAtomic message x. healthFile = Some writeJsonAtomic \<and> writeJsonAtomic (Unhealthy message) x = (ow_ext w, Inl e))"

lemma service_turn_throws:
  assumes "service_turn False healthFile env locked calls cfg w = (w', Inl e)"
  shows "health_failed healthFile e w'"
proof -
  obtain v m where "bindIO (write_health healthFile (Unhealthy m)) (\<lambda>_. returnIO (Unhealthy m)) v = (w', Inl e)"
    using assms by (auto simp: service_turn_def tryIO_def split: prod.splits sum.splits)
  then show ?thesis
    by (cases healthFile) (auto simp: write_health_def bindIO_def returnIO_def ext_def health_failed_def split: prod.splits sum.splits, blast)
qed

lemma service_run_ends:
  "service_run n healthFile env locked calls cfg w = (w', res) \<Longrightarrow>
     (case res of Inl e \<Rightarrow> health_failed healthFile e w' | Inr hs \<Rightarrow> length hs = n)"
proof (induction n arbitrary: w w' res)
  case 0
  then show ?case by (auto simp: returnIO_def)
next
  case (Suc n)
  obtain w1 h where t: "service_turn False healthFile env locked calls cfg w = (w1, h)" by fastforce
  obtain w2 hs where r: "service_run n healthFile env locked calls cfg w1 = (w2, hs)" by fastforce
  have "health_failed healthFile e w1" if "h = Inl e" for e using service_turn_throws t that by blast
  then show ?case
    using Suc.prems t r Suc.IH [OF r]
    by (cases h; cases hs) (auto simp: bindIO_def returnIO_def)
qed

subsection \<open>One request\<close>

text \<open>
  What shows in a run of \<open>process_request\<close> from the world \<open>w\<close> that the request is finished: the coordinator said so at the start, the fulfilment was sent
  and its receipt came back, or the work failed and the coordinator said so to the handler.
\<close>

definition reported_final :: "'x service_calls \<Rightarrow> int \<Rightarrow> 'x op_world \<Rightarrow> bool" where
  "reported_final calls requestId w \<longleftrightarrow>
     (\<exists>x r. scl_getRequest calls requestId (ow_ext w) = (x, Inr r) \<and> cr_status r \<noteq> 1)"

definition fulfillment_sent ::
  "'x operator_env \<Rightarrow> 'x service_calls \<Rightarrow> service_config \<Rightarrow> int \<Rightarrow> request_row \<Rightarrow> 'x op_world \<Rightarrow> bool" where
  "fulfillment_sent env calls cfg contextBlock row w \<longleftrightarrow>
     (\<exists>request w1 w2 transaction w3 receipt w4.
        ext (scl_getRequest calls (rq_request_id row)) w = (w1, Inr request) \<and>
        archive_block env calls cfg contextBlock row request w1 = (w2, Inr ()) \<and>
        populate_fulfillment calls cfg row w2 = (w3, Inr transaction) \<and>
        send_fulfillment env cfg row request transaction w3 = (w4, Inr receipt))"

definition finished_evidence ::
  "'x operator_env \<Rightarrow> 'x service_calls \<Rightarrow> service_config \<Rightarrow> int \<Rightarrow> request_row \<Rightarrow> 'x op_world \<Rightarrow> bool" where
  "finished_evidence env calls cfg contextBlock row w \<longleftrightarrow>
     reported_final calls (rq_request_id row) w \<or> fulfillment_sent env calls cfg contextBlock row w \<or>
     (\<exists>w1 e. work_request env calls cfg contextBlock row w = (w1, Inl e) \<and> reported_final calls (rq_request_id row) w1)"

text \<open>The last thing that happened: a query did not reach the database, or its answer was lost.\<close>

definition database_failed :: "'x operator_env \<Rightarrow> string \<Rightarrow> 'x op_world \<Rightarrow> bool" where
  "database_failed env e w \<longleftrightarrow> (\<exists>x. oe_dbSend env x = (ow_ext w, Inl e) \<or> oe_dbReply env x = (ow_ext w, Inl e))"

abbreviation rows_are :: "request_row list \<Rightarrow> 'x op_world \<Rightarrow> bool" where
  "rows_are rows w \<equiv> request_rows (ow_db w) = rows"

lemma rows_ext: "keeps (rows_are rows) (ext f)"
  by (rule requests_untouched.ext_keeps)

lemma rows_archive: "keeps (rows_are rows) (archive_block env calls cfg ctx row request)"
  unfolding archive_block_def by (intro wp rows_ext requests_untouched.sendPostgres_keeps)

lemma rows_populate: "keeps (rows_are rows) (populate_fulfillment calls cfg row)"
  unfolding populate_fulfillment_def Let_def by (intro wp rows_ext)

lemma rows_send: "keeps (rows_are rows) (send_fulfillment env cfg row request transaction)"
  unfolding send_fulfillment_def by (rule requests_untouched.sendPostgres_keeps)

lemma rows_kept:
  assumes "\<And>rows. keeps (rows_are rows) m" "m w = (w', res)"
  shows "request_rows (ow_db w') = request_rows (ow_db w)"
  using assms(1) [of "request_rows (ow_db w)"] assms(2) unfolding keeps_def by (metis fst_conv)

lemma retryDelaySeconds_bounds: "1 \<le> retryDelaySeconds message attempts \<and> retryDelaySeconds message attempts \<le> 300"
  by (simp add: retryDelaySeconds_def)

definition request_done :: "'x operator_env \<Rightarrow> int \<Rightarrow> db \<Rightarrow> 'x op_world \<Rightarrow> bool" where
  "request_done env requestId d w \<longleftrightarrow>
     request_rows (ow_db w) = request_rows (completeRequest (oe_identity env) requestId (oe_instanceId env) d)"

definition request_retried :: "'x operator_env \<Rightarrow> int \<Rightarrow> db \<Rightarrow> 'x op_world \<Rightarrow> bool" where
  "request_retried env requestId d w \<longleftrightarrow> (\<exists>now message delay. 1 \<le> delay \<and> delay \<le> 300 \<and>
     request_rows (ow_db w) = request_rows (retryRequest (oe_identity env) now requestId (oe_instanceId env) message delay d))"

lemma command_outcome:
  assumes "command env f w = (w', res)"
  shows "(ow_db w' = f (ow_db w) \<or> ow_db w' = ow_db w \<and> res \<noteq> Inr ()) \<and> (\<forall>e. res = Inl e \<longrightarrow> database_failed env e w')"
  using assms unfolding command_def query_def
  by (auto simp: bindIO_def ext_def onDb_def returnIO_def database_failed_def split: prod.splits sum.splits)

text \<open>The body of the \<open>try\<close>: it deletes the row with evidence, also when the answer to the deletion is lost, or it throws and leaves the rows alone.\<close>

lemma work_outcome:
  assumes "work_request env calls cfg ctx row w = (w', res)"
  shows "request_done env (rq_request_id row) (ow_db w) w' \<and>
      (reported_final calls (rq_request_id row) w \<or> fulfillment_sent env calls cfg ctx row w) \<or>
    request_rows (ow_db w') = request_rows (ow_db w) \<and> res \<noteq> Inr ()"
proof -
  let ?rid = "rq_request_id row" and ?same = "\<lambda>v. request_rows (ow_db v) = request_rows (ow_db w)"
  have complete: "request_done env ?rid (ow_db w) w' \<or> ?same w' \<and> res \<noteq> Inr ()"
    if "complete_request env ?rid v = (w', res)" "?same v" for v
    using command_outcome [OF that(1) [unfolded complete_request_def]] that(2)
    by (auto simp: request_done_def completeRequest_def)
  obtain w1 r1 where 1: "ext (scl_getRequest calls ?rid) w = (w1, r1)" by fastforce
  note s1 = rows_kept [OF rows_ext 1]
  show ?thesis
  proof (cases r1)
    case (Inl e)
    then show ?thesis using assms 1 s1 by (auto simp: work_request_def bindIO_def)
  next
    case (Inr request)
    note 1 = 1 [unfolded Inr]
    show ?thesis
    proof (cases "cr_status request = 1")
      case False
      then have "complete_request env ?rid w1 = (w', res)" using assms 1 by (simp add: work_request_def bindIO_def)
      moreover have "reported_final calls ?rid w"
        using 1 False by (auto simp: ext_def reported_final_def split: prod.splits)
      ultimately show ?thesis using complete s1 by blast
    next
      case True
      then have r: "bindIO (archive_block env calls cfg ctx row request) (\<lambda>_. fulfill_request env calls cfg row request) w1 = (w', res)"
        using assms 1 by (simp add: work_request_def bindIO_def)
      obtain w2 r2 where 2: "archive_block env calls cfg ctx row request w1 = (w2, r2)" by fastforce
      obtain w3 r3 where 3: "populate_fulfillment calls cfg row w2 = (w3, r3)" by fastforce
      note s = s1 rows_kept [OF rows_archive 2] rows_kept [OF rows_populate 3]
      show ?thesis
      proof (cases "(\<exists>e. r2 = Inl e) \<or> (\<exists>e. r3 = Inl e)")
        case True
        then show ?thesis using r 2 3 s by (auto simp: fulfill_request_def bindIO_def split: sum.splits)
      next
        case False
        then obtain transaction where ok: "r2 = Inr ()" "r3 = Inr transaction" by (cases r2; cases r3) auto
        obtain w4 r4 where 4: "send_fulfillment env cfg row request transaction w3 = (w4, r4)" by fastforce
        note s4 = rows_kept [OF rows_send 4]
        show ?thesis
        proof (cases r4)
          case (Inl e)
          then show ?thesis using r 2 3 4 ok s s4 by (auto simp: fulfill_request_def bindIO_def)
        next
          case (Inr receipt)
          then have "complete_request env ?rid w4 = (w', res)" using r 2 3 4 ok by (simp add: fulfill_request_def bindIO_def)
          moreover have "fulfillment_sent env calls cfg ctx row w"
            unfolding fulfillment_sent_def using 1 2 3 4 ok Inr by blast
          ultimately show ?thesis using complete s s4 by auto
        qed
      qed
    qed
  qed
qed

lemma status_outcome:
  assumes "request_status_final calls rid w = (w', res)"
  shows "\<exists>b. res = Inr b \<and> (b \<longrightarrow> reported_final calls rid w) \<and> ow_db w' = ow_db w"
proof -
  obtain x r where g: "scl_getRequest calls rid (ow_ext w) = (x, r)" by fastforce
  note unfold = request_status_final_def tryIO_def bindIO_def ext_def returnIO_def
  have "request_status_final calls rid w = (w\<lparr>ow_ext := x\<rparr>, Inr (case r of Inl _ \<Rightarrow> False | Inr request \<Rightarrow> cr_status request \<noteq> 1))"
    by (cases r) (simp_all add: g unfold)
  then have res: "res = Inr (case r of Inl _ \<Rightarrow> False | Inr request \<Rightarrow> cr_status request \<noteq> 1)" "w' = w\<lparr>ow_ext := x\<rparr>"
    using assms by simp_all
  have "(case r of Inl _ \<Rightarrow> False | Inr request \<Rightarrow> cr_status request \<noteq> 1) \<longrightarrow> reported_final calls rid w"
    using g by (cases r) (simp_all add: reported_final_def)
  then show ?thesis unfolding res by simp
qed

text \<open>Once the row is deleted, neither query of the handler changes the rows.\<close>

lemma done_again:
  "request_done env rid d v \<Longrightarrow> ow_db v' = completeRequest (oe_identity env) rid (oe_instanceId env) (ow_db v) \<Longrightarrow> request_done env rid d v'"
  by (simp add: request_done_def completeRequest_def)

lemma retried_now:
  assumes "request_rows (ow_db v) = request_rows d"
    "ow_db v' = retryRequest (oe_identity env) now rid (oe_instanceId env) message delay (ow_db v)" "1 \<le> delay \<and> delay \<le> 300"
  shows "request_retried env rid d v'"
  unfolding request_retried_def
  by (intro exI [of _ now] exI [of _ message] exI [of _ delay]) (simp add: assms retryRequest_def)

lemma done_not_retried:
  assumes "request_done env rid d v" "ow_db v' = retryRequest (oe_identity env) now rid (oe_instanceId env) message delay (ow_db v)"
  shows "request_done env rid d v'"
proof -
  have "update_where P f (filter (\<lambda>r. \<not> P r) rows) = filter (\<lambda>r. \<not> P r) rows" for P f and rows :: "request_row list"
    by (induction rows) (simp_all add: update_where_def)
  note this [of "\<lambda>r. request_match (oe_identity env) rid r \<and> rq_lease_owner r = Some (oe_instanceId env)"]
  then show ?thesis using assms unfolding request_done_def completeRequest_def retryRequest_def by simp
qed

subsection \<open>Properties\<close>

text \<open>A coordinator with one pending request and a configuration, for the witnesses.\<close>

definition sample_calls :: "nat service_calls" where
  "sample_calls = \<lparr>scl_getBlockNumber = (\<lambda>k. (k, Inr 110)), scl_contextBlockNumber = (\<lambda>k. (k, Inr 110)),
     scl_getRequest = (\<lambda>_ k. (k, Inr (sample_request\<lparr>cr_status := 1, cr_keyHash := ''0xk'', cr_maxGasPriceWei := 100\<rparr>))),
     scl_blockhashes = (\<lambda>_ k. (k, Inr ''0xh'')), scl_storeRequest = (\<lambda>_ k. (k, Inr ''store'')), scl_prove = (\<lambda>_ _ _ k. (k, Inr ''proof'')),
     scl_fulfillRequest = (\<lambda>_ p k. (k, Inr p)),
     scl_queries = \<lparr>eq_requested = (\<lambda>_ _ k. (k, Inr [])), eq_fulfilled = (\<lambda>_ _ k. (k, Inr [])), eq_expired = (\<lambda>_ _ k. (k, Inr []))\<rparr>,
     scl_requestRpcs = [\<lparr>rr_getRequest = (\<lambda>_ k. (k, Inr (sample_request\<lparr>cr_status := 1, cr_keyHash := ''0xk''\<rparr>))),
       rr_requestSeed = (\<lambda>_ k. (k, Inr 5))\<rparr>]\<rparr>"

definition sample_service :: service_config where
  "sample_service = \<lparr>cfg_deploymentBlock = 10, cfg_pollMs = 4000, cfg_blockRange = 2000, cfg_reorgLookback = 32, cfg_eventConfirmations = 2,
     cfg_replacementMs = 45000, cfg_replacementAttempts = 3, cfg_archiveAfterBlocks = 128, cfg_keyHash = ''0xk'', cfg_scanLeaseSeconds = 60,
     cfg_requestLeaseSeconds = 360, cfg_workLimit = 2\<rparr>"

definition sample_surroundings :: service_surroundings where
  "sample_surroundings = \<lparr>su_secret = (\<lambda>n. if n = ''VRF_TX_PRIVATE_KEY'' then Some ''0x1'' else None), su_proverUrl = None,
     su_allowSharedRpcOrigin = False, su_readiness = Inr (), su_proofProvider = Inr (''0xk'', Some ''0xP''), su_chainId = Inr 4663,
     su_relayer = ''0xR'', su_fulfiller = (\<lambda>_. Inr ''0xr'')\<rparr>"

definition sample_options :: "(string \<times> string) list" where
  "sample_options = [(''rpc-urls'', ''https://a,https://b''), (''coordinator'', ''0xC''), (''keystore'', ''k.json''),
     (''database-url'', ''postgres:''), (''from-block'', ''10'')]"

text \<open>
  C13: The outcome of every leased request, in every run of \<open>process_request\<close>. It deletes the request, and then only with evidence from this run that it is finished (the coordinator
  reported a status other than pending, at the start or to the handler, or the receipt of this request's fulfilment came back); or it gives the request back with a delay of one to three hundred
  seconds; no other row changes. It throws only when a query of the database fails in the handler, and the rows are then those of one of the two outcomes or unchanged.
\<close>

theorem process_request_outcome:
  assumes "process_request env calls cfg ctx row w = (w', res)"
  shows "(request_done env (rq_request_id row) (ow_db w) w' \<and> finished_evidence env calls cfg ctx row w \<or>
      request_retried env (rq_request_id row) (ow_db w) w' \<or>
      request_rows (ow_db w') = request_rows (ow_db w) \<and> res \<noteq> Inr ()) \<and>
    (\<forall>e. res = Inl e \<longrightarrow> database_failed env e w')"
proof -
  let ?rid = "rq_request_id row"
  obtain w1 r1 where 1: "work_request env calls cfg ctx row w = (w1, r1)" by fastforce
  show ?thesis
  proof (cases r1)
    case (Inr u)
    then have "w' = w1" "res = Inr ()" using assms 1 by (simp_all add: process_request_def tryIO_def)
    then show ?thesis using work_outcome [OF 1] Inr by (auto simp: finished_evidence_def)
  next
    case (Inl message)
    have h: "handle_failure env calls row message w1 = (w', res)" using assms 1 Inl by (simp add: process_request_def tryIO_def)
    obtain w2 r2 where 2: "request_status_final calls ?rid w1 = (w2, r2)" by fastforce
    obtain b where b: "r2 = Inr b" "b \<longrightarrow> reported_final calls ?rid w1" "ow_db w2 = ow_db w1" using status_outcome [OF 2] by blast
    have before: "request_done env ?rid (ow_db w) w2 \<and> finished_evidence env calls cfg ctx row w \<or> request_rows (ow_db w2) = request_rows (ow_db w)"
      using work_outcome [OF 1] b(3) by (auto simp: finished_evidence_def request_done_def)
    show ?thesis
    proof (cases b)
      case True
      then have "finished_evidence env calls cfg ctx row w" using b(2) 1 Inl by (auto simp: finished_evidence_def)
      moreover have c: "command env (completeRequest (oe_identity env) ?rid (oe_instanceId env)) w2 = (w', res)"
        using h 2 b(1) True by (simp add: handle_failure_def bindIO_def complete_request_def)
      have "request_done env ?rid (ow_db w) w' \<or> request_rows (ow_db w') = request_rows (ow_db w) \<and> res \<noteq> Inr ()"
        using command_outcome [OF c] before done_again by (auto simp: request_done_def completeRequest_def)
      ultimately show ?thesis using command_outcome [OF c] by blast
    next
      case False
      define now where "now = oe_clock env (ow_ext w2)"
      have c: "command env (retryRequest (oe_identity env) now ?rid (oe_instanceId env) message
          (retryDelaySeconds message (rq_attempts row))) w2 = (w', res)"
        using h 2 b(1) False by (simp add: handle_failure_def retry_request_def bindIO_def now_io_def getsIO_def now_def)
      note db = command_outcome [OF c]
      show ?thesis
      proof (cases "request_done env ?rid (ow_db w) w2 \<and> finished_evidence env calls cfg ctx row w")
        case True
        moreover have "ow_db w' = ow_db w2 \<or> request_done env ?rid (ow_db w) w'" using db done_not_retried True by blast
        ultimately have "request_done env ?rid (ow_db w) w'" by (auto simp: request_done_def)
        then show ?thesis using True db by blast
      next
        case False
        then have "request_rows (ow_db w2) = request_rows (ow_db w)" using before by blast
        then have "request_retried env ?rid (ow_db w) w' \<or> request_rows (ow_db w') = request_rows (ow_db w) \<and> res \<noteq> Inr ()"
          using db retried_now retryDelaySeconds_bounds by (metis (no_types))
        then show ?thesis using db by blast
      qed
    qed
  qed
qed

theorem process_request_outcome_witness:
  "\<exists>w'. process_request sample_env sample_calls sample_service 110 (new_request sample_identity 0 (sample_event 1 40)) sample_world = (w', Inr ()) \<and>
     (request_done sample_env 1 (ow_db sample_world) w' \<and>
        finished_evidence sample_env sample_calls sample_service 110 (new_request sample_identity 0 (sample_event 1 40)) sample_world \<or>
      request_retried sample_env 1 (ow_db sample_world) w')"
proof -
  let ?row = "new_request sample_identity 0 (sample_event 1 40)"
  obtain w' res where r: "process_request sample_env sample_calls sample_service 110 ?row sample_world = (w', res)" by fastforce
  have "\<not> database_failed sample_env e w'" for e by (simp add: database_failed_def sample_env_def returnIO_def)
  then have "res = Inr ()" using process_request_outcome [OF r] by (cases res) auto
  moreover have "rq_request_id ?row = 1" by (simp add: new_request_def sample_event_def)
  ultimately show ?thesis using process_request_outcome [OF r] r by auto
qed

text \<open>
  C25: The service over any number of turns, whatever the endpoints, the proof provider, the database and other operators' events make of each. No failed turn stops the loop: it ends early only
  because the handler of a turn could not write the health file, as its last act (a thrown value being one whose message can be read). However it ends, every transaction that left the process has its row in the journal, and the
  store stays well formed and only grows, as it does under single operations.
\<close>

theorem service_run_safe:
  assumes "service_run n healthFile env locked calls cfg w = (w', res)" "db_ok (ow_db w)" "journal_complete w"
  shows "(case res of Inr hs \<Rightarrow> length hs = n | Inl e \<Rightarrow> health_failed healthFile e w') \<and>
    journal_complete w' \<and> db_ok (ow_db w') \<and> store_le (ow_db w) (ow_db w')"
proof -
  have "service_inv (ow_db w) w" using assms(2,3) store_le_refl by (auto simp: service_inv_def store_kept_def)
  then have "service_inv (ow_db w) (fst (service_run n healthFile env locked calls cfg w))"
    using service_run_keeps unfolding keeps_def by blast
  then show ?thesis using assms(1) service_run_ends [OF assms(1)] by (simp add: service_inv_def store_kept_def)
qed

text \<open>A health file that cannot be written any more after the first turn.\<close>

definition sample_health :: "health \<Rightarrow> (nat, unit) io" where
  "sample_health h = (case h of Healthy _ _ \<Rightarrow> throwIO ''ENOSPC'' | Unhealthy _ \<Rightarrow> throwIO ''ENOSPC'')"

theorem service_run_safe_witness:
  "(let (w', res) = service_run 1 None sample_env (\<lambda>_ _. False) sample_calls sample_service sample_world in
      ow_sent w' \<noteq> [] \<and> journal_complete w' \<and> isOk res) \<and>
   (let (w', res) = service_run 1 (Some sample_health) sample_env (\<lambda>_ _. False) sample_calls sample_service sample_world in
      ow_sent w' \<noteq> [] \<and> journal_complete w' \<and> \<not> isOk res)"
proof -
  let ?r = "\<lambda>hf. service_run 1 hf sample_env (\<lambda>_ _. False) sample_calls sample_service sample_world"
  have sent: "ow_sent (fst (?r None)) \<noteq> []" by code_simp
  have sent1: "isOk (snd (?r None))" by code_simp
  have sent': "ow_sent (fst (?r (Some sample_health))) \<noteq> []" by code_simp
  have sent'1: "\<not> isOk (snd (?r (Some sample_health)))" by code_simp
  have ok: "db_ok (ow_db sample_world)" "journal_complete sample_world" by (code_simp, code_simp)
  have "journal_complete (fst (?r hf))" for hf
    using service_run_safe [OF prod.collapse [symmetric, of "?r hf"] ok] by blast
  then show ?thesis using sent sent1 sent' sent'1 by (simp add: Let_def split_def)
qed

text \<open>
  C26: The service starts only in a sound configuration. Its relayer is the fulfiller that the coordinator has for the key and not the proof key itself; on the Robinhood
  chains it keeps its requests in PostgreSQL and reads from at least two endpoints, which on the main chain have different origins; exactly one source of
  proofs and one store are configured; every number is in its range, and a request lease outlasts every attempt of the two transactions that may be sent under it.
\<close>

theorem runService_sound:
  assumes "runService N su options = Inr (cfg, urls, postgres)"
  shows "(\<exists>chainId proofKeyAddress fulfiller. su_chainId su = Inr chainId \<and>
      su_proofProvider su = Inr (cfg_keyHash cfg, proofKeyAddress) \<and> su_fulfiller su (cfg_keyHash cfg) = Inr fulfiller \<and>
      toLowerCase fulfiller = toLowerCase (su_relayer su) \<and>
      (\<forall>a. proofKeyAddress = Some a \<longrightarrow> toLowerCase a \<noteq> toLowerCase (su_relayer su)) \<and>
      (chainId \<in> {46630, 4663} \<longrightarrow> 2 \<le> length urls \<and> postgres) \<and>
      (chainId \<noteq> 46630 \<longrightarrow> (\<exists>us :: url list. urls = map url_href us \<and> distinct (map url_origin us)))) \<and>
    (option_given options ''state'' \<longleftrightarrow> \<not> postgres) \<and> su_secret su ''VRF_TX_PRIVATE_KEY'' \<noteq> None \<and>
    length (filter id [option_given options ''keystore'', option_or options ''prover-url'' (su_proverUrl su) \<noteq> None,
      option_given options ''threshold-manifest'']) = 1 \<and>
    0 \<le> cfg_deploymentBlock cfg \<and> 250 \<le> cfg_pollMs cfg \<and> 1 \<le> cfg_blockRange cfg \<and> 1 \<le> cfg_reorgLookback cfg \<and>
    0 \<le> cfg_eventConfirmations cfg \<and> 1 \<le> cfg_archiveAfterBlocks cfg \<and> cfg_archiveAfterBlocks cfg < 256 \<and>
    5000 \<le> cfg_replacementMs cfg \<and> 1 \<le> cfg_replacementAttempts cfg \<and>
    (postgres \<longrightarrow> 2 * cfg_replacementMs cfg * int (cfg_replacementAttempts cfg) + 60000 \<le> 1000 * cfg_requestLeaseSeconds cfg)"
proof -
  obtain keyHash proofKeyAddress chainId fulfiller v cfg0 where
    s: "su_proofProvider su = Inr (keyHash, proofKeyAddress)" "su_chainId su = Inr chainId" "su_fulfiller su keyHash = Inr fulfiller"
    and urls: "normalizeRpcUrls N v 1 ''operator'' (su_allowSharedRpcOrigin su \<and> \<not> option_given options ''threshold-manifest'') = Inr urls"
      "su_allowSharedRpcOrigin su \<and> \<not> option_given options ''threshold-manifest'' \<longrightarrow> chainId = 46630"
    and rest: "chainId \<in> {46630, 4663} \<longrightarrow> 2 \<le> length urls \<and> postgres"
      "\<forall>a. proofKeyAddress = Some a \<longrightarrow> toLowerCase (su_relayer su) \<noteq> toLowerCase a" "toLowerCase fulfiller = toLowerCase (su_relayer su)"
    and n: "numeric_options options = Inr cfg0"
      "(if postgres then postgres_options options (cfg0\<lparr>cfg_keyHash := keyHash\<rparr>) else Inr (cfg0\<lparr>cfg_keyHash := keyHash\<rparr>)) = Inr cfg"
    and modes: "option_given options ''state'' \<longleftrightarrow> \<not> postgres"
      "length (filter id [option_given options ''keystore'', option_or options ''prover-url'' (su_proverUrl su) \<noteq> None,
         option_given options ''threshold-manifest'']) = 1"
      "su_secret su ''VRF_TX_PRIVATE_KEY'' \<noteq> None"
    by (rule runService_Inr [OF assms]) (rule that; assumption)
  have origins: "\<exists>us :: url list. urls = map url_href us \<and> distinct (map url_origin us)" if "chainId \<noteq> 46630"
  proof -
    have "normalizeRpcUrls N v 1 ''operator'' False = Inr urls" using urls that by auto
    from normalizeRpcUrls_Inr [OF this] show ?thesis by blast
  qed
  note bounds = numeric_options_Inr [OF n(1)]
  have p: "cfg = cfg0\<lparr>cfg_keyHash := keyHash, cfg_scanLeaseSeconds := cfg_scanLeaseSeconds cfg,
      cfg_requestLeaseSeconds := cfg_requestLeaseSeconds cfg, cfg_workLimit := cfg_workLimit cfg\<rparr>"
    using n(2) postgres_options_Inr [where options = options and cfg = "cfg0\<lparr>cfg_keyHash := keyHash\<rparr>" and cfg' = cfg]
    by (cases postgres) auto
  have lease: "2 * cfg_replacementMs cfg0 * int (cfg_replacementAttempts cfg0) + 60000 \<le> 1000 * cfg_requestLeaseSeconds cfg" if postgres
    using n(2) that postgres_options_Inr [where options = options and cfg = "cfg0\<lparr>cfg_keyHash := keyHash\<rparr>" and cfg' = cfg] by simp
  have k: "cfg_keyHash cfg = keyHash" "cfg_replacementMs cfg = cfg_replacementMs cfg0"
      "cfg_replacementAttempts cfg = cfg_replacementAttempts cfg0" "cfg_deploymentBlock cfg = cfg_deploymentBlock cfg0"
      "cfg_pollMs cfg = cfg_pollMs cfg0" "cfg_blockRange cfg = cfg_blockRange cfg0" "cfg_reorgLookback cfg = cfg_reorgLookback cfg0"
      "cfg_eventConfirmations cfg = cfg_eventConfirmations cfg0" "cfg_archiveAfterBlocks cfg = cfg_archiveAfterBlocks cfg0"
    by (subst p, simp)+
  have outside: "su_proofProvider su = Inr (keyHash, proofKeyAddress) \<and> su_fulfiller su keyHash = Inr fulfiller \<and>
      (\<forall>a. proofKeyAddress = Some a \<longrightarrow> toLowerCase a \<noteq> toLowerCase (su_relayer su)) \<and>
      (chainId \<noteq> 46630 \<longrightarrow> (\<exists>us :: url list. urls = map url_href us \<and> distinct (map url_origin us)))"
    using s rest(2) origins by metis
  show ?thesis
    unfolding k by (intro conjI exI [of _ chainId] exI [of _ proofKeyAddress] exI [of _ fulfiller])
      (use outside s rest modes bounds lease in \<open>(elim conjE, (assumption | blast))+\<close>)
qed

theorem runService_sound_witness:
  "\<exists>cfg urls. runService sample_node sample_surroundings sample_options = Inr (cfg, urls, True) \<and> 2 \<le> length urls \<and> 1 \<le> cfg_blockRange cfg"
proof -
  have "isOk (runService sample_node sample_surroundings sample_options)" by code_simp
  then obtain cfg urls pg where r: "runService sample_node sample_surroundings sample_options = Inr (cfg, urls, pg)"
    by (auto simp: isOk_iff)
  have "su_chainId sample_surroundings = Inr 4663" by (simp add: sample_surroundings_def)
  then show ?thesis using runService_sound [OF r] r by auto
qed

end
