(* ===== verification/Ecvrf_Proof.thy ===== *)
theory Ecvrf_Proof
  imports Modular External
begin

section \<open>The ECVRF prover (operator/proof.mjs)\<close>

text \<open>
  The prover of the verifiable random function over secp256k1: modular arithmetic written out in the code, the hash to the
  curve, the challenge and the proof with the witnesses that the on-chain verifier needs. The curve's group operations
  (noble-curves), the byte encodings and keccak256 (ethers) and the HMAC of Node.js are parameters. The two constants of the curve are read from a record, of which \<open>secp256k1\<close> is the code's.
  A loop that ends only when a hash has a wanted property is a \<open>partial_function\<close>: \<open>None\<close> is a loop that does not end. Keys and seeds are taken after their conversion by \<open>BigInt\<close>.
\<close>

subsection \<open>Constants and parameters\<close>

record curve_constants =
  FIELD_SIZE :: int
  GROUP_ORDER :: int

definition secp256k1 :: curve_constants where
  "secp256k1 = \<lparr>FIELD_SIZE = 0xFFFFFFFFFFFFFFFFFFFFFFFFFFFFFFFFFFFFFFFFFFFFFFFFFFFFFFFEFFFFFC2F,
     GROUP_ORDER = 0xFFFFFFFFFFFFFFFFFFFFFFFFFFFFFFFEBAAEDCE6AF48A03BBFD25E8CD0364141\<rparr>"

text \<open>
  The libraries: \<open>pt_\<close> are the methods of the curve's points, \<open>encode_point\<close> and \<open>encode_scheme_point\<close> the two uses of
  the ABI coder, \<open>hmac_sha256\<close> gives the digest in hexadecimal.
\<close>

record 'p ecvrf_library =
  pt_BASE :: 'p
  pt_multiply :: "'p \<Rightarrow> int \<Rightarrow> 'p result"
  pt_fromAffine :: "int \<times> int \<Rightarrow> 'p result"
  pt_toAffine :: "'p \<Rightarrow> int \<times> int"
  toBeHex :: "int \<Rightarrow> string result"
  zeroPadValue :: "string \<Rightarrow> nat \<Rightarrow> string result"
  encode_point :: "int \<times> int \<Rightarrow> bytes result"
  encode_scheme_point :: "string \<Rightarrow> int \<times> int \<Rightarrow> bytes result"
  hmac_sha256 :: "bytes \<Rightarrow> bytes \<Rightarrow> string"

definition SERVICE_SCHEME_ID :: "ethers \<Rightarrow> string" where
  "SERVICE_SCHEME_ID E = keccak256 E (toUtf8Bytes E ''SECP256K1_ECVRF_V1'')"

definition NONCE_DOMAIN :: bytes where
  "NONCE_DOMAIN = map (\<lambda>c. word_of_int (of_char c)) ''ROBINHOOD_ECVRF_PROOF_NONCE_V1''"

subsection \<open>Modular arithmetic\<close>

definition mod_big :: "int \<Rightarrow> int \<Rightarrow> int" where
  "mod_big v modulus = (let result = v smod modulus in if result \<ge> 0 then result else result + modulus)"

function modPow_loop :: "int \<Rightarrow> int \<Rightarrow> int \<Rightarrow> int \<Rightarrow> int" where
  "modPow_loop result x e modulus =
     (if e > 0
      then modPow_loop (if odd e then (result * x) smod modulus else result) ((x * x) smod modulus) (e div 2) modulus
      else result)"
  by pat_completeness auto
termination
  by (relation "measure (\<lambda>(result, x, e, modulus). nat e)") auto

declare modPow_loop.simps [simp del]

definition modPow :: "int \<Rightarrow> int \<Rightarrow> int \<Rightarrow> int" where
  "modPow base exponent modulus = modPow_loop 1 (mod_big base modulus) exponent modulus"

function modInverse_loop :: "int \<Rightarrow> int \<Rightarrow> int \<Rightarrow> int \<Rightarrow> int \<times> int" where
  "modInverse_loop oldR r oldS s =
     (if r \<noteq> 0 then (let quotient = oldR sdiv r in modInverse_loop r (oldR - quotient * r) s (oldS - quotient * s))
      else (oldR, oldS))"
  by pat_completeness auto

lemma modInverse_loop_decreases: "r \<noteq> 0 \<Longrightarrow> \<bar>oldR - (oldR sdiv r) * r\<bar> < \<bar>r\<bar>" for r :: int
proof -
  assume r: "r \<noteq> 0"
  have "\<bar>oldR smod r\<bar> \<le> \<bar>\<bar>oldR\<bar> mod \<bar>r\<bar>\<bar>" by (simp add: signed_modulo_int_def abs_mult abs_sgn_eq)
  also have "\<dots> < \<bar>r\<bar>" using r by simp
  finally show ?thesis by (simp add: minus_sdiv_mult_eq_smod)
qed

termination modInverse_loop
  by (relation "measure (\<lambda>(oldR, r, oldS, s). nat \<bar>r\<bar>)") (auto simp: modInverse_loop_decreases)

declare modInverse_loop.simps [simp del]

definition modInverse :: "int \<Rightarrow> int \<Rightarrow> int result" where
  "modInverse v modulus = (case modInverse_loop (mod_big v modulus) modulus 1 0 of
     (oldR, oldS) \<Rightarrow> if oldR \<noteq> 1 then Inl ''value has no modular inverse'' else Inr (mod_big oldS modulus))"

subsection \<open>Bytes and hashes\<close>

definition word_bytes :: "ethers \<Rightarrow> 'p ecvrf_library \<Rightarrow> int \<Rightarrow> bytes result" where
  "word_bytes E L v = bindR (toBeHex L v) (\<lambda>h. bindR (zeroPadValue L h 32) (getBytes E))"

definition coordinates_bytes :: "ethers \<Rightarrow> 'p ecvrf_library \<Rightarrow> int \<times> int \<Rightarrow> bytes result" where
  "coordinates_bytes E L xy = bindR (word_bytes E L (fst xy)) (\<lambda>x. bindR (word_bytes E L (snd xy)) (\<lambda>y. Inr (x @ y)))"

definition pointBytes :: "ethers \<Rightarrow> 'p ecvrf_library \<Rightarrow> 'p \<Rightarrow> bytes result" where
  "pointBytes E L point = coordinates_bytes E L (pt_toAffine L point)"

text \<open>\<open>BigInt\<close> of a hexadecimal text.\<close>

definition hex_int :: "string \<Rightarrow> int result" where
  "hex_int s = (if take 2 s = ''0x'' \<and> length s > 2 \<and> list_all (\<lambda>c. hexValue c \<noteq> None) (drop 2 s)
     then Inr (foldl (\<lambda>n c. 16 * n + int (the (hexValue c))) 0 (drop 2 s)) else Inl ''SyntaxError'')"

definition hashBig :: "ethers \<Rightarrow> bytes \<Rightarrow> int result" where
  "hashBig E b = hex_int (keccak256 E b)"

partial_function (option) fieldHash_loop :: "curve_constants \<Rightarrow> ethers \<Rightarrow> 'p ecvrf_library \<Rightarrow> int \<Rightarrow> int result option" where
  "fieldHash_loop C E L v =
     (if v \<ge> FIELD_SIZE C
      then (case bindR (word_bytes E L v) (hashBig E) of Inl e \<Rightarrow> Some (Inl e) | Inr v' \<Rightarrow> fieldHash_loop C E L v')
      else Some (Inr v))"

definition fieldHash :: "curve_constants \<Rightarrow> ethers \<Rightarrow> 'p ecvrf_library \<Rightarrow> bytes \<Rightarrow> int result option" where
  "fieldHash C E L b = (case hashBig E b of Inl e \<Rightarrow> Some (Inl e) | Inr v \<Rightarrow> fieldHash_loop C E L v)"

definition ySquared :: "curve_constants \<Rightarrow> int \<Rightarrow> int" where
  "ySquared C x = mod_big (x * x * x + 7) (FIELD_SIZE C)"

definition isSquare :: "curve_constants \<Rightarrow> int \<Rightarrow> bool" where
  "isSquare C v \<longleftrightarrow> v = 0 \<or> modPow v ((FIELD_SIZE C - 1) sdiv 2) (FIELD_SIZE C) = 1"

text \<open>The second loop of \<open>hashToCurve\<close>, and the point above the x coordinate that it finds.\<close>

partial_function (option) square_loop :: "curve_constants \<Rightarrow> ethers \<Rightarrow> 'p ecvrf_library \<Rightarrow> int \<Rightarrow> int result option" where
  "square_loop C E L cx =
     (if isSquare C (ySquared C cx) then Some (Inr cx)
      else (case word_bytes E L cx of Inl e \<Rightarrow> Some (Inl e) | Inr b \<Rightarrow>
        (case fieldHash C E L b of None \<Rightarrow> None | Some (Inl e) \<Rightarrow> Some (Inl e) | Some (Inr x') \<Rightarrow> square_loop C E L x')))"

definition curve_y :: "curve_constants \<Rightarrow> int \<Rightarrow> int" where
  "curve_y C x = (let y = modPow (ySquared C x) ((FIELD_SIZE C + 1) sdiv 4) (FIELD_SIZE C) in
     if odd y then FIELD_SIZE C - y else y)"

definition hashToCurve_input :: "ethers \<Rightarrow> 'p ecvrf_library \<Rightarrow> 'p \<Rightarrow> int \<Rightarrow> bytes result" where
  "hashToCurve_input E L publicKey seed =
     bindR (word_bytes E L 1) (\<lambda>one. bindR (pointBytes E L publicKey) (\<lambda>pk. bindR (word_bytes E L seed) (\<lambda>s. Inr (one @ pk @ s))))"

definition hashToCurve :: "curve_constants \<Rightarrow> ethers \<Rightarrow> 'p ecvrf_library \<Rightarrow> 'p \<Rightarrow> int \<Rightarrow> 'p result option" where
  "hashToCurve C E L publicKey seed =
     (case hashToCurve_input E L publicKey seed of Inl e \<Rightarrow> Some (Inl e) | Inr input \<Rightarrow>
     (case fieldHash C E L input of None \<Rightarrow> None | Some (Inl e) \<Rightarrow> Some (Inl e) | Some (Inr x0) \<Rightarrow>
     (case square_loop C E L x0 of None \<Rightarrow> None | Some (Inl e) \<Rightarrow> Some (Inl e) | Some (Inr x) \<Rightarrow>
       Some (pt_fromAffine L (x, curve_y C x)))))"

definition ethereumAddress :: "ethers \<Rightarrow> 'p ecvrf_library \<Rightarrow> 'p \<Rightarrow> string result" where
  "ethereumAddress E L point = bindR (pointBytes E L point) (\<lambda>b. (let digest = keccak256 E b in
     Inr (''0x'' @ drop (length digest - 40) digest)))"

text \<open>\<open>scalarFromCurvePoints\<close> reads its points by their coordinates only.\<close>

definition challenge :: "ethers \<Rightarrow> 'p ecvrf_library \<Rightarrow> int \<times> int \<Rightarrow> int \<times> int \<Rightarrow> int \<times> int \<Rightarrow> string \<Rightarrow> int \<times> int \<Rightarrow> int result" where
  "challenge E L hash publicKey gamma uWitness v =
     bindR (word_bytes E L 2) (\<lambda>two. bindR (coordinates_bytes E L hash) (\<lambda>h. bindR (coordinates_bytes E L publicKey) (\<lambda>pk.
     bindR (coordinates_bytes E L gamma) (\<lambda>g. bindR (coordinates_bytes E L v) (\<lambda>vb. bindR (getBytes E uWitness) (\<lambda>u.
     hashBig E (two @ h @ pk @ g @ vb @ u)))))))"

definition scalarFromCurvePoints :: "ethers \<Rightarrow> 'p ecvrf_library \<Rightarrow> 'p \<Rightarrow> 'p \<Rightarrow> 'p \<Rightarrow> string \<Rightarrow> 'p \<Rightarrow> int result" where
  "scalarFromCurvePoints E L hash publicKey gamma uWitness v = challenge E L (pt_toAffine L hash) (pt_toAffine L publicKey)
     (pt_toAffine L gamma) uWitness (pt_toAffine L v)"

subsection \<open>Addition in projective coordinates\<close>

definition projectiveSub :: "int \<Rightarrow> int \<Rightarrow> int \<Rightarrow> int \<Rightarrow> int \<Rightarrow> int \<times> int" where
  "projectiveSub p x1 z1 x2 z2 = (let numerator1 = mod_big (z2 * x1) p; numerator2 = mod_big ((p - x2) * z1) p in
     (mod_big (numerator1 + numerator2) p, mod_big (z1 * z2) p))"

definition projectiveMul :: "int \<Rightarrow> int \<Rightarrow> int \<Rightarrow> int \<Rightarrow> int \<Rightarrow> int \<times> int" where
  "projectiveMul p x1 z1 x2 z2 = (mod_big (x1 * x2) p, mod_big (z1 * z2) p)"

definition projectiveECAdd :: "int \<Rightarrow> int \<times> int \<Rightarrow> int \<times> int \<Rightarrow> int \<times> int \<times> int" where
  "projectiveECAdd p first second = (case (first, second) of ((px, py), (qx, qy)) \<Rightarrow>
     (let lx = mod_big (qy - py) p; lz = mod_big (qx - px) p;
          (sx1, dx1) = projectiveMul p lx lz lx lz;
          (sx2, dx2) = projectiveSub p sx1 dx1 px 1;
          (sx, dx) = projectiveSub p sx2 dx2 qx 1;
          (sy1, dy1) = projectiveSub p px 1 sx dx;
          (sy2, dy2) = projectiveMul p sy1 dy1 lx lz;
          (sy, dy) = projectiveSub p sy2 dy2 py 1
      in if dx \<noteq> dy then (mod_big (sx * dy) p, mod_big (sy * dx) p, mod_big (dx * dy) p) else (sx, sy, dx)))"

subsection \<open>Keys\<close>

definition publicKeyFor :: "curve_constants \<Rightarrow> 'p ecvrf_library \<Rightarrow> int \<Rightarrow> (int \<times> int) result" where
  "publicKeyFor C L secret = (if secret \<le> 0 \<or> secret \<ge> GROUP_ORDER C then Inl ''invalid VRF private key''
     else bindR (pt_multiply L (pt_BASE L) secret) (\<lambda>point. Inr (pt_toAffine L point)))"

definition publicKeyHash :: "ethers \<Rightarrow> 'p ecvrf_library \<Rightarrow> int \<times> int \<Rightarrow> string result" where
  "publicKeyHash E L publicKey = bindR (encode_point L publicKey) (\<lambda>b. Inr (keccak256 E b))"

definition serviceKeyHash :: "ethers \<Rightarrow> 'p ecvrf_library \<Rightarrow> int \<times> int \<Rightarrow> string result" where
  "serviceKeyHash E L publicKey = bindR (encode_scheme_point L (SERVICE_SCHEME_ID E) publicKey) (\<lambda>b. Inr (keccak256 E b))"

definition addressForPublicKey :: "ethers \<Rightarrow> 'p ecvrf_library \<Rightarrow> int list \<Rightarrow> string result" where
  "addressForPublicKey E L publicKey = (case publicKey of
     [x, y] \<Rightarrow> bindR (pt_fromAffine L (x, y)) (ethereumAddress E L)
   | _ \<Rightarrow> Inl ''public key must contain x and y coordinates'')"

definition output_of :: "ethers \<Rightarrow> 'p ecvrf_library \<Rightarrow> 'p \<Rightarrow> int result" where
  "output_of E L gamma = bindR (word_bytes E L 3) (\<lambda>three. bindR (pointBytes E L gamma) (\<lambda>b. hashBig E (three @ b)))"

definition outputForProof :: "ethers \<Rightarrow> 'p ecvrf_library \<Rightarrow> int list option \<Rightarrow> int result" where
  "outputForProof E L gamma = (case gamma of
     Some [x, y] \<Rightarrow> bindR (pt_fromAffine L (x, y)) (output_of E L)
   | _ \<Rightarrow> Inl ''proof gamma must contain x and y coordinates'')"

subsection \<open>The proof\<close>

definition deterministicScalar :: "ethers \<Rightarrow> 'p ecvrf_library \<Rightarrow> int \<Rightarrow> int \<Rightarrow> int \<Rightarrow> int result" where
  "deterministicScalar E L privateKey seed attempt =
     bindR (word_bytes E L privateKey) (\<lambda>k. bindR (word_bytes E L seed) (\<lambda>s. bindR (word_bytes E L attempt) (\<lambda>a.
     hex_int (''0x'' @ hmac_sha256 L k (NONCE_DOMAIN @ s @ a)))))"

record vrf_proof =
  pf_pk :: "int \<times> int"
  pf_gamma :: "int \<times> int"
  pf_c :: int
  pf_s :: int
  pf_seed :: int
  pf_uWitness :: string
  pf_cGammaWitness :: "int \<times> int"
  pf_sHashWitness :: "int \<times> int"
  pf_zInv :: int

record generated_proof =
  gp_proof :: vrf_proof
  gp_output :: int
  gp_publicKey :: "int \<times> int"
  gp_keyHash :: string
  gp_serviceKeyHash :: string

text \<open>What one nonce leads to: a proof, or the message with which the code gives up when the caller supplied the nonce and goes on to the next attempt otherwise.\<close>

datatype nonce_outcome = Generated generated_proof | Rejected string

definition finish_proof ::
  "curve_constants \<Rightarrow> ethers \<Rightarrow> 'p ecvrf_library \<Rightarrow> int \<Rightarrow> 'p \<Rightarrow> 'p \<Rightarrow> int \<Rightarrow> int \<Rightarrow> string \<Rightarrow> 'p \<Rightarrow> 'p \<Rightarrow> generated_proof result" where
  "finish_proof C E L wireSeed pk gamma c s uWitness cGammaWitness sHashWitness =
     (case projectiveECAdd (FIELD_SIZE C) (pt_toAffine L cGammaWitness) (pt_toAffine L sHashWitness) of (_, _, z) \<Rightarrow>
      bindR (modInverse z (FIELD_SIZE C)) (\<lambda>zInv.
      bindR (output_of E L gamma) (\<lambda>out.
      bindR (publicKeyHash E L (pt_toAffine L pk)) (\<lambda>keyHash.
      bindR (serviceKeyHash E L (pt_toAffine L pk)) (\<lambda>serviceHash.
      Inr \<lparr>gp_proof = \<lparr>pf_pk = pt_toAffine L pk, pf_gamma = pt_toAffine L gamma, pf_c = c, pf_s = s, pf_seed = wireSeed,
           pf_uWitness = uWitness, pf_cGammaWitness = pt_toAffine L cGammaWitness,
           pf_sHashWitness = pt_toAffine L sHashWitness, pf_zInv = zInv\<rparr>,
         gp_output = out, gp_publicKey = pt_toAffine L pk, gp_keyHash = keyHash, gp_serviceKeyHash = serviceHash\<rparr>)))))"

definition try_nonce ::
  "curve_constants \<Rightarrow> ethers \<Rightarrow> 'p ecvrf_library \<Rightarrow> int \<Rightarrow> int \<Rightarrow> 'p \<Rightarrow> 'p \<Rightarrow> 'p \<Rightarrow> int \<Rightarrow> nonce_outcome result" where
  "try_nonce C E L secret wireSeed pk hash gamma proofNonce =
     (if proofNonce \<le> 0 \<or> proofNonce \<ge> GROUP_ORDER C then Inr (Rejected ''invalid proof nonce'')
      else bindR (pt_multiply L (pt_BASE L) proofNonce) (\<lambda>u.
      bindR (ethereumAddress E L u) (\<lambda>uWitness.
      bindR (pt_multiply L hash proofNonce) (\<lambda>v.
      bindR (scalarFromCurvePoints E L hash pk gamma uWitness v) (\<lambda>c.
      (let s = mod_big (proofNonce - mod_big (c * secret) (GROUP_ORDER C)) (GROUP_ORDER C) in
       if c = 0 \<or> s = 0 then Inr (Rejected ''deterministic nonce produced a zero proof scalar'')
       else bindR (pt_multiply L gamma (mod_big c (GROUP_ORDER C))) (\<lambda>cGammaWitness.
       bindR (pt_multiply L hash s) (\<lambda>sHashWitness.
       if fst (pt_toAffine L cGammaWitness) = fst (pt_toAffine L sHashWitness)
       then Inr (Rejected ''deterministic nonce produced equal witnesses'')
       else bindR (finish_proof C E L wireSeed pk gamma c s uWitness cGammaWitness sHashWitness) (\<lambda>r. Inr (Generated r))))))))))"

partial_function (option) attempt_loop ::
  "curve_constants \<Rightarrow> ethers \<Rightarrow> 'p ecvrf_library \<Rightarrow> int \<Rightarrow> int \<Rightarrow> int \<Rightarrow> 'p \<Rightarrow> 'p \<Rightarrow> 'p \<Rightarrow> int option \<Rightarrow> int \<Rightarrow> generated_proof result option"
where
  "attempt_loop C E L secret seed wireSeed pk hash gamma nonce attempt =
     (case bindR (case nonce of None \<Rightarrow> deterministicScalar E L secret seed attempt | Some k \<Rightarrow> Inr k)
         (try_nonce C E L secret wireSeed pk hash gamma) of
        Inl e \<Rightarrow> Some (Inl e)
      | Inr (Generated r) \<Rightarrow> Some (Inr r)
      | Inr (Rejected e) \<Rightarrow> (if nonce \<noteq> None then Some (Inl e)
          else attempt_loop C E L secret seed wireSeed pk hash gamma nonce (attempt + 1)))"

definition generateProof ::
  "curve_constants \<Rightarrow> ethers \<Rightarrow> 'p ecvrf_library \<Rightarrow> int \<Rightarrow> int \<Rightarrow> int \<Rightarrow> int option \<Rightarrow> generated_proof result option" where
  "generateProof C E L secret seed wireSeed nonce =
     (if secret \<le> 0 \<or> secret \<ge> GROUP_ORDER C then Some (Inl ''invalid VRF private key'')
      else if seed < 0 \<or> seed \<ge> 2 ^ 256 then Some (Inl ''actual seed is not uint256'')
      else if wireSeed < 0 \<or> wireSeed \<ge> 2 ^ 256 then Some (Inl ''pre-seed is not uint256'')
      else (case pt_multiply L (pt_BASE L) secret of Inl e \<Rightarrow> Some (Inl e) | Inr pk \<Rightarrow>
       (case hashToCurve C E L pk seed of None \<Rightarrow> None | Some (Inl e) \<Rightarrow> Some (Inl e) | Some (Inr hash) \<Rightarrow>
       (case pt_multiply L hash secret of Inl e \<Rightarrow> Some (Inl e) | Inr gamma \<Rightarrow>
         attempt_loop C E L secret seed wireSeed pk hash gamma nonce 0))))"

declare fieldHash_loop.simps [code] square_loop.simps [code] attempt_loop.simps [code]

subsection \<open>The arithmetic is that of the integers modulo the field size\<close>

lemma mod_big_mod: "0 < m \<Longrightarrow> mod_big v m = v mod m"
  by (auto simp: mod_big_def Let_def signed_modulo_int_eq_modulo_int sgn_if) (meson leD pos_mod_bound)

lemma modPow_loop_correct:
  assumes "0 \<le> r" "r < m" "0 \<le> x" "0 \<le> e"
  shows "modPow_loop r x e m = r * x ^ nat e mod m"
  using assms
proof (induction r x e m rule: modPow_loop.induct)
  case (1 r x e m)
  show ?case
  proof (cases "e > 0")
    case False
    then show ?thesis using "1.prems" by (simp add: modPow_loop.simps)
  next
    case True
    define r' where "r' = (if odd e then (r * x) smod m else r)"
    have m: "0 < m" using "1.prems" by linarith
    have r': "0 \<le> r'" "r' < m" "eqm m r' (if odd e then r * x else r)"
      using "1.prems" m by (auto simp: r'_def mod_simps eqm_mod)
    have "modPow_loop r x e m = r' * (x * x mod m) ^ nat (e div 2) mod m"
      using "1.IH" [OF True] True "1.prems" r' m
      by (simp add: modPow_loop.simps [of r x e m] r'_def [symmetric] mod_simps)
    also have "\<dots> = (if odd e then r * x else r) * (x * x) ^ nat (e div 2) mod m"
      using r'(3) by (metis eqm_mod mod_mult_eq power_mod)
    also have "(if odd e then r * x else r) * (x * x) ^ nat (e div 2) = r * x ^ nat e"
    proof (cases "odd e")
      case odd: True
      then have "nat e = Suc (2 * nat (e div 2))" using True by (auto elim!: oddE simp: nat_add_distrib nat_mult_distrib)
      then show ?thesis using odd by (simp add: power_mult power2_eq_square ac_simps)
    next
      case even: False
      then have "nat e = 2 * nat (e div 2)" using True by (auto elim!: evenE simp: nat_mult_distrib)
      then show ?thesis using even by (simp add: power_mult power2_eq_square)
    qed
    finally show ?thesis .
  qed
qed

lemma modPow_correct: "1 < m \<Longrightarrow> 0 \<le> e \<Longrightarrow> modPow b e m = b ^ nat e mod m"
  by (simp add: modPow_def modPow_loop_correct mod_big_mod power_mod)

lemma modInverse_loop_correct:
  assumes "0 \<le> oldR" "0 \<le> r" "coprime oldR r" "eqm m (oldS * v) oldR" "eqm m (s * v) r"
  shows "\<exists>x. modInverse_loop oldR r oldS s = (1, x) \<and> eqm m (x * v) 1"
  using assms
proof (induction oldR r oldS s rule: modInverse_loop.induct)
  case (1 oldR r oldS s)
  show ?case
  proof (cases "r = 0")
    case True
    then have "oldR = 1" using "1.prems" by simp
    then show ?thesis using True "1.prems" by (simp add: modInverse_loop.simps)
  next
    case False
    define q where "q = oldR sdiv r"
    have rem: "oldR - q * r = oldR mod r"
      using False "1.prems" by (simp add: q_def mod_simps minus_div_mult_eq_mod)
    have "eqm m (oldS * v - q * (s * v)) (oldR - q * r)" using "1.prems"(4,5) by (blast intro: eqm_intros)
    then have e: "eqm m ((oldS - q * s) * v) (oldR - q * r)" by (simp add: algebra_simps)
    have "coprime r (oldR mod r)" using "1.prems"(3) False by (simp add: coprime_commute)
    moreover have "0 \<le> oldR mod r" using False "1.prems"(2) by simp
    ultimately have "\<exists>x. modInverse_loop r (oldR - q * r) s (oldS - q * s) = (1, x) \<and> eqm m (x * v) 1"
      using "1.IH" [OF False refl] "1.prems" e rem by (simp add: q_def)
    then show ?thesis using False by (simp add: modInverse_loop.simps [of oldR r] q_def Let_def)
  qed
qed

lemma modInverse_correct:
  assumes "1 < m" "coprime v m"
  shows "\<exists>x. modInverse v m = Inr x \<and> 0 \<le> x \<and> x < m \<and> eqm m (x * v) 1"
proof -
  have "\<exists>x. modInverse_loop (v mod m) m 1 0 = (1, x) \<and> eqm m (x * v) 1"
    using assms by (intro modInverse_loop_correct) (auto simp: eqm_mod)
  then show ?thesis using assms(1) by (auto simp: modInverse_def mod_big_mod eqm_mod mod_mult_left_eq)
qed

interpretation ecvrf_inverse: modular_inverse "\<lambda>m v. modInverse v m"
  by unfold_locales (rule modInverse_correct)

end
