(* ===== verification/Ecvrf_Correct.thy ===== *)
theory Ecvrf_Correct
  imports Ecvrf_Proof
begin

section \<open>What the ECVRF prover guarantees\<close>

text \<open>
  The curve's laws as hypotheses, the hash to the curve, the addition formulas, and the theorem that a generated proof passes
  the checks of the on-chain verifier (contracts/vendor/chainlink/VRF.sol), stated over the discrete logarithms of the points.
\<close>

subsection \<open>Square roots and the hash to the curve\<close>

definition on_curve :: "int \<Rightarrow> int \<times> int \<Rightarrow> bool" where
  "on_curve p xy \<longleftrightarrow> 0 \<le> fst xy \<and> fst xy < p \<and> 0 \<le> snd xy \<and> snd xy < p \<and> eqm p (snd xy ^ 2) (fst xy ^ 3 + 7)"

lemma hex_int_nonneg: "hex_int s = Inr n \<Longrightarrow> 0 \<le> n"
proof -
  have "0 \<le> foldl (\<lambda>n c. 16 * n + int (the (hexValue c))) k cs" if "0 \<le> k" for k :: int and cs
    using that by (induction cs arbitrary: k) simp_all
  then show "hex_int s = Inr n \<Longrightarrow> 0 \<le> n" by (auto simp: hex_int_def split: if_splits)
qed

lemma hashBig_nonneg: "hashBig E b = Inr n \<Longrightarrow> 0 \<le> n"
  unfolding hashBig_def by (rule hex_int_nonneg)

lemma fieldHash_loop_range:
  assumes "fieldHash_loop C E L v = Some (Inr w)" "0 \<le> v"
  shows "0 \<le> w \<and> w < FIELD_SIZE C"
proof -
  have "0 \<le> v \<longrightarrow> Inr w = (Inr w :: int result) \<longrightarrow> 0 \<le> w \<and> w < FIELD_SIZE C"
  proof (rule fieldHash_loop.raw_induct [where P = "\<lambda>C E L v r. 0 \<le> v \<longrightarrow> r = Inr w \<longrightarrow> 0 \<le> w \<and> w < FIELD_SIZE C", OF _ assms(1)],
      goal_cases step)
    case (step f C E L v r)
    then show ?case
      by (cases "FIELD_SIZE C \<le> v") (auto simp: bindR_Inr dest!: hashBig_nonneg split: sum.splits)
  qed
  then show ?thesis using assms(2) by simp
qed

lemma fieldHash_range: "fieldHash C E L b = Some (Inr w) \<Longrightarrow> 0 \<le> w \<and> w < FIELD_SIZE C"
  by (auto simp: fieldHash_def split: sum.splits dest: fieldHash_loop_range hashBig_nonneg)

lemma square_loop_found:
  assumes "square_loop C E L x = Some (Inr x')" "0 \<le> x" "x < FIELD_SIZE C"
  shows "isSquare C (ySquared C x') \<and> 0 \<le> x' \<and> x' < FIELD_SIZE C"
proof -
  have "0 \<le> x \<and> x < FIELD_SIZE C \<longrightarrow> Inr x' = (Inr x' :: int result) \<longrightarrow>
      isSquare C (ySquared C x') \<and> 0 \<le> x' \<and> x' < FIELD_SIZE C"
  proof (rule square_loop.raw_induct [where P = "\<lambda>C E L x r. 0 \<le> x \<and> x < FIELD_SIZE C \<longrightarrow> r = Inr x' \<longrightarrow>
      isSquare C (ySquared C x') \<and> 0 \<le> x' \<and> x' < FIELD_SIZE C", OF _ assms(1)], goal_cases step)
    case (step f C E L x r)
    show ?case
    proof (cases "isSquare C (ySquared C x)")
      case True
      then show ?thesis using step(2) by auto
    next
      case False
      then show ?thesis using step by (auto dest: fieldHash_range split: sum.splits option.splits)
    qed
  qed
  then show ?thesis using assms(2,3) by simp
qed

text \<open>For a field size that is three modulo four the power computes a square root.\<close>

lemma curve_y_root:
  assumes p: "FIELD_SIZE C mod 4 = 3" "0 < FIELD_SIZE C" and sq: "isSquare C (ySquared C x)"
  shows "0 \<le> curve_y C x \<and> curve_y C x < FIELD_SIZE C \<and> even (curve_y C x) \<and>
    eqm (FIELD_SIZE C) (curve_y C x ^ 2) (x ^ 3 + 7)"
proof -
  define p where "p = FIELD_SIZE C"
  define v where "v = ySquared C x"
  define k where "k = p div 4"
  define y where "y = modPow v ((p + 1) sdiv 4) p"
  have p4: "p = 4 * k + 3" "0 \<le> k" using p unfolding p_def [symmetric] k_def by presburger+
  have v: "v = (x ^ 3 + 7) mod p" "0 \<le> v" "v < p"
    using p by (simp_all add: v_def ySquared_def mod_big_mod p_def power3_eq_cube)
  have e: "(p + 1) sdiv 4 = k + 1" "(p - 1) sdiv 2 = 2 * k + 1" using p4 by (simp_all add: sdiv_nonneg)
  have y: "y = v ^ nat (k + 1) mod p" unfolding y_def e(1) using p4 by (simp add: modPow_correct)
  have "eqm p (y ^ 2) ((v ^ nat (k + 1)) ^ 2)" unfolding eqm_mod y by (simp add: power_mod)
  also have "(v ^ nat (k + 1)) ^ 2 = v * v ^ nat (2 * k + 1)"
  proof -
    have "nat (k + 1) = Suc (nat k)" "nat (2 * k + 1) = Suc (nat k + nat k)" using p4(2) by linarith+
    then show ?thesis by (simp add: power2_eq_square power_add)
  qed
  also have "eqm p \<dots> (x ^ 3 + 7)"
  proof (cases "v = 0")
    case True
    then show ?thesis using v(1) p4 by (simp add: eqm_mod)
  next
    case False
    then have "modPow v (2 * k + 1) p = 1" using sq by (simp add: isSquare_def v_def [symmetric] p_def [symmetric] e)
    then have "v ^ nat (2 * k + 1) mod p = 1" using p4 by (simp add: modPow_correct)
    then have "eqm p (v ^ nat (2 * k + 1)) 1" using p4 by (simp add: eqm_mod)
    then have "eqm p (v * v ^ nat (2 * k + 1)) (v * 1)" by (blast intro: eqm_intros)
    also have "eqm p (v * 1) (x ^ 3 + 7)" by (simp add: v(1))
    finally show ?thesis .
  qed
  finally have root: "eqm p (y ^ 2) (x ^ 3 + 7)" .
  have "eqm p ((p - y) ^ 2) (y ^ 2)"
  proof -
    have "(p - y) ^ 2 - y ^ 2 = p * (p - 2 * y)" by (simp add: power2_eq_square algebra_simps)
    then show ?thesis by (simp add: eqm_def)
  qed
  then have root': "eqm p ((p - y) ^ 2) (x ^ 3 + 7)" using root by (blast intro: eqm_trans)
  have c: "curve_y C x = (if odd y then p - y else y)" by (simp add: curve_y_def y_def v_def p_def Let_def)
  have range: "0 \<le> y" "y < p" using p4 by (simp_all add: y)
  have "odd p" using p4 by simp
  show ?thesis
    unfolding c p_def [symmetric]
    using root root' range \<open>odd p\<close> by (cases "odd y") (auto simp: order.strict_iff_order)
qed

lemma hashToCurve_inv:
  assumes "hashToCurve C E L pk seed = Some (Inr hash)" "FIELD_SIZE C mod 4 = 3" "0 < FIELD_SIZE C"
  shows "\<exists>xy. on_curve (FIELD_SIZE C) xy \<and> even (snd xy) \<and> pt_fromAffine L xy = Inr hash"
proof -
  obtain x0 x where x0: "0 \<le> x0" "x0 < FIELD_SIZE C" "square_loop C E L x0 = Some (Inr x)"
      and h: "pt_fromAffine L (x, curve_y C x) = Inr hash"
    using assms(1) by (auto simp: hashToCurve_def split: sum.splits option.splits dest: fieldHash_range)
  have "on_curve (FIELD_SIZE C) (x, curve_y C x) \<and> even (curve_y C x)"
    using square_loop_found [OF x0(3,1,2)] curve_y_root [OF assms(2,3), of x] by (auto simp: on_curve_def)
  then show ?thesis using h by (intro exI [of _ "(x, curve_y C x)"]) simp
qed

subsection \<open>Addition\<close>

text \<open>\<open>chord p a b c l\<close>: \<open>c\<close> is the third point of the line of slope \<open>l\<close> through \<open>a\<close> and \<open>b\<close>, reflected.\<close>

definition chord :: "int \<Rightarrow> int \<times> int \<Rightarrow> int \<times> int \<Rightarrow> int \<times> int \<Rightarrow> int \<Rightarrow> bool" where
  "chord p a b c l \<longleftrightarrow> eqm p (l * (fst b - fst a)) (snd b - snd a) \<and> eqm p (fst c) (l ^ 2 - fst a - fst b) \<and>
     eqm p (snd c) (l * (fst a - fst c) - snd a)"

lemma mod_big_eqm: "0 < p \<Longrightarrow> eqm p (mod_big v p) v"
  by (simp add: mod_big_mod)

lemma projectiveSub_eqm:
  assumes "0 < p" "eqm p x1 X1" "eqm p z1 Z1" "eqm p x2 X2" "eqm p z2 Z2" "projectiveSub p x1 z1 x2 z2 = (x3, z3)"
  shows "eqm p x3 (Z2 * X1 - X2 * Z1)" "eqm p z3 (Z1 * Z2)"
proof -
  have "eqm p ((p - x2) * z1) (- (X2 * Z1))"
  proof -
    have "eqm p ((p - x2) * z1) (- (x2 * z1))" by (simp add: eqm_def algebra_simps)
    moreover have "eqm p (0 - x2 * z1) (0 - X2 * Z1)" by (intro eqm_intros assms)
    ultimately show ?thesis by (simp add: eqm_trans)
  qed
  moreover have "eqm p (z2 * x1) (Z2 * X1)" by (intro eqm_intros assms)
  ultimately have "eqm p (z2 * x1 + (p - x2) * z1) (Z2 * X1 + - (X2 * Z1))" by (blast intro: eqm_add)
  then show "eqm p x3 (Z2 * X1 - X2 * Z1)" using assms(1,6)
    by (auto simp: projectiveSub_def Let_def mod_big_mod eqm_mod mod_add_eq)
  have "eqm p (z1 * z2) (Z1 * Z2)" by (intro eqm_intros assms)
  then show "eqm p z3 (Z1 * Z2)" using assms(1,6) by (auto simp: projectiveSub_def Let_def mod_big_mod)
qed

lemma projectiveMul_eqm:
  assumes "0 < p" "eqm p x1 X1" "eqm p z1 Z1" "eqm p x2 X2" "eqm p z2 Z2" "projectiveMul p x1 z1 x2 z2 = (x3, z3)"
  shows "eqm p x3 (X1 * X2)" "eqm p z3 (Z1 * Z2)"
  using assms by (auto simp: projectiveMul_def mod_big_mod intro: eqm_intros)

theorem projectiveECAdd_chord:
  assumes p: "field_modulus p" and x: "\<not> eqm p (fst a) (fst b)" and r: "projectiveECAdd p a b = (X, Y, Z)"
    and c: "chord p a b c l"
  shows "coprime Z p \<and> eqm p X (fst c * Z) \<and> eqm p Y (snd c * Z)"
proof -
  obtain px py qx qy cx cy where ab: "a = (px, py)" "b = (qx, qy)" "c = (cx, cy)" by (metis surj_pair)
  define n where "n = qy - py"
  define d where "d = qx - px"
  have pos: "0 < p" using p field_modulus_gt [of p] by linarith
  obtain sx1 dx1 where s1: "projectiveMul p (mod_big n p) (mod_big d p) (mod_big n p) (mod_big d p) = (sx1, dx1)" by (metis surj_pair)
  obtain sx2 dx2 where s2: "projectiveSub p sx1 dx1 px 1 = (sx2, dx2)" by (metis surj_pair)
  obtain sx dx where s3: "projectiveSub p sx2 dx2 qx 1 = (sx, dx)" by (metis surj_pair)
  obtain sy1 dy1 where s4: "projectiveSub p px 1 sx dx = (sy1, dy1)" by (metis surj_pair)
  obtain sy2 dy2 where s5: "projectiveMul p sy1 dy1 (mod_big n p) (mod_big d p) = (sy2, dy2)" by (metis surj_pair)
  obtain sy dy where s6: "projectiveSub p sy2 dy2 py 1 = (sy, dy)" by (metis surj_pair)
  note l = mod_big_eqm [OF pos, of n] mod_big_eqm [OF pos, of d]
  note m1 = projectiveMul_eqm [OF pos l(1,2) l(1,2) s1]
  note m2 = projectiveSub_eqm [OF pos m1 eqm_refl eqm_refl s2]
  note m3 = projectiveSub_eqm [OF pos m2 eqm_refl eqm_refl s3]
  note m4 = projectiveSub_eqm [OF pos eqm_refl eqm_refl m3 s4]
  note m5 = projectiveMul_eqm [OF pos m4 l s5]
  note m6 = projectiveSub_eqm [OF pos m5 eqm_refl eqm_refl s6]
  have dx: "eqm p dx (d * d)" using m3(2) by simp
  have dy: "eqm p dy (d * d * d)" using m6(2) by simp
  have slope: "eqm p (l * d) n" "eqm p cx (l ^ 2 - px - qx)" "eqm p cy (l * (px - cx) - py)"
    using c by (simp_all add: chord_def ab n_def d_def)
  have "eqm p (cx * (d * d)) ((l ^ 2 - px - qx) * (d * d))" by (intro eqm_mult slope eqm_refl)
  also have "(l ^ 2 - px - qx) * (d * d) = (l * d) * (l * d) - (px + qx) * (d * d)" by algebra
  also have "eqm p \<dots> (n * n - (px + qx) * (d * d))" by (intro eqm_diff eqm_mult slope eqm_refl)
  finally have cx: "eqm p (cx * (d * d)) (n * n - (px + qx) * (d * d))" .
  have sx: "eqm p sx (cx * (d * d))"
    using eqm_trans [OF m3(1) eqm_eq_trans [OF eqm_sym [OF eqm_eq_trans [OF cx]]]] by (simp add: algebra_simps)
  have "eqm p (cy * (d * d * d)) ((l * (px - cx) - py) * (d * d * d))" by (intro eqm_mult slope eqm_refl)
  also have "(l * (px - cx) - py) * (d * d * d) = (px * (d * d) - cx * (d * d)) * (l * d) - py * (d * d * d)" by algebra
  also have "eqm p \<dots> ((px * (d * d) - (n * n - (px + qx) * (d * d))) * n - py * (d * d * d))"
    by (intro eqm_diff eqm_mult slope cx eqm_refl)
  finally have cy: "eqm p (cy * (d * d * d)) ((px * (d * d) - (n * n - (px + qx) * (d * d))) * n - py * (d * d * d))" .
  have sy: "eqm p sy (cy * (d * d * d))"
    using eqm_trans [OF m6(1) eqm_eq_trans [OF eqm_sym [OF eqm_eq_trans [OF cy]]]] by (simp add: algebra_simps)
  have "\<not> eqm p d 0"
    using x by (metis ab(1,2) d_def diff_0_right dvd_diff_commute eqm_def fst_conv)
  then have "coprime d p" using p by (intro field_modulus_coprime) (simp_all add: eqm_mod)
  then have cop: "coprime (d * d) p" "coprime (d * d * d) p" by simp_all
  have res: "projectiveECAdd p a b = (if dx \<noteq> dy then (mod_big (sx * dy) p, mod_big (sy * dx) p, mod_big (dx * dy) p) else (sx, sy, dx))"
    by (simp add: projectiveECAdd_def ab Let_def s1 s2 s3 s4 s5 s6 n_def [symmetric] d_def [symmetric] del: split_paired_All)
  have cop': "coprime k p" if "eqm p k k'" "coprime k' p" for k k'
    using that pos by (metis coprime_mod_left_iff eqm_mod less_irrefl)
  show ?thesis
  proof (cases "dx = dy")
    case True
    then have "X = sx" "Y = sy" "Z = dx" using r res by simp_all
    moreover have "eqm p sx (cx * dx)" using sx dx by (meson eqm_mult eqm_refl eqm_sym eqm_trans)
    moreover have "eqm p sy (cy * dx)" using sy dy True by (metis eqm_mult eqm_refl eqm_sym eqm_trans)
    ultimately show ?thesis using cop' [OF dx cop(1)] by (simp add: ab)
  next
    case False
    then have R: "X = mod_big (sx * dy) p" "Y = mod_big (sy * dx) p" "Z = mod_big (dx * dy) p" using r res by simp_all
    have Z: "eqm p Z (d * d * (d * d * d))" unfolding R using mod_big_eqm [OF pos] dx dy by (meson eqm_mult eqm_trans)
    have "eqm p X (cx * (d * d) * (d * d * d))" unfolding R using mod_big_eqm [OF pos] sx dy by (meson eqm_mult eqm_trans)
    moreover have "eqm p (cx * (d * d) * (d * d * d)) (cx * Z)"
      using eqm_mult [OF eqm_refl eqm_sym [OF Z], of cx] by (simp add: mult.assoc)
    moreover have "eqm p Y (cy * (d * d * d) * (d * d))" unfolding R using mod_big_eqm [OF pos] sy dx by (meson eqm_mult eqm_trans)
    moreover have "eqm p (cy * (d * d * d) * (d * d)) (cy * Z)"
      using eqm_mult [OF eqm_refl eqm_sym [OF Z], of cy] by (simp add: mult.assoc mult.left_commute)
    moreover have "coprime (d * d * (d * d * d)) p" using cop by simp
    ultimately show ?thesis using cop' [OF Z] by (auto simp: ab intro: eqm_trans)
  qed
qed

subsection \<open>The curve's laws\<close>

text \<open>
  What the code relies on of the curve library: the points it computes with form a group of prime order, written by the
  discrete logarithms \<open>ex\<close>; \<open>multiply\<close> takes scalars from one to the order; a point other than zero has affine coordinates on the curve, any pair on the curve is a
  point, and points with different x coordinates add by the chord.
\<close>

definition curve_laws :: "curve_constants \<Rightarrow> 'p ecvrf_library \<Rightarrow> (int \<Rightarrow> 'p) \<Rightarrow> bool" where
  "curve_laws C L ex \<longleftrightarrow> field_modulus (FIELD_SIZE C) \<and> FIELD_SIZE C mod 4 = 3 \<and> field_modulus (GROUP_ORDER C) \<and>
     pt_BASE L = ex 1 \<and> (\<forall>a b. ex a = ex b \<longleftrightarrow> eqm (GROUP_ORDER C) a b) \<and>
     (\<forall>a k. 0 < k \<longrightarrow> k < GROUP_ORDER C \<longrightarrow> pt_multiply L (ex a) k = Inr (ex (a * k))) \<and>
     (\<forall>P k Q. pt_multiply L P k = Inr Q \<longrightarrow> 0 < k \<and> k < GROUP_ORDER C) \<and>
     (\<forall>xy P. on_curve (FIELD_SIZE C) xy \<longrightarrow> pt_fromAffine L xy = Inr P \<longrightarrow> (\<exists>a. P = ex a \<and> \<not> eqm (GROUP_ORDER C) a 0)) \<and>
     (\<forall>a. \<not> eqm (GROUP_ORDER C) a 0 \<longrightarrow> on_curve (FIELD_SIZE C) (pt_toAffine L (ex a))) \<and>
     (\<forall>a b. \<not> eqm (GROUP_ORDER C) a 0 \<longrightarrow> \<not> eqm (GROUP_ORDER C) b 0 \<longrightarrow>
        fst (pt_toAffine L (ex a)) \<noteq> fst (pt_toAffine L (ex b)) \<longrightarrow>
        on_curve (FIELD_SIZE C) (pt_toAffine L (ex (a + b))) \<and>
        (\<exists>l. chord (FIELD_SIZE C) (pt_toAffine L (ex a)) (pt_toAffine L (ex b)) (pt_toAffine L (ex (a + b))) l))"

lemma curve_lawsD:
  assumes "curve_laws C L ex"
  shows "field_modulus (FIELD_SIZE C)" "FIELD_SIZE C mod 4 = 3" "field_modulus (GROUP_ORDER C)" "pt_BASE L = ex 1"
    "ex a = ex b \<longleftrightarrow> eqm (GROUP_ORDER C) a b"
    "0 < k \<Longrightarrow> k < GROUP_ORDER C \<Longrightarrow> pt_multiply L (ex a) k = Inr (ex (a * k))"
    "pt_multiply L P k = Inr Q \<Longrightarrow> 0 < k \<and> k < GROUP_ORDER C"
    "on_curve (FIELD_SIZE C) xy \<Longrightarrow> pt_fromAffine L xy = Inr P \<Longrightarrow> \<exists>a. P = ex a \<and> \<not> eqm (GROUP_ORDER C) a 0"
    "\<not> eqm (GROUP_ORDER C) a 0 \<Longrightarrow> on_curve (FIELD_SIZE C) (pt_toAffine L (ex a))"
    "\<not> eqm (GROUP_ORDER C) a 0 \<Longrightarrow> \<not> eqm (GROUP_ORDER C) b 0 \<Longrightarrow>
        fst (pt_toAffine L (ex a)) \<noteq> fst (pt_toAffine L (ex b)) \<Longrightarrow>
        on_curve (FIELD_SIZE C) (pt_toAffine L (ex (a + b))) \<and>
        (\<exists>l. chord (FIELD_SIZE C) (pt_toAffine L (ex a)) (pt_toAffine L (ex b)) (pt_toAffine L (ex (a + b))) l)"
  using assms unfolding curve_laws_def by blast+

lemma field_modulus_mult: "field_modulus n \<Longrightarrow> \<not> eqm n a 0 \<Longrightarrow> \<not> eqm n b 0 \<Longrightarrow> \<not> eqm n (a * b) 0"
  by (metis coprime_mult_left_iff coprime_not_eqm_0 eqm_mod field_modulus_coprime field_modulus_gt mod_0)

text \<open>
  \<open>accepted\<close>: the checks of \<open>_verifyVRFProof\<close> on a proof for the seed \<open>seed\<close>, where \<open>_verifyLinearCombinationWithGenerator\<close> and
  \<open>_ecmulVerify\<close> decide equations between multiples of points, given by their discrete logarithms.
\<close>

definition accepted :: "curve_constants \<Rightarrow> ethers \<Rightarrow> 'p ecvrf_library \<Rightarrow> (int \<Rightarrow> 'p) \<Rightarrow> vrf_proof \<Rightarrow> int \<Rightarrow> bool" where
  "accepted C E L ex pf seed \<longleftrightarrow> (\<exists>k g h.
     pf_pk pf = pt_toAffine L (ex k) \<and> pf_gamma pf = pt_toAffine L (ex g) \<and> hashToCurve C E L (ex k) seed = Some (Inr (ex h)) \<and>
     on_curve (FIELD_SIZE C) (pf_pk pf) \<and> on_curve (FIELD_SIZE C) (pf_gamma pf) \<and>
     on_curve (FIELD_SIZE C) (pf_cGammaWitness pf) \<and> on_curve (FIELD_SIZE C) (pf_sHashWitness pf) \<and>
     ethereumAddress E L (ex (pf_c pf * k + pf_s pf)) = Inr (pf_uWitness pf) \<and>
     fst (pf_cGammaWitness pf) \<noteq> fst (pf_sHashWitness pf) \<and>
     pf_cGammaWitness pf = pt_toAffine L (ex (pf_c pf * g)) \<and> pf_sHashWitness pf = pt_toAffine L (ex (pf_s pf * h)) \<and>
     (case projectiveECAdd (FIELD_SIZE C) (pf_cGammaWitness pf) (pf_sHashWitness pf) of (x, y, z) \<Rightarrow>
        z * pf_zInv pf mod FIELD_SIZE C = 1 \<and>
        challenge E L (pt_toAffine L (ex h)) (pf_pk pf) (pf_gamma pf) (pf_uWitness pf)
          (x * pf_zInv pf mod FIELD_SIZE C, y * pf_zInv pf mod FIELD_SIZE C) = Inr (pf_c pf)))"

lemma attempt_loop_generated:
  assumes "attempt_loop C E L secret seed wireSeed pk hash gamma nonce attempt = Some (Inr r)"
  shows "\<exists>k. try_nonce C E L secret wireSeed pk hash gamma k = Inr (Generated r)"
proof -
  have "Inr r = (Inr r :: generated_proof result) \<longrightarrow> (\<exists>k. try_nonce C E L secret wireSeed pk hash gamma k = Inr (Generated r))"
  proof (rule attempt_loop.raw_induct [where P = "\<lambda>C E L secret seed wireSeed pk hash gamma nonce attempt y.
      y = Inr r \<longrightarrow> (\<exists>k. try_nonce C E L secret wireSeed pk hash gamma k = Inr (Generated r))", OF _ assms], goal_cases step)
    case (step f C E L secret seed wireSeed pk hash gamma nonce attempt y)
    then show ?case by (auto split: sum.splits nonce_outcome.splits if_splits simp: bindR_Inr)
  qed
  then show ?thesis by simp
qed

lemma try_nonce_generated:
  assumes "try_nonce C E L secret wireSeed pk hash gamma proofNonce = Inr (Generated r)"
  obtains u uWitness v c cG sH where "0 < proofNonce" "proofNonce < GROUP_ORDER C"
    "pt_multiply L (pt_BASE L) proofNonce = Inr u" "ethereumAddress E L u = Inr uWitness" "pt_multiply L hash proofNonce = Inr v"
    "scalarFromCurvePoints E L hash pk gamma uWitness v = Inr c"
    "pt_multiply L gamma (mod_big c (GROUP_ORDER C)) = Inr cG"
    "pt_multiply L hash (mod_big (proofNonce - mod_big (c * secret) (GROUP_ORDER C)) (GROUP_ORDER C)) = Inr sH"
    "fst (pt_toAffine L cG) \<noteq> fst (pt_toAffine L sH)"
    "finish_proof C E L wireSeed pk gamma c (mod_big (proofNonce - mod_big (c * secret) (GROUP_ORDER C)) (GROUP_ORDER C))
       uWitness cG sH = Inr r"
  using assms unfolding try_nonce_def
  by (auto simp: bindR_Inr Let_def not_le split: if_splits)

text \<open>The witnesses that a nonce leads to satisfy the verifier's equations.\<close>

lemma affine_sum:
  assumes laws: "curve_laws C L ex" and nz: "\<not> eqm (GROUP_ORDER C) a 0" "\<not> eqm (GROUP_ORDER C) b 0"
    and ne: "fst (pt_toAffine L (ex a)) \<noteq> fst (pt_toAffine L (ex b))"
    and r: "projectiveECAdd (FIELD_SIZE C) (pt_toAffine L (ex a)) (pt_toAffine L (ex b)) = (x, y, z)"
    and inv: "modInverse z (FIELD_SIZE C) = Inr zInv"
  shows "z * zInv mod FIELD_SIZE C = 1 \<and> (x * zInv mod FIELD_SIZE C, y * zInv mod FIELD_SIZE C) = pt_toAffine L (ex (a + b))"
proof -
  let ?p = "FIELD_SIZE C"
  note law = curve_lawsD [OF laws]
  have p: "1 < ?p" using law(1) by (rule field_modulus_gt)
  obtain l where c: "chord ?p (pt_toAffine L (ex a)) (pt_toAffine L (ex b)) (pt_toAffine L (ex (a + b))) l"
      and on: "on_curve ?p (pt_toAffine L (ex (a + b)))" "on_curve ?p (pt_toAffine L (ex a))" "on_curve ?p (pt_toAffine L (ex b))"
    using law(10) [OF nz ne] law(9) nz by blast
  have "\<not> eqm ?p (fst (pt_toAffine L (ex a))) (fst (pt_toAffine L (ex b)))"
    using ne on(2,3) eqm_small by (auto simp: on_curve_def)
  from projectiveECAdd_chord [OF law(1) this r c]
  have xy: "coprime z ?p" "eqm ?p x (fst (pt_toAffine L (ex (a + b))) * z)" "eqm ?p y (snd (pt_toAffine L (ex (a + b))) * z)"
    by blast+
  have zi: "eqm ?p (zInv * z) 1" using modInverse_correct [OF p xy(1)] inv by auto
  have "eqm ?p (k * zInv) m" if "eqm ?p k (m * z)" for k m
  proof -
    have "eqm ?p (k * zInv) (m * z * zInv)" using that by (intro eqm_mult eqm_refl)
    also have "m * z * zInv = m * (zInv * z)" by simp
    also have "eqm ?p \<dots> (m * 1)" using zi by (intro eqm_mult eqm_refl)
    finally show ?thesis by simp
  qed
  then have "x * zInv mod ?p = fst (pt_toAffine L (ex (a + b)))" "y * zInv mod ?p = snd (pt_toAffine L (ex (a + b)))"
    using xy(2,3) on(1) by (auto simp: eqm_mod on_curve_def)
  moreover have "z * zInv mod ?p = 1" using zi p by (simp add: eqm_mod mult.commute)
  ultimately show ?thesis by simp
qed

lemma finish_proof_Inr:
  assumes "finish_proof C E L wireSeed pk gamma c s uWitness cG sH = Inr r"
  obtains x y z where "projectiveECAdd (FIELD_SIZE C) (pt_toAffine L cG) (pt_toAffine L sH) = (x, y, z)"
    "modInverse z (FIELD_SIZE C) = Inr (pf_zInv (gp_proof r))" "output_of E L gamma = Inr (gp_output r)"
    "pf_pk (gp_proof r) = pt_toAffine L pk" "pf_gamma (gp_proof r) = pt_toAffine L gamma" "pf_c (gp_proof r) = c"
    "pf_s (gp_proof r) = s" "pf_seed (gp_proof r) = wireSeed" "pf_uWitness (gp_proof r) = uWitness"
    "pf_cGammaWitness (gp_proof r) = pt_toAffine L cG" "pf_sHashWitness (gp_proof r) = pt_toAffine L sH"
  using assms unfolding finish_proof_def by (auto simp: bindR_Inr split: prod.splits)

lemma try_nonce_accepted:
  assumes laws: "curve_laws C L ex" and h: "hashToCurve C E L (ex k) seed = Some (Inr (ex h))" "\<not> eqm (GROUP_ORDER C) h 0"
    and k: "0 < k" "k < GROUP_ORDER C"
    and t: "try_nonce C E L k wireSeed (ex k) (ex h) (ex (h * k)) w = Inr (Generated r)"
  shows "accepted C E L ex (gp_proof r) seed \<and> pf_seed (gp_proof r) = wireSeed \<and> pf_pk (gp_proof r) = pt_toAffine L (ex k) \<and>
    pf_gamma (gp_proof r) = pt_toAffine L (ex (h * k)) \<and> output_of E L (ex (h * k)) = Inr (gp_output r)"
proof -
  note law = curve_lawsD [OF laws]
  let ?n = "GROUP_ORDER C"
  have n: "1 < ?n" "0 < ?n" using law(3) field_modulus_gt [of ?n] by linarith+
  obtain u uWitness v c cG sH where w: "0 < w" "w < ?n" "pt_multiply L (pt_BASE L) w = Inr u"
      "ethereumAddress E L u = Inr uWitness" "pt_multiply L (ex h) w = Inr v"
      "scalarFromCurvePoints E L (ex h) (ex k) (ex (h * k)) uWitness v = Inr c"
      "pt_multiply L (ex (h * k)) (mod_big c ?n) = Inr cG"
      "pt_multiply L (ex h) (mod_big (w - mod_big (c * k) ?n) ?n) = Inr sH"
      "fst (pt_toAffine L cG) \<noteq> fst (pt_toAffine L sH)"
      "finish_proof C E L wireSeed (ex k) (ex (h * k)) c (mod_big (w - mod_big (c * k) ?n) ?n) uWitness cG sH = Inr r"
    by (rule try_nonce_generated [OF t])
  define s where "s = mod_big (w - mod_big (c * k) ?n) ?n"
  have s: "eqm ?n s (w - c * k)" "0 < s" "s < ?n"
    using law(7) [OF w(8)] n by (auto simp: s_def mod_big_mod eqm_mod mod_diff_right_eq)
  have c: "eqm ?n (mod_big c ?n) c" "0 < mod_big c ?n" "mod_big c ?n < ?n"
    using law(7) [OF w(7)] n by (auto simp: mod_big_mod)
  have u: "u = ex w" "v = ex (h * w)" using w(1-3,5) law(4,6) by auto
  have cG: "cG = ex (c * (h * k))"
    using w(7) law(6) [OF c(2,3)] law(5) c(1) eqm_mult [OF eqm_refl c(1), of "h * k"] by (auto simp: ac_simps)
  have sH: "sH = ex (s * h)" using w(8) law(6) [OF s(2,3)] by (simp add: s_def [symmetric] mult.commute)
  have k0: "\<not> eqm ?n k 0" and s0: "\<not> eqm ?n s 0" and c0: "\<not> eqm ?n c 0"
    using k s(2,3) c n by (auto simp: eqm_mod mod_big_mod)
  have nz: "\<not> eqm ?n (h * k) 0" "\<not> eqm ?n (c * (h * k)) 0" "\<not> eqm ?n (s * h) 0"
    using field_modulus_mult [OF law(3)] h(2) k0 s0 c0 by blast+
  have sk: "eqm ?n (c * k + s) w"
    using eqm_add [OF eqm_refl s(1), of "c * k"] by simp
  have sum: "ex (c * (h * k) + s * h) = ex (h * w)"
    using law(5) eqm_mult [OF sk eqm_refl, of h] by (simp add: algebra_simps)
  obtain x y z where f: "projectiveECAdd (FIELD_SIZE C) (pt_toAffine L cG) (pt_toAffine L sH) = (x, y, z)"
      "modInverse z (FIELD_SIZE C) = Inr (pf_zInv (gp_proof r))" "output_of E L (ex (h * k)) = Inr (gp_output r)"
      "pf_pk (gp_proof r) = pt_toAffine L (ex k)" "pf_gamma (gp_proof r) = pt_toAffine L (ex (h * k))" "pf_c (gp_proof r) = c"
      "pf_s (gp_proof r) = s" "pf_seed (gp_proof r) = wireSeed" "pf_uWitness (gp_proof r) = uWitness"
      "pf_cGammaWitness (gp_proof r) = pt_toAffine L cG" "pf_sHashWitness (gp_proof r) = pt_toAffine L sH"
    by (rule finish_proof_Inr [OF w(10) [folded s_def]])
  have aff: "z * pf_zInv (gp_proof r) mod FIELD_SIZE C = 1 \<and>
      (x * pf_zInv (gp_proof r) mod FIELD_SIZE C, y * pf_zInv (gp_proof r) mod FIELD_SIZE C) = pt_toAffine L (ex (h * w))"
    using affine_sum [OF laws nz(2,3) _ f(1) [unfolded cG sH] f(2)] w(9) by (simp add: cG sH sum)
  have "ethereumAddress E L (ex (c * k + s)) = Inr uWitness" using w(4) law(5) sk by (metis u(1))
  moreover have "challenge E L (pt_toAffine L (ex h)) (pt_toAffine L (ex k)) (pt_toAffine L (ex (h * k))) uWitness
      (pt_toAffine L (ex (h * w))) = Inr c"
    using w(6) by (simp add: scalarFromCurvePoints_def u)
  ultimately have "accepted C E L ex (gp_proof r) seed"
    unfolding accepted_def
    by (intro exI [of _ k] exI [of _ "h * k"] exI [of _ h])
      (use h(1) law(9) k0 nz aff w(9) f in \<open>simp add: cG sH\<close>)
  then show ?thesis using f by simp
qed

lemma generateProof_steps:
  assumes laws: "curve_laws C L ex" and g: "generateProof C E L secret seed wireSeed nonce = Some (Inr r)"
  obtains h w where "0 < secret" "secret < GROUP_ORDER C" "hashToCurve C E L (ex secret) seed = Some (Inr (ex h))"
    "\<not> eqm (GROUP_ORDER C) h 0" "try_nonce C E L secret wireSeed (ex secret) (ex h) (ex (h * secret)) w = Inr (Generated r)"
proof -
  note law = curve_lawsD [OF laws]
  have p: "0 < FIELD_SIZE C" using law(1) field_modulus_gt [of "FIELD_SIZE C"] by linarith
  have k: "0 < secret" "secret < GROUP_ORDER C" using g by (auto simp: generateProof_def split: if_splits)
  have pk: "pt_multiply L (pt_BASE L) secret = Inr (ex secret)" using law(4,6) k by simp
  obtain hash gamma where hg: "hashToCurve C E L (ex secret) seed = Some (Inr hash)" "pt_multiply L hash secret = Inr gamma"
      "attempt_loop C E L secret seed wireSeed (ex secret) hash gamma nonce 0 = Some (Inr r)"
    using g k by (auto simp: generateProof_def pk split: if_splits sum.splits option.splits)
  obtain h where h: "hash = ex h" "\<not> eqm (GROUP_ORDER C) h 0"
    using hashToCurve_inv [OF hg(1) law(2) p] law(8) by blast
  have "gamma = ex (h * secret)" using hg(2) law(6) [OF k, of h] by (simp add: h)
  then show thesis using that k h hg attempt_loop_generated [OF hg(3)] by blast
qed

subsection \<open>A small instance\<close>

text \<open>For evaluation: a continuation is only entered with the value that is bound.\<close>

lemma bindR_case [code_unfold]: "bindR m f = (case m of Inl e \<Rightarrow> Inl e | Inr x \<Rightarrow> f x)"
  by (cases m) simp_all

lemma projectiveECAdd_code [code]:
  "projectiveECAdd p a b = (let lx = mod_big (snd b - snd a) p; lz = mod_big (fst b - fst a) p;
     s1 = projectiveMul p lx lz lx lz; s2 = projectiveSub p (fst s1) (snd s1) (fst a) 1; s = projectiveSub p (fst s2) (snd s2) (fst b) 1;
     t1 = projectiveSub p (fst a) 1 (fst s) (snd s); t2 = projectiveMul p (fst t1) (snd t1) lx lz;
     t = projectiveSub p (fst t2) (snd t2) (snd a) 1
     in if snd s \<noteq> snd t then (mod_big (fst s * snd t) p, mod_big (fst t * snd s) p, mod_big (snd s * snd t) p)
        else (fst s, fst t, snd s))"
  by (simp add: projectiveECAdd_def split_beta Let_def)

text \<open>
  The curve \<open>y\<^sup>2 = x\<^sup>3 + 7\<close> over the field of 43 elements has 31 points, a prime number; its multiples of \<open>(2, 12)\<close> are tabulated. The hash is a
  sum of bytes below the field size.
\<close>

definition small_curve :: curve_constants where
  "small_curve = \<lparr>FIELD_SIZE = 43, GROUP_ORDER = 31\<rparr>"

definition small_points :: "(int \<times> int) list" where
  "small_points = [(0, 0), (2, 12), (7, 7), (35, 21), (21, 18), (12, 12), (29, 31), (25, 18), (32, 40), (20, 40), (42, 7), (40, 25),
     (37, 36), (13, 21), (34, 40), (38, 21), (38, 22), (34, 3), (13, 22), (37, 7), (40, 18), (42, 36), (20, 3), (32, 3), (25, 25),
     (29, 12), (12, 31), (21, 25), (35, 22), (7, 36), (2, 31)]"

definition small_affine :: "int \<Rightarrow> int \<times> int" where
  "small_affine a = small_points ! nat a"

definition small_ethers :: ethers where
  "small_ethers = sample_ethers\<lparr>getBytes := (\<lambda>s. Inr (map (\<lambda>c. word_of_int (of_char c)) s)),
     toUtf8Bytes := map (\<lambda>c. word_of_int (of_char c)),
     keccak256 := (\<lambda>b. ''0x'' @ hexByte (word_of_int ((5 * sum_list (map uint b) + 3) mod 43)))\<rparr>"

definition small_library :: "int ecvrf_library" where
  "small_library = \<lparr>pt_BASE = 1, pt_multiply = (\<lambda>a k. if 0 < k \<and> k < 31 then Inr (a * k mod 31) else Inl ''invalid scalar''),
     pt_fromAffine = (\<lambda>xy. case filter (\<lambda>i. small_points ! i = xy) [1..<31] of [] \<Rightarrow> Inl ''bad point'' | i # _ \<Rightarrow> Inr (int i)),
     pt_toAffine = small_affine, toBeHex = (\<lambda>v. Inr [char_of (nat v)]), zeroPadValue = (\<lambda>h n. Inr h),
     encode_point = (\<lambda>xy. Inr [of_int (fst xy), of_int (snd xy)]), encode_scheme_point = (\<lambda>s xy. Inr [of_int (fst xy), of_int (snd xy)]),
     hmac_sha256 = (\<lambda>k m. [hexDigit (nat ((sum_list (map uint (k @ m)) + 1) mod 16))])\<rparr>"

definition small_ex :: "int \<Rightarrow> int" where
  "small_ex a = a mod 31"

definition small_slope :: "int \<times> int \<Rightarrow> int \<times> int \<Rightarrow> int" where
  "small_slope a b = (case modInverse (fst b - fst a) 43 of Inr i \<Rightarrow> (snd b - snd a) * i mod 43 | Inl _ \<Rightarrow> 0)"

definition small_chord_check :: "nat \<Rightarrow> nat \<Rightarrow> bool" where
  "small_chord_check i j = (let a = small_points ! i; b = small_points ! j; c = small_points ! ((i + j) mod 31); l = small_slope a b in
     fst a = fst b \<or> on_curve 43 c \<and> chord 43 a b c l)"

lemma small_chords: "list_all (\<lambda>i. list_all (small_chord_check i) [1..<31]) [1..<31]"
  by code_simp

lemma field_modulus_check: "1 < m \<Longrightarrow> list_all (\<lambda>k. gcd k m = 1) [1..m - 1] \<Longrightarrow> field_modulus m"
  by (auto simp: field_modulus_def list_all_iff coprime_iff_gcd_eq_1)

lemma field_modulus_43: "field_modulus 43"
  by (rule field_modulus_check) (simp, code_simp)

lemma field_modulus_31: "field_modulus 31"
  by (rule field_modulus_check) (simp, code_simp)

lemma small_ex_nat: "\<not> eqm 31 a 0 \<Longrightarrow> nat (small_ex a) \<in> set [1..<31] \<and> small_ex a = int (nat (small_ex a))"
  using pos_mod_bound [of 31 a] pos_mod_sign [of 31 a] by (auto simp: small_ex_def eqm_mod nat_less_iff)

lemma small_points_on_curve: "list_all (\<lambda>i. on_curve 43 (small_points ! i)) [1..<31]"
  by code_simp

lemma small_fromAffine: "pt_fromAffine small_library xy = Inr P \<Longrightarrow> \<exists>i \<in> set [1..<31]. P = int i"
proof -
  assume a: "pt_fromAffine small_library xy = Inr P"
  obtain i js where f: "filter (\<lambda>i. small_points ! i = xy) [1..<31] = i # js" and "P = int i"
    using a by (auto simp: small_library_def split: list.splits)
  moreover have "i \<in> set [1..<31]" using arg_cong [OF f, of set] by auto
  ultimately show ?thesis by blast
qed

lemma small_laws: "curve_laws small_curve small_library small_ex"
  unfolding curve_laws_def
proof (intro conjI allI impI)
  show "field_modulus (FIELD_SIZE small_curve)" "field_modulus (GROUP_ORDER small_curve)" "FIELD_SIZE small_curve mod 4 = 3"
    by (simp_all add: small_curve_def field_modulus_43 field_modulus_31)
  show "pt_BASE small_library = small_ex 1" by (simp add: small_library_def small_ex_def)
  show "small_ex a = small_ex b \<longleftrightarrow> eqm (GROUP_ORDER small_curve) a b" for a b
    by (simp add: small_ex_def small_curve_def eqm_mod)
  show "pt_multiply small_library (small_ex a) k = Inr (small_ex (a * k))" if "0 < k" "k < GROUP_ORDER small_curve" for a k
    using that by (simp add: small_library_def small_ex_def small_curve_def mod_mult_left_eq)
  show "0 < k" "k < GROUP_ORDER small_curve" if "pt_multiply small_library P k = Inr Q" for P k Q
    using that by (auto simp: small_library_def small_curve_def split: if_splits)
  show "\<exists>a. P = small_ex a \<and> \<not> eqm (GROUP_ORDER small_curve) a 0" if at: "pt_fromAffine small_library xy = Inr P" for xy P
  proof -
    obtain i where "i \<in> set [1..<31]" "P = int i" using small_fromAffine [OF at] by blast
    then show ?thesis by (intro exI [of _ "int i"]) (simp add: small_ex_def small_curve_def eqm_mod)
  qed
  show "on_curve (FIELD_SIZE small_curve) (pt_toAffine small_library (small_ex a))" if "\<not> eqm (GROUP_ORDER small_curve) a 0" for a
    using small_points_on_curve small_ex_nat [of a] that
    by (simp add: small_curve_def small_library_def small_affine_def list_all_iff)
  fix a b
  assume nz: "\<not> eqm (GROUP_ORDER small_curve) a 0" "\<not> eqm (GROUP_ORDER small_curve) b 0"
    and ne: "fst (pt_toAffine small_library (small_ex a)) \<noteq> fst (pt_toAffine small_library (small_ex b))"
  define i where "i = nat (small_ex a)"
  define j where "j = nat (small_ex b)"
  have ij: "i \<in> set [1..<31]" "j \<in> set [1..<31]" "small_ex a = int i" "small_ex b = int j"
    using nz small_ex_nat by (simp_all add: small_curve_def i_def j_def)
  then have chk: "small_chord_check i j" using small_chords by (simp add: list_all_iff)
  have "small_ex (a + b) = int ((i + j) mod 31)"
    using ij(3,4) by (simp add: small_ex_def zmod_int) (metis mod_add_eq)
  then show "on_curve (FIELD_SIZE small_curve) (pt_toAffine small_library (small_ex (a + b)))"
    "\<exists>l. chord (FIELD_SIZE small_curve) (pt_toAffine small_library (small_ex a)) (pt_toAffine small_library (small_ex b))
       (pt_toAffine small_library (small_ex (a + b))) l"
    using chk ne ij(3,4)
    by (auto simp: small_chord_check_def Let_def small_curve_def small_library_def small_affine_def)
qed

subsection \<open>Properties\<close>

text \<open>
  C8: Completeness of the prover. Whatever nonce was used, a proof that \<open>generateProof\<close> returns passes the checks of the on-chain verifier for the
  actual seed and carries the seed to be put on the wire and the public key of the secret; its gamma and its output depend only on the secret and the actual seed.
\<close>

theorem generateProof_accepted:
  assumes "curve_laws C L ex" and "generateProof C E L secret seed wireSeed nonce = Some (Inr r)"
  shows "accepted C E L ex (gp_proof r) seed \<and> pf_seed (gp_proof r) = wireSeed \<and>
    publicKeyFor C L secret = Inr (pf_pk (gp_proof r)) \<and>
    (\<exists>h. hashToCurve C E L (ex secret) seed = Some (Inr (ex h)) \<and> pf_gamma (gp_proof r) = pt_toAffine L (ex (h * secret)) \<and>
       output_of E L (ex (h * secret)) = Inr (gp_output r))"
proof -
  obtain h w where s: "0 < secret" "secret < GROUP_ORDER C" "hashToCurve C E L (ex secret) seed = Some (Inr (ex h))"
    "\<not> eqm (GROUP_ORDER C) h 0" "try_nonce C E L secret wireSeed (ex secret) (ex h) (ex (h * secret)) w = Inr (Generated r)"
    by (rule generateProof_steps [OF assms])
  have "publicKeyFor C L secret = Inr (pt_toAffine L (ex secret))"
    using s(1,2) curve_lawsD(4,6) [OF assms(1)] by (simp add: publicKeyFor_def)
  then show ?thesis using try_nonce_accepted [OF assms(1) s(3,4,1,2,5)] s(3) by auto
qed

theorem generateProof_accepted_witness:
  "\<exists>r. generateProof small_curve small_ethers small_library 5 9 77 None = Some (Inr r) \<and>
     accepted small_curve small_ethers small_library small_ex (gp_proof r) 9"
proof -
  have "case generateProof small_curve small_ethers small_library 5 9 77 None of Some (Inr r) \<Rightarrow> True | _ \<Rightarrow> False" by code_simp
  then obtain r where r: "generateProof small_curve small_ethers small_library 5 9 77 None = Some (Inr r)"
    by (auto split: option.splits sum.splits)
  from generateProof_accepted [OF small_laws r] r show ?thesis by blast
qed

text \<open>
  The search of \<open>hashToCurve\<close> as a chain of hashes, without its loops. \<open>rehashed n v\<close> is the hash value \<open>v\<close> after \<open>n\<close> further hashes, \<open>falls n v\<close> states that
  the first of these values below the field size (or the first failure) comes after exactly \<open>n\<close> of them, and \<open>leads ns v\<close> that the
  search meets an x coordinate of a point, or a failure, when the candidates before it took the numbers \<open>ns\<close> of hashes.
\<close>

definition rehash :: "ethers \<Rightarrow> 'p ecvrf_library \<Rightarrow> int \<Rightarrow> int result" where
  "rehash E L v = bindR (word_bytes E L v) (hashBig E)"

fun rehashed :: "ethers \<Rightarrow> 'p ecvrf_library \<Rightarrow> nat \<Rightarrow> int \<Rightarrow> int result" where
  "rehashed E L 0 v = Inr v"
| "rehashed E L (Suc n) v = bindR (rehash E L v) (rehashed E L n)"

definition falls :: "curve_constants \<Rightarrow> ethers \<Rightarrow> 'p ecvrf_library \<Rightarrow> nat \<Rightarrow> int \<Rightarrow> bool" where
  "falls C E L n v \<longleftrightarrow>
     list_all (\<lambda>m. case rehashed E L m v of Inl _ \<Rightarrow> False | Inr u \<Rightarrow> FIELD_SIZE C \<le> u) [0..<n] \<and>
     (case rehashed E L n v of Inl _ \<Rightarrow> True | Inr u \<Rightarrow> u < FIELD_SIZE C)"

fun leads :: "curve_constants \<Rightarrow> ethers \<Rightarrow> 'p ecvrf_library \<Rightarrow> nat list \<Rightarrow> int \<Rightarrow> bool" where
  "leads C E L [] v \<longleftrightarrow> False"
| "leads C E L (n # ns) v \<longleftrightarrow> falls C E L n v \<and> (case rehashed E L n v of Inl _ \<Rightarrow> True
     | Inr x \<Rightarrow> isSquare C (ySquared C x) \<or> (case rehash E L x of Inl _ \<Rightarrow> True | Inr v' \<Rightarrow> leads C E L ns v'))"

lemma falls_Suc:
  "falls C E L (Suc n) v \<longleftrightarrow> FIELD_SIZE C \<le> v \<and> (case rehash E L v of Inl _ \<Rightarrow> n = 0 | Inr v' \<Rightarrow> falls C E L n v')"
proof -
  have split: "list_all P [0..<Suc n] \<longleftrightarrow> P 0 \<and> list_all (\<lambda>m. P (Suc m)) [0..<n]" for P
    unfolding upt_conv_Cons [OF zero_less_Suc] map_Suc_upt [symmetric] by (simp add: list.pred_map comp_def)
  show ?thesis
  proof (cases "rehash E L v")
    case (Inl e)
    then have "falls C E L (Suc n) v \<longleftrightarrow> FIELD_SIZE C \<le> v \<and> list_all (\<lambda>_. False) [0..<n]"
      unfolding falls_def split by simp
    then show ?thesis using Inl by (cases n) (simp_all add: upt_conv_Cons del: upt_Suc)
  next
    case (Inr v')
    then show ?thesis unfolding falls_def split by simp
  qed
qed

lemma fieldHash_loop_falls: "falls C E L n v \<Longrightarrow> fieldHash_loop C E L v = Some (rehashed E L n v)"
proof (induction n arbitrary: v)
  case 0
  then show ?case by (simp add: falls_def fieldHash_loop.simps)
next
  case (Suc n)
  then show ?case
    by (cases "rehash E L v") (auto simp: falls_Suc fieldHash_loop.simps [of C E L v] rehash_def)
qed

lemma square_loop_leads:
  assumes "leads C E L ns v"
  shows "\<exists>r. fieldHash_loop C E L v = Some r \<and> (\<forall>x. r = Inr x \<longrightarrow> square_loop C E L x \<noteq> None)"
  using assms
proof (induction ns arbitrary: v)
  case (Cons n ns)
  have "square_loop C E L x \<noteq> None" if x: "rehashed E L n v = Inr x" for x
  proof (cases "isSquare C (ySquared C x) \<or> (\<exists>e. rehash E L x = Inl e)")
    case True
    then show ?thesis
      by (auto simp: square_loop.simps [of C E L x] fieldHash_def rehash_def split: sum.splits)
  next
    case False
    then obtain v' where v': "rehash E L x = Inr v'" "leads C E L ns v'" using Cons.prems x by (auto split: sum.splits)
    obtain r where r: "fieldHash_loop C E L v' = Some r" "\<forall>x. r = Inr x \<longrightarrow> square_loop C E L x \<noteq> None"
      using Cons.IH [OF v'(2)] by blast
    obtain b where b: "word_bytes E L x = Inr b" "hashBig E b = Inr v'" using v'(1) by (auto simp: rehash_def bindR_Inr)
    then show ?thesis using r False
      by (cases r) (auto simp: square_loop.simps [of C E L x] fieldHash_def)
  qed
  moreover have "falls C E L n v" using Cons.prems by simp
  then have "fieldHash_loop C E L v = Some (rehashed E L n v)" by (rule fieldHash_loop_falls)
  ultimately show ?case by blast
qed simp

lemma attempt_loop_returns:
  assumes "bindR (deterministicScalar E L secret seed (attempt + int n)) (try_nonce C E L secret wireSeed pk hash gamma) = r"
    "\<And>e. r \<noteq> Inr (Rejected e)"
  shows "attempt_loop C E L secret seed wireSeed pk hash gamma None attempt \<noteq> None"
  using assms
proof (induction n arbitrary: attempt)
  case 0
  then show ?case by (auto simp: attempt_loop.simps [of C E L secret seed wireSeed pk hash gamma None attempt]
      split: sum.splits nonce_outcome.splits)
next
  case (Suc n)
  then have "attempt_loop C E L secret seed wireSeed pk hash gamma None (attempt + 1) \<noteq> None" by (simp add: ac_simps)
  then show ?case by (auto simp: attempt_loop.simps [of C E L secret seed wireSeed pk hash gamma None attempt]
      split: sum.splits nonce_outcome.splits)
qed

text \<open>
  C27: Termination. \<open>generateProof\<close> returns, with a proof or an error, as soon as two searches among hash values end: starting from the hash of the input, the repeated hashes of the code
  meet, after finitely many steps, values below the field size and among these the x coordinate of a point (or a step that throws), and, unless the caller supplies the
  nonce, one of the deterministic nonces is not rejected. The loops themselves do nothing else.
\<close>

theorem generateProof_returns:
  assumes hash: "\<And>pk input v. pt_multiply L (pt_BASE L) secret = Inr pk \<Longrightarrow> hashToCurve_input E L pk seed = Inr input \<Longrightarrow>
      hashBig E input = Inr v \<Longrightarrow> \<exists>ns. leads C E L ns v"
    and nonce: "\<And>pk h gamma. nonce = None \<Longrightarrow> pt_multiply L (pt_BASE L) secret = Inr pk \<Longrightarrow>
      hashToCurve C E L pk seed = Some (Inr h) \<Longrightarrow> pt_multiply L h secret = Inr gamma \<Longrightarrow>
      \<exists>n. \<forall>e. bindR (deterministicScalar E L secret seed (int n)) (try_nonce C E L secret wireSeed pk h gamma) \<noteq> Inr (Rejected e)"
  shows "\<exists>r. generateProof C E L secret seed wireSeed nonce = Some r"
proof -
  have h: "hashToCurve C E L pk seed \<noteq> None" if pk: "pt_multiply L (pt_BASE L) secret = Inr pk" for pk
  proof (cases "hashToCurve_input E L pk seed")
    case (Inr input)
    show ?thesis
    proof (cases "hashBig E input")
      case (Inl e)
      then show ?thesis using Inr by (simp add: hashToCurve_def fieldHash_def)
    next
      fix v assume v: "hashBig E input = Inr v"
      obtain r where "fieldHash_loop C E L v = Some r" "\<forall>x. r = Inr x \<longrightarrow> square_loop C E L x \<noteq> None"
        using hash [OF pk Inr v] square_loop_leads by blast
      then show ?thesis using Inr v
        by (cases r) (auto simp: hashToCurve_def fieldHash_def split: sum.splits option.splits)
    qed
  qed (simp add: hashToCurve_def)
  have a: "attempt_loop C E L secret seed wireSeed pk hh gamma nonce 0 \<noteq> None"
    if k: "pt_multiply L (pt_BASE L) secret = Inr pk" "hashToCurve C E L pk seed = Some (Inr hh)" "pt_multiply L hh secret = Inr gamma"
    for pk hh gamma
  proof (cases nonce)
    case None
    obtain n where n: "\<And>e. bindR (deterministicScalar E L secret seed (0 + int n)) (try_nonce C E L secret wireSeed pk hh gamma) \<noteq> Inr (Rejected e)"
      using nonce [OF None k] by auto
    show ?thesis unfolding None by (rule attempt_loop_returns [OF refl n])
  next
    case (Some k)
    then show ?thesis by (simp add: attempt_loop.simps [of C E L secret seed wireSeed pk hh gamma "Some k" 0] split: sum.split nonce_outcome.split)
  qed
  show ?thesis
  proof (cases "pt_multiply L (pt_BASE L) secret")
    case (Inr pk)
    obtain r where r: "hashToCurve C E L pk seed = Some r" using h [OF Inr] by blast
    show ?thesis
    proof (cases r)
      case (Inr point)
      note k = \<open>pt_multiply L (pt_BASE L) secret = Inr pk\<close> r [unfolded Inr]
      show ?thesis using a [OF k] by (cases "pt_multiply L point secret") (simp_all add: generateProof_def k)
    qed (simp add: generateProof_def Inr r)
  qed (simp add: generateProof_def)
qed

theorem generateProof_returns_witness:
  "\<exists>r. generateProof small_curve small_ethers small_library 5 9 77 None = Some r"
proof (rule generateProof_returns)
  fix pk input v
  assume pk: "pt_multiply small_library (pt_BASE small_library) 5 = Inr pk"
    and "hashToCurve_input small_ethers small_library pk 9 = Inr input" "hashBig small_ethers input = Inr v"
  moreover have "pk = 5" using pk by (simp add: small_library_def)
  moreover have "case bindR (hashToCurve_input small_ethers small_library 5 9) (hashBig small_ethers) of Inl e \<Rightarrow> False
      | Inr v \<Rightarrow> leads small_curve small_ethers small_library [0, 0, 0, 0, 0, 0, 0, 0, 0] v" by code_simp
  ultimately show "\<exists>ns. leads small_curve small_ethers small_library ns v"
    by (intro exI [of _ "[0, 0, 0, 0, 0, 0, 0, 0, 0]"]) (simp del: leads.simps)
next
  fix pk h gamma
  assume "pt_multiply small_library (pt_BASE small_library) 5 = Inr pk"
    and k: "hashToCurve small_curve small_ethers small_library pk 9 = Some (Inr h)" "pt_multiply small_library h 5 = Inr gamma"
  then have "pk = 5" "gamma = h * 5 mod 31" by (simp_all add: small_library_def)
  moreover have "case hashToCurve small_curve small_ethers small_library 5 9 of Some (Inr h) \<Rightarrow>
      (case bindR (deterministicScalar small_ethers small_library 5 9 (int 0))
         (try_nonce small_curve small_ethers small_library 5 77 5 h (h * 5 mod 31)) of Inr (Generated r) \<Rightarrow> True | _ \<Rightarrow> False) | _ \<Rightarrow> False"
    by code_simp
  ultimately show "\<exists>n. \<forall>e. bindR (deterministicScalar small_ethers small_library 5 9 (int n))
      (try_nonce small_curve small_ethers small_library 5 77 pk h gamma) \<noteq> Inr (Rejected e)"
    using k(1) by (intro exI [of _ 0]) (auto split: sum.splits nonce_outcome.splits)
qed

end
