(* ===== verification/Dkg_Packets.thy ===== *)
theory Dkg_Packets
  imports Threshold_Group Io
begin

section \<open>Keystores, share encryption and signed packets (operator/threshold-dkg.mjs)\<close>

text \<open>
  The primitives of the key generation ceremony: scalars, the randomness they are drawn from, the
  encryption of keystores and of shares, the roster, the polynomial and its commitments, and the
  signed packets. Packets, rosters and keystores are JSON values that another party wrote, so every access to
  a field is written with what the language does on a value that lacks it.

  A function that draws randomness runs on the bytes the generator will yield; it throws when they
  are used up, as \<open>randomBytes\<close> does when it cannot obtain more. The operations of node:crypto that the ceremony calls are the
  record \<open>crypto\<close>; a key pair is a function of the 32 bytes it is generated from.
\<close>

subsection \<open>Untyped values\<close>

text \<open>\<open>value?.key\<close>, and \<open>value.key\<close>, which throws on null and undefined.\<close>

definition jget :: "json \<Rightarrow> string \<Rightarrow> json" where
  "jget v k = (case v of JObj fs \<Rightarrow> field fs k | _ \<Rightarrow> JUndefined)"

definition cannot_read :: "json \<Rightarrow> string \<Rightarrow> string" where
  "cannot_read v k = ''Cannot read properties of '' @ js_string v @ '' (reading '' @ [CHR 0x27] @ k @ [CHR 0x27] @ '')''"

definition jprop :: "json \<Rightarrow> string \<Rightarrow> json result" where
  "jprop v k = (if v = JNull \<or> v = JUndefined then Inl (cannot_read v k) else Inr (jget v k))"

text \<open>\<open>===\<close>: two values read from different documents are never the same object.\<close>

fun primitive :: "json \<Rightarrow> bool" where
  "primitive (JArr vs) = False"
| "primitive (JObj fs) = False"
| "primitive v = True"

definition strict_eq :: "json \<Rightarrow> json \<Rightarrow> bool" where
  "strict_eq a b \<longleftrightarrow> primitive a \<and> a = b"

text \<open>\<open>new Set(values).size\<close>; whether the values are pairwise different in a set.\<close>

definition set_size :: "json list \<Rightarrow> nat" where
  "set_size vs = length (remdups (filter primitive vs)) + length (filter (\<lambda>v. \<not> primitive v) vs)"

text \<open>\<open>values.sort()\<close>: by their text, undefined last.\<close>

definition js_sort :: "json list \<Rightarrow> json list" where
  "js_sort vs = sort_key js_string (filter (\<lambda>v. v \<noteq> JUndefined) vs) @ filter (\<lambda>v. v = JUndefined) vs"

text \<open>\<open>items.find((item) => item[key] === value)\<close>.\<close>

fun find_by :: "string \<Rightarrow> json \<Rightarrow> json list \<Rightarrow> json option result" where
  "find_by k v [] = Inr None"
| "find_by k v (item # items) = bindR (jprop item k) (\<lambda>x.
     if strict_eq x v then Inr (Some item) else find_by k v items)"

text \<open>\<open>{ ...object, key: value }\<close>.\<close>

definition with_field :: "json \<Rightarrow> string \<Rightarrow> json \<Rightarrow> json" where
  "with_field v k x = (let fs = (case v of JObj fs \<Rightarrow> fs | _ \<Rightarrow> []) in
     JObj (if has_field fs k then map (\<lambda>(n, y). (n, if n = k then x else y)) fs else fs @ [(k, x)]))"

definition as_array :: "json \<Rightarrow> string \<Rightarrow> json list result" where
  "as_array v e = (case v of JArr vs \<Rightarrow> Inr vs | _ \<Rightarrow> Inl e)"

text \<open>\<open>value?.toLowerCase()\<close>.\<close>

definition lower_opt :: "json \<Rightarrow> json result" where
  "lower_opt v = (case v of JNull \<Rightarrow> Inr JUndefined | JUndefined \<Rightarrow> Inr JUndefined | JStr s \<Rightarrow> Inr (JStr (toLowerCase s))
     | _ \<Rightarrow> Inl ''toLowerCase is not a function'')"

text \<open>Both sides of a comparison of canonical texts.\<close>

definition same_text :: "json \<Rightarrow> json \<Rightarrow> bool result" where
  "same_text a b = bindR (canonicalJson a) (\<lambda>s. bindR (canonicalJson b) (\<lambda>t. Inr (s = t)))"

subsection \<open>node:crypto and the host\<close>

record 'k crypto =
  createPrivateKey :: "bytes \<Rightarrow> 'k result"
  publicOf :: "'k \<Rightarrow> 'k"
  spki :: "'k \<Rightarrow> bytes"
  pkcs8 :: "'k \<Rightarrow> bytes"
  keyFromSeed :: "string \<Rightarrow> bytes \<Rightarrow> 'k"
  diffieHellman :: "'k \<Rightarrow> 'k \<Rightarrow> bytes result"
  hkdfSync :: "bytes \<Rightarrow> bytes \<Rightarrow> bytes \<Rightarrow> nat \<Rightarrow> bytes"
  sha256 :: "bytes \<Rightarrow> bytes"
  scryptSync :: "string \<Rightarrow> bytes \<Rightarrow> nat \<Rightarrow> int \<times> int \<times> int \<Rightarrow> bytes result"
  gcm_seal :: "bytes \<Rightarrow> bytes \<Rightarrow> bytes \<Rightarrow> bytes \<Rightarrow> bytes \<times> bytes"
  gcm_open :: "bytes \<Rightarrow> bytes \<Rightarrow> bytes \<Rightarrow> bytes \<Rightarrow> bytes \<Rightarrow> bytes result"
  toBase64 :: "bytes \<Rightarrow> string"
  fromBase64 :: "string \<Rightarrow> bytes"
  utf8 :: "string \<Rightarrow> bytes"
  fromUtf8 :: "bytes \<Rightarrow> string"
  parseJson :: "string \<Rightarrow> json result"
  fracBigInt :: "string \<Rightarrow> int result"
  localeOrder :: "json list \<Rightarrow> nat list result"

text \<open>
  \<open>items.sort((left, right) => left[key].localeCompare(right[key]))\<close>: the order of the positions is
  the host's, from its locale; it throws on a value that is not a string.
\<close>

definition sort_locale :: "'k crypto \<Rightarrow> json list \<Rightarrow> json list \<Rightarrow> json list result" where
  "sort_locale K keys items = bindR (localeOrder K keys) (\<lambda>positions. Inr (map ((!) items) positions))"

subsection \<open>Randomness\<close>

definition randomBytes :: "nat \<Rightarrow> (bytes, bytes) io" where
  "randomBytes n = (\<lambda>s. if length s < n then (s, Inl ''no entropy'') else (drop n s, Inr (take n s)))"

definition bytes_int :: "bytes \<Rightarrow> int" where
  "bytes_int bs = foldl (\<lambda>n b. 256 * n + uint b) 0 bs"

function randomScalar :: "int \<Rightarrow> bool \<Rightarrow> bytes \<Rightarrow> bytes \<times> int result" where
  "randomScalar r allowZero s = (if length s < 64 then (s, Inl ''no entropy'')
     else (let x = bytes_int (take 64 s) smod r in
       if allowZero \<or> x \<noteq> 0 then (drop 64 s, Inr x) else randomScalar r allowZero (drop 64 s)))"
  by pat_completeness auto

termination randomScalar
  by (relation "measure (\<lambda>(r, a, s). length s)") auto

declare randomScalar.simps [simp del]

subsection \<open>Scalars\<close>

definition scalar :: "int \<Rightarrow> int \<Rightarrow> string \<Rightarrow> bool \<Rightarrow> int result" where
  "scalar r parsed name allowZero =
     (if parsed < 0 \<or> parsed \<ge> r \<or> \<not> allowZero \<and> parsed = 0 then Inl (name @ '' is outside the BLS scalar field'')
      else Inr parsed)"

fun hex_digits :: "nat \<Rightarrow> string" where
  "hex_digits n = (if n < 16 then [lowerHex n] else hex_digits (n div 16) @ [lowerHex (n mod 16)])"

declare hex_digits.simps [simp del]

definition padStart :: "string \<Rightarrow> nat \<Rightarrow> string" where
  "padStart s n = replicate (n - length s) (CHR ''0'') @ s"

definition scalarHex :: "int \<Rightarrow> int \<Rightarrow> string result" where
  "scalarHex r v = bindR (scalar r v ''scalar'' True) (\<lambda>n. Inr (''0x'' @ padStart (hex_digits (nat n)) 64))"

text \<open>\<open>BigInt(value)\<close> on a parsed value: the literal forms of a string, whole numbers, booleans.\<close>

definition white :: "char \<Rightarrow> bool" where
  "white c \<longleftrightarrow> (of_char c :: nat) \<in> {9, 10, 11, 12, 13, 32, 160}"

definition trim :: "string \<Rightarrow> string" where
  "trim s = rev (dropWhile white (rev (dropWhile white s)))"

fun read_digits :: "nat \<Rightarrow> string \<Rightarrow> nat \<Rightarrow> nat option" where
  "read_digits base [] n = Some n"
| "read_digits base (c # cs) n = (case hexValue c of
     Some d \<Rightarrow> if d < base then read_digits base cs (base * n + d) else None | None \<Rightarrow> None)"

definition read_based :: "nat \<Rightarrow> string \<Rightarrow> int option" where
  "read_based base s = (if s = [] then None else map_option int (read_digits base s 0))"

definition read_integer :: "string \<Rightarrow> int option" where
  "read_integer s = (let t = trim s; p = map toLowerChar (take 2 t) in
     if t = [] then Some 0
     else if p = ''0x'' then read_based 16 (drop 2 t)
     else if p = ''0o'' then read_based 8 (drop 2 t)
     else if p = ''0b'' then read_based 2 (drop 2 t)
     else if hd t = CHR ''-'' then map_option uminus (read_based 10 (tl t))
     else if hd t = CHR ''+'' then read_based 10 (tl t)
     else read_based 10 t)"

definition toBigInt :: "'k crypto \<Rightarrow> json \<Rightarrow> int result" where
  "toBigInt K v = (case v of
     JInt n \<Rightarrow> Inr n
   | JFrac s \<Rightarrow> fracBigInt K s
   | JBool b \<Rightarrow> Inr (if b then 1 else 0)
   | JNull \<Rightarrow> Inl ''Cannot convert null to a BigInt''
   | JUndefined \<Rightarrow> Inl ''Cannot convert undefined to a BigInt''
   | _ \<Rightarrow> (case read_integer (js_string v) of
       Some n \<Rightarrow> Inr n | None \<Rightarrow> Inl (''Cannot convert '' @ js_string v @ '' to a BigInt'')))"

subsection \<open>Keys\<close>

definition X25519_SPKI_PREFIX :: bytes where
  "X25519_SPKI_PREFIX = [0x30, 0x2a, 0x30, 0x05, 0x06, 0x03, 0x2b, 0x65, 0x6e, 0x03, 0x21, 0x00]"

definition rawPublicKey :: "ethers \<Rightarrow> 'k crypto \<Rightarrow> 'k \<Rightarrow> string" where
  "rawPublicKey E K publicKey = hexlify E (let der = spki K publicKey in drop (length der - 32) der)"

definition publicKeyFromRaw :: "ethers \<Rightarrow> 'k node \<Rightarrow> json \<Rightarrow> string \<Rightarrow> 'k result" where
  "publicKeyFromRaw E N raw keytype = bindR (fixedHex E raw 32 (keytype @ '' public key'')) (\<lambda>h.
     bindR (getBytes E h) (\<lambda>b.
     createPublicKey N ((if keytype = ''ed25519'' then ED25519_SPKI_PREFIX else X25519_SPKI_PREFIX) @ b)))"

subsection \<open>Keystore encryption\<close>

text \<open>\<open>getBytes\<close> on a parsed value.\<close>

definition json_bytes :: "ethers \<Rightarrow> json \<Rightarrow> bytes result" where
  "json_bytes E v = (case v of JStr s \<Rightarrow> getBytes E s | _ \<Rightarrow> Inl ''invalid BytesLike value'')"

definition DEFAULT_WORK_FACTOR :: int where
  "DEFAULT_WORK_FACTOR = 32768"

definition encryptPayload ::
  "ethers \<Rightarrow> 'k crypto \<Rightarrow> json \<Rightarrow> string \<Rightarrow> int \<Rightarrow> (bytes, json) io" where
  "encryptPayload E K payload password workFactor =
     (if password = [] then throwIO ''threshold keystore password is required''
      else bindIO (randomBytes 16) (\<lambda>salt.
        bindIO (randomBytes 12) (\<lambda>iv.
        bindIO (liftR (scryptSync K password salt 32 (workFactor, 8, 1))) (\<lambda>key.
        bindIO (liftR (canonicalJson payload)) (\<lambda>cleartext.
        (let (ciphertext, tag) = gcm_seal K key iv [] (utf8 K cleartext) in
         returnIO (JObj [(''cipher'', JStr ''aes-256-gcm''), (''ciphertext'', JStr (hexlify E ciphertext)),
           (''iv'', JStr (hexlify E iv)), (''tag'', JStr (hexlify E tag)), (''kdf'', JStr ''scrypt''),
           (''kdfparams'', JObj [(''N'', JInt workFactor), (''r'', JInt 8), (''p'', JInt 1),
              (''salt'', JStr (hexlify E salt))])])))))))"

definition kdf_integer :: "json \<Rightarrow> int \<Rightarrow> int result" where
  "kdf_integer v minimum = (case v of
     JInt n \<Rightarrow> if isSafeInteger n \<and> n \<ge> minimum then Inr n else Inl ''invalid threshold keystore KDF parameters''
   | _ \<Rightarrow> Inl ''invalid threshold keystore KDF parameters'')"

definition decryptPayload :: "ethers \<Rightarrow> 'k crypto \<Rightarrow> json \<Rightarrow> string \<Rightarrow> json result" where
  "decryptPayload E K crypto password =
     (if password = [] then Inl ''threshold keystore password is required''
      else if jget crypto ''cipher'' \<noteq> JStr ''aes-256-gcm'' \<or> jget crypto ''kdf'' \<noteq> JStr ''scrypt''
      then Inl ''unsupported threshold keystore encryption''
      else (let params = jget crypto ''kdfparams'' in
        bindR (kdf_integer (jget params ''N'') 1024) (\<lambda>workFactor.
        bindR (kdf_integer (jget params ''r'') 1) (\<lambda>blocks.
        bindR (kdf_integer (jget params ''p'') 1) (\<lambda>lanes.
        bindR (fixedHex E (jget params ''salt'') 16 ''KDF salt'') (\<lambda>h.
        bindR (getBytes E h) (\<lambda>salt.
        bindR (scryptSync K password salt 32 (workFactor, blocks, lanes)) (\<lambda>key.
        bindR (fixedHex E (jget crypto ''iv'') 12 ''cipher IV'') (\<lambda>h.
        bindR (getBytes E h) (\<lambda>iv.
        bindR (fixedHex E (jget crypto ''tag'') 16 ''cipher tag'') (\<lambda>h.
        bindR (getBytes E h) (\<lambda>tag.
        bindR (json_bytes E (jget crypto ''ciphertext'')) (\<lambda>ciphertext.
        bindR (gcm_open K key iv [] ciphertext tag) (\<lambda>cleartext.
        parseJson K (fromUtf8 K cleartext)))))))))))))))"

subsection \<open>Rosters\<close>

text \<open>The test \<open>/^[a-z0-9][a-z0-9._-]{1,62}$/\<close> reads the text of the value.\<close>

definition validateParticipant :: "ethers \<Rightarrow> json \<Rightarrow> nat \<Rightarrow> json result" where
  "validateParticipant E participant expectedIndex =
     (if \<not> truthy participant \<or> primitive participant then Inl ''invalid participant''
      else (let pid = js_string (jget participant ''id'') in
        if jget participant ''index'' \<noteq> JInt (int expectedIndex) then Inl ''participant indexes must be contiguous''
        else if \<not> participant_name pid then Inl (''invalid participant id '' @ pid)
        else bindR (fixedHex E (jget participant ''identityPublicKey'') 32 (pid @ '' identity public key'')) (\<lambda>_.
          bindR (fixedHex E (jget participant ''transportPublicKey'') 32 (pid @ '' transport public key'')) (\<lambda>_.
          Inr participant))))"

definition number_roster :: "ethers \<Rightarrow> json list \<Rightarrow> json list result" where
  "number_roster E vs = mapR (\<lambda>(position, participant). validateParticipant E participant (position + 1)) (enumerate 0 vs)"

definition check_distinct :: "json list \<Rightarrow> string \<Rightarrow> unit result" where
  "check_distinct normalized name =
     (if set_size (map (\<lambda>item. jget item name) normalized) \<noteq> length normalized
      then Inl (''roster '' @ name @ '' values must be unique'') else Inr ())"

definition validateRoster :: "ethers \<Rightarrow> json \<Rightarrow> json \<Rightarrow> json list result" where
  "validateRoster E roster threshold = (case roster of
     JArr vs \<Rightarrow>
       if length vs < 3 \<or> length vs > 31 then Inl ''roster must contain between 3 and 31 participants''
       else (case threshold of
         JInt t \<Rightarrow>
           if \<not> isSafeInteger t \<or> t < 2 \<or> t > int (length vs) \<or> t * 2 \<le> int (length vs)
           then Inl ''threshold must be a strict majority of the roster''
           else bindR (number_roster E vs) (\<lambda>normalized.
             bindR (mapR (check_distinct normalized) [''id'', ''identityPublicKey'', ''transportPublicKey'', ''endpoint''])
               (\<lambda>_. Inr normalized))
       | _ \<Rightarrow> Inl ''threshold must be a strict majority of the roster'')
   | _ \<Rightarrow> Inl ''roster must contain between 3 and 31 participants'')"

subsection \<open>Keystores\<close>

definition DKG_PACKET_FORMAT :: string where
  "DKG_PACKET_FORMAT = ''robinhood-proof-vrf-dkg-packet/v1''"

definition DKG_KEYSTORE_FORMAT :: string where
  "DKG_KEYSTORE_FORMAT = ''robinhood-proof-vrf-threshold-keystore/v1''"

definition DKG_FINALIZATION_FORMAT :: string where
  "DKG_FINALIZATION_FORMAT = ''robinhood-proof-vrf-dkg-finalization/v1''"

definition generateKeyPair :: "'k crypto \<Rightarrow> string \<Rightarrow> (bytes, 'k \<times> 'k) io" where
  "generateKeyPair K keytype = bindIO (randomBytes 32) (\<lambda>seed.
     (let privateKey = keyFromSeed K keytype seed in returnIO (publicOf K privateKey, privateKey)))"

text \<open>The descriptor and the keystore of a new participant.\<close>

definition generateParticipant ::
  "ethers \<Rightarrow> 'k crypto \<Rightarrow> json \<Rightarrow> json \<Rightarrow> string \<Rightarrow> int \<Rightarrow> (bytes, json \<times> json) io" where
  "generateParticipant E K pid ep password workFactor =
     bindIO (generateKeyPair K ''ed25519'') (\<lambda>(identityPublic, identityPrivate).
     bindIO (generateKeyPair K ''x25519'') (\<lambda>(transportPublic, transportPrivate).
     (let participant = JObj [(''id'', pid), (''index'', JInt 1),
            (''identityPublicKey'', JStr (rawPublicKey E K identityPublic)),
            (''transportPublicKey'', JStr (rawPublicKey E K transportPublic)), (''endpoint'', ep)];
          secret = JObj [(''identityPrivateKey'', JStr (toBase64 K (pkcs8 K identityPrivate))),
            (''transportPrivateKey'', JStr (toBase64 K (pkcs8 K transportPrivate))), (''thresholdShare'', JNull),
            (''thresholdEpoch'', JNull), (''thresholdManifestHash'', JNull)] in
      bindIO (liftR (validateParticipant E participant 1)) (\<lambda>_.
      bindIO (encryptPayload E K secret password workFactor) (\<lambda>crypto.
      returnIO (participant, JObj [(''format'', JStr DKG_KEYSTORE_FORMAT), (''participantId'', pid),
        (''identityPublicKey'', jget participant ''identityPublicKey''),
        (''transportPublicKey'', jget participant ''transportPublicKey''), (''crypto'', crypto)]))))))"

record 'k loaded =
  ld_secret :: json
  ld_identityPrivateKey :: 'k
  ld_transportPrivateKey :: 'k

text \<open>\<open>Buffer.from(value, "base64")\<close>; a private key stored as anything but a string is refused.\<close>

definition base64_field :: "'k crypto \<Rightarrow> json \<Rightarrow> string \<Rightarrow> bytes result" where
  "base64_field K secret k = bindR (jprop secret k) (\<lambda>v. (case v of
     JStr s \<Rightarrow> Inr (fromBase64 K s) | _ \<Rightarrow> Inl ''The first argument must be of type string''))"

definition loadKeystore :: "ethers \<Rightarrow> 'k crypto \<Rightarrow> json \<Rightarrow> string \<Rightarrow> 'k loaded result" where
  "loadKeystore E K keystore password =
     (if jget keystore ''format'' \<noteq> JStr DKG_KEYSTORE_FORMAT then Inl ''invalid threshold keystore format''
      else bindR (decryptPayload E K (jget keystore ''crypto'') password) (\<lambda>secret.
        bindR (base64_field K secret ''identityPrivateKey'') (\<lambda>der.
        bindR (createPrivateKey K der) (\<lambda>identityPrivateKey.
        bindR (base64_field K secret ''transportPrivateKey'') (\<lambda>der.
        bindR (createPrivateKey K der) (\<lambda>transportPrivateKey.
        bindR (fixedHex E (jget keystore ''identityPublicKey'') 32 ''keystore identity key'') (\<lambda>identityKey.
        if toLowerCase (rawPublicKey E K (publicOf K identityPrivateKey)) \<noteq> identityKey
        then Inl ''threshold keystore identity key mismatch''
        else bindR (fixedHex E (jget keystore ''transportPublicKey'') 32 ''keystore transport key'') (\<lambda>transportKey.
        if toLowerCase (rawPublicKey E K (publicOf K transportPrivateKey)) \<noteq> transportKey
        then Inl ''threshold keystore transport key mismatch''
        else Inr \<lparr>ld_secret = secret, ld_identityPrivateKey = identityPrivateKey,
          ld_transportPrivateKey = transportPrivateKey\<rparr>))))))))"

subsection \<open>Polynomials and commitments\<close>

definition polynomialAt :: "int \<Rightarrow> int list \<Rightarrow> int \<Rightarrow> int" where
  "polynomialAt r coefficients index = foldr (\<lambda>coefficient value. (value * index + coefficient) smod r) coefficients 0"

definition commitmentsFor :: "ethers \<Rightarrow> ('p, 'q, 't) bls \<Rightarrow> int list \<Rightarrow> string list result" where
  "commitmentsFor E B coefficients = mapR (\<lambda>coefficient.
     bindR (multiply (G2 B) (BASE (G2 B)) coefficient) (\<lambda>point. Inr (wireHex E (G2 B) point))) coefficients"

text \<open>\<open>g2CommitmentPoint\<close> on a parsed value: anything but a string is not hex bytes.\<close>

definition commitment_point :: "ethers \<Rightarrow> ('p, 'q, 't) bls \<Rightarrow> json \<Rightarrow> string \<Rightarrow> 'q result" where
  "commitment_point E B v name = (case v of
     JStr s \<Rightarrow> g2CommitmentPoint E B (HexString s) name | _ \<Rightarrow> Inl (name @ '' must be hex bytes''))"

fun share_point_loop ::
  "ethers \<Rightarrow> ('p, 'q, 't) bls \<Rightarrow> int \<Rightarrow> nat \<Rightarrow> json list \<Rightarrow> 'q \<Rightarrow> int \<Rightarrow> 'q result" where
  "share_point_loop E B index position [] expected pw = Inr expected"
| "share_point_loop E B index position (c # cs) expected pw =
     bindR (commitment_point E B c (''commitments['' @ showInt (int position) @ '']'')) (\<lambda>point.
     bindR (multiply (G2 B) point pw) (\<lambda>scaled.
     share_point_loop E B index (Suc position) cs (add_pt (G2 B) expected scaled) ((pw * index) smod params_r B)))"

definition expectedSharePoint :: "ethers \<Rightarrow> ('p, 'q, 't) bls \<Rightarrow> json list \<Rightarrow> int \<Rightarrow> 'q result" where
  "expectedSharePoint E B commitments index = share_point_loop E B index 0 commitments (ZERO (G2 B)) 1"

definition shareMatchesCommitments :: "ethers \<Rightarrow> ('p, 'q, 't) bls \<Rightarrow> int \<Rightarrow> json list \<Rightarrow> int \<Rightarrow> bool result" where
  "shareMatchesCommitments E B share commitments index =
     bindR (scalar (params_r B) share ''share'' True) (\<lambda>s.
     bindR (multiply (G2 B) (BASE (G2 B)) s) (\<lambda>point.
     bindR (expectedSharePoint E B commitments index) (\<lambda>expected. Inr (point = expected))))"

subsection \<open>Signed packets\<close>

definition packetHash :: "ethers \<Rightarrow> json \<Rightarrow> string result" where
  "packetHash E body = bindR (canonicalJson body) (\<lambda>text. Inr (keccak256 E (toUtf8Bytes E text)))"

definition signPacket :: "ethers \<Rightarrow> 'k node \<Rightarrow> json \<Rightarrow> 'k \<Rightarrow> string result" where
  "signPacket E N body privateKey = bindR (packetHash E body) (\<lambda>h. bindR (getBytes E h) (\<lambda>b.
     Inr (hexlify E (ed_sign N b privateKey))))"

definition verifyPacket :: "ethers \<Rightarrow> 'k node \<Rightarrow> json \<Rightarrow> json \<Rightarrow> bool result" where
  "verifyPacket E N packet participant = (case jget packet ''signature'' of
     JStr s \<Rightarrow>
       if \<not> truthy (jget packet ''body'') then Inr False
       else bindR (packetHash E (jget packet ''body'')) (\<lambda>h.
         bindR (getBytes E h) (\<lambda>message.
         bindR (publicKeyFromRaw E N (jget participant ''identityPublicKey'') ''ed25519'') (\<lambda>key.
         bindR (fixedHex E (JStr s) 64 ''packet signature'') (\<lambda>h.
         bindR (getBytes E h) (\<lambda>sig. Inr (ed_verify N message key sig))))))
   | _ \<Rightarrow> Inr False)"

subsection \<open>Encrypted shares\<close>

definition associated_fields :: "string list" where
  "associated_fields = [''format'', ''type'', ''ceremony'', ''sessionId'', ''epoch'', ''threshold'', ''dealerId'',
     ''dealerIndex'', ''previousManifestHash'', ''selectedDealerIds'', ''commitments'']"

definition shareAssociatedData :: "'k crypto \<Rightarrow> json \<Rightarrow> json \<Rightarrow> bytes result" where
  "shareAssociatedData K body recipientId = bindR (canonicalJson (JObj
     (map (\<lambda>k. (k, jget body k)) associated_fields @ [(''recipientId'', recipientId)]))) (\<lambda>text. Inr (utf8 K text))"

definition share_key :: "'k crypto \<Rightarrow> bytes \<Rightarrow> bytes \<Rightarrow> bytes" where
  "share_key K shared associatedData = hkdfSync K shared [] (sha256 K associatedData) 32"

definition encryptShare ::
  "ethers \<Rightarrow> 'k node \<Rightarrow> 'k crypto \<Rightarrow> int \<Rightarrow> int \<Rightarrow> json \<Rightarrow> bytes \<Rightarrow> (bytes, json) io" where
  "encryptShare E N K r share recipient associatedData =
     bindIO (generateKeyPair K ''x25519'') (\<lambda>(publicKey, privateKey).
     bindIO (liftR (publicKeyFromRaw E N (jget recipient ''transportPublicKey'') ''x25519'')) (\<lambda>recipientKey.
     bindIO (liftR (diffieHellman K privateKey recipientKey)) (\<lambda>shared.
     bindIO (randomBytes 12) (\<lambda>iv.
     bindIO (liftR (bindR (scalarHex r share) (getBytes E))) (\<lambda>cleartext.
     (let (ciphertext, tag) = gcm_seal K (share_key K shared associatedData) iv associatedData cleartext in
      returnIO (JObj [(''ephemeralPublicKey'', JStr (rawPublicKey E K publicKey)), (''iv'', JStr (hexlify E iv)),
        (''ciphertext'', JStr (hexlify E ciphertext)), (''tag'', JStr (hexlify E tag))])))))))"

definition decryptShare ::
  "ethers \<Rightarrow> 'k node \<Rightarrow> 'k crypto \<Rightarrow> json \<Rightarrow> 'k \<Rightarrow> bytes \<Rightarrow> int result" where
  "decryptShare E N K envelope transportPrivateKey associatedData =
     bindR (jprop envelope ''ephemeralPublicKey'') (\<lambda>raw.
     bindR (publicKeyFromRaw E N raw ''x25519'') (\<lambda>publicKey.
     bindR (diffieHellman K transportPrivateKey publicKey) (\<lambda>shared.
     bindR (fixedHex E (jget envelope ''iv'') 12 ''share IV'') (\<lambda>h.
     bindR (getBytes E h) (\<lambda>iv.
     bindR (fixedHex E (jget envelope ''tag'') 16 ''share tag'') (\<lambda>h.
     bindR (getBytes E h) (\<lambda>tag.
     bindR (fixedHex E (jget envelope ''ciphertext'') 32 ''encrypted share'') (\<lambda>h.
     bindR (getBytes E h) (\<lambda>ciphertext.
     bindR (gcm_open K (share_key K shared associatedData) iv associatedData ciphertext tag) (\<lambda>cleartext.
     Inr (bytes_int cleartext)))))))))))"

end
