(* ===== verification/Dkg_Ceremony.thy ===== *)
theory Dkg_Ceremony
  imports Dkg_Packets
begin

section \<open>The key generation and resharing ceremony (operator/threshold-dkg.mjs)\<close>

text \<open>
  The ceremony's rounds: a dealer's deal, a recipient's signed responses to all deals, a dealer's
  resolution of the complaints against it, each participant's finalization, the assembly of the group
  manifest from the finalizations, its attestation, and the binding of a keystore to the manifest.
  The arguments are what the command line passes: parsed files, the session's numbers as it read
  them (a JSON value, since \<open>Number\<close> may not yield a whole number), and the password of the keystore.
\<close>

subsection \<open>The dealers of a resharing\<close>

text \<open>
  The comparison with the previous threshold is that of two whole numbers; a threshold of another type only occurs in a
  manifest that \<open>prepareGroupManifest\<close> refuses.
\<close>

definition dealer_index :: "'k crypto \<Rightarrow> json list \<Rightarrow> string \<Rightarrow> int result" where
  "dealer_index K previous pid = (case List.find (\<lambda>item. jget item ''id'' = JStr pid) (rev previous) of
     None \<Rightarrow> Inl (''selected dealer '' @ pid @ '' is not in the previous manifest'')
   | Some participant \<Rightarrow> toBigInt K (jget participant ''index''))"

definition selectedDealerIndexes :: "'k crypto \<Rightarrow> json \<Rightarrow> string list \<Rightarrow> int list result" where
  "selectedDealerIndexes K previousManifest selectedDealerIds =
     (if \<not> truthy previousManifest then Inl ''resharing requires the previous manifest''
      else bindR (as_array (jget previousManifest ''participants'') ''participants.map is not a function'') (\<lambda>previous.
        bindR (mapR (\<lambda>item. jprop item ''id'') previous) (\<lambda>_.
        bindR (mapR (dealer_index K previous) selectedDealerIds) (\<lambda>indexes.
        if \<not> distinct indexes then Inl ''selected resharing dealer indexes must be unique''
        else if (case jget previousManifest ''threshold'' of JInt t \<Rightarrow> int (length indexes) < t | _ \<Rightarrow> False)
        then Inl ''resharing requires at least the old threshold of selected dealers''
        else (let canonicalIds = filter (\<lambda>v. v \<in> JStr ` set selectedDealerIds) (map (\<lambda>item. jget item ''id'') previous) in
          bindR (same_text (JArr canonicalIds) (JArr (map JStr selectedDealerIds))) (\<lambda>same.
          if \<not> same then Inl ''selected resharing dealers must follow previous-manifest roster order''
          else Inr indexes))))))"

subsection \<open>What a packet is compared with\<close>

record session =
  se_ceremony :: string
  se_sessionId :: json
  se_epoch :: json
  se_threshold :: json
  se_roster :: json
  se_dealerRoster :: json
  se_previousManifest :: json
  se_previousManifestHash :: json
  se_selectedDealerIds :: "string list"

definition previous_hash :: "ethers \<Rightarrow> session \<Rightarrow> json result" where
  "previous_hash E S = (if se_ceremony S = ''dkg'' then Inr JNull
     else bindR (fixedHex E (se_previousManifestHash S) 32 ''previousManifestHash'') (\<lambda>h. Inr (JStr h)))"

definition selected_json :: "session \<Rightarrow> json" where
  "selected_json S = (if se_ceremony S = ''dkg'' then JArr [] else JArr (map JStr (se_selectedDealerIds S)))"

definition expected_fields :: "ethers \<Rightarrow> session \<Rightarrow> fields result" where
  "expected_fields E S = bindR (fixedHex E (se_sessionId S) 32 ''sessionId'') (\<lambda>sessionId.
     bindR (previous_hash E S) (\<lambda>h.
     Inr [(''ceremony'', JStr (se_ceremony S)), (''sessionId'', JStr sessionId), (''epoch'', se_epoch S),
       (''threshold'', se_threshold S), (''previousManifestHash'', h), (''selectedDealerIds'', selected_json S)]))"

text \<open>\<open>dealerRoster = roster\<close> when it is not given; its participants are checked one by one.\<close>

definition dealer_roster :: "ethers \<Rightarrow> session \<Rightarrow> json list result" where
  "dealer_roster E S = bindR (as_array (if se_dealerRoster S = JUndefined then se_roster S else se_dealerRoster S)
     ''dealerRoster.map is not a function'') (number_roster E)"

subsection \<open>Dealing\<close>

text \<open>The new coefficients above the constant; a zero highest one is drawn again until it is not.\<close>

fun draw_coefficients :: "int \<Rightarrow> nat \<Rightarrow> (bytes, int list) io" where
  "draw_coefficients r 0 = returnIO []"
| "draw_coefficients r (Suc n) = bindIO (randomScalar r True) (\<lambda>c. bindIO (draw_coefficients r n) (\<lambda>cs. returnIO (c # cs)))"

definition nonzero_highest :: "int \<Rightarrow> int list \<Rightarrow> (bytes, int list) io" where
  "nonzero_highest r coefficients = (if last coefficients = 0
     then bindIO (randomScalar r False) (\<lambda>c. returnIO (butlast coefficients @ [c])) else returnIO coefficients)"

text \<open>The constant of a dealer that reshares: its old share, weighted.\<close>

definition reshare_constant ::
  "ethers \<Rightarrow> ('p, 'q, 't) bls \<Rightarrow> 'k node \<Rightarrow> 'k crypto \<Rightarrow> session \<Rightarrow> json \<Rightarrow> json \<Rightarrow> int result" where
  "reshare_constant E B N K S dealer secret =
     bindR (prepareGroupManifest E B N True (se_previousManifest S)) (\<lambda>(body, manifestHash).
     bindR (fixedHex E (se_previousManifestHash S) 32 ''previousManifestHash'') (\<lambda>trustedPreviousHash.
     if manifestHash \<noteq> trustedPreviousHash
     then Inl ''previous manifest does not match its separately trusted hash''
     else if se_epoch S \<noteq> JInt (gb_epoch body + 1)
     then Inl ''resharing epoch must immediately follow the previous epoch''
     else if jget dealer ''id'' \<notin> JStr ` set (se_selectedDealerIds S)
     then Inl ''dealer was not selected for resharing''
     else bindR (jprop secret ''thresholdShare'') (\<lambda>thresholdShare.
     if \<not> truthy thresholdShare then Inl ''old dealer keystore has no threshold share''
     else bindR (lower_opt (jget secret ''thresholdManifestHash'')) (\<lambda>bound.
     if bound \<noteq> JStr trustedPreviousHash then Inl ''old dealer share is not bound to the trusted previous manifest''
     else bindR (selectedDealerIndexes K (se_previousManifest S) (se_selectedDealerIds S)) (\<lambda>indexes.
     bindR (toBigInt K (jget dealer ''index'')) (\<lambda>index.
     bindR (lagrangeCoefficientAtZero (params_r B) index indexes) (\<lambda>lambda.
     bindR (bindR (toBigInt K thresholdShare) (\<lambda>n. scalar (params_r B) n ''scalar'' False)) (\<lambda>share.
     Inr (mod_scalar (params_r B) (share * lambda))))))))))"

definition deal_constant ::
  "ethers \<Rightarrow> ('p, 'q, 't) bls \<Rightarrow> 'k node \<Rightarrow> 'k crypto \<Rightarrow> session \<Rightarrow> json \<Rightarrow> json \<Rightarrow> int \<Rightarrow> int result" where
  "deal_constant E B N K S dealer secret constant =
     (if se_ceremony S = ''reshare'' then reshare_constant E B N K S dealer secret
      else if se_ceremony S \<noteq> ''dkg'' then Inl ''ceremony must be dkg or reshare''
      else Inr constant)"

text \<open>The roster in which the dealer is looked up.\<close>

definition applicable_dealer :: "session \<Rightarrow> json list \<Rightarrow> json \<Rightarrow> json result" where
  "applicable_dealer S participants participantId =
     bindR (if se_ceremony S = ''reshare''
       then (case jget (se_previousManifest S) ''participants'' of
           JUndefined \<Rightarrow> Inr None | JNull \<Rightarrow> Inr None | JArr vs \<Rightarrow> find_by ''id'' participantId vs
         | _ \<Rightarrow> Inl ''find is not a function'')
       else find_by ''id'' participantId participants) (\<lambda>found. (case found of
     None \<Rightarrow> Inl ''dealer is not in the applicable roster'' | Some dealer \<Rightarrow> Inr dealer))"

definition index_of :: "json \<Rightarrow> int" where
  "index_of participant = (case jget participant ''index'' of JInt n \<Rightarrow> n | _ \<Rightarrow> 0)"

definition deal_body ::
  "ethers \<Rightarrow> session \<Rightarrow> json \<Rightarrow> string list \<Rightarrow> fields result" where
  "deal_body E S dealer commitments =
     bindR (fixedHex E (se_sessionId S) 32 ''sessionId'') (\<lambda>sessionId.
     bindR (previous_hash E S) (\<lambda>h.
     Inr [(''format'', JStr DKG_PACKET_FORMAT), (''type'', JStr ''deal''), (''ceremony'', JStr (se_ceremony S)),
       (''sessionId'', JStr sessionId), (''epoch'', se_epoch S), (''threshold'', se_threshold S),
       (''dealerId'', jget dealer ''id''), (''dealerIndex'', jget dealer ''index''), (''previousManifestHash'', h),
       (''selectedDealerIds'', selected_json S), (''commitments'', JArr (map JStr commitments))]))"

definition seal_share ::
  "ethers \<Rightarrow> ('p, 'q, 't) bls \<Rightarrow> 'k node \<Rightarrow> 'k crypto \<Rightarrow> int list \<Rightarrow> fields \<Rightarrow> json \<Rightarrow> (bytes, json) io" where
  "seal_share E B N K coefficients body recipient =
     bindIO (liftR (shareAssociatedData K (JObj body) (jget recipient ''id''))) (\<lambda>aad.
     bindIO (encryptShare E N K (params_r B) (polynomialAt (params_r B) coefficients (index_of recipient)) recipient aad)
       (\<lambda>envelope. returnIO (JObj [(''recipientId'', jget recipient ''id''), (''envelope'', envelope)])))"

text \<open>The signed packet and the dealer's encrypted state.\<close>

definition deal_packet ::
  "ethers \<Rightarrow> ('p, 'q, 't) bls \<Rightarrow> 'k node \<Rightarrow> 'k crypto \<Rightarrow> session \<Rightarrow> json list \<Rightarrow> 'k loaded \<Rightarrow> json \<Rightarrow> int list \<Rightarrow>
     string \<Rightarrow> int \<Rightarrow> (bytes, json \<times> json) io" where
  "deal_packet E B N K S participants loaded dealer coefficients password workFactor =
     bindIO (liftR (commitmentsFor E B coefficients)) (\<lambda>commitments.
     bindIO (liftR (deal_body E S dealer commitments)) (\<lambda>fs.
     bindIO (mapIO (seal_share E B N K coefficients fs) participants) (\<lambda>encryptedShares.
     (let body = JObj (fs @ [(''encryptedShares'', JArr encryptedShares)]) in
      bindIO (liftR (signPacket E N body (ld_identityPrivateKey loaded))) (\<lambda>signature.
      bindIO (liftR (mapR (scalarHex (params_r B)) coefficients)) (\<lambda>secrets.
      bindIO (liftR (packetHash E body)) (\<lambda>dealHash.
      bindIO (encryptPayload E K (JObj [(''coefficients'', JArr (map JStr secrets)), (''dealHash'', JStr dealHash)])
        password workFactor) (\<lambda>crypto.
      returnIO (JObj [(''body'', body), (''signature'', JStr signature)],
        JObj [(''format'', JStr DKG_PACKET_FORMAT), (''type'', JStr ''dealer-state''),
          (''sessionId'', jget body ''sessionId''), (''dealerId'', jget dealer ''id''), (''crypto'', crypto)])))))))))"

definition createDealBundle ::
  "ethers \<Rightarrow> ('p, 'q, 't) bls \<Rightarrow> 'k node \<Rightarrow> 'k crypto \<Rightarrow> session \<Rightarrow> json \<Rightarrow> string \<Rightarrow> int \<Rightarrow> (bytes, json \<times> json) io" where
  "createDealBundle E B N K S dealerKeystore password workFactor =
     bindIO (liftR (validateRoster E (se_roster S) (se_threshold S))) (\<lambda>participants.
     bindIO (liftR (loadKeystore E K dealerKeystore password)) (\<lambda>loaded.
     bindIO (liftR (applicable_dealer S participants (jget dealerKeystore ''participantId''))) (\<lambda>dealer.
     bindIO (randomScalar (params_r B) False) (\<lambda>drawn.
     bindIO (liftR (deal_constant E B N K S dealer (ld_secret loaded) drawn)) (\<lambda>constant.
     bindIO (draw_coefficients (params_r B) ((case se_threshold S of JInt t \<Rightarrow> nat t | _ \<Rightarrow> 1) - 1)) (\<lambda>rest.
     bindIO (nonzero_highest (params_r B) (constant # rest)) (\<lambda>coefficients.
     deal_packet E B N K S participants loaded dealer coefficients password workFactor)))))))"

subsection \<open>Validating a deal\<close>

text \<open>
  The four scalar fields are compared with \<open>!==\<close>, against values of this process or, in a
  resolution, against the very fields of the packet; so equality of values decides.
\<close>

definition wrong_field :: "string \<Rightarrow> json \<Rightarrow> fields \<Rightarrow> string \<Rightarrow> unit result" where
  "wrong_field what body expected k =
     (if jget body k \<noteq> field expected k then Inl (what @ '' has the wrong '' @ k) else Inr ())"

definition wrong_text :: "string \<Rightarrow> json \<Rightarrow> fields \<Rightarrow> string \<Rightarrow> unit result" where
  "wrong_text what body expected k = bindR (same_text (jget body k) (field expected k)) (\<lambda>same.
     if \<not> same then Inl (what @ '' has the wrong '' @ k) else Inr ())"

definition deal_signer :: "ethers \<Rightarrow> 'k node \<Rightarrow> json \<Rightarrow> json list \<Rightarrow> json result" where
  "deal_signer E N packet dealerRoster =
     (let body = jget packet ''body'';
          bad = ''invalid deal identity signature from '' @ js_string (jget body ''dealerId'') in
      bindR (find_by ''id'' (jget body ''dealerId'') dealerRoster) (\<lambda>found. (case found of
        None \<Rightarrow> Inl bad
      | Some dealer \<Rightarrow>
          if jget dealer ''index'' \<noteq> jget body ''dealerIndex'' then Inl bad
          else bindR (verifyPacket E N packet dealer) (\<lambda>ok. if \<not> ok then Inl bad else Inr dealer))))"

definition deal_commitments :: "ethers \<Rightarrow> ('p, 'q, 't) bls \<Rightarrow> json \<Rightarrow> fields \<Rightarrow> json list result" where
  "deal_commitments E B body expected =
     (let pid = js_string (jget body ''dealerId''); bad = ''invalid commitments from '' @ pid in
      (case jget body ''commitments'' of
         JArr vs \<Rightarrow>
           if JInt (int (length vs)) \<noteq> field expected ''threshold'' then Inl bad
           else bindR (mapR (\<lambda>(position, v). commitment_point E B v (''commitment '' @ showInt (int position)))
               (enumerate 0 vs)) (\<lambda>_.
             bindR (commitment_point E B (if vs = [] then JUndefined else last vs) ''highest commitment'') (\<lambda>highest.
             if highest = ZERO (G2 B) then Inl (''zero highest commitment from '' @ pid) else Inr vs))
       | _ \<Rightarrow> Inl bad))"

definition deal_shares :: "json \<Rightarrow> json list \<Rightarrow> json list result" where
  "deal_shares body roster =
     (let pid = js_string (jget body ''dealerId'');
          bad = ''deal from '' @ pid @ '' does not cover the roster exactly once'' in
      (case jget body ''encryptedShares'' of
         JArr vs \<Rightarrow>
           if length vs \<noteq> length roster then Inl bad
           else bindR (mapR (\<lambda>item. jprop item ''recipientId'') vs) (\<lambda>recipientIds.
             if set_size recipientIds \<noteq> length roster then Inl bad
             else bindR (same_text (JArr (js_sort recipientIds)) (JArr (js_sort (map (\<lambda>item. jget item ''id'') roster)))) (\<lambda>same.
               if \<not> same then Inl (''deal from '' @ pid @ '' targets the wrong roster'') else Inr vs))
       | _ \<Rightarrow> Inl bad))"

definition validateDealPacket ::
  "ethers \<Rightarrow> ('p, 'q, 't) bls \<Rightarrow> 'k node \<Rightarrow> json \<Rightarrow> json list \<Rightarrow> json list \<Rightarrow> fields \<Rightarrow> json result" where
  "validateDealPacket E B N packet roster dealerRoster expected =
     (let body = jget packet ''body'' in
      if jget body ''format'' \<noteq> JStr DKG_PACKET_FORMAT \<or> jget body ''type'' \<noteq> JStr ''deal''
      then Inl ''invalid deal packet format''
      else bindR (mapR (wrong_field ''deal'' body expected) [''ceremony'', ''sessionId'', ''epoch'', ''threshold'']) (\<lambda>_.
        bindR (mapR (wrong_text ''deal'' body expected) [''previousManifestHash'', ''selectedDealerIds'']) (\<lambda>_.
        bindR (deal_signer E N packet dealerRoster) (\<lambda>dealer.
        bindR (deal_commitments E B body expected) (\<lambda>_.
        bindR (deal_shares body roster) (\<lambda>_. Inr dealer))))))"

subsection \<open>Responding\<close>

text \<open>The recipient of a validated deal opens its share and checks it against the commitments.\<close>

definition accept_deal ::
  "ethers \<Rightarrow> ('p, 'q, 't) bls \<Rightarrow> 'k node \<Rightarrow> 'k crypto \<Rightarrow> json list \<Rightarrow> json list \<Rightarrow> fields \<Rightarrow> 'k loaded \<Rightarrow> json \<Rightarrow>
     json \<Rightarrow> unit result" where
  "accept_deal E B N K participants dealers expected loaded recipient packet =
     (let body = jget packet ''body'' in
      bindR (validateDealPacket E B N packet participants dealers expected) (\<lambda>_.
      bindR (as_array (jget body ''encryptedShares'') ''encryptedShares'') (\<lambda>encryptedShares.
      bindR (find_by ''recipientId'' (jget recipient ''id'') encryptedShares) (\<lambda>found.
      bindR (jprop (case found of None \<Rightarrow> JUndefined | Some item \<Rightarrow> item) ''envelope'') (\<lambda>envelope.
      bindR (shareAssociatedData K body (jget recipient ''id'')) (\<lambda>aad.
      bindR (decryptShare E N K envelope (ld_transportPrivateKey loaded) aad) (\<lambda>share.
      bindR (as_array (jget body ''commitments'') ''commitments'') (\<lambda>commitments.
      bindR (shareMatchesCommitments E B share commitments (index_of recipient)) (\<lambda>ok.
      if \<not> ok then Inl ''share does not match the public commitments'' else Inr ())))))))))"

definition deal_status ::
  "ethers \<Rightarrow> ('p, 'q, 't) bls \<Rightarrow> 'k node \<Rightarrow> 'k crypto \<Rightarrow> json list \<Rightarrow> json list \<Rightarrow> fields \<Rightarrow> 'k loaded \<Rightarrow> json \<Rightarrow>
     json \<Rightarrow> json" where
  "deal_status E B N K participants dealers expected loaded recipient packet =
     (let dealerId = jget (jget packet ''body'') ''dealerId'';
          (status, reason) = (case accept_deal E B N K participants dealers expected loaded recipient packet of
            Inr _ \<Rightarrow> (True, ''accepted'')
          | Inl message \<Rightarrow> (False, take 160 (if message = [] then ''Error'' else message))) in
      JObj [(''dealerId'', if truthy dealerId then dealerId else JStr ''unknown''), (''status'', JBool status),
        (''reason'', JStr reason)])"

definition response_body :: "session \<Rightarrow> fields \<Rightarrow> json \<Rightarrow> json list \<Rightarrow> json" where
  "response_body S expected recipient statuses = JObj [(''format'', JStr DKG_PACKET_FORMAT), (''type'', JStr ''response''),
     (''ceremony'', JStr (se_ceremony S)), (''sessionId'', field expected ''sessionId''),
     (''epoch'', se_epoch S), (''threshold'', se_threshold S), (''recipientId'', jget recipient ''id''),
     (''recipientIndex'', jget recipient ''index''), (''statuses'', JArr statuses)]"

text \<open>A participant looked up by its keystore.\<close>

definition own_participant :: "json \<Rightarrow> json list \<Rightarrow> string \<Rightarrow> json result" where
  "own_participant keystore participants missing =
     bindR (find_by ''id'' (jget keystore ''participantId'') participants) (\<lambda>found. (case found of
       None \<Rightarrow> Inl missing | Some participant \<Rightarrow> Inr participant))"

definition createResponseBundle ::
  "ethers \<Rightarrow> ('p, 'q, 't) bls \<Rightarrow> 'k node \<Rightarrow> 'k crypto \<Rightarrow> session \<Rightarrow> json \<Rightarrow> string \<Rightarrow> json list \<Rightarrow> json result" where
  "createResponseBundle E B N K S recipientKeystore password deals =
     bindR (validateRoster E (se_roster S) (se_threshold S)) (\<lambda>participants.
     bindR (dealer_roster E S) (\<lambda>dealers.
     bindR (loadKeystore E K recipientKeystore password) (\<lambda>loaded.
     bindR (own_participant recipientKeystore participants ''response signer is not in the new roster'') (\<lambda>recipient.
     bindR (expected_fields E S) (\<lambda>expected.
     (let statuses = map (deal_status E B N K participants dealers expected loaded recipient) deals in
      bindR (sort_locale K (map (\<lambda>status. jget status ''dealerId'') statuses) statuses) (\<lambda>sorted_statuses.
      (let body = response_body S expected recipient sorted_statuses in
       bindR (signPacket E N body (ld_identityPrivateKey loaded)) (\<lambda>signature.
       Inr (JObj [(''body'', body), (''signature'', JStr signature)]))))))))))"

definition strict_field :: "string \<Rightarrow> json \<Rightarrow> fields \<Rightarrow> string \<Rightarrow> unit result" where
  "strict_field what body expected k =
     (if \<not> strict_eq (jget body k) (field expected k) then Inl (what @ '' has the wrong '' @ k) else Inr ())"

definition check_status :: "string list \<Rightarrow> json \<Rightarrow> string list result" where
  "check_status seenDealers status =
     (case (jget status ''dealerId'', jget status ''status'', jget status ''reason'') of
        (JStr dealerId, JBool _, JStr reason) \<Rightarrow>
          if length reason > 160 \<or> dealerId \<in> set seenDealers then Inl ''invalid response status''
          else Inr (dealerId # seenDealers)
      | _ \<Rightarrow> Inl ''invalid response status'')"

definition packet_signer :: "ethers \<Rightarrow> 'k node \<Rightarrow> json \<Rightarrow> json list \<Rightarrow> json result" where
  "packet_signer E N packet roster = (let body = jget packet ''body'' in
     bindR (find_by ''id'' (jget body ''recipientId'') roster) (\<lambda>found. (case found of
       None \<Rightarrow> Inl ''invalid response packet''
     | Some recipient \<Rightarrow>
         if jget body ''format'' \<noteq> JStr DKG_PACKET_FORMAT \<or> jget body ''type'' \<noteq> JStr ''response''
           \<or> jget recipient ''index'' \<noteq> jget body ''recipientIndex''
         then Inl ''invalid response packet''
         else bindR (verifyPacket E N packet recipient) (\<lambda>ok.
           if \<not> ok then Inl ''invalid response packet'' else Inr recipient))))"

definition validateResponsePacket :: "ethers \<Rightarrow> 'k node \<Rightarrow> json \<Rightarrow> json list \<Rightarrow> fields \<Rightarrow> json result" where
  "validateResponsePacket E N packet roster expected = (let body = jget packet ''body'' in
     bindR (packet_signer E N packet roster) (\<lambda>_.
     bindR (mapR (strict_field ''response'' body expected) [''ceremony'', ''sessionId'', ''epoch'', ''threshold'']) (\<lambda>_.
     bindR (as_array (jget body ''statuses'') ''response statuses must be an array'') (\<lambda>statuses.
     bindR (foldR check_status [] statuses) (\<lambda>_. Inr body)))))"

subsection \<open>Resolving complaints\<close>

definition statuses_of :: "json \<Rightarrow> json list" where
  "statuses_of body = (case jget body ''statuses'' of JArr vs \<Rightarrow> vs | _ \<Rightarrow> [])"

definition complains :: "json \<Rightarrow> json \<Rightarrow> bool" where
  "complains dealerId responseBody \<longleftrightarrow>
     (\<exists>item \<in> set (statuses_of responseBody). strict_eq (jget item ''dealerId'') dealerId \<and> jget item ''status'' = JBool False)"

text \<open>One round of the loop over the responses: the responders seen and the complaints collected.\<close>

definition collect_complaint ::
  "ethers \<Rightarrow> ('p, 'q, 't) bls \<Rightarrow> 'k node \<Rightarrow> json list \<Rightarrow> fields \<Rightarrow> json \<Rightarrow> int list \<Rightarrow>
     json list \<times> json list \<Rightarrow> json \<Rightarrow> (json list \<times> json list) result" where
  "collect_complaint E B N participants expected participantId coefficients acc response =
     bindR (validateResponsePacket E N response participants expected) (\<lambda>responseBody.
     (let recipientId = jget responseBody ''recipientId'' in
      if recipientId \<in> set (fst acc) then Inl ''duplicate response packet''
      else if complains participantId responseBody
      then bindR (scalarHex (params_r B) (polynomialAt (params_r B) coefficients
          (case jget responseBody ''recipientIndex'' of JInt n \<Rightarrow> n | _ \<Rightarrow> 0))) (\<lambda>share.
        Inr (fst acc @ [recipientId], snd acc @ [JObj [(''recipientId'', recipientId),
          (''recipientIndex'', jget responseBody ''recipientIndex''), (''share'', JStr share)]]))
      else Inr (fst acc @ [recipientId], snd acc)))"

definition complaint_index :: "json \<Rightarrow> int" where
  "complaint_index item = (case jget item ''recipientIndex'' of JInt n \<Rightarrow> n | _ \<Rightarrow> 0)"

definition resolution_expected :: "ethers \<Rightarrow> json \<Rightarrow> fields result" where
  "resolution_expected E body = bindR (fixedHex E (jget body ''sessionId'') 32 ''sessionId'') (\<lambda>sessionId.
     Inr [(''ceremony'', jget body ''ceremony''), (''sessionId'', JStr sessionId), (''epoch'', jget body ''epoch''),
       (''threshold'', jget body ''threshold''), (''previousManifestHash'', jget body ''previousManifestHash''),
       (''selectedDealerIds'', jget body ''selectedDealerIds'')])"

definition resolution_coefficients ::
  "ethers \<Rightarrow> 'k crypto \<Rightarrow> int \<Rightarrow> json \<Rightarrow> int list result" where
  "resolution_coefficients E K r secret =
     bindR (as_array (jget secret ''coefficients'') ''coefficients.map is not a function'') (\<lambda>vs.
     mapR (\<lambda>v. bindR (toBigInt K v) (\<lambda>n. scalar r n ''dealer coefficient'' True)) vs)"

definition resolution_body :: "json \<Rightarrow> json \<Rightarrow> json list \<Rightarrow> json" where
  "resolution_body deal dealerId complaints = JObj [(''format'', JStr DKG_PACKET_FORMAT), (''type'', JStr ''resolution''),
     (''ceremony'', jget deal ''ceremony''), (''sessionId'', jget deal ''sessionId''), (''epoch'', jget deal ''epoch''),
     (''threshold'', jget deal ''threshold''), (''dealerId'', dealerId), (''complaints'', JArr complaints)]"

definition createResolutionBundle ::
  "ethers \<Rightarrow> ('p, 'q, 't) bls \<Rightarrow> 'k node \<Rightarrow> 'k crypto \<Rightarrow> json \<Rightarrow> json \<Rightarrow> string \<Rightarrow> json \<Rightarrow> json list \<Rightarrow> json \<Rightarrow> json \<Rightarrow>
     json result" where
  "createResolutionBundle E B N K dealerKeystore dealerState password deal responses roster dealerRoster =
     (let body = jget deal ''body''; participantId = jget dealerKeystore ''participantId'' in
      bindR (validateRoster E roster (jget body ''threshold'')) (\<lambda>participants.
      bindR (bindR (as_array (if dealerRoster = JUndefined then roster else dealerRoster)
        ''dealerRoster.map is not a function'') (number_roster E)) (\<lambda>dealers.
      bindR (loadKeystore E K dealerKeystore password) (\<lambda>loaded.
      if jget dealerState ''type'' \<noteq> JStr ''dealer-state'' \<or> \<not> strict_eq (jget dealerState ''dealerId'') participantId
        \<or> \<not> strict_eq (jget dealerState ''sessionId'') (jget body ''sessionId'')
      then Inl ''dealer state does not match the deal''
      else bindR (decryptPayload E K (jget dealerState ''crypto'') password) (\<lambda>secret.
        bindR (jprop secret ''dealHash'') (\<lambda>dealHash.
        bindR (packetHash E body) (\<lambda>h.
        if dealHash \<noteq> JStr h then Inl ''dealer state deal hash mismatch''
        else bindR (resolution_expected E body) (\<lambda>expected.
          bindR (validateDealPacket E B N deal participants dealers expected) (\<lambda>dealer.
          if \<not> strict_eq (jget dealer ''id'') participantId
          then Inl ''dealer keystore does not own the signed deal''
          else bindR (resolution_coefficients E K (params_r B) secret) (\<lambda>coefficients.
            bindR (foldR (collect_complaint E B N participants expected participantId coefficients) ([], []) responses)
              (\<lambda>(responders, complaints).
            if set_size (map (\<lambda>item. jget item ''recipientId'') complaints) \<noteq> length complaints
            then Inl ''duplicate complaint response''
            else if (case jget body ''threshold'' of JInt t \<Rightarrow> int (length complaints) \<ge> t | _ \<Rightarrow> False)
            then Inl ''refusing to reveal threshold shares; disqualify the dealer and restart''
            else (let resolution = resolution_body body participantId (sort_key complaint_index complaints) in
              bindR (signPacket E N resolution (ld_identityPrivateKey loaded)) (\<lambda>signature.
              Inr (JObj [(''body'', resolution), (''signature'', JStr signature)]))))))))))))))"

subsection \<open>Validating a resolution\<close>

text \<open>The share of a complaint is read with \<open>BigInt\<close>.\<close>

definition resolved_complaint ::
  "ethers \<Rightarrow> ('p, 'q, 't) bls \<Rightarrow> 'k crypto \<Rightarrow> json list \<Rightarrow> json list \<Rightarrow> string \<Rightarrow> json list \<Rightarrow> json \<Rightarrow> json list result" where
  "resolved_complaint E B K roster commitments dealer seen item =
     bindR (jprop item ''recipientId'') (\<lambda>recipientId.
     bindR (find_by ''id'' recipientId roster) (\<lambda>found. (case found of
       None \<Rightarrow> Inl (''invalid resolution recipient from '' @ dealer)
     | Some recipient \<Rightarrow>
         if jget recipient ''index'' \<noteq> jget item ''recipientIndex'' \<or> recipientId \<in> set seen
         then Inl (''invalid resolution recipient from '' @ dealer)
         else bindR (toBigInt K (jget item ''share'')) (\<lambda>share.
           bindR (shareMatchesCommitments E B share commitments (index_of recipient)) (\<lambda>ok.
           if \<not> ok then Inl (''invalid resolved share from '' @ dealer) else Inr (recipientId # seen))))))"

text \<open>The signed complaints against a dealer, among the validated responses.\<close>

definition complained_ids :: "json \<Rightarrow> json list \<Rightarrow> json list" where
  "complained_ids dealerId responses =
     js_sort (map (\<lambda>response. jget response ''recipientId'') (filter (complains dealerId) responses))"

definition validateResolution ::
  "ethers \<Rightarrow> ('p, 'q, 't) bls \<Rightarrow> 'k node \<Rightarrow> 'k crypto \<Rightarrow> json \<Rightarrow> json \<Rightarrow> json \<Rightarrow> fields \<Rightarrow> json list \<Rightarrow> json list \<Rightarrow>
     json result" where
  "validateResolution E B N K packet dealer deal expected roster responses =
     (let body = jget packet ''body''; pid = js_string (jget dealer ''id'');
          bad = ''invalid resolution from '' @ pid in
      if jget body ''format'' \<noteq> JStr DKG_PACKET_FORMAT \<or> jget body ''type'' \<noteq> JStr ''resolution''
        \<or> \<not> strict_eq (jget body ''dealerId'') (jget dealer ''id'') then Inl bad
      else bindR (verifyPacket E N packet dealer) (\<lambda>ok.
        if \<not> ok then Inl bad
        else bindR (mapR (strict_field ''resolution'' body expected) [''ceremony'', ''sessionId'', ''epoch'', ''threshold'']) (\<lambda>_.
          bindR (as_array (jget body ''complaints'') ''resolution complaints must be an array'') (\<lambda>complaints.
          (let complained = complained_ids (jget dealer ''id'') responses in
           if (case field expected ''threshold'' of JInt t \<Rightarrow> int (length complained) \<ge> t | _ \<Rightarrow> False)
           then Inl (''resolution from '' @ pid @ '' would reveal threshold shares'')
           else bindR (mapR (\<lambda>item. jprop item ''recipientId'') complaints) (\<lambda>resolved.
             bindR (same_text (JArr (js_sort resolved)) (JArr complained)) (\<lambda>same.
             if \<not> same then Inl (''resolution from '' @ pid @ '' does not exactly match signed complaints'')
             else bindR (as_array (jget (jget deal ''body'') ''commitments'') ''commitments'') (\<lambda>commitments.
               bindR (foldR (resolved_complaint E B K roster commitments pid) [] complaints) (\<lambda>_. Inr body))))))))) "

subsection \<open>Finalizing\<close>

definition collect_response ::
  "ethers \<Rightarrow> 'k node \<Rightarrow> json list \<Rightarrow> fields \<Rightarrow> json list \<Rightarrow> json \<Rightarrow> json list result" where
  "collect_response E N participants expected validResponses response =
     bindR (validateResponsePacket E N response participants expected) (\<lambda>body.
     if jget body ''recipientId'' \<in> set (map (\<lambda>b. jget b ''recipientId'') validResponses)
     then Inl ''duplicate response packet'' else Inr (validResponses @ [body]))"

definition collect_resolution :: "(string \<times> json) list \<Rightarrow> json \<Rightarrow> (string \<times> json) list result" where
  "collect_resolution packets resolution = (case jget (jget resolution ''body'') ''dealerId'' of
     JStr dealerId \<Rightarrow>
       if dealerId \<in> set (map fst packets) then Inl ''invalid or duplicate resolution packet''
       else Inr (packets @ [(dealerId, resolution)])
   | _ \<Rightarrow> Inl ''invalid or duplicate resolution packet'')"

text \<open>The constant commitment of a dealer that reshares is its old share key, weighted.\<close>

definition check_reshare_constant ::
  "ethers \<Rightarrow> ('p, 'q, 't) bls \<Rightarrow> 'k crypto \<Rightarrow> session \<Rightarrow> json \<Rightarrow> json \<Rightarrow> unit result" where
  "check_reshare_constant E B K S dealer body =
     bindR (selectedDealerIndexes K (se_previousManifest S) (se_selectedDealerIds S)) (\<lambda>indexes.
     bindR (toBigInt K (jget dealer ''index'')) (\<lambda>index.
     bindR (lagrangeCoefficientAtZero (params_r B) index indexes) (\<lambda>lambda.
     bindR (as_array (jget (se_previousManifest S) ''participants'') ''find is not a function'') (\<lambda>previous.
     bindR (find_by ''id'' (jget dealer ''id'') previous) (\<lambda>oldShare.
     (let name = js_string (jget dealer ''id'') in
      bindR (jprop (case oldShare of None \<Rightarrow> JUndefined | Some item \<Rightarrow> item) ''sharePublicKey'') (\<lambda>sharePublicKey.
      bindR (case sharePublicKey of JStr s \<Rightarrow> g2Point E B (HexString s) (name @ '' old share public key'')
          | _ \<Rightarrow> Inl (name @ '' old share public key must be hex bytes'')) (\<lambda>old.
      bindR (multiply (G2 B) old lambda) (\<lambda>expectedConstant.
      bindR (as_array (jget body ''commitments'') ''commitments'') (\<lambda>commitments.
      bindR (commitment_point E B (if commitments = [] then JUndefined else hd commitments)
        (name @ '' resharing constant commitment'')) (\<lambda>constant.
      if constant \<noteq> expectedConstant
      then Inl (''resharing constant commitment from '' @ name @ '' is invalid'') else Inr ())))))))))))"

text \<open>One round of the loop over the deals: the accepted packets, and the validated resolutions by dealer.\<close>

definition finalize_deal ::
  "ethers \<Rightarrow> ('p, 'q, 't) bls \<Rightarrow> 'k node \<Rightarrow> 'k crypto \<Rightarrow> session \<Rightarrow> json list \<Rightarrow> json list \<Rightarrow> fields \<Rightarrow> json list \<Rightarrow>
     (string \<times> json) list \<Rightarrow> json list \<times> (json \<times> json) list \<Rightarrow> json \<Rightarrow> (json list \<times> (json \<times> json) list) result" where
  "finalize_deal E B N K S participants dealers expected validResponses packets acc packet =
     bindR (validateDealPacket E B N packet participants dealers expected) (\<lambda>dealer.
     (let body = jget packet ''body''; dealerId = jget dealer ''id'' in
      if \<exists>item \<in> set (fst acc). strict_eq (jget (jget item ''body'') ''dealerId'') dealerId
      then Inl (''duplicate deal from '' @ js_string dealerId)
      else bindR (case dealerId of
          JStr name \<Rightarrow> (case map_of packets name of
            None \<Rightarrow> Inr (snd acc)
          | Some resolution \<Rightarrow> bindR (validateResolution E B N K resolution dealer packet expected participants validResponses)
              (\<lambda>resolved. Inr (snd acc @ [(dealerId, resolved)])))
        | _ \<Rightarrow> Inr (snd acc)) (\<lambda>resolutions.
      bindR (if se_ceremony S = ''reshare'' then check_reshare_constant E B K S dealer body else Inr ()) (\<lambda>_.
      Inr (fst acc @ [packet], resolutions)))))"

definition deal_ids :: "json list \<Rightarrow> json list" where
  "deal_ids deals = js_sort (map (\<lambda>item. jget (jget item ''body'') ''dealerId'') deals)"

definition check_coverage :: "json list \<Rightarrow> json \<Rightarrow> unit result" where
  "check_coverage validDealerIds response =
     bindR (same_text (JArr (js_sort (map (\<lambda>status. jget status ''dealerId'') (statuses_of response)))) (JArr validDealerIds)) (\<lambda>same.
     if \<not> same then Inl (''response from '' @ js_string (jget response ''recipientId'') @ '' does not cover every valid deal'')
     else Inr ())"

definition complaints_of :: "(json \<times> json) list \<Rightarrow> json \<Rightarrow> json list" where
  "complaints_of resolutions dealerId = (case map_of resolutions dealerId of
     None \<Rightarrow> [] | Some body \<Rightarrow> (case jget body ''complaints'' of JArr vs \<Rightarrow> vs | _ \<Rightarrow> []))"

text \<open>The evaluations of a deal: who evaluated it, and whether the share was good.\<close>

definition evaluations :: "json list \<Rightarrow> json \<Rightarrow> (json \<times> bool) list" where
  "evaluations validResponses dealerId = concat (map (\<lambda>response.
     (case List.find (\<lambda>item. strict_eq (jget item ''dealerId'') dealerId) (statuses_of response) of
        None \<Rightarrow> []
      | Some status \<Rightarrow> [(jget response ''recipientId'', jget status ''status'' = JBool True)])) validResponses)"

definition qualifies :: "int \<Rightarrow> json list \<Rightarrow> (json \<times> json) list \<Rightarrow> json \<Rightarrow> bool" where
  "qualifies threshold validResponses resolutions deal =
     (let dealerId = jget (jget deal ''body'') ''dealerId'';
          evals = evaluations validResponses dealerId;
          complaints = filter (\<lambda>ev. \<not> snd ev) evals;
          resolvedIds = map (\<lambda>item. jget item ''recipientId'') (complaints_of resolutions dealerId);
          accepted = length (filter snd evals) + length (filter (\<lambda>ev. fst ev \<in> set resolvedIds) complaints) in
      int (length complaints) < threshold \<and> (\<forall>ev \<in> set complaints. fst ev \<in> set resolvedIds)
      \<and> int accepted \<ge> threshold)"

definition check_qualified :: "'k crypto \<Rightarrow> session \<Rightarrow> int \<Rightarrow> json list \<Rightarrow> unit result" where
  "check_qualified K S threshold qualified =
     (if se_ceremony S = ''dkg'' \<and> int (length qualified) < threshold
      then Inl ''fewer than threshold dealers qualified''
      else if se_ceremony S = ''reshare''
      then bindR (selectedDealerIndexes K (se_previousManifest S) (se_selectedDealerIds S)) (\<lambda>_.
        (let qualifiedIds = map (\<lambda>item. jget (jget item ''body'') ''dealerId'') qualified in
         if length qualified \<noteq> length (se_selectedDealerIds S)
           \<or> (\<exists>pid \<in> set (se_selectedDealerIds S). JStr pid \<notin> set qualifiedIds)
         then Inl ''resharing aborts unless every preselected old dealer qualifies'' else Inr ()))
      else Inr ())"

text \<open>A participant's own share of a deal, or the share that its dealer published for it.\<close>

definition open_share ::
  "ethers \<Rightarrow> ('p, 'q, 't) bls \<Rightarrow> 'k node \<Rightarrow> 'k crypto \<Rightarrow> 'k loaded \<Rightarrow> json \<Rightarrow> json \<Rightarrow> int result" where
  "open_share E B N K loaded participant body =
     bindR (as_array (jget body ''encryptedShares'') ''encryptedShares'') (\<lambda>encryptedShares.
     bindR (find_by ''recipientId'' (jget participant ''id'') encryptedShares) (\<lambda>found.
     bindR (jprop (case found of None \<Rightarrow> JUndefined | Some item \<Rightarrow> item) ''envelope'') (\<lambda>envelope.
     bindR (shareAssociatedData K body (jget participant ''id'')) (\<lambda>aad.
     bindR (decryptShare E N K envelope (ld_transportPrivateKey loaded) aad) (\<lambda>share.
     bindR (as_array (jget body ''commitments'') ''commitments'') (\<lambda>commitments.
     bindR (shareMatchesCommitments E B share commitments (index_of participant)) (\<lambda>ok.
     if \<not> ok then Inl ''invalid local share'' else Inr share)))))))"

definition contribution ::
  "ethers \<Rightarrow> ('p, 'q, 't) bls \<Rightarrow> 'k node \<Rightarrow> 'k crypto \<Rightarrow> 'k loaded \<Rightarrow> (json \<times> json) list \<Rightarrow> json \<Rightarrow> json \<Rightarrow> int result" where
  "contribution E B N K loaded resolutions participant deal =
     (let body = jget deal ''body''; dealerId = jget body ''dealerId'' in
      (case open_share E B N K loaded participant body of
         Inr share \<Rightarrow> Inr share
       | Inl _ \<Rightarrow>
           (case List.find (\<lambda>item. strict_eq (jget item ''recipientId'') (jget participant ''id''))
               (complaints_of resolutions dealerId) of
              None \<Rightarrow> Inl (''no valid share from '' @ js_string dealerId)
            | Some resolved \<Rightarrow> bindR (toBigInt K (jget resolved ''share'')) (\<lambda>n.
                scalar (params_r B) n ''resolved share'' True))))"

definition private_share ::
  "ethers \<Rightarrow> ('p, 'q, 't) bls \<Rightarrow> 'k node \<Rightarrow> 'k crypto \<Rightarrow> 'k loaded \<Rightarrow> (json \<times> json) list \<Rightarrow> json \<Rightarrow> json list \<Rightarrow> int result" where
  "private_share E B N K loaded resolutions participant qualified =
     bindR (foldR (\<lambda>privateShare deal. bindR (contribution E B N K loaded resolutions participant deal) (\<lambda>share.
       Inr ((privateShare + share) smod params_r B))) 0 qualified) (\<lambda>privateShare.
     if privateShare = 0 then Inl ''final threshold share is zero'' else Inr privateShare)"

definition commitment_at :: "json \<Rightarrow> nat \<Rightarrow> json" where
  "commitment_at deal position = (case jget (jget deal ''body'') ''commitments'' of
     JArr vs \<Rightarrow> if position < length vs then vs ! position else JUndefined | _ \<Rightarrow> JUndefined)"

definition aggregateCommitments ::
  "ethers \<Rightarrow> ('p, 'q, 't) bls \<Rightarrow> json list \<Rightarrow> nat \<Rightarrow> string list result" where
  "aggregateCommitments E B deals threshold = mapR (\<lambda>position.
     bindR (foldR (\<lambda>total deal. bindR (commitment_point E B (commitment_at deal position)
         (''commitment '' @ showInt (int position))) (\<lambda>point. Inr (add_pt (G2 B) total point))) (ZERO (G2 B)) deals) (\<lambda>total.
     Inr (wireHex E (G2 B) total))) [0..<threshold]"

text \<open>
  What every participant computes from the public messages alone: the qualified deals, the validated resolutions, the
  public polynomial, and the transcript with its hash. \<open>finalizeCeremony\<close> interleaves this with the
  participant's own share; the two do not depend on each other.
\<close>

definition agree_on_deals ::
  "ethers \<Rightarrow> ('p, 'q, 't) bls \<Rightarrow> 'k node \<Rightarrow> 'k crypto \<Rightarrow> session \<Rightarrow> json list \<Rightarrow> json list \<Rightarrow> fields \<Rightarrow> json list \<Rightarrow>
     json list \<Rightarrow> json list \<Rightarrow> (json list \<times> (json \<times> json) list) result" where
  "agree_on_deals E B N K S participants dealers expected deals responses resolutions =
     bindR (foldR (collect_response E N participants expected) [] responses) (\<lambda>validResponses.
     bindR (foldR collect_resolution [] resolutions) (\<lambda>packets.
     bindR (foldR (finalize_deal E B N K S participants dealers expected validResponses packets) ([], []) deals)
       (\<lambda>(validDeals, resolved).
     if \<exists>name \<in> set (map fst packets). JStr name \<notin> set (deal_ids validDeals)
     then Inl ''resolution references a dealer without a valid deal''
     else bindR (mapR (check_coverage (deal_ids validDeals)) validResponses) (\<lambda>_.
       (let threshold = (case field expected ''threshold'' of JInt t \<Rightarrow> t | _ \<Rightarrow> 0);
            qualified = filter (qualifies threshold validResponses resolved) validDeals in
        bindR (check_qualified K S threshold qualified) (\<lambda>_. Inr (qualified, resolved)))))))"

definition ceremony_transcript ::
  "'k crypto \<Rightarrow> session \<Rightarrow> fields \<Rightarrow> json list \<Rightarrow> json list \<Rightarrow> json list \<Rightarrow> json list \<Rightarrow> json result" where
  "ceremony_transcript K S expected qualified deals responses resolutions =
     bindR (sort_locale K (map (\<lambda>p. jget (jget p ''body'') ''dealerId'') deals) deals) (\<lambda>sorted_deals.
     bindR (sort_locale K (map (\<lambda>p. jget (jget p ''body'') ''recipientId'') responses) responses) (\<lambda>sorted_responses.
     bindR (sort_locale K (map (\<lambda>p. jget (jget p ''body'') ''dealerId'') resolutions) resolutions) (\<lambda>sorted_resolutions.
     Inr (JObj [(''format'', JStr DKG_PACKET_FORMAT), (''ceremony'', JStr (se_ceremony S)),
       (''sessionId'', field expected ''sessionId''), (''epoch'', se_epoch S), (''threshold'', se_threshold S),
       (''qualifiedDealerIds'', JArr (deal_ids qualified)), (''deals'', JArr sorted_deals),
       (''responses'', JArr sorted_responses), (''resolutions'', JArr sorted_resolutions)]))))"

definition unchanged_group_key :: "session \<Rightarrow> string \<Rightarrow> unit result" where
  "unchanged_group_key S groupPublicKey =
     (if se_ceremony S \<noteq> ''reshare'' then Inr ()
      else bindR (lower_opt (jget (se_previousManifest S) ''groupPublicKey'')) (\<lambda>previous.
        if JStr (toLowerCase groupPublicKey) \<noteq> previous then Inl ''resharing changed the group public key'' else Inr ()))"

definition finalization_json ::
  "session \<Rightarrow> fields \<Rightarrow> json \<Rightarrow> string list \<Rightarrow> string \<Rightarrow> string \<Rightarrow> json list \<Rightarrow> json" where
  "finalization_json S expected participant publicCoefficients sharePublicKey transcriptHash qualified =
     JObj [(''format'', JStr DKG_FINALIZATION_FORMAT), (''ceremony'', JStr (se_ceremony S)),
       (''sessionId'', field expected ''sessionId''), (''epoch'', se_epoch S), (''threshold'', se_threshold S),
       (''participantId'', jget participant ''id''), (''participantIndex'', jget participant ''index''),
       (''groupPublicKey'', JStr (hd publicCoefficients)), (''publicCoefficients'', JArr (map JStr publicCoefficients)),
       (''sharePublicKey'', JStr sharePublicKey), (''transcriptHash'', JStr transcriptHash),
       (''qualifiedDealerIds'', JArr (deal_ids qualified)),
       (''previousManifestHash'', field expected ''previousManifestHash'')]"

definition finalized_secret :: "json \<Rightarrow> string \<Rightarrow> json \<Rightarrow> string \<Rightarrow> json" where
  "finalized_secret secret share epoch transcriptHash =
     with_field (with_field (with_field (with_field secret ''thresholdShare'' (JStr share)) ''thresholdEpoch'' epoch)
       ''thresholdManifestHash'' JNull) ''thresholdTranscriptHash'' (JStr transcriptHash)"

definition ceremony_threshold :: "session \<Rightarrow> nat" where
  "ceremony_threshold S = (case se_threshold S of JInt t \<Rightarrow> nat t | _ \<Rightarrow> 0)"

text \<open>The finalization, the participant's new keystore and the transcript.\<close>

definition finalizeCeremony ::
  "ethers \<Rightarrow> ('p, 'q, 't) bls \<Rightarrow> 'k node \<Rightarrow> 'k crypto \<Rightarrow> session \<Rightarrow> json \<Rightarrow> string \<Rightarrow> json list \<Rightarrow> json list \<Rightarrow> json list \<Rightarrow>
     int \<Rightarrow> (bytes, json \<times> json \<times> json) io" where
  "finalizeCeremony E B N K S participantKeystore password deals responses resolutions workFactor =
     bindIO (liftR (validateRoster E (se_roster S) (se_threshold S))) (\<lambda>participants.
     bindIO (liftR (dealer_roster E S)) (\<lambda>dealers.
     bindIO (liftR (loadKeystore E K participantKeystore password)) (\<lambda>loaded.
     bindIO (liftR (own_participant participantKeystore participants ''finalizing participant is not in the new roster'')) (\<lambda>participant.
     bindIO (liftR (expected_fields E S)) (\<lambda>expected.
     bindIO (liftR (agree_on_deals E B N K S participants dealers expected deals responses resolutions)) (\<lambda>(qualified, resolved).
     bindIO (liftR (private_share E B N K loaded resolved participant qualified)) (\<lambda>privateShare.
     bindIO (liftR (aggregateCommitments E B qualified (ceremony_threshold S))) (\<lambda>publicCoefficients.
     bindIO (liftR (unchanged_group_key S (hd publicCoefficients))) (\<lambda>_.
     bindIO (liftR (ceremony_transcript K S expected qualified deals responses resolutions)) (\<lambda>transcript.
     bindIO (liftR (packetHash E transcript)) (\<lambda>transcriptHash.
     bindIO (liftR (scalarHex (params_r B) privateShare)) (\<lambda>share.
     bindIO (liftR (multiply (G2 B) (BASE (G2 B)) privateShare)) (\<lambda>sharePoint.
     bindIO (encryptPayload E K (finalized_secret (ld_secret loaded) share (se_epoch S) transcriptHash) password workFactor) (\<lambda>crypto.
     returnIO (finalization_json S expected participant publicCoefficients (wireHex E (G2 B) sharePoint) transcriptHash qualified,
       with_field participantKeystore ''crypto'' crypto, transcript)))))))))))))))"

subsection \<open>The group manifest\<close>

definition agreement_fields :: "string list" where
  "agreement_fields = [''ceremony'', ''sessionId'', ''epoch'', ''threshold'', ''groupPublicKey'', ''transcriptHash'',
     ''previousManifestHash'']"

definition check_agreement :: "json \<Rightarrow> json \<Rightarrow> unit result" where
  "check_agreement first finalization =
     bindR (jprop finalization ''format'') (\<lambda>format.
     if format \<noteq> JStr DKG_FINALIZATION_FORMAT then Inl ''invalid finalization''
     else bindR (mapR (\<lambda>k. bindR (same_text (jget finalization k) (jget first k)) (\<lambda>same.
         if \<not> same then Inl (''finalizations disagree on '' @ k) else Inr ())) agreement_fields) (\<lambda>_.
       bindR (same_text (jget finalization ''publicCoefficients'') (jget first ''publicCoefficients'')) (\<lambda>same.
       if \<not> same then Inl ''finalizations disagree on public coefficients'' else Inr ())))"

text \<open>The finalization of a participant: the last one with its identifier, as in a \<open>Map\<close>.\<close>

definition finalization_of :: "json list \<Rightarrow> json \<Rightarrow> json option" where
  "finalization_of finalizations pid =
     List.find (\<lambda>item. strict_eq (jget item ''participantId'') pid) (rev finalizations)"

definition covered :: "json list \<Rightarrow> json \<Rightarrow> bool result" where
  "covered finalizations participant = bindR (jprop participant ''id'') (\<lambda>pid.
     (case finalization_of finalizations pid of
        None \<Rightarrow> Inr False
      | Some finalization \<Rightarrow> Inr (strict_eq (jget finalization ''participantIndex'') (jget participant ''index''))))"

record build =
  bu_network :: json
  bu_chainId :: json
  bu_verifierAdapter :: json
  bu_softwareCommit :: json
  bu_containerDigest :: json
  bu_previousManifestHash :: json

definition share_entry :: "json list \<Rightarrow> json \<Rightarrow> json" where
  "share_entry finalizations participant = with_field participant ''sharePublicKey''
     (case finalization_of finalizations (jget participant ''id'') of
        None \<Rightarrow> JUndefined | Some finalization \<Rightarrow> jget finalization ''sharePublicKey'')"

definition manifest_json :: "build \<Rightarrow> json \<Rightarrow> string \<Rightarrow> json list \<Rightarrow> json" where
  "manifest_json U first keyHash participants = JObj [(''format'', JStr GROUP_FORMAT), (''scheme'', JStr BLS_SCHEME),
     (''network'', bu_network U), (''chainId'', bu_chainId U), (''verifierAdapter'', bu_verifierAdapter U),
     (''ceremony'', jget first ''ceremony''), (''previousManifestHash'', bu_previousManifestHash U),
     (''epoch'', jget first ''epoch''), (''threshold'', jget first ''threshold''),
     (''groupPublicKey'', jget first ''groupPublicKey''), (''publicCoefficients'', jget first ''publicCoefficients''),
     (''keyHash'', JStr keyHash), (''dkgTranscriptHash'', jget first ''transcriptHash''),
     (''softwareCommit'', bu_softwareCommit U), (''containerDigest'', bu_containerDigest U),
     (''participants'', JArr participants), (''attestations'', JArr []), (''handoffAttestations'', JArr [])]"

definition assembleManifest ::
  "ethers \<Rightarrow> ('p, 'q, 't) bls \<Rightarrow> 'k node \<Rightarrow> json \<Rightarrow> json list \<Rightarrow> build \<Rightarrow> json result" where
  "assembleManifest E B N finalizations roster U = (case finalizations of
     JArr fins \<Rightarrow>
       if length fins \<noteq> length roster then Inl ''one finalization is required for every new participant''
       else (let first = (if fins = [] then JUndefined else hd fins) in
         bindR (mapR (check_agreement first) fins) (\<lambda>_.
         if set_size (map (\<lambda>item. jget item ''participantId'') fins) \<noteq> length roster
         then Inl ''finalizations must cover the roster exactly once''
         else bindR (mapR (covered fins) roster) (\<lambda>ok.
           if False \<in> set ok then Inl ''finalizations must cover the roster exactly once''
           else bindR (jprop first ''groupPublicKey'') (\<lambda>groupPublicKey.
             bindR (adapterKeyHash E B groupPublicKey) (\<lambda>keyHash.
             (let manifest = manifest_json U first keyHash (map (share_entry fins) roster) in
              bindR (prepareGroupManifest E B N True manifest) (\<lambda>_. Inr manifest)))))))
   | _ \<Rightarrow> Inl ''one finalization is required for every new participant'')"

definition attestManifest ::
  "ethers \<Rightarrow> ('p, 'q, 't) bls \<Rightarrow> 'k node \<Rightarrow> 'k crypto \<Rightarrow> json \<Rightarrow> json \<Rightarrow> string \<Rightarrow> json result" where
  "attestManifest E B N K manifest participantKeystore password =
     bindR (loadKeystore E K participantKeystore password) (\<lambda>loaded.
     bindR (prepareGroupManifest E B N True manifest) (\<lambda>(body, manifestHash).
     bindR (getBytes E manifestHash) (\<lambda>message.
     Inr (JObj [(''participantId'', jget participantKeystore ''participantId''),
       (''signature'', JStr (hexlify E (ed_sign N message (ld_identityPrivateKey loaded))))]))))"

definition matches_keystore ::
  "ethers \<Rightarrow> ('p, 'q, 't) bls \<Rightarrow> 'k crypto \<Rightarrow> json \<Rightarrow> json \<Rightarrow> participant \<Rightarrow> bool result" where
  "matches_keystore E B K keystore thresholdShare p =
     (if JStr (toLowerCase (pa_identityPublicKey p)) \<noteq> JStr (toLowerCase (js_string (jget keystore ''identityPublicKey'')))
        \<or> JStr (toLowerCase (pa_transportPublicKey p)) \<noteq> JStr (toLowerCase (js_string (jget keystore ''transportPublicKey'')))
      then Inr False
      else bindR (toBigInt K thresholdShare) (\<lambda>n. bindR (publicKeyForShare E B n) (\<lambda>key.
        Inr (toLowerCase key = toLowerCase (pa_sharePublicKey p)))))"

definition bindKeystoreToManifest ::
  "ethers \<Rightarrow> ('p, 'q, 't) bls \<Rightarrow> 'k node \<Rightarrow> 'k crypto \<Rightarrow> json \<Rightarrow> string \<Rightarrow> json \<Rightarrow> json \<Rightarrow> int \<Rightarrow> (bytes, json) io" where
  "bindKeystoreToManifest E B N K keystore password manifest manifestHash workFactor =
     bindIO (liftR (loadKeystore E K keystore password)) (\<lambda>loaded.
     bindIO (liftR (jprop (ld_secret loaded) ''thresholdShare'')) (\<lambda>thresholdShare.
     if \<not> truthy thresholdShare then throwIO ''keystore has no finalized threshold share''
     else bindIO (liftR (prepareGroupManifest E B N True manifest)) (\<lambda>(body, preparedHash).
       bindIO (liftR (fixedHex E manifestHash 32 ''manifestHash'')) (\<lambda>trustedHash.
       if preparedHash \<noteq> trustedHash then throwIO ''manifest does not match its separately trusted hash''
       else bindIO (liftR (case List.find (\<lambda>p. JStr (pa_id p) = jget keystore ''participantId'') (gb_participants body) of
             None \<Rightarrow> Inr False | Some p \<Rightarrow> matches_keystore E B K keystore thresholdShare p)) (\<lambda>ok.
         if \<not> ok then throwIO ''threshold keystore does not match the manifest participant and share''
         else bindIO (encryptPayload E K (with_field (ld_secret loaded) ''thresholdManifestHash'' (JStr trustedHash))
             password workFactor) (\<lambda>crypto.
           returnIO (with_field keystore ''crypto'' crypto)))))))"

end
