(* ===== verification/Dkg_Correct.thy ===== *)
theory Dkg_Correct
  imports Dkg_Ceremony
begin

section \<open>What the ceremony guarantees\<close>

text \<open>
  The share check decides whether a share is the value of the committed polynomial; every share a
  participant adds up has passed it; so the final share is the value, at the participant's index, of the
  polynomial whose commitments the finalization publishes. The other properties are the agreement of
  the finalizations, the round trip of the encrypted shares, and what a dealer may reveal.
\<close>

subsection \<open>Polynomials\<close>

lemma peval_append: "peval (xs @ [c]) x = peval xs x + c * x ^ length xs"
  by (induction xs) (simp_all add: algebra_simps)

lemma peval_map: "peval (map f [0..<n]) x = (\<Sum>j<n. f j * x ^ j)"
  by (induction n) (simp_all add: peval_append)

lemma peval_nth: "peval cs x = (\<Sum>j<length cs. cs ! j * x ^ j)"
  using peval_map [of "(!) cs" "length cs" x] by (simp add: map_nth)

text \<open>The coefficientwise sum of polynomials of one length evaluates to the sum of their values.\<close>

lemma peval_sum:
  assumes "\<forall>d \<in> set ds. length (P d) = n"
  shows "peval (map (\<lambda>j. \<Sum>d\<leftarrow>ds. P d ! j) [0..<n]) x = (\<Sum>d\<leftarrow>ds. peval (P d) x)"
  using assms
proof (induction ds)
  case Nil
  have "peval (map (\<lambda>j. 0) [0..<n]) x = 0" by (simp add: peval_map)
  then show ?case by simp
next
  case (Cons d ds)
  then show ?case by (simp add: peval_map peval_nth [of "P d"] sum.distrib algebra_simps)
qed

lemma polynomialAt_range:
  assumes "0 < r" "\<forall>c \<in> set cs. 0 \<le> c" "0 \<le> i"
  shows "0 \<le> polynomialAt r cs i \<and> polynomialAt r cs i < r"
  using assms(2)
proof (induction cs)
  case (Cons c cs)
  then have "0 \<le> polynomialAt r cs i * i + c" using assms(3) by simp
  then show ?case using assms(1) by (simp add: polynomialAt_def smod_nonneg)
qed (use assms(1) in \<open>simp add: polynomialAt_def\<close>)

lemma polynomialAt_peval:
  assumes "0 < r" "\<forall>c \<in> set cs. 0 \<le> c" "0 \<le> i"
  shows "eqm r (polynomialAt r cs i) (peval cs i)"
  using assms(2)
proof (induction cs)
  case (Cons c cs)
  have "0 \<le> polynomialAt r cs i" using polynomialAt_range [OF assms(1) _ assms(3)] Cons.prems by simp
  then have "polynomialAt r (c # cs) i = (polynomialAt r cs i * i + c) mod r"
    using assms(1,3) Cons.prems by (simp add: polynomialAt_def smod_nonneg)
  moreover have "eqm r (polynomialAt r cs i * i + c) (peval cs i * i + c)"
    using Cons by (intro eqm_add eqm_mult) auto
  ultimately show ?case by (simp add: algebra_simps)
qed (simp add: polynomialAt_def)

subsection \<open>Commitments\<close>

text \<open>
  \<open>multiply\<close> is only documented for the scalars from 1 to \<open>r - 1\<close>; if a library accepted zero, the product
  would be the neutral point.
\<close>

definition zero_multiple :: "'q curve \<Rightarrow> (int \<Rightarrow> 'q) \<Rightarrow> bool" where
  "zero_multiple G ex \<longleftrightarrow> (\<forall>a p. multiply G (ex a) 0 = Inr p \<longrightarrow> p = ex 0)"

definition commits :: "ethers \<Rightarrow> ('p, 'q, 't) bls \<Rightarrow> (int \<Rightarrow> 'q) \<Rightarrow> json \<Rightarrow> int \<Rightarrow> bool" where
  "commits E B ex2 v c \<longleftrightarrow> (\<forall>name. commitment_point E B v name = Inr (ex2 c))"

lemma commitment_point_Inr:
  assumes E: "hex_codec E" and B: "bls_laws B ex1 ex2 exT" and p: "commitment_point E B v name = Inr p"
  shows "\<exists>c. p = ex2 c \<and> commits E B ex2 v c"
proof -
  note iff = pointFor_Inr [OF E bls_lawsD(3) [OF B]]
  obtain s where s: "v = JStr s" using p by (cases v) (auto simp: commitment_point_def)
  then obtain c where "p = ex2 c" "wireBytes E (HexString s) = Some (toRawBytes (G2 B) (ex2 c))"
    using p by (auto simp: commitment_point_def g2CommitmentPoint_def iff)
  then show ?thesis using s
    by (intro exI [of _ c]) (simp add: commits_def commitment_point_def g2CommitmentPoint_def iff, blast)
qed

lemma commits_wireHex:
  assumes "hex_codec E" "bls_laws B ex1 ex2 exT"
  shows "commits E B ex2 (JStr (wireHex E (G2 B) (ex2 c))) c"
  using wireBytes_wireHex [OF assms(1), of "G2 B" "ex2 c"]
  by (auto simp: commits_def commitment_point_def g2CommitmentPoint_def pointFor_Inr [OF assms(1) bls_lawsD(3) [OF assms(2)]])

lemma commits_unique:
  assumes "bls_laws B ex1 ex2 exT" "commits E B ex2 v c" "commits E B ex2 v d"
  shows "eqm (params_r B) c d"
  using assms prime_order_groupD(5) [OF bls_lawsD(3) [OF assms(1)]] by (auto simp: commits_def)

lemma share_point_loop_eval:
  assumes B: "bls_laws B ex1 ex2 exT" and vs: "list_all2 (commits E B ex2) vs cs"
    and i: "0 < i" "i < params_r B" and pw: "0 < pw" "pw < params_r B"
  shows "share_point_loop E B i position vs (ex2 e) pw = Inr (ex2 (e + pw * peval cs i))"
  using vs pw
proof (induction vs cs arbitrary: position e pw rule: list_all2_induct)
  case (Cons v vs c cs)
  let ?r = "params_r B" and ?pw = "(pw * i) mod params_r B"
  note r = bls_lawsD(1) [OF B] and G = bls_lawsD(3) [OF B]
  have r0: "0 < ?r" using r by (auto simp: field_modulus_def)
  have "\<not> eqm ?r pw 0" "\<not> eqm ?r i 0" using Cons.prems i by (auto simp: eqm_mod)
  then have "?pw \<noteq> 0" using eqm_0_mult [OF r, of pw i] by (simp add: eqm_mod)
  then have pw': "0 < ?pw" "?pw < ?r" using r0 pos_mod_sign [of ?r "pw * i"] pos_mod_bound [of ?r "pw * i"] by linarith+
  have "(pw * i) smod ?r = ?pw" using r0 i Cons.prems by (simp add: smod_nonneg)
  then have "share_point_loop E B i position (v # vs) (ex2 e) pw =
      share_point_loop E B i (Suc position) vs (ex2 (e + c * pw)) ?pw"
    using Cons.prems Cons.hyps(1) by (simp add: commits_def prime_order_groupD(3,4) [OF G])
  also have "\<dots> = Inr (ex2 (e + c * pw + ?pw * peval cs i))"
    using Cons.IH pw' by simp
  also have "ex2 (e + c * pw + ?pw * peval cs i) = ex2 (e + pw * peval (c # cs) i)"
  proof -
    have "eqm ?r (e + c * pw + ?pw * peval cs i) (e + c * pw + pw * i * peval cs i)"
      by (intro eqm_add eqm_mult) auto
    then show ?thesis by (simp add: prime_order_groupD(5) [OF G] algebra_simps)
  qed
  finally show ?case .
qed simp

lemma expectedSharePoint_eval:
  assumes "bls_laws B ex1 ex2 exT" "list_all2 (commits E B ex2) vs cs" "0 < i" "i < params_r B"
  shows "expectedSharePoint E B vs i = Inr (ex2 (peval cs i))"
  using share_point_loop_eval [OF assms, of 1 0 0] bls_lawsD(1) [OF assms(1)]
  by (auto simp: expectedSharePoint_def prime_order_groupD(1) [OF bls_lawsD(3) [OF assms(1)]] field_modulus_def)

lemma shareMatchesCommitments_sound:
  assumes B: "bls_laws B ex1 ex2 exT" and z: "zero_multiple (G2 B) ex2"
    and vs: "list_all2 (commits E B ex2) vs cs" and i: "0 < i" "i < params_r B"
    and ok: "shareMatchesCommitments E B share vs i = Inr True"
  shows "0 \<le> share \<and> share < params_r B \<and> eqm (params_r B) share (peval cs i)"
proof -
  note G = bls_lawsD(3) [OF B]
  obtain p where s: "0 \<le> share" "share < params_r B" and p: "multiply (G2 B) (BASE (G2 B)) share = Inr p"
      "p = ex2 (peval cs i)"
    using ok expectedSharePoint_eval [OF B vs i]
    by (auto simp: shareMatchesCommitments_def scalar_def result_simps split: if_splits)
  have "p = ex2 share"
  proof (cases "share = 0")
    case True
    then show ?thesis using p(1) z by (simp add: zero_multiple_def prime_order_groupD(2) [OF G])
  next
    case False
    then show ?thesis using p(1) s by (simp add: prime_order_groupD(2,4) [OF G])
  qed
  then show ?thesis using s p(2) by (auto simp: prime_order_groupD(5) [OF G] intro: eqm_sym)
qed

lemma shareMatchesCommitments_complete:
  assumes B: "bls_laws B ex1 ex2 exT"
    and vs: "list_all2 (commits E B ex2) vs cs" and i: "0 < i" "i < params_r B"
    and share: "0 < share" "share < params_r B" "eqm (params_r B) share (peval cs i)"
  shows "shareMatchesCommitments E B share vs i = Inr True"
  using share expectedSharePoint_eval [OF B vs i]
  by (simp add: shareMatchesCommitments_def scalar_def prime_order_groupD(2,4,5) [OF bls_lawsD(3) [OF B]])

subsection \<open>Rosters and packets that were accepted\<close>

lemma validateParticipant_Inr:
  "validateParticipant E p n = Inr q \<Longrightarrow> q = p \<and> jget p ''index'' = JInt (int n)"
  by (auto simp: validateParticipant_def Let_def result_simps split: if_splits)

lemma number_roster_Inr:
  assumes "number_roster E vs = Inr ps"
  shows "ps = vs \<and> (\<forall>k < length vs. jget (vs ! k) ''index'' = JInt (int k + 1))"
proof -
  note m = assms [unfolded number_roster_def]
  have len: "length ps = length vs" using mapR_length [OF m] by simp
  have "ps ! k = vs ! k \<and> jget (vs ! k) ''index'' = JInt (int k + 1)" if "k < length vs" for k
    using mapR_nth [OF m, of k] that by (auto simp: nth_enumerate_eq dest: validateParticipant_Inr)
  with len show ?thesis by (auto intro: nth_equalityI)
qed

lemma as_array_Inr [result_simps]: "as_array v e = Inr vs \<longleftrightarrow> v = JArr vs"
  by (cases v) (auto simp: as_array_def)

lemma jprop_Inr [result_simps]: "jprop v k = Inr x \<longleftrightarrow> v \<noteq> JNull \<and> v \<noteq> JUndefined \<and> x = jget v k"
  by (auto simp: jprop_def)

lemma validateRoster_Inr:
  assumes "validateRoster E roster threshold = Inr ps"
  obtains t where "roster = JArr ps" "threshold = JInt t" "2 \<le> t" "t \<le> int (length ps)" "int (length ps) < t * 2"
    "3 \<le> length ps" "length ps \<le> 31" "number_roster E ps = Inr ps"
    "\<forall>us \<in> {''id'', ''identityPublicKey'', ''transportPublicKey'', ''endpoint''}. check_distinct ps us = Inr ()"
proof -
  have "\<exists>vs t. roster = JArr vs \<and> threshold = JInt t"
    using assms by (cases roster; cases threshold) (auto simp: validateRoster_def split: if_splits)
  then obtain vs t where rt: "roster = JArr vs" "threshold = JInt t" by blast
  have v: "3 \<le> length vs" "length vs \<le> 31" "2 \<le> t" "t \<le> int (length vs)"
      "int (length vs) < t * 2" "number_roster E vs = Inr ps"
      "\<exists>us. mapR (check_distinct ps) [''id'', ''identityPublicKey'', ''transportPublicKey'', ''endpoint''] = Inr us"
    using assms unfolding validateRoster_def rt by (auto simp: result_simps split: if_splits)
  moreover have "ps = vs" using number_roster_Inr [OF v(6)] by simp
  ultimately show thesis using rt by (intro that [of t]) (auto simp: result_simps)
qed

lemma roster_index:
  assumes "number_roster E ps = Inr ps" "p \<in> set ps"
  shows "jget p ''index'' = JInt (index_of p) \<and> 0 < index_of p \<and> index_of p \<le> int (length ps)"
proof -
  obtain k where "k < length ps" "p = ps ! k" using assms(2) by (auto simp: in_set_conv_nth)
  then show ?thesis using number_roster_Inr [OF assms(1)] by (simp add: index_of_def)
qed

lemma find_by_Some:
  assumes "find_by k v items = Inr (Some x)"
  shows "x \<in> set items \<and> jget x k = v \<and> primitive v"
  using assms by (induction items) (auto simp: result_simps strict_eq_def split: if_splits)

lemma own_participant_Inr:
  assumes "own_participant keystore ps e = Inr p"
  shows "p \<in> set ps \<and> find_by ''id'' (jget p ''id'') ps = Inr (Some p)"
proof -
  have f: "find_by ''id'' (jget keystore ''participantId'') ps = Inr (Some p)"
    using assms by (auto simp: own_participant_def result_simps)
  show ?thesis using find_by_Some [OF f] f by simp
qed

lemma deal_signer_Inr:
  assumes "deal_signer E N packet dealers = Inr d"
  shows "d \<in> set dealers \<and> jget d ''id'' = jget (jget packet ''body'') ''dealerId'' \<and> primitive (jget d ''id'') \<and>
    jget d ''index'' = jget (jget packet ''body'') ''dealerIndex'' \<and> verifyPacket E N packet d = Inr True"
  using assms by (auto simp: deal_signer_def Let_def result_simps split: if_splits dest: find_by_Some)

lemma validateDealPacket_Inr:
  assumes "validateDealPacket E B N packet roster dealers expected = Inr d"
  obtains vs es where "deal_signer E N packet dealers = Inr d"
    "jget (jget packet ''body'') ''commitments'' = JArr vs" "JInt (int (length vs)) = field expected ''threshold''"
    "\<forall>v \<in> set vs. \<exists>name p. commitment_point E B v name = Inr p"
    "jget (jget packet ''body'') ''encryptedShares'' = JArr es"
    "\<forall>k \<in> {''ceremony'', ''sessionId'', ''epoch'', ''threshold''}. jget (jget packet ''body'') k = field expected k"
proof -
  let ?body = "jget packet ''body''"
  have f: "\<exists>us. mapR (wrong_field ''deal'' ?body expected) [''ceremony'', ''sessionId'', ''epoch'', ''threshold''] = Inr us"
    and d: "deal_signer E N packet dealers = Inr d"
    and c: "\<exists>vs. deal_commitments E B ?body expected = Inr vs" and e: "\<exists>es. deal_shares ?body roster = Inr es"
    using assms by (auto simp: validateDealPacket_def Let_def result_simps simp del: mapR.simps split: if_splits)
  obtain vs qs where vs: "jget ?body ''commitments'' = JArr vs" "JInt (int (length vs)) = field expected ''threshold''"
      "mapR (\<lambda>(position, v). commitment_point E B v (''commitment '' @ showInt (int position))) (enumerate 0 vs) = Inr qs"
    using c by (auto simp: deal_commitments_def Let_def result_simps split: if_splits json.splits)
  have "\<forall>v \<in> set vs. \<exists>name p. commitment_point E B v name = Inr p"
  proof
    fix v assume "v \<in> set vs"
    then obtain k where "k < length vs" "v = vs ! k" by (auto simp: in_set_conv_nth)
    then show "\<exists>name p. commitment_point E B v name = Inr p"
      using mapR_nth [OF vs(3), of k] by (auto simp: nth_enumerate_eq)
  qed
  moreover obtain es where "jget ?body ''encryptedShares'' = JArr es"
    using e by (auto simp: deal_shares_def Let_def result_simps split: if_splits json.splits)
  moreover have "\<forall>k \<in> {''ceremony'', ''sessionId'', ''epoch'', ''threshold''}. jget ?body k = field expected k"
    using f by (auto simp: wrong_field_def result_simps split: if_splits)
  ultimately show thesis using d vs by (intro that)
qed

text \<open>The polynomial a validated deal commits to.\<close>

lemma deal_polynomial:
  assumes "hex_codec E" "bls_laws B ex1 ex2 exT" "validateDealPacket E B N packet roster dealers expected = Inr d"
  shows "\<exists>vs cs. jget (jget packet ''body'') ''commitments'' = JArr vs \<and> list_all2 (commits E B ex2) vs cs \<and>
    JInt (int (length cs)) = field expected ''threshold''"
proof -
  obtain vs where vs: "jget (jget packet ''body'') ''commitments'' = JArr vs"
      "JInt (int (length vs)) = field expected ''threshold''" "\<forall>v \<in> set vs. \<exists>name p. commitment_point E B v name = Inr p"
    using assms(3) by (elim validateDealPacket_Inr)
  then have "\<forall>v \<in> set vs. \<exists>c. commits E B ex2 v c" using commitment_point_Inr [OF assms(1,2)] by blast
  then obtain f where "\<forall>v \<in> set vs. commits E B ex2 v (f v)" by metis
  then have "list_all2 (commits E B ex2) vs (map f vs)" by (simp add: list_all2_conv_all_nth)
  then show ?thesis using vs by (intro exI [of _ vs] exI [of _ "map f vs"]) simp
qed

subsection \<open>The loop over the deals\<close>

definition deal_id :: "json \<Rightarrow> json" where
  "deal_id packet = jget (jget packet ''body'') ''dealerId''"

lemma valid_deal_signer:
  assumes "validateDealPacket E B N packet roster dealers expected = Inr d"
  shows "d \<in> set dealers \<and> jget d ''id'' = deal_id packet \<and> primitive (deal_id packet) \<and>
    jget d ''index'' = jget (jget packet ''body'') ''dealerIndex'' \<and> verifyPacket E N packet d = Inr True"
proof -
  have "deal_signer E N packet dealers = Inr d" using assms by (elim validateDealPacket_Inr)
  from deal_signer_Inr [OF this] show ?thesis by (auto simp: deal_id_def)
qed

text \<open>\<open>resolves\<close>: every complaint that the resolution answers has the share the commitments determine.\<close>

definition resolves ::
  "ethers \<Rightarrow> ('p, 'q, 't) bls \<Rightarrow> 'k crypto \<Rightarrow> json list \<Rightarrow> json \<Rightarrow> json \<Rightarrow> bool" where
  "resolves E B K roster packet body \<longleftrightarrow> (\<exists>vs items. jget (jget packet ''body'') ''commitments'' = JArr vs \<and>
     jget body ''complaints'' = JArr items \<and>
     (\<forall>item \<in> set items. \<exists>recipient share. find_by ''id'' (jget item ''recipientId'') roster = Inr (Some recipient) \<and>
        toBigInt K (jget item ''share'') = Inr share \<and>
        shareMatchesCommitments E B share vs (index_of recipient) = Inr True))"

lemma resolved_complaints:
  assumes "foldR (resolved_complaint E B K roster vs pid) seen items = Inr seen'" "item \<in> set items"
  shows "\<exists>recipient share. find_by ''id'' (jget item ''recipientId'') roster = Inr (Some recipient) \<and>
    toBigInt K (jget item ''share'') = Inr share \<and> shareMatchesCommitments E B share vs (index_of recipient) = Inr True"
  using assms
proof (induction items arbitrary: seen)
  case (Cons x items)
  then show ?case
    by (cases "item = x") (auto simp: resolved_complaint_def result_simps split: if_splits)
qed simp

lemma validateResolution_Inr:
  assumes "validateResolution E B N K packet dealer deal expected roster responses = Inr body"
  shows "resolves E B K roster deal body"
proof -
  obtain items vs where i: "jget body ''complaints'' = JArr items" "jget (jget deal ''body'') ''commitments'' = JArr vs"
      "\<exists>seen. foldR (resolved_complaint E B K roster vs (js_string (jget dealer ''id''))) [] items = Inr seen"
    using assms by (auto simp: validateResolution_def Let_def result_simps simp del: mapR.simps split: if_splits)
  then show ?thesis unfolding resolves_def using resolved_complaints by blast
qed

definition deals_ok ::
  "ethers \<Rightarrow> ('p, 'q, 't) bls \<Rightarrow> 'k node \<Rightarrow> 'k crypto \<Rightarrow> json list \<Rightarrow> json list \<Rightarrow> fields \<Rightarrow>
     json list \<times> (json \<times> json) list \<Rightarrow> bool" where
  "deals_ok E B N K roster dealers expected acc \<longleftrightarrow>
     (\<forall>p \<in> set (fst acc). \<exists>d. validateDealPacket E B N p roster dealers expected = Inr d) \<and>
     distinct (map deal_id (fst acc)) \<and>
     (\<forall>(i, body) \<in> set (snd acc). \<exists>p \<in> set (fst acc). deal_id p = i \<and> resolves E B K roster p body)"

lemma finalize_deal_ok:
  assumes ok: "deals_ok E B N K roster dealers expected acc"
    and f: "finalize_deal E B N K S roster dealers expected responses packets acc packet = Inr acc'"
  shows "deals_ok E B N K roster dealers expected acc'"
proof -
  obtain d where d: "validateDealPacket E B N packet roster dealers expected = Inr d"
    using f by (auto simp: finalize_deal_def result_simps)
  note f' = f [unfolded finalize_deal_def Let_def d bindR.simps]
  have fresh: "\<forall>item \<in> set (fst acc). \<not> strict_eq (deal_id item) (jget d ''id'')"
    using f' by (auto simp: deal_id_def split: if_splits)
  obtain rs where acc': "acc' = (fst acc @ [packet], rs)" and rs: "rs = snd acc \<or>
      (\<exists>r b. validateResolution E B N K r d packet expected roster responses = Inr b \<and> rs = snd acc @ [(jget d ''id'', b)])"
    using f' by (cases "jget d ''id''") (auto simp: result_simps split: if_splits option.splits)
  have s: "jget d ''id'' = deal_id packet" "primitive (deal_id packet)"
    using valid_deal_signer [OF d] by simp_all
  then have "deal_id packet \<notin> deal_id ` set (fst acc)" using fresh by (auto simp: strict_eq_def)
  then have "distinct (map deal_id (fst acc @ [packet]))" using ok by (auto simp: deals_ok_def)
  moreover have "\<exists>p \<in> set (fst acc @ [packet]). deal_id p = i \<and> resolves E B K roster p b" if ib: "(i, b) \<in> set rs" for i b
  proof (cases "(i, b) \<in> set (snd acc)")
    case True
    then have "\<exists>p \<in> set (fst acc). deal_id p = i \<and> resolves E B K roster p b" using ok unfolding deals_ok_def by blast
    then show ?thesis by auto
  next
    case False
    then have "i = deal_id packet \<and> resolves E B K roster packet b"
      using rs ib s(1) validateResolution_Inr by fastforce
    then show ?thesis by auto
  qed
  ultimately show ?thesis using ok d unfolding acc' deals_ok_def by auto
qed

lemma agree_on_deals_ok:
  assumes "agree_on_deals E B N K S roster dealers expected deals responses resolutions = Inr (qualified, resolved)"
  shows "\<exists>ps. deals_ok E B N K roster dealers expected (ps, resolved) \<and> set qualified \<subseteq> set ps \<and>
    check_qualified K S (case field expected ''threshold'' of JInt t \<Rightarrow> t | _ \<Rightarrow> 0) qualified = Inr ()"
proof -
  obtain rs packets ps where f:
      "foldR (finalize_deal E B N K S roster dealers expected rs packets) ([], []) deals = Inr (ps, resolved)"
      and q: "set qualified \<subseteq> set ps"
        "check_qualified K S (case field expected ''threshold'' of JInt t \<Rightarrow> t | _ \<Rightarrow> 0) qualified = Inr ()"
    using assms by (auto simp: agree_on_deals_def Let_def result_simps split: if_splits)
  have "deals_ok E B N K roster dealers expected (ps, resolved)"
    using f by (rule foldR_invariant) (auto simp: deals_ok_def [of _ _ _ _ _ _ _ "([], [])"] intro: finalize_deal_ok)
  then show ?thesis using q by blast
qed

subsection \<open>The private share and the public polynomial\<close>

text \<open>A deal with the polynomial it commits to.\<close>

definition deal_commits :: "ethers \<Rightarrow> ('p, 'q, 't) bls \<Rightarrow> (int \<Rightarrow> 'q) \<Rightarrow> nat \<Rightarrow> json \<Rightarrow> int list \<Rightarrow> bool" where
  "deal_commits E B ex2 n packet cs \<longleftrightarrow> length cs = n \<and>
     (\<exists>vs. jget (jget packet ''body'') ''commitments'' = JArr vs \<and> list_all2 (commits E B ex2) vs cs)"

lemma shareMatches_deal:
  assumes "bls_laws B ex1 ex2 exT" "zero_multiple (G2 B) ex2" "deal_commits E B ex2 n packet cs"
    "jget (jget packet ''body'') ''commitments'' = JArr vs" "0 < i" "i < params_r B"
    "shareMatchesCommitments E B share vs i = Inr True"
  shows "0 \<le> share \<and> share < params_r B \<and> eqm (params_r B) share (peval cs i)"
  using assms shareMatchesCommitments_sound [OF assms(1,2) _ assms(5,6,7)] by (auto simp: deal_commits_def)

lemma open_share_value:
  assumes "bls_laws B ex1 ex2 exT" "zero_multiple (G2 B) ex2" "deal_commits E B ex2 n deal cs"
    "0 < index_of me" "index_of me < params_r B" "open_share E B N K loaded me (jget deal ''body'') = Inr x"
  shows "0 \<le> x \<and> x < params_r B \<and> eqm (params_r B) x (peval cs (index_of me))"
proof -
  obtain vs where "jget (jget deal ''body'') ''commitments'' = JArr vs"
      "shareMatchesCommitments E B x vs (index_of me) = Inr True"
    using assms(6) by (auto simp: open_share_def result_simps split: if_splits)
  then show ?thesis using shareMatches_deal assms by blast
qed

lemma resolved_share_value:
  assumes B: "bls_laws B ex1 ex2 exT" "zero_multiple (G2 B) ex2" and cs: "deal_commits E B ex2 n deal cs"
    and me: "0 < index_of me" "index_of me < params_r B" "find_by ''id'' (jget me ''id'') roster = Inr (Some me)"
    and res: "resolves E B K roster deal body" "jget body ''complaints'' = JArr items"
      "List.find (\<lambda>item. strict_eq (jget item ''recipientId'') (jget me ''id'')) items = Some item"
      "toBigInt K (jget item ''share'') = Inr x"
  shows "0 \<le> x \<and> x < params_r B \<and> eqm (params_r B) x (peval cs (index_of me))"
proof -
  have item: "item \<in> set items" "jget item ''recipientId'' = jget me ''id''"
    using find_SomeD [OF res(3)] by (auto simp: strict_eq_def)
  then obtain vs where "jget (jget deal ''body'') ''commitments'' = JArr vs"
      "shareMatchesCommitments E B x vs (index_of me) = Inr True"
    using res(1,2,4) me(3) unfolding resolves_def by (metis (no_types, lifting) json.inject(5) option.inject sum.inject(2))
  then show ?thesis using shareMatches_deal [OF B cs] me by blast
qed

lemma contribution_value:
  assumes B: "bls_laws B ex1 ex2 exT" "zero_multiple (G2 B) ex2"
    and ok: "deals_ok E B N K roster dealers expected (ps, resolved)" "deal \<in> set ps"
    and cs: "deal_commits E B ex2 n deal cs"
    and me: "0 < index_of me" "index_of me < params_r B" "find_by ''id'' (jget me ''id'') roster = Inr (Some me)"
    and c: "contribution E B N K loaded resolved me deal = Inr x"
  shows "0 \<le> x \<and> x < params_r B \<and> eqm (params_r B) x (peval cs (index_of me))"
proof (cases "open_share E B N K loaded me (jget deal ''body'')")
  case (Inr y)
  then show ?thesis using open_share_value [OF B cs me(1,2) Inr] c by (simp add: contribution_def Let_def)
next
  case (Inl e)
  obtain item where item: "List.find (\<lambda>item. strict_eq (jget item ''recipientId'') (jget me ''id''))
        (complaints_of resolved (deal_id deal)) = Some item" "toBigInt K (jget item ''share'') = Inr x"
    using c Inl by (auto simp: contribution_def Let_def deal_id_def scalar_def result_simps split: if_splits)
  obtain body items where b: "map_of resolved (deal_id deal) = Some body" "jget body ''complaints'' = JArr items"
      "complaints_of resolved (deal_id deal) = items"
  proof (cases "map_of resolved (deal_id deal)")
    case None
    then show thesis using item(1) by (simp add: complaints_of_def)
  next
    case (Some body)
    then show thesis using item(1) that [of body]
      by (cases "jget body ''complaints''") (simp_all add: complaints_of_def)
  qed
  have "(deal_id deal, body) \<in> set resolved" using b(1) by (rule map_of_SomeD)
  then obtain p where p: "p \<in> set ps" "deal_id p = deal_id deal" "resolves E B K roster p body"
    using ok(1) unfolding deals_ok_def by force
  then have "p = deal" using ok unfolding deals_ok_def by (auto simp: distinct_map inj_on_def)
  then have "resolves E B K roster deal body" using p(3) by simp
  moreover have "List.find (\<lambda>item. strict_eq (jget item ''recipientId'') (jget me ''id'')) items = Some item"
    using item(1) b(3) by simp
  ultimately show ?thesis using item(2) by (rule resolved_share_value [OF B cs me _ b(2)])
qed

lemma private_share_value:
  assumes B: "bls_laws B ex1 ex2 exT" "zero_multiple (G2 B) ex2"
    and ok: "deals_ok E B N K roster dealers expected (ps, resolved)" "set qualified \<subseteq> set ps"
    and cs: "\<forall>d \<in> set qualified. deal_commits E B ex2 n d (P d)"
    and me: "0 < index_of me" "index_of me < params_r B" "find_by ''id'' (jget me ''id'') roster = Inr (Some me)"
    and x: "private_share E B N K loaded resolved me qualified = Inr x"
  shows "0 < x \<and> x < params_r B \<and> eqm (params_r B) x (\<Sum>d\<leftarrow>qualified. peval (P d) (index_of me))"
proof -
  let ?r = "params_r B"
  let ?f = "\<lambda>privateShare deal. bindR (contribution E B N K loaded resolved me deal) (\<lambda>share.
       Inr ((privateShare + share) smod ?r))"
  have r: "0 < ?r" using bls_lawsD(1) [OF B(1)] by (auto simp: field_modulus_def)
  have fold: "0 \<le> y \<and> y < ?r \<and> eqm ?r y (a + (\<Sum>d\<leftarrow>ds. peval (P d) (index_of me)))"
    if "foldR ?f a ds = Inr y" "0 \<le> a" "a < ?r" "set ds \<subseteq> set qualified" for ds a y
    using that
  proof (induction ds arbitrary: a)
    case Nil
    then show ?case by simp
  next
    case (Cons d ds)
    then obtain c where c: "contribution E B N K loaded resolved me d = Inr c" and
        f: "foldR ?f ((a + c) smod ?r) ds = Inr y"
      by (auto simp: result_simps)
    have cv: "0 \<le> c" "c < ?r" "eqm ?r c (peval (P d) (index_of me))"
      using contribution_value [OF B ok(1) _ _ me c] cs ok(2) Cons.prems(4) by auto
    then have m: "(a + c) smod ?r = (a + c) mod ?r" using Cons.prems r by (simp add: smod_nonneg)
    have y: "0 \<le> y \<and> y < ?r \<and> eqm ?r y ((a + c) mod ?r + (\<Sum>d\<leftarrow>ds. peval (P d) (index_of me)))"
      using Cons.IH [of "(a + c) mod ?r"] f m r Cons.prems(4) by simp
    moreover have "eqm ?r ((a + c) mod ?r + (\<Sum>d\<leftarrow>ds. peval (P d) (index_of me)))
        (a + peval (P d) (index_of me) + (\<Sum>d\<leftarrow>ds. peval (P d) (index_of me)))"
      using cv(3) by (intro eqm_add) (auto intro: eqm_add)
    ultimately show ?case by (auto simp: add.assoc intro: eqm_trans)
  qed
  have "foldR ?f 0 qualified = Inr x" "x \<noteq> 0"
    using x by (auto simp: private_share_def result_simps split: if_splits)
  then show ?thesis using fold [where a = 0 and ds = "qualified" and y = x] r by simp
qed

lemma commitment_at_point:
  assumes "deal_commits E B ex2 n d cs" "k < n"
  shows "commitment_point E B (commitment_at d k) name = Inr (ex2 (cs ! k))"
  using assms by (auto simp: deal_commits_def commitment_at_def commits_def list_all2_conv_all_nth)

lemma aggregateCommitments_value:
  assumes B: "bls_laws B ex1 ex2 exT" and cs: "\<forall>d \<in> set ds. deal_commits E B ex2 n d (P d)"
  shows "aggregateCommitments E B ds n = Inr (map (\<lambda>j. wireHex E (G2 B) (ex2 (\<Sum>d\<leftarrow>ds. P d ! j))) [0..<n])"
proof -
  note G = bls_lawsD(3) [OF B]
  have fold: "foldR (\<lambda>total deal. bindR (commitment_point E B (commitment_at deal k) name)
      (\<lambda>point. Inr (add_pt (G2 B) total point))) (ex2 a) ds' = Inr (ex2 (a + (\<Sum>d\<leftarrow>ds'. P d ! k)))"
    if "k < n" "set ds' \<subseteq> set ds" for ds' a k name
    using that
  proof (induction ds' arbitrary: a)
    case (Cons d ds')
    then have "deal_commits E B ex2 n d (P d)" using cs by auto
    from commitment_at_point [OF this that(1)]
    have "commitment_point E B (commitment_at d k) name = Inr (ex2 (P d ! k))" .
    then show ?case using Cons by (simp add: prime_order_groupD(3) [OF G] add.assoc)
  qed simp
  show ?thesis
    unfolding aggregateCommitments_def
    by (rule mapR_total) (simp add: fold [where a = 0 and ds' = ds, simplified] prime_order_groupD(1) [OF G])
qed

subsection \<open>The steps of a finalization\<close>

lemma bindIO_liftR: "bindIO (liftR r) f s = (s', Inr y) \<longleftrightarrow> (\<exists>x. r = Inr x \<and> f x s = (s', Inr y))"
  by (cases r) (auto simp: bindIO_def liftR_def)

lemma finalizeCeremony_steps:
  assumes "finalizeCeremony E B N K S ks pw deals responses resolutions work s = (s', Inr (fin, ks', tr))"
  obtains ps dealers loaded me expected chosen resolved x coeffs trHash share crypto where
    "validateRoster E (se_roster S) (se_threshold S) = Inr ps" "dealer_roster E S = Inr dealers"
    "loadKeystore E K ks pw = Inr loaded"
    "own_participant ks ps ''finalizing participant is not in the new roster'' = Inr me"
    "expected_fields E S = Inr expected"
    "agree_on_deals E B N K S ps dealers expected deals responses resolutions = Inr (chosen, resolved)"
    "private_share E B N K loaded resolved me chosen = Inr x"
    "aggregateCommitments E B chosen (ceremony_threshold S) = Inr coeffs"
    "unchanged_group_key S (hd coeffs) = Inr ()"
    "ceremony_transcript K S expected chosen deals responses resolutions = Inr tr" "packetHash E tr = Inr trHash"
    "scalarHex (params_r B) x = Inr share"
    "encryptPayload E K (finalized_secret (ld_secret loaded) share (se_epoch S) trHash) pw work s = (s', Inr crypto)"
    "ks' = with_field ks ''crypto'' crypto"
    "\<exists>p. multiply (G2 B) (BASE (G2 B)) x = Inr p \<and>
       fin = finalization_json S expected me coeffs (wireHex E (G2 B) p) trHash chosen"
proof -
  from assms show thesis
    unfolding finalizeCeremony_def
    by (simp only: bindIO_liftR split_paired_Ex prod.case bindIO_Inr [of "encryptPayload _ _ _ _ _"] returnIO_def
        prod.inject sum.inject) (elim exE conjE, rule that, (assumption | simp)+)
qed

lemma expected_threshold:
  "expected_fields E S = Inr expected \<Longrightarrow> field expected ''threshold'' = se_threshold S"
  by (auto simp: expected_fields_def field_def result_simps)

lemma field_Cons: "field ((k, v) # fs) l = (if l = k then v else field fs l)"
  by (auto simp: field_def)

text \<open>The fields of a finalization.\<close>

lemma finalization_fields:
  "jget (finalization_json S expected me coeffs share h chosen) ''publicCoefficients'' = JArr (map JStr coeffs)"
  "jget (finalization_json S expected me coeffs share h chosen) ''groupPublicKey'' = JStr (hd coeffs)"
  "jget (finalization_json S expected me coeffs share h chosen) ''sharePublicKey'' = JStr share"
  "jget (finalization_json S expected me coeffs share h chosen) ''participantIndex'' = jget me ''index''"
  "jget (finalization_json S expected me coeffs share h chosen) ''participantId'' = jget me ''id''"
  "jget (finalization_json S expected me coeffs share h chosen) ''transcriptHash'' = JStr h"
  by (simp_all add: finalization_json_def jget_def field_Cons)

text \<open>The polynomial of the qualified deals together.\<close>

lemma finalization_polynomial:
  assumes E: "hex_codec E" and B: "bls_laws B ex1 ex2 exT" "zero_multiple (G2 B) ex2"
    and f: "finalizeCeremony E B N K S ks pw deals responses resolutions work s = (s', Inr (fin, ks', tr))"
    and i: "jget fin ''participantIndex'' = JInt i" "i < params_r B"
  shows "\<exists>cs x. length cs = ceremony_threshold S \<and> 2 \<le> length cs \<and> 0 < i \<and> 0 < x \<and> x < params_r B \<and>
    eqm (params_r B) x (peval cs i) \<and>
    jget fin ''publicCoefficients'' = JArr (map (\<lambda>c. JStr (wireHex E (G2 B) (ex2 c))) cs) \<and>
    jget fin ''groupPublicKey'' = JStr (wireHex E (G2 B) (ex2 (peval cs 0))) \<and>
    jget fin ''sharePublicKey'' = JStr (wireHex E (G2 B) (ex2 x)) \<and>
    (\<exists>loaded hash share crypto. loadKeystore E K ks pw = Inr loaded \<and> scalarHex (params_r B) x = Inr share \<and>
       encryptPayload E K (finalized_secret (ld_secret loaded) share (se_epoch S) hash) pw work s = (s', Inr crypto) \<and>
       ks' = with_field ks ''crypto'' crypto)"
proof -
  obtain ps dealers loaded me expected chosen resolved x coeffs trHash share crypto where st:
    "validateRoster E (se_roster S) (se_threshold S) = Inr ps" "dealer_roster E S = Inr dealers"
    "loadKeystore E K ks pw = Inr loaded"
    "own_participant ks ps ''finalizing participant is not in the new roster'' = Inr me"
    "expected_fields E S = Inr expected"
    "agree_on_deals E B N K S ps dealers expected deals responses resolutions = Inr (chosen, resolved)"
    "private_share E B N K loaded resolved me chosen = Inr x"
    "aggregateCommitments E B chosen (ceremony_threshold S) = Inr coeffs"
    "scalarHex (params_r B) x = Inr share"
    "encryptPayload E K (finalized_secret (ld_secret loaded) share (se_epoch S) trHash) pw work s = (s', Inr crypto)"
    "ks' = with_field ks ''crypto'' crypto"
    "\<exists>p. multiply (G2 B) (BASE (G2 B)) x = Inr p \<and>
       fin = finalization_json S expected me coeffs (wireHex E (G2 B) p) trHash chosen"
    using f by (rule finalizeCeremony_steps)
  obtain p where p: "multiply (G2 B) (BASE (G2 B)) x = Inr p"
      "fin = finalization_json S expected me coeffs (wireHex E (G2 B) p) trHash chosen"
    using st(12) by blast
  let ?n = "ceremony_threshold S" and ?r = "params_r B"
  obtain t where t: "se_threshold S = JInt t" "2 \<le> t" "number_roster E ps = Inr ps"
    using validateRoster_Inr [OF st(1)] by metis
  have n: "?n = nat t" "2 \<le> ?n" using t by (simp_all add: ceremony_threshold_def)
  have me: "me \<in> set ps" "find_by ''id'' (jget me ''id'') ps = Inr (Some me)"
    using own_participant_Inr [OF st(4)] by simp_all
  then have "jget me ''index'' = JInt (index_of me)" "0 < index_of me" using roster_index [OF t(3)] by auto
  then have idx: "index_of me = i" "0 < i" using i(1) p(2) by (simp_all add: finalization_fields)
  obtain qs where qs: "deals_ok E B N K ps dealers expected (qs, resolved)" "set chosen \<subseteq> set qs"
    using agree_on_deals_ok [OF st(6)] by blast
  have "\<exists>cs. deal_commits E B ex2 ?n d cs" if "d \<in> set chosen" for d
  proof -
    have "d \<in> set qs" using qs(2) that by blast
    then obtain e where "validateDealPacket E B N d ps dealers expected = Inr e"
      using qs(1) unfolding deals_ok_def by auto
    from deal_polynomial [OF E B(1) this] show ?thesis
      using expected_threshold [OF st(5)] t(1,2) n by (auto simp: deal_commits_def)
  qed
  then obtain P where P: "\<forall>d \<in> set chosen. deal_commits E B ex2 ?n d (P d)" by metis
  define cs where "cs = map (\<lambda>j. \<Sum>d\<leftarrow>chosen. P d ! j) [0..<?n]"
  have x: "0 < x" "x < ?r" "eqm ?r x (\<Sum>d\<leftarrow>chosen. peval (P d) i)"
    using private_share_value [OF B qs P _ _ me(2) st(7)] idx i(2) by simp_all
  have "\<forall>d \<in> set chosen. length (P d) = ?n" using P by (auto simp: deal_commits_def)
  then have "eqm ?r x (peval cs i)" using x(3) peval_sum [of chosen P ?n i] by (simp add: cs_def)
  moreover have coeffs: "coeffs = map (\<lambda>c. wireHex E (G2 B) (ex2 c)) cs"
    using aggregateCommitments_value [OF B(1) P] st(8) by (simp add: cs_def)
  moreover have "hd coeffs = wireHex E (G2 B) (ex2 (peval cs 0))"
    using n(2) unfolding coeffs by (cases cs) (auto simp: cs_def)
  moreover have "p = ex2 x"
    using p(1) x(1,2) by (simp add: prime_order_groupD(2,4) [OF bls_lawsD(3) [OF B(1)]])
  ultimately show ?thesis
    using n(2) idx(2) x(1,2) st(3,9,10,11) unfolding p(2) finalization_fields
    by (intro exI [of _ cs] exI [of _ x]) (auto simp: cs_def)
qed

end
