(* ===== verification/Dkg_Exchange.thy ===== *)
theory Dkg_Exchange
  imports Dkg_Correct
begin

section \<open>Messages between honest participants\<close>

text \<open>
  What the primitives of node:crypto promise, and what follows for the exchange of packets: an encrypted share
  opens to the share under the recipient's key, a signed packet verifies under the signer's roster
  entry, a deal made by \<open>createDealBundle\<close> passes the checks of every recipient, and a
  resolution publishes fewer shares than the threshold.
\<close>

subsection \<open>The laws of the primitives\<close>

text \<open>
  A public key in SPKI form is the fixed prefix of its type and 32 bytes, and reads back; both sides of a
  Diffie-Hellman exchange compute the same secret; a sealed text opens with the same key, nonce and
  associated data.
\<close>

definition key_laws :: "'k node \<Rightarrow> 'k crypto \<Rightarrow> bool" where
  "key_laws N K \<longleftrightarrow>
     (\<forall>seed. \<exists>raw. length raw = 32 \<and> spki K (publicOf K (keyFromSeed K ''x25519'' seed)) = X25519_SPKI_PREFIX @ raw \<and>
        createPublicKey N (X25519_SPKI_PREFIX @ raw) = Inr (publicOf K (keyFromSeed K ''x25519'' seed))) \<and>
     (\<forall>a b. diffieHellman K (keyFromSeed K ''x25519'' a) (publicOf K (keyFromSeed K ''x25519'' b)) =
        diffieHellman K (keyFromSeed K ''x25519'' b) (publicOf K (keyFromSeed K ''x25519'' a)))"

definition gcm_laws :: "'k crypto \<Rightarrow> bool" where
  "gcm_laws K \<longleftrightarrow> (\<forall>key iv aad cleartext ciphertext tag. gcm_seal K key iv aad cleartext = (ciphertext, tag) \<longrightarrow>
     gcm_open K key iv aad ciphertext tag = Inr cleartext \<and> length ciphertext = length cleartext \<and> length tag = 16)"

text \<open>An Ed25519 signature has 64 bytes and verifies under the public key.\<close>

definition signature_laws :: "'k node \<Rightarrow> 'k crypto \<Rightarrow> bool" where
  "signature_laws N K \<longleftrightarrow>
     (\<forall>seed. let k = keyFromSeed K ''ed25519'' seed in
        (\<exists>raw. length raw = 32 \<and> spki K (publicOf K k) = ED25519_SPKI_PREFIX @ raw \<and>
           createPublicKey N (ED25519_SPKI_PREFIX @ raw) = Inr (publicOf K k)) \<and>
        (\<forall>m. length (ed_sign N m k) = 64 \<and> ed_verify N m (publicOf K k) (ed_sign N m k)))"

text \<open>Hexadecimal text: lower case, recognised with its length, and the digits of a number read as its bytes.\<close>

definition hex_laws :: "ethers \<Rightarrow> bool" where
  "hex_laws E \<longleftrightarrow> hex_codec E \<and> (\<forall>b. toLowerCase (hexlify E b) = hexlify E b \<and> isHexString E (hexlify E b) (length b)) \<and>
     (\<forall>n. n < 256 ^ 32 \<longrightarrow> (\<exists>b. getBytes E (''0x'' @ padStart (hex_digits n) 64) = Inr b \<and> length b = 32 \<and>
        bytes_int b = int n))"

lemma hex_lawsD:
  assumes "hex_laws E"
  shows "hex_codec E" "getBytes E (hexlify E b) = Inr b" "fixedHex E (JStr (hexlify E b)) (length b) name = Inr (hexlify E b)"
  using assms by (simp_all add: hex_laws_def hex_codec_def fixedHex_def)

lemma scalarHex_bytes:
  assumes "hex_laws E" "r \<le> 256 ^ 32" "0 \<le> x" "x < r"
  shows "\<exists>b h. scalarHex r x = Inr h \<and> getBytes E h = Inr b \<and> length b = 32 \<and> bytes_int b = x"
proof -
  have "x < 256 ^ 32" using assms(2,4) by (rule less_le_trans [rotated])
  then have "nat x < 256 ^ 32" using assms(3) by (simp add: nat_less_iff)
  then obtain b where "getBytes E (''0x'' @ padStart (hex_digits (nat x)) 64) = Inr b" "length b = 32" "bytes_int b = int (nat x)"
    using assms(1) unfolding hex_laws_def by blast
  then show ?thesis using assms(3,4) by (simp add: scalarHex_def scalar_def)
qed

text \<open>A roster key that was exported from a generated key pair reads back as that key.\<close>

lemma x25519_read_back:
  assumes "key_laws N K" "hex_laws E"
  shows "publicKeyFromRaw E N (JStr (rawPublicKey E K (publicOf K (keyFromSeed K ''x25519'' seed)))) ''x25519'' =
    Inr (publicOf K (keyFromSeed K ''x25519'' seed))"
proof -
  obtain raw where raw: "length raw = 32" "spki K (publicOf K (keyFromSeed K ''x25519'' seed)) = X25519_SPKI_PREFIX @ raw"
      "createPublicKey N (X25519_SPKI_PREFIX @ raw) = Inr (publicOf K (keyFromSeed K ''x25519'' seed))"
    using assms(1) unfolding key_laws_def by blast
  then have "rawPublicKey E K (publicOf K (keyFromSeed K ''x25519'' seed)) = hexlify E raw"
    by (simp add: rawPublicKey_def X25519_SPKI_PREFIX_def)
  then show ?thesis
    using raw hex_lawsD(2) [OF assms(2), of raw] hex_lawsD(3) [OF assms(2), of raw] by (simp add: publicKeyFromRaw_def)
qed

lemma ed25519_read_back:
  assumes "signature_laws N K" "hex_laws E"
  shows "publicKeyFromRaw E N (JStr (rawPublicKey E K (publicOf K (keyFromSeed K ''ed25519'' seed)))) ''ed25519'' =
    Inr (publicOf K (keyFromSeed K ''ed25519'' seed))"
proof -
  obtain raw where raw: "length raw = 32" "spki K (publicOf K (keyFromSeed K ''ed25519'' seed)) = ED25519_SPKI_PREFIX @ raw"
      "createPublicKey N (ED25519_SPKI_PREFIX @ raw) = Inr (publicOf K (keyFromSeed K ''ed25519'' seed))"
    using assms(1) unfolding signature_laws_def Let_def by blast
  then have "rawPublicKey E K (publicOf K (keyFromSeed K ''ed25519'' seed)) = hexlify E raw"
    by (simp add: rawPublicKey_def ED25519_SPKI_PREFIX_def)
  then show ?thesis
    using raw hex_lawsD(2) [OF assms(2), of raw] hex_lawsD(3) [OF assms(2), of raw] by (simp add: publicKeyFromRaw_def)
qed

subsection \<open>The encrypted share\<close>

lemma liftR_Inr: "liftR r s = (s', Inr x) \<longleftrightarrow> s' = s \<and> r = Inr x"
  by (auto simp: liftR_def)

lemma randomBytes_length: "randomBytes n s = (s', Inr b) \<Longrightarrow> length b = n"
  by (auto simp: randomBytes_def split: if_splits)

lemma jget_JObj_Cons [simp]: "jget (JObj ((k, v) # fs)) l = (if l = k then v else jget (JObj fs) l)"
  by (simp add: jget_def field_Cons)

lemma jget_JObj_Nil [simp]: "jget (JObj []) l = JUndefined"
  by (simp add: jget_def field_def)

lemma decrypt_encrypted_share:
  assumes E: "hex_laws E" and K: "key_laws N K" "gcm_laws K" and r: "r \<le> 256 ^ 32" "0 \<le> x" "x < r"
    and me: "jget recipient ''transportPublicKey'' = JStr (rawPublicKey E K (publicOf K (keyFromSeed K ''x25519'' seed)))"
    and run: "encryptShare E N K r x recipient aad s = (s', Inr envelope)"
  shows "decryptShare E N K envelope (keyFromSeed K ''x25519'' seed) aad = Inr x"
proof -
  let ?envelope = "\<lambda>eseed iv c t. JObj [(''ephemeralPublicKey'',
     JStr (rawPublicKey E K (publicOf K (keyFromSeed K ''x25519'' eseed)))), (''iv'', JStr (hexlify E iv)),
     (''ciphertext'', JStr (hexlify E c)), (''tag'', JStr (hexlify E t))]"
  obtain s1 eseed s2 iv shared clear h where st: "randomBytes 32 s = (s1, Inr eseed)" "randomBytes 12 s1 = (s2, Inr iv)"
      "diffieHellman K (keyFromSeed K ''x25519'' eseed) (publicOf K (keyFromSeed K ''x25519'' seed)) = Inr shared"
      "scalarHex r x = Inr h" "getBytes E h = Inr clear"
    and seal: "(case gcm_seal K (share_key K shared aad) iv aad clear of (c, t) \<Rightarrow> returnIO (?envelope eseed iv c t)) s2 =
      (s', Inr envelope)"
    using run by (auto simp: encryptShare_def generateKeyPair_def bindIO_Inr liftR_Inr Let_def [of "keyFromSeed _ _ _"]
        Let_def [of "gcm_seal _ _ _ _ _"] returnIO_def [of "(_, _)"] me x25519_read_back [OF K(1) E] bindR_Inr)
  obtain c t where ct: "gcm_seal K (share_key K shared aad) iv aad clear = (c, t)" by fastforce
  then have env: "envelope = ?envelope eseed iv c t" using seal by (simp add: returnIO_def)
  have clear: "length clear = 32" "bytes_int clear = x"
    using scalarHex_bytes [OF E r] st(4,5) by auto
  have opens: "gcm_open K (share_key K shared aad) iv aad c t = Inr clear" "length c = 32" "length t = 16"
    using K(2) ct clear(1) unfolding gcm_laws_def by auto
  have "diffieHellman K (keyFromSeed K ''x25519'' seed) (publicOf K (keyFromSeed K ''x25519'' eseed)) = Inr shared"
    using K(1) st(3) unfolding key_laws_def by metis
  then show ?thesis
    using opens clear(2) randomBytes_length [OF st(2)] hex_lawsD(2) [OF E] hex_lawsD(3) [OF E, of c] hex_lawsD(3) [OF E, of t]
      hex_lawsD(3) [OF E, of iv]
    by (simp add: decryptShare_def env jprop_def x25519_read_back [OF K(1) E])
qed

subsection \<open>The making of a deal\<close>

text \<open>A share is sealed as long as there is randomness and the key exchange succeeds.\<close>

lemma encryptShare_returns:
  assumes E: "hex_laws E" and K: "key_laws N K" and r: "r \<le> 256 ^ 32" "0 \<le> x" "x < r"
    and me: "jget recipient ''transportPublicKey'' = JStr (rawPublicKey E K (publicOf K (keyFromSeed K ''x25519'' seed)))"
    and s: "44 \<le> length s"
      "diffieHellman K (keyFromSeed K ''x25519'' (take 32 s)) (publicOf K (keyFromSeed K ''x25519'' seed)) = Inr shared"
  shows "\<exists>envelope. encryptShare E N K r x recipient aad s = (drop 44 s, Inr envelope)"
proof -
  obtain b h where bh: "scalarHex r x = Inr h" "getBytes E h = Inr b" using scalarHex_bytes [OF E r] by blast
  then show ?thesis using s
    by (simp add: encryptShare_def generateKeyPair_def bindIO_def liftR_def returnIO_def randomBytes_def me
        x25519_read_back [OF K E] Let_def split: prod.split)
qed

lemma set_size_distinct: "set_size vs = length vs \<longleftrightarrow> distinct (filter primitive vs)"
proof -
  have "length vs = length (filter primitive vs) + length (filter (\<lambda>v. \<not> primitive v) vs)"
    by (simp add: sum_length_filter_compl)
  moreover have "length (remdups xs) = length xs \<longleftrightarrow> distinct xs" for xs :: "json list"
    using length_remdups_card_conv [of xs] card_distinct distinct_card by metis
  ultimately show ?thesis by (simp add: set_size_def)
qed

lemma find_by_unique:
  assumes "\<forall>item \<in> set items. item \<noteq> JNull \<and> item \<noteq> JUndefined"
    "distinct (filter primitive (map (\<lambda>item. jget item k) items))" "x \<in> set items" "primitive (jget x k)"
  shows "find_by k (jget x k) items = Inr (Some x)"
  using assms
proof (induction items)
  case (Cons a items)
  show ?case
  proof (cases "jget a k = jget x k")
    case False
    then show ?thesis using Cons by (auto simp: jprop_def strict_eq_def split: if_splits)
  next
    case True
    have "a = x"
    proof (rule ccontr)
      assume "a \<noteq> x"
      then have "x \<in> set items" using Cons.prems(3) by simp
      then show False using Cons.prems(2,4) True by (auto simp: image_iff)
    qed
    then show ?thesis using Cons.prems by (simp add: jprop_def strict_eq_def)
  qed
qed simp

lemma find_by_objects: "find_by k v items = Inr found \<Longrightarrow> found = None \<Longrightarrow> \<forall>item \<in> set items. item \<noteq> JNull \<and> item \<noteq> JUndefined"
  by (induction items) (auto simp: result_simps split: if_splits)

lemma number_roster_objects:
  assumes "number_roster E ps = Inr ps" "p \<in> set ps"
  shows "p \<noteq> JNull \<and> p \<noteq> JUndefined"
  using roster_index [OF assms] by (auto simp: jget_def)

lemma smod_of_bytes:
  assumes "0 < r" shows "0 \<le> bytes_int b smod r \<and> bytes_int b smod r < r"
proof -
  have "0 \<le> foldl (\<lambda>n b. 256 * n + uint b) n b" if "0 \<le> n" for n and b :: bytes
    using that by (induction b arbitrary: n) auto
  then have "0 \<le> bytes_int b" by (simp add: bytes_int_def)
  then show ?thesis using assms by (simp add: smod_nonneg)
qed

lemma randomScalar_range:
  assumes "0 < r" "randomScalar r a s = (s', Inr x)"
  shows "0 \<le> x \<and> x < r \<and> (a \<or> x \<noteq> 0)"
  using assms(2)
proof (induction s rule: measure_induct_rule [where f = length])
  case (less s)
  show ?case
  proof (cases "length s < 64 \<or> a \<or> bytes_int (take 64 s) smod r \<noteq> 0")
    case True
    then show ?thesis using less.prems smod_of_bytes [OF assms(1), of "take 64 s"]
      by (simp add: randomScalar.simps [of r a s] Let_def split: if_splits)
  next
    case False
    then have "randomScalar r a (drop 64 s) = (s', Inr x)"
      using less.prems by (subst (asm) randomScalar.simps) (simp add: Let_def)
    moreover have "length (drop 64 s) < length s" unfolding length_drop using False by linarith
    ultimately show ?thesis using less.IH by blast
  qed
qed

lemma draw_coefficients_range:
  assumes "0 < r" "draw_coefficients r n s = (s', Inr cs)"
  shows "length cs = n \<and> (\<forall>c \<in> set cs. 0 \<le> c \<and> c < r)"
  using assms(2)
proof (induction n arbitrary: s cs)
  case 0
  then show ?case by (simp add: returnIO_def)
next
  case (Suc n)
  then show ?case using randomScalar_range [OF assms(1)] by (fastforce simp: bindIO_Inr returnIO_def)
qed

lemma nonzero_highest_range:
  assumes "0 < r" "nonzero_highest r cs s = (s', Inr ds)" "\<forall>c \<in> set cs. 0 \<le> c \<and> c < r" "cs \<noteq> []"
  shows "length ds = length cs \<and> (\<forall>c \<in> set ds. 0 \<le> c \<and> c < r) \<and> last ds \<noteq> 0"
proof (cases "last cs = 0")
  case True
  then obtain s1 c where c: "randomScalar r False s = (s1, Inr c)" "ds = butlast cs @ [c]"
    using assms(2) by (auto simp: nonzero_highest_def bindIO_Inr returnIO_def)
  then show ?thesis using randomScalar_range [OF assms(1) c(1)] assms(3,4) by (auto dest: in_set_butlastD)
next
  case False
  then show ?thesis using assms by (simp add: nonzero_highest_def returnIO_def)
qed

lemma deal_constant_range:
  assumes "0 < params_r B" "deal_constant E B N K S dealer secret drawn = Inr c" "0 \<le> drawn" "drawn < params_r B"
  shows "0 \<le> c \<and> c < params_r B"
  using assms by (auto simp: deal_constant_def reshare_constant_def result_simps split: if_splits prod.splits)

text \<open>The steps of \<open>createDealBundle\<close>.\<close>

lemma createDealBundle_steps:
  assumes r: "0 < params_r B" and run: "createDealBundle E B N K S ks pw work s = (s', Inr (packet, state))"
  obtains ps loaded dealer cs s1 s2 where
    "validateRoster E (se_roster S) (se_threshold S) = Inr ps" "loadKeystore E K ks pw = Inr loaded"
    "applicable_dealer S ps (jget ks ''participantId'') = Inr dealer"
    "int (length cs) = (case se_threshold S of JInt t \<Rightarrow> t | _ \<Rightarrow> 0)" "\<forall>c \<in> set cs. 0 \<le> c \<and> c < params_r B" "last cs \<noteq> 0"
    "deal_packet E B N K S ps loaded dealer cs pw work s1 = (s2, Inr (packet, state))"
proof -
  obtain ps loaded dealer drawn c0 rest cs s1 s2 s3 where st:
    "validateRoster E (se_roster S) (se_threshold S) = Inr ps" "loadKeystore E K ks pw = Inr loaded"
    "applicable_dealer S ps (jget ks ''participantId'') = Inr dealer" "randomScalar (params_r B) False s = (s1, Inr drawn)"
    "deal_constant E B N K S dealer (ld_secret loaded) drawn = Inr c0"
    "draw_coefficients (params_r B) ((case se_threshold S of JInt t \<Rightarrow> nat t | _ \<Rightarrow> 1) - 1) s1 = (s2, Inr rest)"
    "nonzero_highest (params_r B) (c0 # rest) s2 = (s3, Inr cs)"
    "deal_packet E B N K S ps loaded dealer cs pw work s3 = (s', Inr (packet, state))"
    using run by (auto simp: createDealBundle_def bindIO_Inr liftR_Inr)
  obtain t where t: "se_threshold S = JInt t" "2 \<le> t" using validateRoster_Inr [OF st(1)] by metis
  have "0 \<le> c0 \<and> c0 < params_r B"
    using deal_constant_range [OF r st(5)] randomScalar_range [OF r st(4)] by simp
  then have "length cs = length (c0 # rest) \<and> (\<forall>c \<in> set cs. 0 \<le> c \<and> c < params_r B) \<and> last cs \<noteq> 0"
    using draw_coefficients_range [OF r st(6)] by (intro nonzero_highest_range [OF r st(7)]) auto
  moreover have "length rest = nat t - 1" using draw_coefficients_range [OF r st(6)] t by simp
  ultimately show thesis using st(1-3,8) t by (intro that [of ps loaded dealer cs s3 s']) auto
qed

lemma commitmentsFor_value:
  assumes B: "bls_laws B ex1 ex2 exT" "zero_multiple (G2 B) ex2" and cs: "\<forall>c \<in> set cs. 0 \<le> c \<and> c < params_r B"
    and ok: "commitmentsFor E B cs = Inr ws"
  shows "ws = map (\<lambda>c. wireHex E (G2 B) (ex2 c)) cs"
proof -
  note G = bls_lawsD(3) [OF B(1)]
  have "p = ex2 c" if "c \<in> set cs" "multiply (G2 B) (ex2 1) c = Inr p" for c p
    using that cs B(2) prime_order_groupD(4) [OF G, of c 1] by (cases "c = 0") (auto simp: zero_multiple_def)
  then have "wireHex E (G2 B) p = wireHex E (G2 B) (ex2 c)" if "c \<in> set cs" "multiply (G2 B) (ex2 1) c = Inr p" for c p
    using that by simp
  then have "\<forall>c \<in> set cs. \<forall>w. bindR (multiply (G2 B) (BASE (G2 B)) c) (\<lambda>p. Inr (wireHex E (G2 B) p)) = Inr w \<longrightarrow>
      w = wireHex E (G2 B) (ex2 c)"
    by (auto simp: bindR_Inr prime_order_groupD(2) [OF G])
  with ok show ?thesis
    unfolding commitmentsFor_def by (induction cs arbitrary: ws) (auto simp: bindR_Inr)
qed

text \<open>The parts of a packet that was made.\<close>

lemma deal_packet_steps:
  assumes "deal_packet E B N K S ps loaded dealer cs pw work s = (s', Inr (packet, state))"
  obtains ws fs es s1 sig where
    "commitmentsFor E B cs = Inr ws" "deal_body E S dealer ws = Inr fs"
    "mapIO (seal_share E B N K cs fs) ps s = (s1, Inr es)"
    "signPacket E N (JObj (fs @ [(''encryptedShares'', JArr es)])) (ld_identityPrivateKey loaded) = Inr sig"
    "packet = JObj [(''body'', JObj (fs @ [(''encryptedShares'', JArr es)])), (''signature'', JStr sig)]"
  using assms by (auto simp: deal_packet_def bindIO_Inr liftR_Inr Let_def [of "JObj _"] returnIO_def [of "(_, _)"])

lemma mapIO_nth:
  assumes "mapIO f xs s = (s', Inr ys)" "k < length xs"
  shows "\<exists>s1 s2. f (xs ! k) s1 = (s2, Inr (ys ! k))"
  using assms
proof (induction xs arbitrary: s ys k)
  case (Cons x xs)
  then show ?case by (cases k) (auto simp: bindIO_Inr returnIO_def, blast)
qed simp

lemma jget_append: "jget (JObj (fs @ gs)) k = (if has_field fs k then jget (JObj fs) k else jget (JObj gs) k)"
  by (auto simp: jget_def field_def has_field_def map_add_def split: option.splits)
    (metis map_of_eq_None_iff option.distinct(1) fst_conv image_eqI)+

subsection \<open>An honest deal passes every check\<close>

lemma canonicalJson_field:
  assumes "canonicalJson (JObj kvs) = Inr t" "(k, v) \<in> set kvs"
  shows "\<exists>u. canonicalJson v = Inr u"
proof -
  let ?f = "\<lambda>kv. bindR (canonicalJson (snd kv)) (\<lambda>t. Inr (stringify (fst kv) @ '':'' @ t))"
  obtain ts where "mapR ?f (sort_key fst kvs) = Inr ts" using assms(1) by (simp only: canonicalJson.simps bindR_Inr) blast
  moreover have "(k, v) \<in> set (sort_key fst kvs)" using assms(2) by simp
  ultimately obtain y where "?f (k, v) = Inr y" using mapR_set [of ?f _ ts "(k, v)"] by blast
  then show ?thesis by (auto simp: bindR_Inr)
qed

lemma canonicalJson_array:
  assumes "\<forall>v \<in> set vs. \<exists>u. canonicalJson v = Inr u"
  shows "\<exists>t. canonicalJson (JArr vs) = Inr t"
proof -
  obtain g where "\<forall>v \<in> set vs. canonicalJson v = Inr (g v)" using assms by metis
  then have "mapR canonicalJson vs = Inr (map g vs)" by (intro mapR_total) simp
  then show ?thesis by simp
qed

lemma same_text_refl: "\<exists>u. canonicalJson v = Inr u \<Longrightarrow> same_text v v = Inr True"
  by (auto simp: same_text_def)

lemma js_sort_set: "set (js_sort vs) = set vs"
  by (auto simp: js_sort_def)

lemma deal_body_fields:
  assumes "deal_body E S dealer ws = Inr fs" "expected_fields E S = Inr expected"
  shows "jget (JObj fs) ''format'' = JStr DKG_PACKET_FORMAT" "jget (JObj fs) ''type'' = JStr ''deal''"
    "k \<in> {''ceremony'', ''sessionId'', ''epoch'', ''threshold'', ''previousManifestHash'', ''selectedDealerIds''} \<Longrightarrow>
       jget (JObj fs) k = field expected k"
    "jget (JObj fs) ''dealerId'' = jget dealer ''id''" "jget (JObj fs) ''dealerIndex'' = jget dealer ''index''"
    "jget (JObj fs) ''commitments'' = JArr (map JStr ws)"
    "l \<in> set associated_fields \<Longrightarrow> has_field fs l" "\<not> has_field fs ''encryptedShares''"
    "\<exists>u. canonicalJson (field expected ''previousManifestHash'') = Inr u"
    "\<exists>u. canonicalJson (field expected ''selectedDealerIds'') = Inr u"
proof -
  obtain sid h where h: "previous_hash E S = Inr h"
    and fs: "fs = [(''format'', JStr DKG_PACKET_FORMAT), (''type'', JStr ''deal''), (''ceremony'', JStr (se_ceremony S)),
       (''sessionId'', JStr sid), (''epoch'', se_epoch S), (''threshold'', se_threshold S),
       (''dealerId'', jget dealer ''id''), (''dealerIndex'', jget dealer ''index''), (''previousManifestHash'', h),
       (''selectedDealerIds'', selected_json S), (''commitments'', JArr (map JStr ws))]"
    and ex: "expected = [(''ceremony'', JStr (se_ceremony S)), (''sessionId'', JStr sid), (''epoch'', se_epoch S),
       (''threshold'', se_threshold S), (''previousManifestHash'', h), (''selectedDealerIds'', selected_json S)]"
    using assms by (auto simp: deal_body_def expected_fields_def bindR_Inr)
  show "jget (JObj fs) ''format'' = JStr DKG_PACKET_FORMAT" "jget (JObj fs) ''type'' = JStr ''deal''"
    "jget (JObj fs) ''dealerId'' = jget dealer ''id''" "jget (JObj fs) ''dealerIndex'' = jget dealer ''index''"
    "jget (JObj fs) ''commitments'' = JArr (map JStr ws)" "\<not> has_field fs ''encryptedShares''"
    by (simp_all add: fs has_field_def)
  show "jget (JObj fs) k = field expected k"
    if "k \<in> {''ceremony'', ''sessionId'', ''epoch'', ''threshold'', ''previousManifestHash'', ''selectedDealerIds''}"
    using that by (auto simp: fs ex field_Cons)
  show "has_field fs l" if "l \<in> set associated_fields"
    using that by (auto simp: fs has_field_def associated_fields_def)
  show "\<exists>u. canonicalJson (field expected ''previousManifestHash'') = Inr u"
    using h by (auto simp: ex field_Cons previous_hash_def bindR_Inr split: if_splits)
  have "\<exists>u. canonicalJson (JArr (map JStr xs)) = Inr u" for xs
    by (rule canonicalJson_array) simp
  from this [of "[]"] this [of "se_selectedDealerIds S"]
  show "\<exists>u. canonicalJson (field expected ''selectedDealerIds'') = Inr u"
    by (simp only: ex field_Cons selected_json_def list.map split: if_split) simp
qed

lemma seal_share_steps:
  assumes "seal_share E B N K cs fs p s = (s', Inr e)"
  shows "\<exists>aad env. shareAssociatedData K (JObj fs) (jget p ''id'') = Inr aad \<and>
    encryptShare E N K (params_r B) (polynomialAt (params_r B) cs (index_of p)) p aad s = (s', Inr env) \<and>
    e = JObj [(''recipientId'', jget p ''id''), (''envelope'', env)]"
  using assms by (auto simp: seal_share_def bindIO_Inr liftR_Inr returnIO_def)

lemma associated_data_id:
  assumes "shareAssociatedData K body v = Inr aad" shows "\<exists>u. canonicalJson v = Inr u"
proof -
  obtain t where "canonicalJson (JObj (map (\<lambda>k. (k, jget body k)) associated_fields @ [(''recipientId'', v)])) = Inr t"
    using assms by (simp only: shareAssociatedData_def bindR_Inr) blast
  from canonicalJson_field [OF this, of "''recipientId''" v] show ?thesis by simp
qed

text \<open>The list of encrypted shares names every participant once.\<close>

lemma sealed_shares:
  assumes es: "mapIO (seal_share E B N K cs fs) ps s = (s1, Inr es)" and body: "jget body ''encryptedShares'' = JArr es"
    and ids: "check_distinct ps ''id'' = Inr ()"
  shows "deal_shares body ps = Inr es"
proof -
  have len: "length es = length ps" using mapIO_length [OF es] .
  have e: "\<exists>env. es ! k = JObj [(''recipientId'', jget (ps ! k) ''id''), (''envelope'', env)] \<and>
      (\<exists>u. canonicalJson (jget (ps ! k) ''id'') = Inr u)" if "k < length ps" for k
    using mapIO_nth [OF es that] by (auto dest!: seal_share_steps dest: associated_data_id)
  have "mapR (\<lambda>item. jprop item ''recipientId'') es = Inr (map (\<lambda>p. jget p ''id'') ps)"
    unfolding mapR_Inr_iff list_all2_conv_all_nth using len e by (fastforce simp: jprop_def)
  moreover have "set_size (map (\<lambda>p. jget p ''id'') ps) = length ps"
    using ids by (simp add: check_distinct_def split: if_splits)
  moreover have "same_text (JArr (js_sort (map (\<lambda>p. jget p ''id'') ps))) (JArr (js_sort (map (\<lambda>p. jget p ''id'') ps))) = Inr True"
    using e by (intro same_text_refl canonicalJson_array) (auto simp: js_sort_set in_set_conv_nth)
  ultimately show ?thesis using len by (simp add: deal_shares_def body Let_def)
qed

lemma made_commitments:
  assumes B: "bls_laws B ex1 ex2 exT" "hex_codec E" and ws: "ws = map (\<lambda>c. wireHex E (G2 B) (ex2 c)) cs"
    and body: "jget body ''commitments'' = JArr (map JStr ws)" and t: "field expected ''threshold'' = JInt (int (length cs))"
    and cs: "cs \<noteq> []" "0 \<le> last cs" "last cs < params_r B" "last cs \<noteq> 0"
  shows "deal_commitments E B body expected = Inr (map JStr ws)" "list_all2 (commits E B ex2) (map JStr ws) cs"
proof -
  note G = bls_lawsD(3) [OF B(1)]
  show all: "list_all2 (commits E B ex2) (map JStr ws) cs"
    using commits_wireHex [OF B(2,1)] by (simp add: ws list_all2_conv_all_nth)
  have "\<exists>qs. mapR (\<lambda>(position, v). commitment_point E B v (''commitment '' @ showInt (int position))) (enumerate 0 (map JStr ws)) = Inr qs"
    using all by (intro exI [of _ "map ex2 cs"])
      (auto simp: mapR_Inr_iff list_all2_conv_all_nth nth_enumerate_eq commits_def)
  moreover have "last (map JStr ws) = JStr (wireHex E (G2 B) (ex2 (last cs)))"
    using cs(1) by (simp add: ws last_map)
  moreover have "commits E B ex2 (JStr (wireHex E (G2 B) (ex2 (last cs)))) (last cs)"
    by (rule commits_wireHex [OF B(2,1)])
  moreover have "ex2 (last cs) \<noteq> ZERO (G2 B)"
    using cs by (simp add: prime_order_groupD(1,5) [OF G] eqm_mod)
  ultimately show "deal_commitments E B body expected = Inr (map JStr ws)"
    using t cs(1) by (auto simp: deal_commitments_def body Let_def ws commits_def)
qed

text \<open>Where the command line takes the dealers from.\<close>

definition dealers_given :: "session \<Rightarrow> bool" where
  "dealers_given S \<longleftrightarrow> se_dealerRoster S =
     (if se_ceremony S = ''reshare'' then jget (se_previousManifest S) ''participants'' else JUndefined)"

lemma dealer_in_roster:
  assumes "dealers_given S" "validateRoster E (se_roster S) (se_threshold S) = Inr ps" "dealer_roster E S = Inr dealers"
    "applicable_dealer S ps pid = Inr dealer"
  shows "find_by ''id'' (jget dealer ''id'') dealers = Inr (Some dealer)"
proof -
  obtain t where t: "se_roster S = JArr ps" using validateRoster_Inr [OF assms(2)] by metis
  have "find_by ''id'' pid dealers = Inr (Some dealer)"
  proof (cases "se_ceremony S = ''reshare''")
    case True
    then obtain vs where "jget (se_previousManifest S) ''participants'' = JArr vs" "find_by ''id'' pid vs = Inr (Some dealer)"
      using assms(4) by (cases "jget (se_previousManifest S) ''participants''") (auto simp: applicable_dealer_def result_simps)
    then show ?thesis
      using True assms(1,3) by (auto simp: dealers_given_def dealer_roster_def as_array_def dest: number_roster_Inr)
  next
    case False
    then show ?thesis
      using t assms(1,3,4)
      by (auto simp: dealers_given_def dealer_roster_def applicable_dealer_def as_array_def result_simps dest: number_roster_Inr)
  qed
  then show ?thesis using find_by_Some by metis
qed

lemma signed_packet_verifies:
  assumes "hex_laws E" "signature_laws N K" "signPacket E N body (keyFromSeed K ''ed25519'' seed) = Inr sig"
    "jget who ''identityPublicKey'' = JStr (rawPublicKey E K (publicOf K (keyFromSeed K ''ed25519'' seed)))"
    "truthy body"
  shows "verifyPacket E N (JObj [(''body'', body), (''signature'', JStr sig)]) who = Inr True"
proof -
  obtain h b where h: "packetHash E body = Inr h" "getBytes E h = Inr b"
      "sig = hexlify E (ed_sign N b (keyFromSeed K ''ed25519'' seed))"
    using assms(3) by (auto simp: signPacket_def bindR_Inr)
  have v: "length (ed_sign N b (keyFromSeed K ''ed25519'' seed)) = 64"
      "ed_verify N b (publicOf K (keyFromSeed K ''ed25519'' seed)) (ed_sign N b (keyFromSeed K ''ed25519'' seed))"
    using assms(2) unfolding signature_laws_def Let_def by blast+
  show ?thesis
    using hex_lawsD(3) [OF assms(1), of "ed_sign N b (keyFromSeed K ''ed25519'' seed)" "''packet signature''"] v h assms(5)
    by (simp add: verifyPacket_def assms(4) ed25519_read_back [OF assms(2,1)] hex_lawsD(2) [OF assms(1)])
qed

lemma made_deal_validates:
  assumes E: "hex_laws E" and B: "bls_laws B ex1 ex2 exT" "zero_multiple (G2 B) ex2" and N: "signature_laws N K"
    and ps: "validateRoster E (se_roster S) (se_threshold S) = Inr ps" and ex: "expected_fields E S = Inr expected"
    and d: "find_by ''id'' (jget dealer ''id'') dealers = Inr (Some dealer)"
      "jget dealer ''identityPublicKey'' = JStr (rawPublicKey E K (publicOf K (keyFromSeed K ''ed25519'' seed)))"
      "ld_identityPrivateKey loaded = keyFromSeed K ''ed25519'' seed"
    and cs: "int (length cs) = (case se_threshold S of JInt t \<Rightarrow> t | _ \<Rightarrow> 0)" "\<forall>c \<in> set cs. 0 \<le> c \<and> c < params_r B" "last cs \<noteq> 0"
    and run: "deal_packet E B N K S ps loaded dealer cs pw work s = (s', Inr (packet, state))"
  obtains fs es s1 where "validateDealPacket E B N packet ps dealers expected = Inr dealer"
    "deal_commits E B ex2 (ceremony_threshold S) packet cs" "mapIO (seal_share E B N K cs fs) ps s = (s1, Inr es)"
    "jget (jget packet ''body'') ''encryptedShares'' = JArr es"
    "\<And>v. shareAssociatedData K (jget packet ''body'') v = shareAssociatedData K (JObj fs) v"
proof -
  obtain ws fs es s1 sig where st: "commitmentsFor E B cs = Inr ws" "deal_body E S dealer ws = Inr fs"
    "mapIO (seal_share E B N K cs fs) ps s = (s1, Inr es)"
    "signPacket E N (JObj (fs @ [(''encryptedShares'', JArr es)])) (ld_identityPrivateKey loaded) = Inr sig"
    "packet = JObj [(''body'', JObj (fs @ [(''encryptedShares'', JArr es)])), (''signature'', JStr sig)]"
    using run by (rule deal_packet_steps)
  note fs = deal_body_fields [OF st(2) ex]
  have codec: "hex_codec E" using E by (simp add: hex_laws_def)
  obtain t where t: "se_threshold S = JInt t" "2 \<le> t" "check_distinct ps ''id'' = Inr ()"
    using validateRoster_Inr [OF ps] by (metis insertI1)
  have len: "length cs = nat t" "cs \<noteq> []" "ceremony_threshold S = length cs"
    using cs(1) t by (auto simp: ceremony_threshold_def)
  let ?body = "JObj (fs @ [(''encryptedShares'', JArr es)])"
  have body: "jget packet ''body'' = ?body" by (simp add: st(5))
  have old: "jget ?body k = jget (JObj fs) k" if "k \<in> set associated_fields" for k
    using fs(7) [OF that] by (simp add: jget_append)
  have assoc: "''format'' \<in> set associated_fields" "''type'' \<in> set associated_fields" "''dealerId'' \<in> set associated_fields"
      "''dealerIndex'' \<in> set associated_fields" "''commitments'' \<in> set associated_fields"
    by (simp_all add: associated_fields_def)
  have es: "jget ?body ''encryptedShares'' = JArr es" using fs(8) by (simp add: jget_append)
  have same: "jget ?body k = field expected k"
    if "k \<in> {''ceremony'', ''sessionId'', ''epoch'', ''threshold'', ''previousManifestHash'', ''selectedDealerIds''}" for k
  proof -
    have "k \<in> set associated_fields" using that by (auto simp: associated_fields_def)
    then show ?thesis using fs(3) [OF that] old by simp
  qed
  have fields: "mapR (wrong_field ''deal'' ?body expected) [''ceremony'', ''sessionId'', ''epoch'', ''threshold''] = Inr [(), (), (), ()]"
    using same by (simp add: wrong_field_def)
  have texts: "mapR (wrong_text ''deal'' ?body expected) [''previousManifestHash'', ''selectedDealerIds''] = Inr [(), ()]"
    using same same_text_refl [OF fs(9)] same_text_refl [OF fs(10)] by (simp add: wrong_text_def)
  have thr: "field expected ''threshold'' = JInt (int (length cs))"
    using expected_threshold [OF ex] t len(1) by simp
  have "ws = map (\<lambda>c. wireHex E (G2 B) (ex2 c)) cs" by (rule commitmentsFor_value [OF B cs(2) st(1)])
  moreover have "jget ?body ''commitments'' = JArr (map JStr ws)" using fs(6) old [OF assoc(5)] by simp
  moreover have "0 \<le> last cs" "last cs < params_r B" using cs(2) len(2) by simp_all
  ultimately have com: "deal_commitments E B ?body expected = Inr (map JStr ws)" "list_all2 (commits E B ex2) (map JStr ws) cs"
      "jget ?body ''commitments'' = JArr (map JStr ws)"
    using made_commitments [OF B(1) codec, of ws cs ?body expected] thr len(2) cs(3) by blast+
  have "verifyPacket E N packet dealer = Inr True"
    unfolding st(5) using st(4) d(3) by (intro signed_packet_verifies [OF E N _ d(2)]) simp_all
  moreover have "jget ?body ''dealerId'' = jget dealer ''id''" "jget ?body ''dealerIndex'' = jget dealer ''index''"
    using fs(4,5) old [OF assoc(3)] old [OF assoc(4)] by simp_all
  ultimately have signer: "deal_signer E N packet dealers = Inr dealer"
    using d(1) by (simp add: deal_signer_def body Let_def)
  have shares: "deal_shares ?body ps = Inr es" by (rule sealed_shares [OF st(3) es t(3)])
  have head: "jget ?body ''format'' = JStr DKG_PACKET_FORMAT" "jget ?body ''type'' = JStr ''deal''"
    using fs(1,2) old [OF assoc(1)] old [OF assoc(2)] by simp_all
  show thesis
  proof (rule that)
    show "validateDealPacket E B N packet ps dealers expected = Inr dealer"
      unfolding validateDealPacket_def Let_def body fields texts signer com(1) shares bindR.simps using head by simp
    show "deal_commits E B ex2 (ceremony_threshold S) packet cs"
      using com(2,3) len(3) by (auto simp: deal_commits_def body)
    show "mapIO (seal_share E B N K cs fs) ps s = (s1, Inr es)" by (rule st(3))
    show "jget (jget packet ''body'') ''encryptedShares'' = JArr es" using es body by simp
    have "map (\<lambda>k. (k, jget ?body k)) associated_fields = map (\<lambda>k. (k, jget (JObj fs) k)) associated_fields"
      using old by simp
    then show "shareAssociatedData K (jget packet ''body'') v = shareAssociatedData K (JObj fs) v" for v
      by (simp only: shareAssociatedData_def body)
  qed
qed

lemma own_share_found:
  assumes es: "mapIO (seal_share E B N K cs fs) ps s = (s1, Inr es)" and ids: "check_distinct ps ''id'' = Inr ()"
    and me: "me \<in> set ps" "primitive (jget me ''id'')"
  obtains s2 s3 aad env where "shareAssociatedData K (JObj fs) (jget me ''id'') = Inr aad"
    "encryptShare E N K (params_r B) (polynomialAt (params_r B) cs (index_of me)) me aad s2 = (s3, Inr env)"
    "find_by ''recipientId'' (jget me ''id'') es = Inr (Some (JObj [(''recipientId'', jget me ''id''), (''envelope'', env)]))"
proof -
  have len: "length es = length ps" using mapIO_length [OF es] .
  have rid: "jget (es ! k) ''recipientId'' = jget (ps ! k) ''id'' \<and> es ! k \<noteq> JNull \<and> es ! k \<noteq> JUndefined" if "k < length ps" for k
    using mapIO_nth [OF es that] by (auto dest!: seal_share_steps)
  then have "map (\<lambda>item. jget item ''recipientId'') es = map (\<lambda>p. jget p ''id'') ps"
    using len by (intro nth_equalityI) auto
  moreover have "distinct (filter primitive (map (\<lambda>p. jget p ''id'') ps))"
    using ids set_size_distinct [of "map (\<lambda>p. jget p ''id'') ps"] by (simp add: check_distinct_def split: if_splits)
  ultimately have dist: "distinct (filter primitive (map (\<lambda>item. jget item ''recipientId'') es))" by simp
  obtain k where k: "k < length ps" "ps ! k = me" using me(1) by (auto simp: in_set_conv_nth)
  then obtain s2 s3 where "seal_share E B N K cs fs me s2 = (s3, Inr (es ! k))" using mapIO_nth [OF es] by blast
  then obtain aad env where e: "shareAssociatedData K (JObj fs) (jget me ''id'') = Inr aad"
      "encryptShare E N K (params_r B) (polynomialAt (params_r B) cs (index_of me)) me aad s2 = (s3, Inr env)"
      "es ! k = JObj [(''recipientId'', jget me ''id''), (''envelope'', env)]"
    using seal_share_steps by blast
  have "find_by ''recipientId'' (jget (es ! k) ''recipientId'') es = Inr (Some (es ! k))"
    using dist rid k len me(2) by (intro find_by_unique) (auto simp: in_set_conv_nth e(3))
  then show thesis using e by (intro that) simp_all
qed

text \<open>The packet of an honest dealer is accepted by an honest recipient whose share is not zero.\<close>

lemma honest_deal_accepted:
  assumes E: "hex_laws E" and B: "bls_laws B ex1 ex2 exT" "zero_multiple (G2 B) ex2" "params_r B \<le> 256 ^ 32"
    and K: "key_laws N K" "gcm_laws K" "signature_laws N K"
    and ps: "validateRoster E (se_roster S) (se_threshold S) = Inr ps" and ex: "expected_fields E S = Inr expected"
    and ds: "dealers_given S" "dealer_roster E S = Inr dealers"
    and deal: "createDealBundle E B N K S dks dpw work s = (s', Inr (packet, state))"
    and dealer: "loadKeystore E K dks dpw = Inr dl" "applicable_dealer S ps (jget dks ''participantId'') = Inr dealer"
      "jget dealer ''identityPublicKey'' = JStr (rawPublicKey E K (publicOf K (keyFromSeed K ''ed25519'' dseed)))"
      "ld_identityPrivateKey dl = keyFromSeed K ''ed25519'' dseed"
    and me: "own_participant mks ps msg = Inr me" "index_of me < params_r B"
      "jget me ''transportPublicKey'' = JStr (rawPublicKey E K (publicOf K (keyFromSeed K ''x25519'' mseed)))"
      "ld_transportPrivateKey ml = keyFromSeed K ''x25519'' mseed"
  shows "\<exists>cs. deal_commits E B ex2 (ceremony_threshold S) packet cs \<and>
    (eqm (params_r B) (peval cs (index_of me)) 0 \<or> accept_deal E B N K ps dealers expected ml me packet = Inr ())"
proof -
  have r: "0 < params_r B" using bls_lawsD(1) [OF B(1)] by (auto simp: field_modulus_def)
  obtain ps' loaded dealer' cs s1 s2 where st:
    "validateRoster E (se_roster S) (se_threshold S) = Inr ps'" "loadKeystore E K dks dpw = Inr loaded"
    "applicable_dealer S ps' (jget dks ''participantId'') = Inr dealer'"
    "int (length cs) = (case se_threshold S of JInt t \<Rightarrow> t | _ \<Rightarrow> 0)" "\<forall>c \<in> set cs. 0 \<le> c \<and> c < params_r B" "last cs \<noteq> 0"
    "deal_packet E B N K S ps' loaded dealer' cs dpw work s1 = (s2, Inr (packet, state))"
    using createDealBundle_steps [OF r deal] by blast
  have eqs: "ps' = ps" "loaded = dl" "dealer' = dealer" using st(1-3) ps dealer(1,2) by simp_all
  have find: "find_by ''id'' (jget dealer ''id'') dealers = Inr (Some dealer)"
    by (rule dealer_in_roster [OF ds(1) ps ds(2) dealer(2)])
  obtain fs es s3 where v: "validateDealPacket E B N packet ps dealers expected = Inr dealer"
    "deal_commits E B ex2 (ceremony_threshold S) packet cs" "mapIO (seal_share E B N K cs fs) ps s1 = (s3, Inr es)"
    "jget (jget packet ''body'') ''encryptedShares'' = JArr es"
    "\<And>v. shareAssociatedData K (jget packet ''body'') v = shareAssociatedData K (JObj fs) v"
    using made_deal_validates [OF E B(1,2) K(3) ps ex find dealer(3,4) st(4-6) st(7) [unfolded eqs]] by metis
  obtain t where t: "number_roster E ps = Inr ps" "check_distinct ps ''id'' = Inr ()"
    using validateRoster_Inr [OF ps] by (metis insertI1)
  have mem: "me \<in> set ps" "primitive (jget me ''id'')" "0 < index_of me"
    using own_participant_Inr [OF me(1)] find_by_Some [of "''id''" "jget me ''id''" ps me] roster_index [OF t(1)] by auto
  obtain s4 s5 aad env where sh: "shareAssociatedData K (JObj fs) (jget me ''id'') = Inr aad"
    "encryptShare E N K (params_r B) (polynomialAt (params_r B) cs (index_of me)) me aad s4 = (s5, Inr env)"
    "find_by ''recipientId'' (jget me ''id'') es = Inr (Some (JObj [(''recipientId'', jget me ''id''), (''envelope'', env)]))"
    by (rule own_share_found [OF v(3) t(2) mem(1,2)])
  let ?x = "polynomialAt (params_r B) cs (index_of me)"
  have x: "0 \<le> ?x" "?x < params_r B" "eqm (params_r B) ?x (peval cs (index_of me))"
    using polynomialAt_range [OF r, of cs "index_of me"] polynomialAt_peval [OF r, of cs "index_of me"] st(5) mem(3) by auto
  have dec: "decryptShare E N K env (ld_transportPrivateKey ml) aad = Inr ?x"
    unfolding me(4) by (rule decrypt_encrypted_share [OF E K(1,2) B(3) x(1,2) me(3) sh(2)])
  obtain vs where vs: "jget (jget packet ''body'') ''commitments'' = JArr vs" "list_all2 (commits E B ex2) vs cs"
    using v(2) by (auto simp: deal_commits_def)
  have "accept_deal E B N K ps dealers expected ml me packet = Inr ()" if "\<not> eqm (params_r B) (peval cs (index_of me)) 0"
  proof -
    have "?x \<noteq> 0" using that x(3) by (auto intro: eqm_sym)
    then have "shareMatchesCommitments E B ?x vs (index_of me) = Inr True"
      using x by (intro shareMatchesCommitments_complete [OF B(1) vs(2) mem(3) me(2)]) auto
    then show ?thesis
      by (simp add: accept_deal_def Let_def v(1,4,5) as_array_def sh(1,3) jprop_def dec vs(1))
  qed
  then show ?thesis using v(2) by blast
qed

subsection \<open>What a resolution reveals\<close>

text \<open>
  A published complaint is backed by a response that the recipient signed and that rejects the dealer's deal; the share
  it reveals is that recipient's.
\<close>

definition backed ::
  "ethers \<Rightarrow> ('p, 'q, 't) bls \<Rightarrow> 'k node \<Rightarrow> json list \<Rightarrow> json \<Rightarrow> int list \<Rightarrow> json list \<Rightarrow> json \<Rightarrow> bool" where
  "backed E B N roster dealerId coefficients responses item \<longleftrightarrow> (\<exists>response \<in> set responses. \<exists>p \<in> set roster. \<exists>h.
     verifyPacket E N response p = Inr True \<and> complains dealerId (jget response ''body'') \<and>
     jget item ''recipientId'' = jget p ''id'' \<and> jget item ''recipientIndex'' = JInt (index_of p) \<and>
     scalarHex (params_r B) (polynomialAt (params_r B) coefficients (index_of p)) = Inr h \<and> jget item ''share'' = JStr h)"

lemma validateResponsePacket_Inr:
  assumes "validateResponsePacket E N packet roster expected = Inr body"
  shows "body = jget packet ''body'' \<and> (\<exists>p \<in> set roster. jget p ''id'' = jget body ''recipientId'' \<and>
    primitive (jget body ''recipientId'') \<and> jget p ''index'' = jget body ''recipientIndex'' \<and> verifyPacket E N packet p = Inr True)"
  using assms by (auto simp: validateResponsePacket_def packet_signer_def Let_def result_simps simp del: mapR.simps
      split: if_splits dest!: find_by_Some)

lemma collect_complaint_backed:
  assumes roster: "number_roster E roster = Inr roster" and response: "response \<in> set responses"
    and acc: "distinct (map (\<lambda>item. jget item ''recipientId'') (snd acc))"
      "set (map (\<lambda>item. jget item ''recipientId'') (snd acc)) \<subseteq> set (fst acc)"
      "\<forall>item \<in> set (snd acc). backed E B N roster dealerId coefficients responses item"
    and c: "collect_complaint E B N roster expected dealerId coefficients acc response = Inr acc'"
  shows "distinct (map (\<lambda>item. jget item ''recipientId'') (snd acc')) \<and>
    set (map (\<lambda>item. jget item ''recipientId'') (snd acc')) \<subseteq> set (fst acc') \<and>
    (\<forall>item \<in> set (snd acc'). backed E B N roster dealerId coefficients responses item)"
proof -
  obtain body where b: "validateResponsePacket E N response roster expected = Inr body"
    using c by (auto simp: collect_complaint_def bindR_Inr)
  obtain p where p: "body = jget response ''body''" "p \<in> set roster" "jget p ''id'' = jget body ''recipientId''"
      "jget p ''index'' = jget body ''recipientIndex''" "verifyPacket E N response p = Inr True"
    using validateResponsePacket_Inr [OF b] by blast
  have idx: "jget body ''recipientIndex'' = JInt (index_of p)" using roster_index [OF roster p(2)] p(4) by simp
  let ?rid = "jget body ''recipientId''"
  have fresh: "?rid \<notin> set (fst acc)" using c b by (auto simp: collect_complaint_def Let_def split: if_splits)
  show ?thesis
  proof (cases "complains dealerId body")
    case False
    then have "acc' = (fst acc @ [?rid], snd acc)" using c b fresh by (auto simp: collect_complaint_def Let_def)
    then show ?thesis using acc by auto
  next
    case True
    then obtain h where h: "scalarHex (params_r B) (polynomialAt (params_r B) coefficients (index_of p)) = Inr h"
        "acc' = (fst acc @ [?rid], snd acc @ [JObj [(''recipientId'', ?rid), (''recipientIndex'', JInt (index_of p)),
           (''share'', JStr h)]])"
      using c b fresh idx by (auto simp: collect_complaint_def Let_def bindR_Inr)
    have "backed E B N roster dealerId coefficients responses (JObj [(''recipientId'', ?rid),
        (''recipientIndex'', JInt (index_of p)), (''share'', JStr h)])"
      using True response p h(1) unfolding backed_def by (intro bexI [of _ response] bexI [of _ p] exI [of _ h]) auto
    then show ?thesis using acc fresh h(2) by auto
  qed
qed

lemma resolution_backed:
  assumes "createResolutionBundle E B N K dks dstate pw deal responses roster dealerRoster = Inr packet"
  shows "\<exists>ps t items coefficients. roster = JArr ps \<and> jget (jget deal ''body'') ''threshold'' = JInt t \<and>
    jget (jget packet ''body'') ''complaints'' = JArr items \<and> int (length items) < t \<and>
    distinct (map (\<lambda>item. jget item ''recipientId'') items) \<and>
    (\<forall>item \<in> set items. backed E B N ps (jget dks ''participantId'') coefficients responses item)"
proof -
  let ?did = "jget dks ''participantId''" and ?body = "jget deal ''body''"
  obtain ps expected coefficients responders complaints sig where st: "validateRoster E roster (jget ?body ''threshold'') = Inr ps"
      "foldR (collect_complaint E B N ps expected ?did coefficients) ([], []) responses = Inr (responders, complaints)"
      "\<not> (case jget ?body ''threshold'' of JInt t \<Rightarrow> int (length complaints) \<ge> t | _ \<Rightarrow> False)"
      "packet = JObj [(''body'', resolution_body ?body ?did (sort_key complaint_index complaints)), (''signature'', JStr sig)]"
    using assms unfolding createResolutionBundle_def Let_def
    by (simp only: bindR_Inr if_Inl_result split_paired_Ex prod.case sum.inject) (elim exE conjE, blast)
  obtain t where t: "roster = JArr ps" "jget ?body ''threshold'' = JInt t" "number_roster E ps = Inr ps"
    using validateRoster_Inr [OF st(1)] by metis
  let ?P = "\<lambda>acc. distinct (map (\<lambda>item. jget item ''recipientId'') (snd acc)) \<and>
    set (map (\<lambda>item. jget item ''recipientId'') (snd acc)) \<subseteq> set (fst acc) \<and>
    (\<forall>item \<in> set (snd acc). backed E B N ps ?did coefficients responses item)"
  have "?P (responders, complaints)"
    using st(2)
  proof (rule foldR_invariant)
    show "?P ([], [])" by simp
    show "?P acc'" if "response \<in> set responses" "?P acc" "collect_complaint E B N ps expected ?did coefficients acc response = Inr acc'"
      for acc acc' response
      using that collect_complaint_backed [OF t(3) that(1)] by blast
  qed
  then have c: "distinct (map (\<lambda>item. jget item ''recipientId'') complaints)"
      "\<forall>item \<in> set complaints. backed E B N ps ?did coefficients responses item" by simp_all
  have "distinct (map (\<lambda>item. jget item ''recipientId'') (sort_key complaint_index complaints))"
    using c(1) by (simp add: distinct_map)
  then show ?thesis
    using t(1,2) st(3) c(2) unfolding st(4)
    by (intro exI [of _ ps] exI [of _ t] exI [of _ "sort_key complaint_index complaints"] exI [of _ coefficients])
      (simp add: resolution_body_def)
qed

subsection \<open>The response\<close>

text \<open>The host sorts by a permutation of the positions, in whatever order its locale has.\<close>

definition order_laws :: "'k crypto \<Rightarrow> bool" where
  "order_laws K \<longleftrightarrow> (\<forall>keys positions. localeOrder K keys = Inr positions \<longrightarrow> distinct positions \<and> set positions = {..<length keys})"

lemma sort_locale_Inr:
  assumes "order_laws K" "sort_locale K keys items = Inr sorted_items" "length keys = length items"
  shows "set sorted_items = set items \<and> (distinct (map f items) \<longrightarrow> distinct (map f sorted_items))"
proof -
  obtain positions where p: "localeOrder K keys = Inr positions" "sorted_items = map ((!) items) positions"
    using assms(2) by (auto simp: sort_locale_def bindR_Inr)
  have ps: "distinct positions" "set positions = {..<length items}" using assms(1,3) p(1) by (auto simp: order_laws_def)
  have "set sorted_items = set items" by (simp add: p(2) ps(2) lessThan_atLeast0 nth_image)
  moreover have "inj_on (\<lambda>i. f (items ! i)) (set positions)" if "distinct (map f items)"
    using that unfolding ps(2) by (intro inj_onI) (metis lessThan_iff nth_eq_iff_index_eq nth_map length_map)
  ultimately show ?thesis using ps(1) by (auto simp: p(2) distinct_map inj_on_def)
qed

lemma check_status_total:
  assumes "\<forall>st \<in> set sts. \<exists>b reason. jget st ''dealerId'' = JStr (g st) \<and> jget st ''status'' = JBool b \<and>
      jget st ''reason'' = JStr reason \<and> length reason \<le> 160" "distinct (map g sts)" "set (map g sts) \<inter> set seen = {}"
  shows "\<exists>seen'. foldR check_status seen sts = Inr seen'"
  using assms
proof (induction sts arbitrary: seen)
  case (Cons st sts)
  then obtain b reason where "jget st ''dealerId'' = JStr (g st)" "jget st ''status'' = JBool b" "jget st ''reason'' = JStr reason"
      "length reason \<le> 160" by auto
  then have "check_status seen st = Inr (g st # seen)" using Cons.prems(3) by (auto simp: check_status_def)
  moreover have "\<exists>seen'. foldR check_status (g st # seen) sts = Inr seen'" using Cons.prems by (intro Cons.IH) auto
  ultimately show ?case by simp
qed simp

lemma deal_status_fields:
  assumes "jget (jget packet ''body'') ''dealerId'' = JStr name" "name \<noteq> []"
  shows "jget (deal_status E B N K ps dealers expected ml me packet) ''dealerId'' = JStr name"
    "jget (deal_status E B N K ps dealers expected ml me packet) ''status'' =
      JBool (accept_deal E B N K ps dealers expected ml me packet = Inr ())"
    "\<exists>reason. jget (deal_status E B N K ps dealers expected ml me packet) ''reason'' = JStr reason \<and> length reason \<le> 160"
  using assms by (auto simp: deal_status_def Let_def split: sum.split)

lemma response_validates:
  assumes E: "hex_laws E" and K: "signature_laws N K" "order_laws K" and S: "primitive (se_epoch S)"
    and ps: "validateRoster E (se_roster S) (se_threshold S) = Inr ps" and ex: "expected_fields E S = Inr expected"
    and ds: "dealer_roster E S = Inr dealers"
    and run: "createResponseBundle E B N K S ks pw deals = Inr response"
    and me: "loadKeystore E K ks pw = Inr ml" "own_participant ks ps ''response signer is not in the new roster'' = Inr me"
      "jget me ''identityPublicKey'' = JStr (rawPublicKey E K (publicOf K (keyFromSeed K ''ed25519'' seed)))"
      "ld_identityPrivateKey ml = keyFromSeed K ''ed25519'' seed"
    and ids: "map (\<lambda>deal. jget (jget deal ''body'') ''dealerId'') deals = map JStr names" "distinct names" "[] \<notin> set names"
  shows "validateResponsePacket E N response ps expected = Inr (jget response ''body'') \<and>
    (\<forall>deal \<in> set deals. complains (jget (jget deal ''body'') ''dealerId'') (jget response ''body'') \<longleftrightarrow>
      accept_deal E B N K ps dealers expected ml me deal \<noteq> Inr ())"
proof -
  let ?status = "deal_status E B N K ps dealers expected ml me"
  let ?did = "\<lambda>deal. jget (jget deal ''body'') ''dealerId''"
  obtain sts sig where st: "sort_locale K (map (\<lambda>status. jget status ''dealerId'') (map ?status deals)) (map ?status deals) = Inr sts"
      "signPacket E N (response_body S expected me sts) (ld_identityPrivateKey ml) = Inr sig"
      "response = JObj [(''body'', response_body S expected me sts), (''signature'', JStr sig)]"
    using run by (auto simp: createResponseBundle_def ps ds me ex Let_def bindR_Inr)
  let ?body = "response_body S expected me sts"
  obtain t where t: "se_threshold S = JInt t" using validateRoster_Inr [OF ps] by metis
  have name: "\<exists>n \<in> set names. ?did deal = JStr n \<and> n \<noteq> []" if "deal \<in> set deals" for deal
  proof -
    have "?did deal \<in> set (map JStr names)" using that unfolding ids(1) [symmetric] by simp
    then show ?thesis using ids(3) by auto
  qed
  have did: "jget (?status deal) ''dealerId'' = ?did deal" if "deal \<in> set deals" for deal
    using name [OF that] deal_status_fields(1) by fastforce
  have set: "set sts = ?status ` set deals" using sort_locale_Inr [OF K(2) st(1), of id] by simp
  have "map (\<lambda>status. jget status ''dealerId'') (map ?status deals) = map JStr names"
    unfolding ids(1) [symmetric] map_map by (rule map_cong) (simp_all add: did)
  then have "distinct (map (\<lambda>status. jget status ''dealerId'') (map ?status deals))"
    using ids(2) by (simp add: distinct_map inj_on_def)
  then have dist: "distinct (map (\<lambda>status. jget status ''dealerId'') sts)"
    using sort_locale_Inr [OF K(2) st(1), of "\<lambda>status. jget status ''dealerId''"] by simp
  let ?g = "\<lambda>status. (case jget status ''dealerId'' of JStr n \<Rightarrow> n | _ \<Rightarrow> [])"
  have each: "\<exists>b reason. jget status ''dealerId'' = JStr (?g status) \<and> jget status ''status'' = JBool b \<and>
      jget status ''reason'' = JStr reason \<and> length reason \<le> 160" if "status \<in> set sts" for status
  proof -
    have "status \<in> ?status ` set deals" using that by (simp only: set)
    then obtain deal where deal: "status = ?status deal" "deal \<in> set deals" by (rule imageE)
    then obtain n where n: "?did deal = JStr n" "n \<noteq> []" using name by blast
    show ?thesis unfolding deal(1) deal_status_fields(1,2) [OF n] using deal_status_fields(3) [OF n] by simp
  qed
  then have "map (\<lambda>status. jget status ''dealerId'') sts = map JStr (map ?g sts)" by simp
  then have "distinct (map ?g sts)" using dist distinct_map by metis
  then obtain seen where seen: "foldR check_status [] sts = Inr seen" using check_status_total [of sts ?g "[]"] each by auto
  have find: "find_by ''id'' (jget me ''id'') ps = Inr (Some me)"
    using me(2) find_by_Some by (fastforce simp: own_participant_def bindR_Inr split: option.splits)
  have "verifyPacket E N response me = Inr True"
    unfolding st(3) using st(2) by (intro signed_packet_verifies [OF E K(1) _ me(3)]) (simp_all add: me(4) response_body_def)
  then have "packet_signer E N response ps = Inr me"
    using find by (simp add: packet_signer_def Let_def) (simp add: st(3) response_body_def)
  moreover have "\<forall>k \<in> set [''ceremony'', ''sessionId'', ''epoch'', ''threshold'']. strict_field ''response'' ?body expected k = Inr ()"
    using ex S by (auto simp: strict_field_def response_body_def strict_eq_def t expected_fields_def bindR_Inr field_Cons)
  then have "\<exists>us. mapR (strict_field ''response'' ?body expected) [''ceremony'', ''sessionId'', ''epoch'', ''threshold''] = Inr us"
    by (auto intro: mapR_total)
  moreover have "as_array (jget ?body ''statuses'') m = Inr sts" for m by (simp add: response_body_def as_array_def)
  moreover have body: "jget response ''body'' = ?body" by (simp add: st(3))
  ultimately have "validateResponsePacket E N response ps expected = Inr (jget response ''body'')"
    using seen by (auto simp: validateResponsePacket_def Let_def simp del: mapR.simps)
  moreover have "complains (?did deal) ?body \<longleftrightarrow> accept_deal E B N K ps dealers expected ml me deal \<noteq> Inr ()" if d: "deal \<in> set deals" for deal
  proof -
    have "distinct (map ?did deals)" unfolding ids(1) using ids(2) by (simp add: distinct_map inj_on_def)
    then have same: "d2 = deal" if "d2 \<in> set deals" "?did d2 = ?did deal" for d2
      using that d by (auto simp: distinct_map inj_on_def)
    obtain n where n: "?did deal = JStr n" "n \<noteq> []" using name [OF d] by blast
    have statuses: "set (statuses_of ?body) = ?status ` set deals" by (simp add: statuses_of_def response_body_def set)
    show ?thesis
    proof
      assume "complains (?did deal) ?body"
      then obtain d2 where d2: "d2 \<in> set deals" "strict_eq (?did d2) (?did deal)" "jget (?status d2) ''status'' = JBool False"
        using statuses did by (auto simp: complains_def)
      then have "d2 = deal" using same by (simp add: strict_eq_def)
      then show "accept_deal E B N K ps dealers expected ml me deal \<noteq> Inr ()" using d2(3)
        unfolding \<open>d2 = deal\<close> deal_status_fields(2) [OF n] by (simp only: json.inject not_True_eq_False simp_thms)
    next
      assume "accept_deal E B N K ps dealers expected ml me deal \<noteq> Inr ()"
      then have "jget (?status deal) ''status'' = JBool False" unfolding deal_status_fields(2) [OF n] by (simp only: simp_thms)
      moreover have "strict_eq (jget (?status deal) ''dealerId'') (?did deal)" using did [OF d] n by (simp add: strict_eq_def)
      ultimately show "complains (?did deal) ?body" using statuses d unfolding complains_def by blast
    qed
  qed
  ultimately show ?thesis using body by simp
qed

end
