(* ===== verification/Dkg_Sample.thy ===== *)
theory Dkg_Sample
  imports Dkg_Exchange
begin

section \<open>A concrete ceremony\<close>

text \<open>
  The laws of the ceremony's primitives can hold together, and a ceremony can run: three participants with
  threshold two over the sample groups, keys that are their own 32 bytes behind the type's prefix, a hash with one
  value, and a sealing that leaves the text as it is. The witnesses of the ceremony's theorems evaluate on it.
\<close>

subsection \<open>The primitives\<close>

definition dkg_ethers :: ethers where
  "dkg_ethers = sample_ethers\<lparr>keccak256 := \<lambda>_. sample_hex 32 1\<rparr>"

definition chars :: "bytes \<Rightarrow> string" where
  "chars = map (\<lambda>b. char_of (uint b))"

definition unchars :: "string \<Rightarrow> bytes" where
  "unchars = map (\<lambda>c. word_of_int (of_char c))"

definition sample_prefix :: "string \<Rightarrow> bytes" where
  "sample_prefix keytype = (if keytype = ''ed25519'' then ED25519_SPKI_PREFIX else X25519_SPKI_PREFIX)"

definition dkg_crypto :: "bytes crypto" where
  "dkg_crypto = \<lparr>createPrivateKey = Inr, publicOf = id, spki = id, pkcs8 = id,
     keyFromSeed = (\<lambda>keytype seed. sample_prefix keytype @ take 32 (seed @ replicate 32 0)),
     diffieHellman = (\<lambda>a b. Inr (map2 (+) a b)), hkdfSync = (\<lambda>a b c n. replicate n 0), sha256 = id,
     scryptSync = (\<lambda>p s n q. Inr []), gcm_seal = (\<lambda>k iv aad c. (c, replicate 16 0)), gcm_open = (\<lambda>k iv aad c t. Inr c),
     toBase64 = chars, fromBase64 = unchars, utf8 = unchars, fromUtf8 = chars,
     parseJson = (\<lambda>s. Inr (JObj [(''identityPrivateKey'', JStr (chars ED25519_SPKI_PREFIX @ s)),
       (''transportPrivateKey'', JStr (chars X25519_SPKI_PREFIX @ s)), (''thresholdShare'', JStr ''4''),
       (''thresholdManifestHash'', JNull), (''coefficients'', JArr [JStr ''1'', JStr ''1'']),
       (''dealHash'', JStr (sample_hex 32 1))])),
     fracBigInt = (\<lambda>s. Inl ''not whole''), localeOrder = (\<lambda>ks. Inr [0..<length ks])\<rparr>"

lemma dkg_getBytes: "getBytes dkg_ethers = sample_getBytes" "hexlify dkg_ethers = sample_hexlify"
  "isHexString dkg_ethers = isHexString sample_ethers"
  by (simp_all add: dkg_ethers_def sample_ethers_def)

lemma dkg_hex_codec: "hex_codec dkg_ethers"
  using sample_hex_codec by (simp add: hex_codec_def dkg_ethers_def)

text \<open>The value of a hexadecimal text.\<close>

definition hex_value :: "int \<Rightarrow> string \<Rightarrow> int" where
  "hex_value n s = foldl (\<lambda>n c. 16 * n + int (the (hexValue c))) n s"

lemma hex_value_simps [simp]: "hex_value n [] = n" "hex_value n (c # s) = hex_value (16 * n + int (the (hexValue c))) s"
  "hex_value n (s @ t) = hex_value (hex_value n s) t"
  by (simp_all add: hex_value_def)

definition hex_text :: "string \<Rightarrow> bool" where
  "hex_text s \<longleftrightarrow> (\<forall>c \<in> set s. \<exists>d < 16. hexValue c = Some d)"

lemma hexPairs_value:
  assumes "hex_text s" "even (length s)"
  shows "\<exists>b. hexPairs s = Inr b \<and> 2 * length b = length s \<and>
    (\<forall>n. foldl (\<lambda>n b. 256 * n + uint b) n b = hex_value n s)"
  using assms
proof (induction s rule: hexPairs.induct)
  case (3 c d s)
  obtain x y where xy: "hexValue c = Some x" "x < 16" "hexValue d = Some y" "y < 16"
    using "3.prems"(1) by (auto simp: hex_text_def)
  obtain b where b: "hexPairs s = Inr b" "2 * length b = length s" "\<forall>n. foldl (\<lambda>n b. 256 * n + uint b) n b = hex_value n s"
    using "3.IH" [OF refl xy(1,3)] "3.prems" by (auto simp: hex_text_def)
  have "16 * x + y < 2 ^ 8" using xy(2,4) by simp
  then have "uint (of_nat (16 * x + y) :: byte) = int (16 * x + y)"
    by (simp only: unsigned_of_nat) (simp add: take_bit_nat_eq_self_iff del: of_nat_add of_nat_mult)
  then show ?case using xy b by (simp add: algebra_simps)
qed (auto simp: hex_text_def)

lemma lowerHex_value: "n < 16 \<Longrightarrow> hexValue (lowerHex n) = Some n"
  by (auto simp: hexValue_def lowerHex_def Let_def)

lemma hex_digits_value: "hex_text (hex_digits n) \<and> hex_value 0 (hex_digits n) = int n"
proof (induction n rule: hex_digits.induct)
  case (1 n)
  show ?case
  proof (cases "n < 16")
    case True
    then show ?thesis using lowerHex_value [of n] by (simp add: hex_digits.simps [of n] hex_text_def)
  next
    case False
    have d: "hexValue (lowerHex (n mod 16)) = Some (n mod 16)" by (rule lowerHex_value) simp
    have "16 * int (n div 16) + int (n mod 16) = int n"
      using mult_div_mod_eq [of 16 n] by (metis of_nat_add of_nat_mult of_nat_numeral)
    then show ?thesis using "1.IH" [OF False] d False
      by (auto simp: hex_digits.simps [of n] hex_text_def simp del: of_nat_mod of_nat_div) 
  qed
qed

lemma length_hex_digits: "n < 16 ^ k \<Longrightarrow> 0 < k \<Longrightarrow> length (hex_digits n) \<le> k"
proof (induction k arbitrary: n)
  case (Suc k)
  show ?case
  proof (cases "n < 16")
    case True
    then show ?thesis by (simp add: hex_digits.simps [of n])
  next
    case False
    then have "0 < k" using Suc.prems(1) by (cases k) auto
    moreover have "n div 16 < 16 ^ k" using Suc.prems(1) by (simp add: less_mult_imp_div_less)
    ultimately show ?thesis using Suc.IH [of "n div 16"] False by (simp add: hex_digits.simps [of n])
  qed
qed simp

lemma padded_digits:
  assumes "n < 256 ^ 32"
  shows "\<exists>b. sample_getBytes (''0x'' @ padStart (hex_digits n) 64) = Inr b \<and> length b = 32 \<and> bytes_int b = int n"
proof -
  have zero: "hexValue (CHR ''0'') = Some 0" by code_simp
  have "hex_value 0 (replicate k (CHR ''0'')) = 0" for k by (induction k) (simp_all add: zero)
  moreover have "hex_text (replicate k (CHR ''0''))" for k using zero by (auto simp: hex_text_def)
  moreover have "(256 :: nat) ^ 32 = 16 ^ 64" by simp
  then have "length (hex_digits n) \<le> 64" using assms length_hex_digits [of n 64] by simp
  ultimately have "hex_text (padStart (hex_digits n) 64)" "hex_value 0 (padStart (hex_digits n) 64) = int n"
      "length (padStart (hex_digits n) 64) = 64"
    using hex_digits_value [of n] by (auto simp: padStart_def hex_text_def zero)
  then show ?thesis
    using hexPairs_value [of "padStart (hex_digits n) 64"] by (auto simp: sample_getBytes_def bytes_int_def)
qed

lemma dkg_hex_laws: "hex_laws dkg_ethers"
  unfolding hex_laws_def
proof (intro conjI allI impI)
  show "toLowerCase (hexlify dkg_ethers b) = hexlify dkg_ethers b" for b
    by (simp add: dkg_getBytes sample_hexlify_lower)
  show "isHexString dkg_ethers (hexlify dkg_ethers b) (length b)" for b
    by (simp add: dkg_getBytes sample_ethers_def sample_getBytes_hexlify length_sample_hexlify)
  show "\<exists>b. getBytes dkg_ethers (''0x'' @ padStart (hex_digits n) 64) = Inr b \<and> length b = 32 \<and> bytes_int b = int n"
    if "n < 256 ^ 32" for n using padded_digits [OF that] by (simp add: dkg_getBytes)
qed (rule dkg_hex_codec)

lemma dkg_key_laws: "key_laws sample_node dkg_crypto"
proof -
  have "map2 (+) a b = map2 (+) b a" for a b :: bytes
    by (subst zip_commute) (simp add: case_prod_beta add.commute)
  then show ?thesis by (simp add: key_laws_def dkg_crypto_def sample_node_def sample_prefix_def min_def)
qed

lemma dkg_gcm_laws: "gcm_laws dkg_crypto"
  by (simp add: gcm_laws_def dkg_crypto_def)

lemma dkg_signature_laws: "signature_laws sample_node dkg_crypto"
  by (simp add: signature_laws_def dkg_crypto_def sample_node_def sample_prefix_def min_def)

lemma sample_zero_multiple: "zero_multiple (G2 sample_bls) sample_ex"
  by (simp add: zero_multiple_def sample_bls_def sample_group_def)

subsection \<open>The participants\<close>

definition dkg_member :: "nat \<Rightarrow> string \<Rightarrow> json" where
  "dkg_member k name = JObj [(''id'', JStr name), (''index'', JInt (int k)),
     (''identityPublicKey'', JStr (sample_hex 32 k)), (''transportPublicKey'', JStr (sample_hex 32 k)), (''endpoint'', JStr name)]"

definition dkg_members :: "json list" where
  "dkg_members = [dkg_member 1 ''aa'', dkg_member 2 ''bb'', dkg_member 3 ''cc'']"

definition dkg_session :: session where
  "dkg_session = \<lparr>se_ceremony = ''dkg'', se_sessionId = JStr (sample_hex 32 1), se_epoch = JInt 1, se_threshold = JInt 2,
     se_roster = JArr dkg_members, se_dealerRoster = JUndefined, se_previousManifest = JUndefined,
     se_previousManifestHash = JNull, se_selectedDealerIds = []\<rparr>"

definition dkg_keystore :: "nat \<Rightarrow> string \<Rightarrow> json" where
  "dkg_keystore k name = JObj [(''format'', JStr DKG_KEYSTORE_FORMAT), (''participantId'', JStr name),
     (''identityPublicKey'', JStr (sample_hex 32 k)), (''transportPublicKey'', JStr (sample_hex 32 k)),
     (''crypto'', JObj [(''cipher'', JStr ''aes-256-gcm''), (''kdf'', JStr ''scrypt''), (''ciphertext'', JStr (sample_hex 32 k)),
        (''iv'', JStr (sample_hex 12 1)), (''tag'', JStr (sample_hex 16 1)),
        (''kdfparams'', JObj [(''N'', JInt 1024), (''r'', JInt 1), (''p'', JInt 1), (''salt'', JStr (sample_hex 16 1))])])]"

text \<open>The numbers written in hexadecimal by \<open>sample_hex\<close>.\<close>

definition low_byte :: "nat \<Rightarrow> nat \<Rightarrow> bytes" where
  "low_byte n k = replicate (n - 1) 0 @ [of_nat k]"

lemma length_low_byte [simp]: "0 < n \<Longrightarrow> length (low_byte n k) = n"
  by (simp add: low_byte_def)

lemma hexPairs_zeros: "hexPairs (concat (replicate m ''00'') @ t) = bindR (hexPairs t) (\<lambda>b. Inr (replicate m 0 @ b))"
proof (induction m)
  case (Suc m)
  have "hexValue (CHR ''0'') = Some 0" by code_simp
  then show ?case using Suc by (simp add: bindR_assoc)
qed simp

lemma small_digit: "k < 10 \<Longrightarrow> digits_nat k = [char_of (48 + k)]"
  by (simp add: digits_nat.simps [of k])

lemma small_hex:
  assumes "k < 10" "0 < n"
  shows "getBytes dkg_ethers (sample_hex n k) = Inr (low_byte n k)"
    "fixedHex dkg_ethers (JStr (sample_hex n k)) n name = Inr (sample_hex n k)"
proof -
  have z: "hexValue (CHR ''0'') = Some 0" by code_simp
  have d: "hexValue (char_of (48 + k)) = Some k" using assms(1) by (auto simp: hexValue_def Let_def)
  show b: "getBytes dkg_ethers (sample_hex n k) = Inr (low_byte n k)"
    using assms z d by (simp add: dkg_getBytes sample_getBytes_def sample_hex_def hexPairs_zeros small_digit low_byte_def)
  have "length (concat (replicate m ''00'')) = 2 * m" for m by (induction m) simp_all
  then have "isHexString dkg_ethers (sample_hex n k) n"
    using b assms by (simp add: dkg_getBytes sample_ethers_def sample_hex_def small_digit)
  moreover have "toLowerChar (CHR ''0'') = CHR ''0''" "toLowerChar (CHR ''x'') = CHR ''x''" by code_simp+
  then have "map toLowerChar (concat (replicate m ''00'')) = concat (replicate m ''00'')" for m by (induction m) simp_all
  then have "toLowerCase (sample_hex n k) = sample_hex n k"
    using assms(1) \<open>toLowerChar (CHR ''0'') = CHR ''0''\<close> \<open>toLowerChar (CHR ''x'') = CHR ''x''\<close>
    by (simp add: toLowerCase_def sample_hex_def small_digit) (auto simp: toLowerChar_def Let_def)
  ultimately show "fixedHex dkg_ethers (JStr (sample_hex n k)) n name = Inr (sample_hex n k)"
    by (simp add: fixedHex_def)
qed

definition dkg_secret :: "nat \<Rightarrow> json" where
  "dkg_secret k = JObj [(''identityPrivateKey'', JStr (chars ED25519_SPKI_PREFIX @ chars (low_byte 32 k))),
     (''transportPrivateKey'', JStr (chars X25519_SPKI_PREFIX @ chars (low_byte 32 k))), (''thresholdShare'', JStr ''4''),
     (''thresholdManifestHash'', JNull), (''coefficients'', JArr [JStr ''1'', JStr ''1'']),
     (''dealHash'', JStr (sample_hex 32 1))]"

definition dkg_loaded :: "nat \<Rightarrow> bytes loaded" where
  "dkg_loaded k = \<lparr>ld_secret = dkg_secret k,
     ld_identityPrivateKey = keyFromSeed dkg_crypto ''ed25519'' (low_byte 32 k),
     ld_transportPrivateKey = keyFromSeed dkg_crypto ''x25519'' (low_byte 32 k)\<rparr>"

lemma unchars_chars: "unchars (chars b) = b"
proof -
  have "uint x mod 256 = uint x" for x :: byte
    using uint_bounded [of x] by simp
  then have "word_of_int (of_char (char_of (uint x)) :: int) = x" for x :: byte by (simp add: of_char_of)
  then show ?thesis by (simp add: unchars_def chars_def comp_def map_idI)
qed

lemma chars_append: "chars (a @ b) = chars a @ chars b"
  by (simp add: chars_def)

lemma from64: "fromBase64 dkg_crypto = unchars"
  by (simp add: dkg_crypto_def)

lemma small_hexlify:
  assumes "k < 10" shows "hexlify dkg_ethers (low_byte n k) = sample_hex n k"
proof -
  have "hexByte 0 = ''00''" and char_0: "char_of (48 :: nat) = CHR ''0''" by code_simp+
  then have "concat (map hexByte (replicate m 0)) = concat (replicate m ''00'')" for m by (induction m) simp_all
  moreover have "unat (of_nat k :: byte) = k" using assms by (simp add: unat_of_nat)
  then have "hexByte (of_nat k) = ''0'' @ digits_nat k"
    using assms char_0 by (simp add: hexByte_def hexDigit_def small_digit)
  ultimately show ?thesis by (simp add: dkg_getBytes sample_hexlify_def low_byte_def sample_hex_def)
qed

lemma dkg_roster_valid: "validateRoster dkg_ethers (JArr dkg_members) (JInt 2) = Inr dkg_members"
  by code_simp

text \<open>The public key that a roster and a keystore carry for the seed \<open>low_byte 32 k\<close>.\<close>

lemma dkg_seed_key:
  assumes "k < 10"
  shows "rawPublicKey dkg_ethers dkg_crypto (publicOf dkg_crypto (sample_prefix t @ low_byte 32 k)) = sample_hex 32 k"
    "keyFromSeed dkg_crypto t (low_byte 32 k) = sample_prefix t @ low_byte 32 k"
  using small_hexlify [OF assms, of 32]
  by (simp_all add: rawPublicKey_def dkg_crypto_def sample_prefix_def ED25519_SPKI_PREFIX_def X25519_SPKI_PREFIX_def)

lemma dkg_payload:
  assumes "k < 10" "password \<noteq> []"
  shows "decryptPayload dkg_ethers dkg_crypto (jget (dkg_keystore k name) ''crypto'') password = Inr (dkg_secret k)"
  using assms
  by (simp add: dkg_keystore_def decryptPayload_def Let_def small_hex kdf_integer_def isSafeInteger_def json_bytes_def)
    (simp add: dkg_crypto_def dkg_secret_def)

lemma dkg_keystore_loads:
  assumes "k < 10" "password \<noteq> []"
  shows "loadKeystore dkg_ethers dkg_crypto (dkg_keystore k name) password = Inr (dkg_loaded k)"
proof -
  note key = dkg_seed_key(1) [OF assms(1)] and seed = dkg_seed_key(2) [OF assms(1)]
  have lower: "toLowerCase (sample_hex 32 k) = sample_hex 32 k"
    using small_hex(2) [OF assms(1), of 32 "[]"] by (simp add: fixedHex_def split: if_splits)
  note payload = dkg_payload [OF assms]
  have der: "base64_field dkg_crypto (dkg_secret k) ''identityPrivateKey'' = Inr (sample_prefix ''ed25519'' @ low_byte 32 k)"
    "base64_field dkg_crypto (dkg_secret k) ''transportPrivateKey'' = Inr (sample_prefix ''x25519'' @ low_byte 32 k)"
    using unchars_chars [of "ED25519_SPKI_PREFIX @ low_byte 32 k"] unchars_chars [of "X25519_SPKI_PREFIX @ low_byte 32 k"]
    by (simp_all add: base64_field_def jprop_def dkg_secret_def sample_prefix_def from64 chars_append)
  have priv: "createPrivateKey dkg_crypto = Inr" by (simp add: dkg_crypto_def)
  show ?thesis
    using assms(1)
    by (simp add: loadKeystore_def payload der priv key lower dkg_loaded_def seed)
      (simp add: dkg_keystore_def small_hex key lower)
qed

subsection \<open>The messages\<close>

text \<open>
  The first dealer's polynomial is \<open>1 + x\<close>, the second's is \<open>2 + 2 x\<close>; both recipients accept both deals. The
  participants' shares of the sum \<open>3 + 3 x\<close> are 6, 2 and 5 modulo 7.
\<close>

definition dkg_key :: "int \<Rightarrow> string" where
  "dkg_key c = wireHex dkg_ethers (G2 sample_bls) (sample_ex c)"

definition dkg_envelope :: "string \<Rightarrow> nat \<Rightarrow> json" where
  "dkg_envelope name x = JObj [(''recipientId'', JStr name), (''envelope'', JObj [(''ephemeralPublicKey'', JStr (sample_hex 32 1)),
     (''iv'', JStr (sample_hex 12 1)), (''tag'', JStr (sample_hex 16 1)), (''ciphertext'', JStr (sample_hex 32 x))])]"

definition dkg_deal :: "nat \<Rightarrow> string \<Rightarrow> int \<Rightarrow> int \<Rightarrow> nat \<Rightarrow> nat \<Rightarrow> nat \<Rightarrow> json" where
  "dkg_deal k name c d x y z = JObj [(''body'', JObj [(''format'', JStr DKG_PACKET_FORMAT), (''type'', JStr ''deal''),
      (''ceremony'', JStr ''dkg''), (''sessionId'', JStr (sample_hex 32 1)), (''epoch'', JInt 1), (''threshold'', JInt 2),
      (''dealerId'', JStr name), (''dealerIndex'', JInt (int k)), (''previousManifestHash'', JNull),
      (''selectedDealerIds'', JArr []), (''commitments'', JArr [JStr (dkg_key c), JStr (dkg_key d)]),
      (''encryptedShares'', JArr [dkg_envelope ''aa'' x, dkg_envelope ''bb'' y, dkg_envelope ''cc'' z])]),
     (''signature'', JStr (sample_hex 64 1))]"

definition dkg_status :: "string \<Rightarrow> bool \<Rightarrow> json" where
  "dkg_status name b = JObj [(''dealerId'', JStr name), (''status'', JBool b), (''reason'', JStr ''accepted'')]"

definition dkg_response :: "nat \<Rightarrow> string \<Rightarrow> bool \<Rightarrow> bool \<Rightarrow> json" where
  "dkg_response k name a b = JObj [(''body'', JObj [(''format'', JStr DKG_PACKET_FORMAT), (''type'', JStr ''response''),
      (''ceremony'', JStr ''dkg''), (''sessionId'', JStr (sample_hex 32 1)), (''epoch'', JInt 1), (''threshold'', JInt 2),
      (''recipientId'', JStr name), (''recipientIndex'', JInt (int k)),
      (''statuses'', JArr [dkg_status ''aa'' a, dkg_status ''bb'' b])]),
     (''signature'', JStr (sample_hex 64 1))]"

definition dkg_deals :: "json list" where
  "dkg_deals = [dkg_deal 1 ''aa'' 1 1 2 3 4, dkg_deal 2 ''bb'' 2 2 4 6 1]"

definition dkg_responses :: "json list" where
  "dkg_responses = [dkg_response 1 ''aa'' True True, dkg_response 2 ''bb'' True True]"

definition dkg_expected :: fields where
  "dkg_expected = [(''ceremony'', JStr ''dkg''), (''sessionId'', JStr (sample_hex 32 1)), (''epoch'', JInt 1),
     (''threshold'', JInt 2), (''previousManifestHash'', JNull), (''selectedDealerIds'', JArr [])]"

lemma dkg_expected_fields: "expected_fields dkg_ethers dkg_session = Inr dkg_expected"
  by (simp add: expected_fields_def dkg_session_def small_hex previous_hash_def dkg_expected_def selected_json_def)

lemma dkg_packetHash: "has_text v \<Longrightarrow> packetHash dkg_ethers v = Inr (sample_hex 32 1)"
  using canonicalJson_total [of v] by (auto simp: packetHash_def dkg_ethers_def)

lemma dkg_verifies:
  assumes "has_text body" "truthy body" "k < 10"
    "jget packet ''body'' = body" "jget packet ''signature'' = JStr (sample_hex 64 1)"
  shows "verifyPacket dkg_ethers sample_node packet (dkg_member k name) = Inr True"
  using assms
  by (simp add: verifyPacket_def dkg_packetHash small_hex publicKeyFromRaw_def dkg_member_def)
    (simp add: sample_node_def)

lemma dkg_commitment: "commitment_point dkg_ethers sample_bls (JStr (dkg_key c)) name = Inr (sample_ex c)"
  using commits_wireHex [OF dkg_hex_codec sample_bls_laws] by (simp add: commits_def dkg_key_def)

lemma dkg_find: "find_by ''id'' (JStr ''aa'') dkg_members = Inr (Some (dkg_member 1 ''aa''))"
  "find_by ''id'' (JStr ''bb'') dkg_members = Inr (Some (dkg_member 2 ''bb''))"
  by (simp_all add: dkg_members_def dkg_member_def jprop_def strict_eq_def)

lemma dkg_deal_text: "k < 10 \<Longrightarrow> has_text (jget (dkg_deal k name c d x y z) ''body'')"
  by (simp add: dkg_deal_def dkg_envelope_def isSafeInteger_def)

lemma dkg_response_text: "k < 10 \<Longrightarrow> has_text (jget (dkg_response k name a b) ''body'')"
  by (simp add: dkg_response_def dkg_status_def isSafeInteger_def)

lemma dkg_ids_text: "same_text (JArr (js_sort [JStr ''aa'', JStr ''bb'', JStr ''cc''])) (JArr (js_sort [JStr ''aa'', JStr ''bb'', JStr ''cc''])) = Inr True"
  by (intro same_text_refl canonicalJson_array) (simp add: js_sort_set)

lemma dkg_deal_valid:
  assumes "k < 10" "find_by ''id'' (JStr name) dkg_members = Inr (Some (dkg_member k name))" "sample_ex d \<noteq> 0"
  shows "validateDealPacket dkg_ethers sample_bls sample_node (dkg_deal k name c d x y z) dkg_members dkg_members dkg_expected =
    Inr (dkg_member k name)"
proof -
  let ?p = "dkg_deal k name c d x y z"
  let ?b = "jget ?p ''body''"
  have ver: "verifyPacket dkg_ethers sample_node ?p (dkg_member k name) = Inr True"
    using assms(1) by (intro dkg_verifies [OF dkg_deal_text [OF assms(1)]]) (simp_all add: dkg_deal_def)
  have signer: "deal_signer dkg_ethers sample_node ?p dkg_members = Inr (dkg_member k name)"
    using ver assms(2) by (simp add: deal_signer_def Let_def) (simp add: dkg_deal_def dkg_member_def)
  have "ZERO (G2 sample_bls) = 0" by (simp add: sample_bls_def sample_group_def)
  then have com: "deal_commitments dkg_ethers sample_bls ?b dkg_expected = Inr [JStr (dkg_key c), JStr (dkg_key d)]"
    using assms(3) by (simp add: deal_commitments_def Let_def dkg_deal_def dkg_expected_def field_Cons dkg_commitment)
  have "map (\<lambda>item. jget item ''id'') dkg_members = [JStr ''aa'', JStr ''bb'', JStr ''cc'']"
    by (simp add: dkg_members_def dkg_member_def)
  then have "deal_shares ?b dkg_members = Inr [dkg_envelope ''aa'' x, dkg_envelope ''bb'' y, dkg_envelope ''cc'' z]"
    using dkg_ids_text
    by (simp add: deal_shares_def Let_def dkg_deal_def) (simp add: dkg_envelope_def jprop_def set_size_def dkg_members_def)
  moreover have "mapR (wrong_field ''deal'' ?b dkg_expected) [''ceremony'', ''sessionId'', ''epoch'', ''threshold''] = Inr [(), (), (), ()]"
    by (simp add: wrong_field_def dkg_deal_def dkg_expected_def field_Cons)
  moreover have "mapR (wrong_text ''deal'' ?b dkg_expected) [''previousManifestHash'', ''selectedDealerIds''] = Inr [(), ()]"
    by (simp add: wrong_text_def same_text_def dkg_deal_def dkg_expected_def field_Cons)
  moreover have "jget ?b ''format'' = JStr DKG_PACKET_FORMAT" "jget ?b ''type'' = JStr ''deal''"
    by (simp_all add: dkg_deal_def)
  ultimately show ?thesis using signer com by (simp add: validateDealPacket_def Let_def del: mapR.simps)
qed

lemma dkg_response_valid:
  assumes "k < 10" "find_by ''id'' (JStr name) dkg_members = Inr (Some (dkg_member k name))"
  shows "validateResponsePacket dkg_ethers sample_node (dkg_response k name a b) dkg_members dkg_expected =
    Inr (jget (dkg_response k name a b) ''body'')"
proof -
  let ?p = "dkg_response k name a b"
  have "verifyPacket dkg_ethers sample_node ?p (dkg_member k name) = Inr True"
    using assms(1) by (intro dkg_verifies [OF dkg_response_text [OF assms(1)]]) (simp_all add: dkg_response_def)
  then have signer: "packet_signer dkg_ethers sample_node ?p dkg_members = Inr (dkg_member k name)"
    using assms(2) by (simp add: packet_signer_def Let_def) (simp add: dkg_response_def dkg_member_def)
  show ?thesis
    by (simp add: validateResponsePacket_def Let_def signer)
      (simp add: dkg_response_def dkg_expected_def field_Cons strict_field_def strict_eq_def as_array_def check_status_def
        dkg_status_def)
qed

text \<open>Opening an envelope gives the number in its ciphertext.\<close>

lemma dkg_decrypt:
  assumes "x < 10"
  shows "decryptShare dkg_ethers sample_node dkg_crypto (jget (dkg_envelope name x) ''envelope'') key aad = Inr (int x)"
proof -
  have "foldl (\<lambda>n b. 256 * n + uint b) 0 (replicate m (0 :: byte)) = 0" for m by (induction m) simp_all
  moreover have "uint (of_nat x :: byte) = int x" using assms by (simp add: uint_nat unat_of_nat)
  ultimately have "bytes_int (low_byte 32 x) = int x" by (simp add: bytes_int_def low_byte_def)
  moreover have "gcm_open dkg_crypto k iv aad c t = Inr c" "diffieHellman dkg_crypto u v = Inr (map2 (+) u v)" for k iv aad c t u v
    by (simp_all add: dkg_crypto_def)
  moreover have "createPublicKey sample_node k = Inr k" for k by (simp add: sample_node_def)
  ultimately show ?thesis
    using assms by (simp add: decryptShare_def dkg_envelope_def jprop_def publicKeyFromRaw_def small_hex)
qed

subsection \<open>The run\<close>

lemma dkg_share_matches:
  assumes "0 < x" "x < 7" "0 < i" "i < 7" "eqm 7 (int x) (c + i * d)"
  shows "shareMatchesCommitments dkg_ethers sample_bls (int x) [JStr (dkg_key c), JStr (dkg_key d)] i = Inr True"
  using assms commits_wireHex [OF dkg_hex_codec sample_bls_laws]
  by (intro shareMatchesCommitments_complete [OF sample_bls_laws, where cs = "[c, d]"])
    (simp_all add: dkg_key_def sample_bls_def)

lemma dkg_shares_text: "\<exists>aad. shareAssociatedData K (jget (dkg_deal k name c d x y z) ''body'') (JStr who) = Inr aad" if "k < 10"
proof -
  have "has_text (JObj (map (\<lambda>l. (l, jget (jget (dkg_deal k name c d x y z) ''body'') l)) associated_fields @ [(''recipientId'', JStr who)]))"
    using that by (simp add: dkg_deal_def associated_fields_def isSafeInteger_def)
  from canonicalJson_total [OF this] show ?thesis
    by (simp only: shareAssociatedData_def) auto
qed

definition dkg_row :: "nat \<Rightarrow> string \<Rightarrow> nat \<Rightarrow> nat \<Rightarrow> bool" where
  "dkg_row k name x y \<longleftrightarrow> (k, name, x, y) \<in> {(1, ''aa'', 2, 4), (2, ''bb'', 3, 6)}"

lemma dkg_row_cases: "dkg_row k name x y \<Longrightarrow> (k = 1 \<and> name = ''aa'' \<and> x = 2 \<and> y = 4) \<or> (k = 2 \<and> name = ''bb'' \<and> x = 3 \<and> y = 6)"
  by (auto simp: dkg_row_def)

lemma dkg_open:
  assumes "dkg_row k name x y"
  shows "open_share dkg_ethers sample_bls sample_node dkg_crypto loaded (dkg_member k name) (jget (dkg_deal 1 ''aa'' 1 1 2 3 4) ''body'') = Inr (int x)"
    "open_share dkg_ethers sample_bls sample_node dkg_crypto loaded (dkg_member k name) (jget (dkg_deal 2 ''bb'' 2 2 4 6 1) ''body'') = Inr (int y)"
proof -
  have row: "name = ''aa'' \<and> k = 1 \<or> name = ''bb'' \<and> k = 2" using dkg_row_cases [OF assms] by auto
  have eval: "open_share dkg_ethers sample_bls sample_node dkg_crypto loaded (dkg_member k name) (jget (dkg_deal j dealer c d a b e) ''body'') = Inr (int v)"
    if f: "find_by ''recipientId'' (JStr name) [dkg_envelope ''aa'' a, dkg_envelope ''bb'' b, dkg_envelope ''cc'' e] = Inr (Some (dkg_envelope name v))"
      and v: "0 < v" "v < 7" "eqm 7 (int v) (c + int k * d)" and j: "j < 10" for j dealer c d a b e v
  proof -
    obtain aad where aad: "shareAssociatedData dkg_crypto (jget (dkg_deal j dealer c d a b e) ''body'') (JStr name) = Inr aad"
      using dkg_shares_text [OF j] by blast
    have m: "jget (dkg_member k name) ''id'' = JStr name" "index_of (dkg_member k name) = int k"
      by (simp_all add: dkg_member_def index_of_def)
    have e: "jget (jget (dkg_deal j dealer c d a b e) ''body'') ''encryptedShares'' =
        JArr [dkg_envelope ''aa'' a, dkg_envelope ''bb'' b, dkg_envelope ''cc'' e]"
      "jget (jget (dkg_deal j dealer c d a b e) ''body'') ''commitments'' = JArr [JStr (dkg_key c), JStr (dkg_key d)]"
      by (simp_all add: dkg_deal_def)
    have i: "0 < int k" "int k < 7" using row by auto
    have dec: "decryptShare dkg_ethers sample_node dkg_crypto (jget (dkg_envelope name v) ''envelope'') (ld_transportPrivateKey loaded) aad = Inr (int v)"
      using v by (intro dkg_decrypt) simp
    have "jprop (dkg_envelope name v) ''envelope'' = Inr (jget (dkg_envelope name v) ''envelope'')"
      by (simp add: jprop_def dkg_envelope_def)
    then show ?thesis
      using aad dec dkg_share_matches [OF v(1,2) i v(3)] by (simp add: open_share_def m e f as_array_def del: find_by.simps)
  qed
  show "open_share dkg_ethers sample_bls sample_node dkg_crypto loaded (dkg_member k name) (jget (dkg_deal 1 ''aa'' 1 1 2 3 4) ''body'') = Inr (int x)"
    using dkg_row_cases [OF assms]
    by (intro eval) (auto simp: dkg_envelope_def jprop_def strict_eq_def eqm_def)
  show "open_share dkg_ethers sample_bls sample_node dkg_crypto loaded (dkg_member k name) (jget (dkg_deal 2 ''bb'' 2 2 4 6 1) ''body'') = Inr (int y)"
    using dkg_row_cases [OF assms]
    by (intro eval) (auto simp: dkg_envelope_def jprop_def strict_eq_def eqm_def)
qed

lemma dkg_private_share:
  assumes "dkg_row k name x y"
  shows "private_share dkg_ethers sample_bls sample_node dkg_crypto loaded [] (dkg_member k name) dkg_deals = Inr (int ((x + y) mod 7))"
proof -
  have r: "params_r sample_bls = 7" by (simp add: sample_bls_def)
  have "(int x smod 7 + int y) smod 7 = int ((x + y) mod 7)" "(x + y) mod 7 \<noteq> 0"
    using dkg_row_cases [OF assms] by (auto simp: smod_nonneg)
  then show ?thesis
    by (simp add: private_share_def dkg_deals_def contribution_def Let_def dkg_open [OF assms] r del: One_nat_def)
qed

lemma dkg_aggregate: "aggregateCommitments dkg_ethers sample_bls dkg_deals 2 = Inr [dkg_key 3, dkg_key 3]"
proof -
  have "deal_commits dkg_ethers sample_bls sample_ex 2 (dkg_deal k name c d x y z) [c, d]" for k name c d x y z
    using commits_wireHex [OF dkg_hex_codec sample_bls_laws] by (auto simp: deal_commits_def dkg_deal_def dkg_key_def)
  then have "\<forall>p \<in> set dkg_deals. deal_commits dkg_ethers sample_bls sample_ex 2 p
      (if p = dkg_deal 1 ''aa'' 1 1 2 3 4 then [1, 1] else [2, 2])"
    by (auto simp: dkg_deals_def)
  from aggregateCommitments_value [OF sample_bls_laws this] show ?thesis
    by (simp add: dkg_deals_def dkg_deal_def upt_rec dkg_key_def)
qed

lemma dkg_agree:
  "agree_on_deals dkg_ethers sample_bls sample_node dkg_crypto dkg_session dkg_members dkg_members dkg_expected dkg_deals
     dkg_responses [] = Inr (dkg_deals, [])"
proof -
  let ?a = "dkg_deal 1 ''aa'' 1 1 2 3 4" and ?b = "dkg_deal 2 ''bb'' 2 2 4 6 1"
  let ?rs = "[jget (dkg_response 1 ''aa'' True True) ''body'', jget (dkg_response 2 ''bb'' True True) ''body'']"
  have rid: "jget (jget (dkg_response k name a b) ''body'') ''recipientId'' = JStr name" for k name a b
    by (simp add: dkg_response_def)
  have responses: "foldR (collect_response dkg_ethers sample_node dkg_members dkg_expected) [] dkg_responses = Inr ?rs"
    using dkg_response_valid [of 1 "''aa''"] dkg_response_valid [of 2 "''bb''"] dkg_find
    by (simp add: dkg_responses_def collect_response_def rid del: One_nat_def)
  have did: "jget (jget (dkg_deal k name c d x y z) ''body'') ''dealerId'' = JStr name" for k name c d x y z
    by (simp add: dkg_deal_def)
  have mid: "jget (dkg_member k name) ''id'' = JStr name" for k name by (simp add: dkg_member_def)
  have reshare: "se_ceremony dkg_session = ''dkg''" by (simp add: dkg_session_def)
  have "sample_ex 1 \<noteq> 0" "sample_ex 2 \<noteq> 0" by (simp_all add: sample_ex_def)
  then have deals: "foldR (finalize_deal dkg_ethers sample_bls sample_node dkg_crypto dkg_session dkg_members dkg_members dkg_expected ?rs [])
      ([], []) dkg_deals = Inr (dkg_deals, [])"
    using dkg_deal_valid [of 1 "''aa''" 1] dkg_deal_valid [of 2 "''bb''" 2] dkg_find
    by (simp add: dkg_deals_def finalize_deal_def did mid Let_def reshare strict_eq_def del: One_nat_def)
  have sorted: "js_sort [JStr ''aa'', JStr ''bb''] = [JStr ''aa'', JStr ''bb'']" by code_simp
  have ids: "deal_ids dkg_deals = [JStr ''aa'', JStr ''bb'']"
    using sorted by (simp add: deal_ids_def dkg_deals_def did)
  have st: "statuses_of (jget (dkg_response k name a b) ''body'') = [dkg_status ''aa'' a, dkg_status ''bb'' b]" for k name a b
    by (simp add: statuses_of_def dkg_response_def)
  have sid: "jget (dkg_status name a) ''dealerId'' = JStr name" "jget (dkg_status name a) ''status'' = JBool a" for name a
    by (simp_all add: dkg_status_def)
  have "same_text (JArr [JStr ''aa'', JStr ''bb'']) (JArr [JStr ''aa'', JStr ''bb'']) = Inr True"
    by (intro same_text_refl canonicalJson_array) simp
  then have cover: "mapR (check_coverage (deal_ids dkg_deals)) ?rs = Inr [(), ()]"
    by (simp add: check_coverage_def ids st sid sorted)
  have "qualifies 2 ?rs [] ?a" "qualifies 2 ?rs [] ?b"
    by (simp_all add: qualifies_def Let_def evaluations_def did st sid rid strict_eq_def complaints_of_def del: One_nat_def)
  then have qual: "filter (qualifies 2 ?rs []) dkg_deals = dkg_deals" by (simp add: dkg_deals_def del: One_nat_def)
  have "check_qualified dkg_crypto dkg_session 2 dkg_deals = Inr ()"
    by (simp add: check_qualified_def reshare dkg_deals_def)
  moreover have "field dkg_expected ''threshold'' = JInt 2" by (simp add: dkg_expected_def field_Cons)
  moreover have "foldR collect_resolution [] [] = Inr []" by simp
  ultimately show ?thesis
    by (simp add: agree_on_deals_def responses deals cover qual Let_def del: mapR.simps foldR.simps One_nat_def)
qed

lemma dkg_transcript: "\<exists>tr. ceremony_transcript dkg_crypto dkg_session dkg_expected dkg_deals dkg_deals dkg_responses [] = Inr tr \<and>
    packetHash dkg_ethers tr = Inr (sample_hex 32 1)"
proof -
  have order: "sort_locale dkg_crypto ks items = Inr items" if "length ks = length items" for ks items
    using that by (simp add: sort_locale_def dkg_crypto_def map_nth)
  have "has_text (dkg_deal k name c d x y z)" if "k < 10" for k name c d x y z
    using that by (simp add: dkg_deal_def dkg_envelope_def isSafeInteger_def)
  moreover have "has_text (dkg_response k name a b)" if "k < 10" for k name a b
    using that by (simp add: dkg_response_def dkg_status_def isSafeInteger_def)
  ultimately have texts: "\<forall>p \<in> set dkg_deals. has_text p" "\<forall>p \<in> set dkg_responses. has_text p"
    by (simp_all add: dkg_deals_def dkg_responses_def del: One_nat_def)
  have "\<forall>v \<in> set (deal_ids dkg_deals). has_text v"
    by (simp add: deal_ids_def js_sort_set dkg_deals_def dkg_deal_def)
  then have "has_text (JObj [(''format'', JStr DKG_PACKET_FORMAT), (''ceremony'', JStr (se_ceremony dkg_session)),
       (''sessionId'', field dkg_expected ''sessionId''), (''epoch'', se_epoch dkg_session), (''threshold'', se_threshold dkg_session),
       (''qualifiedDealerIds'', JArr (deal_ids dkg_deals)), (''deals'', JArr dkg_deals),
       (''responses'', JArr dkg_responses), (''resolutions'', JArr [])])"
    using texts by (simp add: dkg_session_def dkg_expected_def field_Cons isSafeInteger_def)
  from dkg_packetHash [OF this] show ?thesis by (simp add: ceremony_transcript_def order)
qed

lemma dkg_finalizes:
  assumes "dkg_row k name x y"
  shows "\<exists>s' fin ks' tr. finalizeCeremony dkg_ethers sample_bls sample_node dkg_crypto dkg_session (dkg_keystore k name) ''pw''
     dkg_deals dkg_responses [] 1024 (replicate 28 0) = (s', Inr (fin, ks', tr)) \<and>
     jget fin ''participantIndex'' = JInt (int k) \<and> jget fin ''groupPublicKey'' = JStr (dkg_key 3)"
proof -
  have k: "k < 10" using dkg_row_cases [OF assms] by auto
  have "dealer_roster dkg_ethers dkg_session = Inr dkg_members"
    using dkg_roster_valid validateRoster_Inr [OF dkg_roster_valid]
    by (simp add: dealer_roster_def dkg_session_def as_array_def)
  moreover have "own_participant (dkg_keystore k name) dkg_members e = Inr (dkg_member k name)" for e
    using dkg_row_cases [OF assms] dkg_find by (auto simp: own_participant_def dkg_keystore_def simp del: One_nat_def)
  moreover obtain tr where tr: "ceremony_transcript dkg_crypto dkg_session dkg_expected dkg_deals dkg_deals dkg_responses [] = Inr tr"
      "packetHash dkg_ethers tr = Inr (sample_hex 32 1)"
    using dkg_transcript by blast
  moreover have "unchanged_group_key dkg_session v = Inr ()" for v by (simp add: unchanged_group_key_def dkg_session_def)
  moreover have sum: "0 < int ((x + y) mod 7)" "int ((x + y) mod 7) < 7" using dkg_row_cases [OF assms] by auto
  moreover obtain h where "scalarHex (params_r sample_bls) (int ((x + y) mod 7)) = Inr h"
    using sum by (auto simp: scalarHex_def scalar_def sample_bls_def)
  moreover have "multiply (G2 sample_bls) (BASE (G2 sample_bls)) (int ((x + y) mod 7)) = Inr (int ((x + y) mod 7))"
    using sum by (simp add: sample_bls_def sample_group_def)
  moreover have "\<exists>s' c. encryptPayload dkg_ethers dkg_crypto (finalized_secret (dkg_secret k) h (JInt 1) (sample_hex 32 1)) ''pw'' 1024
      (replicate 28 0) = (s', Inr c)"
  proof -
    have "has_text (finalized_secret (dkg_secret k) h (JInt 1) (sample_hex 32 1))"
      by (simp add: finalized_secret_def with_field_def dkg_secret_def has_field_def Let_def isSafeInteger_def)
    from canonicalJson_total [OF this] obtain t where
        "canonicalJson (finalized_secret (dkg_secret k) h (JInt 1) (sample_hex 32 1)) = Inr t" by blast
    then show ?thesis
      by (simp add: encryptPayload_def bindIO_def randomBytes_def liftR_def returnIO_def dkg_crypto_def)
  qed
  moreover have "se_roster dkg_session = JArr dkg_members" "se_threshold dkg_session = JInt 2" "se_epoch dkg_session = JInt 1"
      "ceremony_threshold dkg_session = 2"
    by (simp_all add: dkg_session_def ceremony_threshold_def)
  moreover have "jget (dkg_member k name) ''index'' = JInt (int k)" by (simp add: dkg_member_def)
  ultimately show ?thesis
    using dkg_keystore_loads [OF k, of "''pw''" name] dkg_private_share [OF assms] dkg_agree dkg_aggregate dkg_expected_fields dkg_roster_valid
    by (auto simp: finalizeCeremony_def bindIO_def liftR_def returnIO_def finalization_fields dkg_loaded_def)
qed

subsection \<open>A complaint\<close>

text \<open>The second participant complains about the first dealer, which reveals the share 3 that it sent.\<close>

definition dkg_dealer_state :: json where
  "dkg_dealer_state = JObj [(''type'', JStr ''dealer-state''), (''dealerId'', JStr ''aa''), (''sessionId'', JStr (sample_hex 32 1)),
     (''crypto'', jget (dkg_keystore 1 ''aa'') ''crypto'')]"

lemma dkg_coefficients: "resolution_coefficients dkg_ethers dkg_crypto 7 (dkg_secret k) = Inr [1, 1]"
proof -
  have "toBigInt dkg_crypto (JStr ''1'') = Inr 1" by code_simp
  then show ?thesis by (simp add: resolution_coefficients_def dkg_secret_def as_array_def scalar_def)
qed

lemma dkg_resolves:
  "\<exists>packet. createResolutionBundle dkg_ethers sample_bls sample_node dkg_crypto (dkg_keystore 1 ''aa'') dkg_dealer_state ''pw''
     (dkg_deal 1 ''aa'' 1 1 2 3 4) [dkg_response 2 ''bb'' False True] (JArr dkg_members) JUndefined = Inr packet"
proof -
  let ?deal = "dkg_deal 1 ''aa'' 1 1 2 3 4" and ?response = "dkg_response 2 ''bb'' False True"
  have pid: "jget (dkg_keystore 1 ''aa'') ''participantId'' = JStr ''aa''" by (simp add: dkg_keystore_def)
  have thr: "jget (jget ?deal ''body'') ''threshold'' = JInt 2" by (simp add: dkg_deal_def)
  have roster: "number_roster dkg_ethers dkg_members = Inr dkg_members" by code_simp
  have expected: "resolution_expected dkg_ethers (jget ?deal ''body'') = Inr dkg_expected"
    by (simp add: resolution_expected_def dkg_deal_def small_hex dkg_expected_def)
  have hash: "packetHash dkg_ethers (jget ?deal ''body'') = Inr (sample_hex 32 1)"
    by (rule dkg_packetHash [OF dkg_deal_text]) simp
  have "sample_ex 1 \<noteq> 0" by (simp add: sample_ex_def)
  then have valid: "validateDealPacket dkg_ethers sample_bls sample_node ?deal dkg_members dkg_members dkg_expected = Inr (dkg_member 1 ''aa'')"
    by (intro dkg_deal_valid dkg_find) simp_all
  have response: "validateResponsePacket dkg_ethers sample_node ?response dkg_members dkg_expected = Inr (jget ?response ''body'')"
    by (intro dkg_response_valid dkg_find) simp
  have "polynomialAt 7 [1, 1] 2 = 3" by code_simp
  moreover obtain h where h: "scalarHex 7 3 = Inr h" by (simp add: scalarHex_def scalar_def)
  ultimately have complaint: "collect_complaint dkg_ethers sample_bls sample_node dkg_members dkg_expected (JStr ''aa'') [1, 1] ([], []) ?response =
      Inr ([JStr ''bb''], [JObj [(''recipientId'', JStr ''bb''), (''recipientIndex'', JInt 2), (''share'', JStr h)]])"
    using response by (simp add: collect_complaint_def Let_def)
      (simp add: dkg_response_def complains_def statuses_of_def dkg_status_def strict_eq_def sample_bls_def)
  have "has_text (resolution_body (jget ?deal ''body'') (JStr ''aa'')
      [JObj [(''recipientId'', JStr ''bb''), (''recipientIndex'', JInt 2), (''share'', JStr h)]])"
    by (simp add: resolution_body_def dkg_deal_def isSafeInteger_def)
  note texts = dkg_packetHash [OF this]
  have r: "params_r sample_bls = 7" by (simp add: sample_bls_def)
  have state: "jget dkg_dealer_state ''type'' = JStr ''dealer-state''" "jget dkg_dealer_state ''dealerId'' = JStr ''aa''"
    "jget dkg_dealer_state ''sessionId'' = JStr (sample_hex 32 1)" "jget dkg_dealer_state ''crypto'' = jget (dkg_keystore 1 ''aa'') ''crypto''"
    "jget (jget ?deal ''body'') ''sessionId'' = JStr (sample_hex 32 1)" "jprop (dkg_secret 1) ''dealHash'' = Inr (JStr (sample_hex 32 1))"
    "jget (dkg_member 1 ''aa'') ''id'' = JStr ''aa''"
    by (simp_all add: dkg_dealer_state_def dkg_deal_def jprop_def dkg_secret_def dkg_member_def)
  have "sort_key complaint_index [x] = [x]" for x by simp
  then show ?thesis
    by (simp add: createResolutionBundle_def Let_def pid thr dkg_roster_valid roster dkg_keystore_loads dkg_payload expected hash valid
        complaint dkg_coefficients r state strict_eq_def as_array_def set_size_def signPacket_def texts small_hex
        del: jget_JObj_Cons jget_JObj_Nil One_nat_def)
qed

subsection \<open>Making a deal\<close>

text \<open>
  With a stream of ones as randomness the first participant draws the polynomial \<open>1 + x\<close>, so that its shares are 2, 3
  and 4, seals one for each member, and signs the packet.
\<close>

lemma dkg_draw: "64 \<le> m \<Longrightarrow> randomScalar 7 b (replicate m 1) = (replicate (m - 64) 1, Inr 1)"
proof -
  assume m: "64 \<le> m"
  have "bytes_int (replicate 64 1) smod 7 = 1" by code_simp
  then show ?thesis using m by (simp add: randomScalar.simps [of 7] min_def)
qed

lemma dkg_seals:
  assumes "k < 10" "44 \<le> m" "\<exists>aad. shareAssociatedData dkg_crypto (JObj fs) (JStr name) = Inr aad"
  shows "\<exists>item. seal_share dkg_ethers sample_bls sample_node dkg_crypto [1, 1] fs (dkg_member k name) (replicate m 1) =
    (replicate (m - 44) 1, Inr item) \<and> jget item ''recipientId'' = JStr name \<and> has_text item"
proof -
  obtain aad where aad: "shareAssociatedData dkg_crypto (JObj fs) (JStr name) = Inr aad" using assms(3) ..
  have r: "params_r sample_bls = 7" by (simp add: sample_bls_def)
  have "\<exists>z. diffieHellman dkg_crypto u v = Inr z" for u v by (simp add: dkg_crypto_def)
  then obtain shared where "diffieHellman dkg_crypto (keyFromSeed dkg_crypto ''x25519'' (take 32 (replicate m 1)))
      (publicOf dkg_crypto (keyFromSeed dkg_crypto ''x25519'' (low_byte 32 k))) = Inr shared" by blast
  moreover have "0 \<le> polynomialAt 7 [1, 1] (index_of (dkg_member k name)) \<and> polynomialAt 7 [1, 1] (index_of (dkg_member k name)) < 7"
    by (rule polynomialAt_range) (auto simp: dkg_member_def index_of_def)
  moreover have "jget (dkg_member k name) ''transportPublicKey'' =
      JStr (rawPublicKey dkg_ethers dkg_crypto (publicOf dkg_crypto (keyFromSeed dkg_crypto ''x25519'' (low_byte 32 k))))"
    using assms(1) by (simp add: dkg_seed_key dkg_member_def)
  ultimately obtain envelope where env: "encryptShare dkg_ethers sample_node dkg_crypto 7 (polynomialAt 7 [1, 1] (index_of (dkg_member k name)))
      (dkg_member k name) aad (replicate m 1) = (replicate (m - 44) 1, Inr envelope)"
    using encryptShare_returns [OF dkg_hex_laws dkg_key_laws, of 7 _ "dkg_member k name" "low_byte 32 k" "replicate m 1" shared aad] assms(2)
    by (auto simp: drop_replicate)
  moreover have "has_text envelope"
    using env by (auto simp: encryptShare_def bindIO_Inr liftR_Inr returnIO_def Let_def case_prod_beta)
  ultimately show ?thesis using aad by (simp add: seal_share_def bindIO_def liftR_def returnIO_def r dkg_member_def)
qed

lemma dkg_makes_deal:
  "\<exists>s' packet state. createDealBundle dkg_ethers sample_bls sample_node dkg_crypto dkg_session (dkg_keystore 1 ''aa'') ''pw'' 1024
     (replicate 288 1) = (s', Inr (packet, state)) \<and> jget (jget packet ''body'') ''commitments'' = JArr [JStr (dkg_key 1), JStr (dkg_key 1)]"
proof -
  have r: "params_r sample_bls = 7" by (simp add: sample_bls_def)
  have pid: "jget (dkg_keystore 1 ''aa'') ''participantId'' = JStr ''aa''" by (simp add: dkg_keystore_def)
  have roster: "validateRoster dkg_ethers (se_roster dkg_session) (se_threshold dkg_session) = Inr dkg_members"
    using dkg_roster_valid by (simp add: dkg_session_def)
  have dealer: "applicable_dealer dkg_session dkg_members (JStr ''aa'') = Inr (dkg_member 1 ''aa'')"
    using dkg_find(1) by (simp add: applicable_dealer_def dkg_session_def del: find_by.simps)
  have const: "deal_constant dkg_ethers sample_bls sample_node dkg_crypto dkg_session d sec c = Inr c" for d sec c
    by (simp add: deal_constant_def dkg_session_def)
  have t: "(case se_threshold dkg_session of JInt t \<Rightarrow> nat t | _ \<Rightarrow> 1) - 1 = Suc 0" by (simp add: dkg_session_def)
  let ?fs = "[(''format'', JStr DKG_PACKET_FORMAT), (''type'', JStr ''deal''), (''ceremony'', JStr ''dkg''),
       (''sessionId'', JStr (sample_hex 32 1)), (''epoch'', JInt 1), (''threshold'', JInt 2),
       (''dealerId'', JStr ''aa''), (''dealerIndex'', JInt 1), (''previousManifestHash'', JNull),
       (''selectedDealerIds'', JArr []), (''commitments'', JArr [JStr (dkg_key 1), JStr (dkg_key 1)])]"
  have body: "deal_body dkg_ethers dkg_session (dkg_member 1 ''aa'') [dkg_key 1, dkg_key 1] = Inr ?fs"
    by (simp add: deal_body_def dkg_session_def small_hex previous_hash_def selected_json_def dkg_member_def)
  have commits: "commitmentsFor dkg_ethers sample_bls [1, 1] = Inr [dkg_key 1, dkg_key 1]"
    by (simp add: commitmentsFor_def dkg_key_def) (simp add: sample_bls_def sample_group_def sample_ex_def wireHex_def)
  have aad: "\<exists>aad. shareAssociatedData dkg_crypto (JObj ?fs) (JStr name) = Inr aad" for name
  proof -
    have "has_text (JObj (map (\<lambda>l. (l, jget (JObj ?fs) l)) associated_fields @ [(''recipientId'', JStr name)]))"
      by (simp add: associated_fields_def isSafeInteger_def)
    from canonicalJson_total [OF this] show ?thesis by (simp only: shareAssociatedData_def) auto
  qed
  obtain i1 i2 i3 where items: "seal_share dkg_ethers sample_bls sample_node dkg_crypto [1, 1] ?fs (dkg_member 1 ''aa'') (replicate 160 1) = (replicate 116 1, Inr i1)"
      "seal_share dkg_ethers sample_bls sample_node dkg_crypto [1, 1] ?fs (dkg_member 2 ''bb'') (replicate 116 1) = (replicate 72 1, Inr i2)"
      "seal_share dkg_ethers sample_bls sample_node dkg_crypto [1, 1] ?fs (dkg_member 3 ''cc'') (replicate 72 1) = (replicate 28 1, Inr i3)"
    and texts: "has_text i1" "has_text i2" "has_text i3"
    using dkg_seals [OF _ _ aad, of 1 160 "''aa''"] dkg_seals [OF _ _ aad, of 2 116 "''bb''"] dkg_seals [OF _ _ aad, of 3 72 "''cc''"] by auto
  have seals: "mapIO (seal_share dkg_ethers sample_bls sample_node dkg_crypto [1, 1] ?fs) dkg_members (replicate 160 1) = (replicate 28 1, Inr [i1, i2, i3])"
    using items by (simp add: dkg_members_def bindIO_def returnIO_def)
  have hash: "packetHash dkg_ethers (JObj (?fs @ [(''encryptedShares'', JArr [i1, i2, i3])])) = Inr (sample_hex 32 1)"
    using texts by (intro dkg_packetHash) (simp add: isSafeInteger_def)
  obtain h where h: "scalarHex 7 1 = Inr h" by (simp add: scalarHex_def scalar_def)
  have "has_text (JObj [(''coefficients'', JArr (map JStr [h, h])), (''dealHash'', JStr (sample_hex 32 1))])" by simp
  from canonicalJson_total [OF this] obtain u where u: "canonicalJson (JObj [(''coefficients'', JArr (map JStr [h, h])),
      (''dealHash'', JStr (sample_hex 32 1))]) = Inr u" by blast
  have "scryptSync dkg_crypto p q n l = Inr []" for p q n l by (simp add: dkg_crypto_def)
  then have crypto: "\<exists>c. encryptPayload dkg_ethers dkg_crypto (JObj [(''coefficients'', JArr (map JStr [h, h])), (''dealHash'', JStr (sample_hex 32 1))])
      ''pw'' 1024 (replicate 28 1) = ([], Inr c)"
    using u by (simp add: encryptPayload_def bindIO_def liftR_def returnIO_def randomBytes_def Let_def
        del: canonicalJson.simps split: prod.split)
  then obtain c where c: "encryptPayload dkg_ethers dkg_crypto (JObj [(''coefficients'', JArr (map JStr [h, h])), (''dealHash'', JStr (sample_hex 32 1))])
      ''pw'' 1024 (replicate 28 1) = ([], Inr c)" ..
  have packet: "deal_packet dkg_ethers sample_bls sample_node dkg_crypto dkg_session dkg_members (dkg_loaded 1) (dkg_member 1 ''aa'') [1, 1] ''pw'' 1024
      (replicate 160 1) = ([], Inr (JObj [(''body'', JObj (?fs @ [(''encryptedShares'', JArr [i1, i2, i3])])),
        (''signature'', JStr (hexlify dkg_ethers (ed_sign sample_node (low_byte 32 1) (ld_identityPrivateKey (dkg_loaded 1)))))],
        JObj [(''format'', JStr DKG_PACKET_FORMAT), (''type'', JStr ''dealer-state''), (''sessionId'', JStr (sample_hex 32 1)),
          (''dealerId'', JStr ''aa''), (''crypto'', c)]))"
    unfolding deal_packet_def bindIO_def liftR_def commits sum.case prod.case body seals signPacket_def hash Let_def bindR.simps mapR.simps r h
    using c by (simp add: small_hex returnIO_def dkg_member_def del: One_nat_def)
  have draws: "randomScalar 7 False (replicate 288 1) = (replicate 224 1, Inr 1)" "randomScalar 7 True (replicate 224 1) = (replicate 160 1, Inr 1)"
    using dkg_draw [of 288 False] dkg_draw [of 224 True] by simp_all
  have loads: "loadKeystore dkg_ethers dkg_crypto (dkg_keystore 1 ''aa'') ''pw'' = Inr (dkg_loaded 1)"
    by (rule dkg_keystore_loads) simp_all
  show ?thesis
    by (simp add: createDealBundle_def bindIO_def liftR_def returnIO_def roster pid loads dealer r draws const t nonzero_highest_def packet
        del: One_nat_def)
qed

subsection \<open>A response\<close>

lemma dkg_order_laws: "order_laws dkg_crypto"
  by (auto simp: order_laws_def dkg_crypto_def)

lemma dkg_responds:
  "\<exists>response. createResponseBundle dkg_ethers sample_bls sample_node dkg_crypto dkg_session (dkg_keystore 2 ''bb'') ''pw'' dkg_deals = Inr response"
proof -
  have setting: "validateRoster dkg_ethers (se_roster dkg_session) (se_threshold dkg_session) = Inr dkg_members"
    "dealer_roster dkg_ethers dkg_session = Inr dkg_members"
    "own_participant (dkg_keystore 2 ''bb'') dkg_members ''response signer is not in the new roster'' = Inr (dkg_member 2 ''bb'')"
    by code_simp+
  let ?status = "deal_status dkg_ethers sample_bls sample_node dkg_crypto dkg_members dkg_members dkg_expected (dkg_loaded 2) (dkg_member 2 ''bb'')"
  let ?body = "response_body dkg_session dkg_expected (dkg_member 2 ''bb'') (map ?status dkg_deals)"
  have "has_text (?status packet)" if "jget (jget packet ''body'') ''dealerId'' = JStr n" for packet n
    using that by (auto simp: deal_status_def Let_def split: sum.split)
  then have texts: "has_text (?status (dkg_deal k name u v x y z))" for k name u v x y z
    by (simp add: dkg_deal_def)
  have sorted: "sort_locale dkg_crypto (map f dkg_deals) (map g dkg_deals) = Inr (map g dkg_deals)" for f g
    by (simp add: sort_locale_def dkg_crypto_def dkg_deals_def)
  have "has_text ?body"
    using texts by (simp add: response_body_def dkg_session_def dkg_expected_def dkg_member_def dkg_deals_def field_Cons isSafeInteger_def)
  note hash = dkg_packetHash [OF this]
  show ?thesis
    using dkg_keystore_loads [of 2 "''pw''" "''bb''"]
    by (simp add: createResponseBundle_def setting dkg_expected_fields sorted Let_def signPacket_def hash small_hex comp_def)
qed

end
