(* ===== verification/Dkg_Properties.thy ===== *)
theory Dkg_Properties
  imports Dkg_Sample
begin

section \<open>Properties of the ceremony\<close>

text \<open>
  The theorems about operator/threshold-dkg.mjs as a whole: what a finalization guarantees, the agreement of
  finalizations, signing with the shares that a ceremony produced, the exchange of an encrypted share, the
  acceptance of an honest deal, and the bound on what a dealer reveals.
\<close>

subsection \<open>Agreement\<close>

lemma same_text_equal: "\<exists>u. canonicalJson v = Inr u \<Longrightarrow> a = v \<Longrightarrow> b = v \<Longrightarrow> same_text a b = Inr True"
  using same_text_refl by simp

lemma transcript_canonical:
  assumes "ceremony_transcript K S expected chosen deals responses resolutions = Inr tr" "packetHash E tr = Inr h"
  shows "\<exists>u. canonicalJson (se_epoch S) = Inr u" "\<exists>u. canonicalJson (se_threshold S) = Inr u"
    "\<exists>u. canonicalJson (field expected ''sessionId'') = Inr u"
proof -
  obtain a b c where tr: "tr = JObj [(''format'', JStr DKG_PACKET_FORMAT), (''ceremony'', JStr (se_ceremony S)),
       (''sessionId'', field expected ''sessionId''), (''epoch'', se_epoch S), (''threshold'', se_threshold S),
       (''qualifiedDealerIds'', JArr (deal_ids chosen)), (''deals'', JArr a), (''responses'', JArr b), (''resolutions'', JArr c)]"
    using assms(1) by (auto simp: ceremony_transcript_def bindR_Inr)
  obtain t where t: "canonicalJson tr = Inr t" using assms(2) by (auto simp: packetHash_def bindR_Inr)
  show "\<exists>u. canonicalJson (se_epoch S) = Inr u" "\<exists>u. canonicalJson (se_threshold S) = Inr u"
    "\<exists>u. canonicalJson (field expected ''sessionId'') = Inr u"
    using canonicalJson_field [OF t [unfolded tr], of "''epoch''"] canonicalJson_field [OF t [unfolded tr], of "''threshold''"]
      canonicalJson_field [OF t [unfolded tr], of "''sessionId''"] by simp_all
qed

lemma strings_canonical: "\<exists>u. canonicalJson (JArr (map JStr xs)) = Inr u"
  by (rule canonicalJson_array) simp

lemma same_text_string: "same_text (JStr s) (JStr s) = Inr True"
  by (simp add: same_text_def)

text \<open>The fields of a finalization that do not depend on the participant.\<close>

lemma shared_fields:
  "jget (finalization_json S expected me coeffs share h chosen) ''ceremony'' = JStr (se_ceremony S)"
  "jget (finalization_json S expected me coeffs share h chosen) ''sessionId'' = field expected ''sessionId''"
  "jget (finalization_json S expected me coeffs share h chosen) ''epoch'' = se_epoch S"
  "jget (finalization_json S expected me coeffs share h chosen) ''threshold'' = se_threshold S"
  "jget (finalization_json S expected me coeffs share h chosen) ''previousManifestHash'' = field expected ''previousManifestHash''"
  by (simp_all add: finalization_json_def)

lemma finalizations_agree:
  assumes a: "finalizeCeremony E B N K S ks1 pw1 deals responses resolutions work1 s1 = (t1, Inr (fin1, ks1', tr1))"
    and b: "finalizeCeremony E B N K S ks2 pw2 deals responses resolutions work2 s2 = (t2, Inr (fin2, ks2', tr2))"
  shows "tr1 = tr2 \<and> jget fin1 ''publicCoefficients'' = jget fin2 ''publicCoefficients'' \<and>
    jget fin1 ''groupPublicKey'' = jget fin2 ''groupPublicKey'' \<and> check_agreement fin1 fin2 = Inr ()"
proof -
  obtain ps dealers me expected chosen resolved coeffs h where A: "validateRoster E (se_roster S) (se_threshold S) = Inr ps"
    "dealer_roster E S = Inr dealers" "expected_fields E S = Inr expected"
    "agree_on_deals E B N K S ps dealers expected deals responses resolutions = Inr (chosen, resolved)"
    "aggregateCommitments E B chosen (ceremony_threshold S) = Inr coeffs"
    "ceremony_transcript K S expected chosen deals responses resolutions = Inr tr1" "packetHash E tr1 = Inr h"
    "\<exists>p. fin1 = finalization_json S expected me coeffs (wireHex E (G2 B) p) h chosen"
    using a by (rule finalizeCeremony_steps) blast
  obtain me' ps' dealers' expected' chosen' resolved' coeffs' h' where A': "validateRoster E (se_roster S) (se_threshold S) = Inr ps'"
    "dealer_roster E S = Inr dealers'" "expected_fields E S = Inr expected'"
    "agree_on_deals E B N K S ps' dealers' expected' deals responses resolutions = Inr (chosen', resolved')"
    "aggregateCommitments E B chosen' (ceremony_threshold S) = Inr coeffs'"
    "ceremony_transcript K S expected' chosen' deals responses resolutions = Inr tr2" "packetHash E tr2 = Inr h'"
    "\<exists>p. fin2 = finalization_json S expected' me' coeffs' (wireHex E (G2 B) p) h' chosen'"
    using b by (rule finalizeCeremony_steps) blast
  have eqs: "ps' = ps" "dealers' = dealers" "expected' = expected" using A A' by simp_all
  then have eqs': "chosen' = chosen" using A(4) A'(4) by simp
  then have eqs'': "coeffs' = coeffs" "tr2 = tr1" using A(5,6) A'(5,6) eqs by simp_all
  then have "h' = h" using A(7) A'(7) by simp
  then obtain p q where fin: "fin1 = finalization_json S expected me coeffs (wireHex E (G2 B) p) h chosen"
      "fin2 = finalization_json S expected me' coeffs (wireHex E (G2 B) q) h chosen"
    using A(8) A'(8) eqs eqs' eqs'' by auto
  have prev: "\<exists>u. canonicalJson (field expected ''previousManifestHash'') = Inr u"
    using A(3) by (auto simp: expected_fields_def previous_hash_def field_Cons bindR_Inr split: if_splits)
  note canon = transcript_canonical [OF A(6,7)]
  have same: "\<forall>k \<in> set agreement_fields. same_text (jget fin2 k) (jget fin1 k) = Inr True"
    unfolding fin agreement_fields_def list.set
    by (simp only: ball_simps finalization_fields shared_fields same_text_refl [OF canon(1)] same_text_refl [OF canon(2)]
        same_text_refl [OF canon(3)] same_text_refl [OF prev] same_text_string simp_thms)
  from same have "mapR (\<lambda>k. bindR (same_text (jget fin2 k) (jget fin1 k)) (\<lambda>same.
      if \<not> same then Inl (''finalizations disagree on '' @ k) else Inr ())) agreement_fields = Inr (map (\<lambda>_. ()) agreement_fields)"
    by (intro mapR_total) simp
  moreover have "same_text (jget fin2 ''publicCoefficients'') (jget fin1 ''publicCoefficients'') = Inr True"
    using same_text_refl [OF strings_canonical] by (simp only: fin finalization_fields)
  moreover have "jprop fin2 ''format'' = Inr (JStr DKG_FINALIZATION_FORMAT)"
    by (simp add: jprop_def fin(2) finalization_json_def)
  ultimately have "check_agreement fin1 fin2 = Inr ()" by (simp add: check_agreement_def)
  then show ?thesis using eqs''(2) by (simp add: fin finalization_fields)
qed

subsection \<open>Signing with the shares of a ceremony\<close>

lemma peval_coefficients: "list_all2 (eqm m) as bs \<Longrightarrow> eqm m (peval as x) (peval bs x)"
  by (induction rule: list_all2_induct) (auto intro!: eqm_add eqm_mult)

lemma wireHex_eqm:
  assumes "hex_codec E" "prime_order_group r n G ex" "wireHex E G (ex a) = wireHex E G (ex b)"
  shows "eqm r a b"
proof -
  have "toRawBytes G (ex a) = toRawBytes G (ex b)" using assms(1,3) unfolding hex_codec_def wireHex_def by metis
  then have "ex a = ex b" using prime_order_groupD(7) [OF assms(2)] by (metis sum.inject(2))
  then show ?thesis by (simp add: prime_order_groupD(5) [OF assms(2)])
qed

text \<open>The keystore that a finalization returns holds a share: its encryption is that of the secret with the share set.\<close>

definition stored_share ::
  "ethers \<Rightarrow> ('p, 'q, 't) bls \<Rightarrow> 'k crypto \<Rightarrow> session \<Rightarrow> json \<Rightarrow> string \<Rightarrow> int \<Rightarrow> bytes \<Rightarrow> bytes \<Rightarrow> json \<Rightarrow> int \<Rightarrow> bool" where
  "stored_share E B K S keystore password work s s' keystore' x \<longleftrightarrow> (\<exists>loaded hash share crypto.
     loadKeystore E K keystore password = Inr loaded \<and> scalarHex (params_r B) x = Inr share \<and>
     encryptPayload E K (finalized_secret (ld_secret loaded) share (se_epoch S) hash) password work s = (s', Inr crypto) \<and>
     keystore' = with_field keystore ''crypto'' crypto)"

lemma ceremony_threshold_small:
  assumes "finalizeCeremony E B N K S ks pw deals responses resolutions work s = (s', Inr out)"
  shows "isSafeInteger (int (ceremony_threshold S)) \<and> 2 \<le> ceremony_threshold S"
proof -
  obtain ps where "validateRoster E (se_roster S) (se_threshold S) = Inr ps"
    using assms by (auto simp: finalizeCeremony_def bindIO_liftR)
  then obtain t where "se_threshold S = JInt t" "2 \<le> t" "t \<le> int (length ps)" "length ps \<le> 31"
    by (rule validateRoster_Inr) blast
  then show ?thesis by (simp add: ceremony_threshold_def isSafeInteger_def)
qed

lemma finalized_share_signs:
  assumes E: "hex_codec E" and B: "bls_laws B ex1 ex2 exT"
    and m: "wireBytes E message = Some msg" "hashToCurve B msg BLS_DST = Inr (ex1 h)" "\<not> eqm (params_r B) h 0"
    and x: "0 < x" "x < params_r B" "eqm (params_r B) x (peval cs i)" and i: "0 < i" "i < params_r B"
  shows "\<exists>sig. signPartial E B message x = Inr sig \<and> honest_share E B ex1 ex2 h cs
    \<lparr>sh_index = i, sh_publicKey = HexString (wireHex E (G2 B) (ex2 x)), sh_signature = HexString sig\<rparr>"
proof -
  have nz: "\<not> eqm (params_r B) x 0" using x(1,2) by (auto simp: eqm_mod)
  have "x mod params_r B = x" using x(1,2) by simp
  then have sig: "signPartial E B message x = Inr (wireHex E (G1 B) (ex1 (h * x)))"
    using signing_results(2) [OF E B m nz] by simp
  have "ex2 x = ex2 (peval cs i)" "ex1 (h * x) = ex1 (h * peval cs i)"
    using x(3) by (auto simp: prime_order_groupD(5) [OF bls_lawsD(2) [OF B]] prime_order_groupD(5) [OF bls_lawsD(3) [OF B]] intro: eqm_mult)
  moreover have "\<not> eqm (params_r B) (peval cs i) 0" using nz x(3) by (blast intro: eqm_trans)
  ultimately show ?thesis using sig i E by (auto simp: honest_share_def)
qed

lemma finalized_shares_aggregate:
  assumes E: "hex_codec E" and B: "bls_laws B ex1 ex2 exT" "zero_multiple (G2 B) ex2"
    and runs: "\<forall>k < m. finalizeCeremony E B N K S (ks k) (pw k) deals responses resolutions (work k) (s k) = (t k, Inr (fin k, ks' k, tr k)) \<and>
      jget (fin k) ''participantIndex'' = JInt (i k) \<and> i k < params_r B"
    and quorum: "distinct (map i [0..<m])" "ceremony_threshold S \<le> m"
    and msg: "wireBytes E message = Some msg" "hashToCurve B msg BLS_DST = Inr (ex1 h)" "\<not> eqm (params_r B) h 0"
    and key: "jget (fin 0) ''groupPublicKey'' = JStr key" "g2Point E B (HexString key) name = Inr point" and m: "0 < m"
  shows "\<exists>x pub sig signature ids. (\<forall>k < m. stored_share E B K S (ks k) (pw k) (work k) (s k) (t k) (ks' k) (x k) \<and>
      jget (fin k) ''sharePublicKey'' = JStr (pub k) \<and> signPartial E B message (x k) = Inr (sig k)) \<and>
    aggregateThresholdShares E B message (HexString key) (int (ceremony_threshold S))
      (map (\<lambda>k. \<lparr>sh_index = i k, sh_publicKey = HexString (pub k), sh_signature = HexString (sig k)\<rparr>) [0..<m]) = Inr (signature, ids)"
proof -
  let ?r = "params_r B"
  note G = bls_lawsD(3) [OF B(1)]
  have each: "\<exists>cs x. length cs = ceremony_threshold S \<and> 0 < i k \<and> 0 < x \<and> x < ?r \<and> eqm ?r x (peval cs (i k)) \<and>
      jget (fin k) ''publicCoefficients'' = JArr (map (\<lambda>c. JStr (wireHex E (G2 B) (ex2 c))) cs) \<and>
      jget (fin k) ''groupPublicKey'' = JStr (wireHex E (G2 B) (ex2 (peval cs 0))) \<and>
      jget (fin k) ''sharePublicKey'' = JStr (wireHex E (G2 B) (ex2 x)) \<and>
      stored_share E B K S (ks k) (pw k) (work k) (s k) (t k) (ks' k) x" if "k < m" for k
  proof -
    have f: "finalizeCeremony E B N K S (ks k) (pw k) deals responses resolutions (work k) (s k) = (t k, Inr (fin k, ks' k, tr k))"
      "jget (fin k) ''participantIndex'' = JInt (i k)" "i k < params_r B" using runs that by auto
    from finalization_polynomial [OF E B f] show ?thesis unfolding stored_share_def by blast
  qed
  then obtain CS x where F: "\<forall>k < m. length (CS k) = ceremony_threshold S \<and> 0 < i k \<and> 0 < x k \<and> x k < ?r \<and>
      eqm ?r (x k) (peval (CS k) (i k)) \<and>
      jget (fin k) ''publicCoefficients'' = JArr (map (\<lambda>c. JStr (wireHex E (G2 B) (ex2 c))) (CS k)) \<and>
      jget (fin k) ''groupPublicKey'' = JStr (wireHex E (G2 B) (ex2 (peval (CS k) 0))) \<and>
      jget (fin k) ''sharePublicKey'' = JStr (wireHex E (G2 B) (ex2 (x k))) \<and>
      stored_share E B K S (ks k) (pw k) (work k) (s k) (t k) (ks' k) (x k)"
    by metis
  have on_first: "eqm ?r (x k) (peval (CS 0) (i k))" if "k < m" for k
  proof -
    have f: "finalizeCeremony E B N K S (ks k) (pw k) deals responses resolutions (work k) (s k) = (t k, Inr (fin k, ks' k, tr k))"
      "finalizeCeremony E B N K S (ks 0) (pw 0) deals responses resolutions (work 0) (s 0) = (t 0, Inr (fin 0, ks' 0, tr 0))"
      using runs that m by blast+
    have "jget (fin k) ''publicCoefficients'' = jget (fin 0) ''publicCoefficients''"
      using finalizations_agree [OF f] by blast
    moreover have "jget (fin k) ''publicCoefficients'' = JArr (map (\<lambda>c. JStr (wireHex E (G2 B) (ex2 c))) (CS k))"
      "jget (fin 0) ''publicCoefficients'' = JArr (map (\<lambda>c. JStr (wireHex E (G2 B) (ex2 c))) (CS 0))"
      using F that m by blast+
    ultimately have maps: "map (\<lambda>c. JStr (wireHex E (G2 B) (ex2 c))) (CS k) = map (\<lambda>c. JStr (wireHex E (G2 B) (ex2 c))) (CS 0)"
      by simp
    have len: "length (CS k) = length (CS 0)" using map_eq_imp_length_eq [OF maps] .
    have "eqm ?r (CS k ! j) (CS 0 ! j)" if "j < length (CS k)" for j
      using arg_cong [OF maps, of "\<lambda>l. l ! j"] that len by (auto intro: wireHex_eqm [OF E G])
    then have "list_all2 (eqm ?r) (CS k) (CS 0)" using len by (simp add: list_all2_conv_all_nth)
    then show ?thesis using F that peval_coefficients by (blast intro: eqm_trans)
  qed
  have "\<forall>k < m. \<exists>sig. signPartial E B message (x k) = Inr sig \<and> honest_share E B ex1 ex2 h (CS 0)
      \<lparr>sh_index = i k, sh_publicKey = HexString (wireHex E (G2 B) (ex2 (x k))), sh_signature = HexString sig\<rparr>"
    using finalized_share_signs [OF E B(1) msg] F on_first runs by blast
  then obtain sig where sig: "\<forall>k < m. signPartial E B message (x k) = Inr (sig k) \<and> honest_share E B ex1 ex2 h (CS 0)
      \<lparr>sh_index = i k, sh_publicKey = HexString (wireHex E (G2 B) (ex2 (x k))), sh_signature = HexString (sig k)\<rparr>"
    by metis
  let ?shares = "map (\<lambda>k. \<lparr>sh_index = i k, sh_publicKey = HexString (wireHex E (G2 B) (ex2 (x k))), sh_signature = HexString (sig k)\<rparr>) [0..<m]"
  have k0: "key = wireHex E (G2 B) (ex2 (peval (CS 0) 0))" using key(1) F m by auto
  have "\<not> eqm ?r (peval (CS 0) 0) 0"
    using key(2) wireBytes_wireHex [OF E, of "G2 B" "ex2 (peval (CS 0) 0)"] prime_order_groupD(7) [OF G]
    unfolding k0 g2Point_def pointFor_Inr [OF E G] by (auto simp: prime_order_groupD(5) [OF G] intro: eqm_trans)
      (metis prime_order_groupD(5) [OF G] eqm_trans sum.inject(2))
  moreover have "isSafeInteger (int (ceremony_threshold S))" "2 \<le> int (ceremony_threshold S)"
    using ceremony_threshold_small runs m by fastforce+
  moreover have "distinct (map sh_index ?shares)" using quorum(1) by (simp add: comp_def)
  moreover have "length (CS 0) = ceremony_threshold S" using F m by blast
  moreover have "\<forall>share \<in> set ?shares. honest_share E B ex1 ex2 h (CS 0) share" using sig by auto
  moreover have "encodes E (G2 B) (ex2 (peval (CS 0) 0)) (HexString key)" using E by (simp add: k0)
  ultimately have "aggregateThresholdShares E B message (HexString key) (int (ceremony_threshold S)) ?shares =
      Inr (wireHex E (G1 B) (ex1 (h * peval (CS 0) 0)), map (\<lambda>s. showInt (sh_index s)) ?shares)"
    using quorum(2) by (intro aggregate_honest [OF E B(1) msg]) auto
  moreover have "\<forall>k < m. stored_share E B K S (ks k) (pw k) (work k) (s k) (t k) (ks' k) (x k) \<and>
      jget (fin k) ''sharePublicKey'' = JStr (wireHex E (G2 B) (ex2 (x k))) \<and> signPartial E B message (x k) = Inr (sig k)"
    using F sig by blast
  ultimately show ?thesis
    by (intro exI [of _ x] exI [of _ "\<lambda>k. wireHex E (G2 B) (ex2 (x k))"] exI [of _ sig]
        exI [of _ "wireHex E (G1 B) (ex1 (h * peval (CS 0) 0))"] exI [of _ "map (\<lambda>s. showInt (sh_index s)) ?shares"]) simp
qed

subsection \<open>Properties\<close>

text \<open>
  C9: A finalization is consistent with itself. Whatever messages the participant received, when \<open>finalizeCeremony\<close> returns, the share
  key it publishes passes the public check (\<open>verifyPublicShareCommitment\<close>, the one that the group manifest is
  validated with) against the public polynomial it publishes, the group key is that polynomial's constant, and the
  keystore it returns holds the share that belongs to the published share key.
\<close>

theorem finalizeCeremony_share_checks:
  assumes "hex_codec E" "bls_laws B ex1 ex2 exT" "zero_multiple (G2 B) ex2"
    "finalizeCeremony E B N K S ks pw deals responses resolutions work s = (s', Inr (fin, ks', tr))"
    "jget fin ''participantIndex'' = JInt i" "i < params_r B"
  shows "\<exists>coeffs share x. jget fin ''publicCoefficients'' = JArr (map JStr coeffs) \<and>
    jget fin ''groupPublicKey'' = JStr (hd coeffs) \<and> jget fin ''sharePublicKey'' = JStr share \<and>
    verifyPublicShareCommitment E B i (HexString share) (map HexString coeffs) = Inr True \<and>
    stored_share E B K S ks pw work s s' ks' x \<and> publicKeyForShare E B x = Inr share"
proof -
  obtain cs x where F: "2 \<le> length cs" "0 < i" "0 < x" "x < params_r B" "eqm (params_r B) x (peval cs i)"
      "jget fin ''publicCoefficients'' = JArr (map (\<lambda>c. JStr (wireHex E (G2 B) (ex2 c))) cs)"
      "jget fin ''groupPublicKey'' = JStr (wireHex E (G2 B) (ex2 (peval cs 0)))"
      "jget fin ''sharePublicKey'' = JStr (wireHex E (G2 B) (ex2 x))" "stored_share E B K S ks pw work s s' ks' x"
    using finalization_polynomial [OF assms] unfolding stored_share_def by blast
  let ?coeffs = "map (\<lambda>c. wireHex E (G2 B) (ex2 c)) cs" and ?share = "wireHex E (G2 B) (ex2 x)"
  have nz: "\<not> eqm (params_r B) x 0" and x: "x mod params_r B = x" using F(3,4) by (auto simp: eqm_mod)
  have "list_all2 (\<lambda>v c. encodes E (G2 B) (ex2 c) v) (map HexString ?coeffs) cs"
    using assms(1) by (simp add: list_all2_conv_all_nth)
  then have "verifyPublicShareCommitment E B i (HexString ?share) (map HexString ?coeffs) =
      Inr (x mod params_r B = peval cs i mod params_r B)"
    using F(1,2) assms(1,6) nz by (intro verifyPublicShareCommitment_eval [OF assms(1,2)]) auto
  moreover have "publicKeyForShare E B x = Inr ?share"
    using F(3,4) x prime_order_groupD(2,4) [OF bls_lawsD(3) [OF assms(2)]] by (simp add: publicKeyForShare_def Let_def)
  moreover have "hd ?coeffs = wireHex E (G2 B) (ex2 (peval cs 0))" using F(1) by (cases cs) auto
  ultimately show ?thesis
    using F(5-9) by (intro exI [of _ ?coeffs] exI [of _ ?share] exI [of _ x]) (simp add: eqm_mod comp_def)
qed

theorem finalizeCeremony_share_checks_witness:
  "\<exists>s' fin ks' tr coeffs share x. finalizeCeremony dkg_ethers sample_bls sample_node dkg_crypto dkg_session (dkg_keystore 1 ''aa'') ''pw''
     dkg_deals dkg_responses [] 1024 (replicate 28 0) = (s', Inr (fin, ks', tr)) \<and>
     jget fin ''sharePublicKey'' = JStr share \<and> publicKeyForShare dkg_ethers sample_bls x = Inr share \<and>
     verifyPublicShareCommitment dkg_ethers sample_bls 1 (HexString share) (map HexString coeffs) = Inr True"
proof -
  have "dkg_row 1 ''aa'' 2 4" by (simp add: dkg_row_def)
  from dkg_finalizes [OF this] obtain s' fin ks' tr where f: "finalizeCeremony dkg_ethers sample_bls sample_node dkg_crypto dkg_session
      (dkg_keystore 1 ''aa'') ''pw'' dkg_deals dkg_responses [] 1024 (replicate 28 0) = (s', Inr (fin, ks', tr))"
      "jget fin ''participantIndex'' = JInt (int 1)"
    by blast
  have "int 1 < params_r sample_bls" by (simp add: sample_bls_def)
  from finalizeCeremony_share_checks [OF dkg_hex_codec sample_bls_laws sample_zero_multiple f this] f(1)
  show ?thesis by auto
qed

text \<open>
  C28: Finalizations agree. Two participants that finalize the same session from the same messages, each with its own keystore and
  randomness, produce the same transcript, group key and public polynomial, and their finalizations pass the agreement check with
  which \<open>assembleManifest\<close> compares them.
\<close>

theorem finalizeCeremony_agreement:
  assumes "finalizeCeremony E B N K S ks1 pw1 deals responses resolutions work1 s1 = (t1, Inr (fin1, ks1', tr1))"
    "finalizeCeremony E B N K S ks2 pw2 deals responses resolutions work2 s2 = (t2, Inr (fin2, ks2', tr2))"
  shows "tr1 = tr2 \<and> jget fin1 ''publicCoefficients'' = jget fin2 ''publicCoefficients'' \<and>
    jget fin1 ''groupPublicKey'' = jget fin2 ''groupPublicKey'' \<and> check_agreement fin1 fin2 = Inr ()"
  using assms by (rule finalizations_agree)

theorem finalizeCeremony_agreement_witness:
  "\<exists>t1 fin1 ks1 tr1 t2 fin2 ks2 tr2. finalizeCeremony dkg_ethers sample_bls sample_node dkg_crypto dkg_session (dkg_keystore 1 ''aa'') ''pw''
     dkg_deals dkg_responses [] 1024 (replicate 28 0) = (t1, Inr (fin1, ks1, tr1)) \<and>
   finalizeCeremony dkg_ethers sample_bls sample_node dkg_crypto dkg_session (dkg_keystore 2 ''bb'') ''pw''
     dkg_deals dkg_responses [] 1024 (replicate 28 0) = (t2, Inr (fin2, ks2, tr2)) \<and>
   jget fin1 ''participantIndex'' = JInt 1 \<and> jget fin2 ''participantIndex'' = JInt 2 \<and> tr1 = tr2 \<and> check_agreement fin1 fin2 = Inr ()"
proof -
  have "dkg_row 1 ''aa'' 2 4" "dkg_row 2 ''bb'' 3 6" by (simp_all add: dkg_row_def)
  from dkg_finalizes [OF this(1)] dkg_finalizes [OF this(2)] obtain t1 fin1 ks1 tr1 t2 fin2 ks2 tr2 where
    a: "finalizeCeremony dkg_ethers sample_bls sample_node dkg_crypto dkg_session (dkg_keystore 1 ''aa'') ''pw''
      dkg_deals dkg_responses [] 1024 (replicate 28 0) = (t1, Inr (fin1, ks1, tr1))" and
    b: "finalizeCeremony dkg_ethers sample_bls sample_node dkg_crypto dkg_session (dkg_keystore 2 ''bb'') ''pw''
      dkg_deals dkg_responses [] 1024 (replicate 28 0) = (t2, Inr (fin2, ks2, tr2))" and
    i: "jget fin1 ''participantIndex'' = JInt (int 1)" "jget fin2 ''participantIndex'' = JInt (int 2)"
    by blast
  from finalizeCeremony_agreement [OF a b] a b i show ?thesis by auto
qed

text \<open>
  C4: The shares of a ceremony sign. Any threshold of participants with distinct indexes that finalized from the same messages
  can sign: each keystore holds a share, \<open>signPartial\<close> with these shares and \<open>aggregateThresholdShares\<close> with the published
  share keys return a signature that verifies under the group key of the ceremony (which must not be the point at infinity).
\<close>

theorem ceremony_shares_sign:
  assumes "hex_codec E" "bls_laws B ex1 ex2 exT" "zero_multiple (G2 B) ex2"
    "\<forall>k < m. finalizeCeremony E B N K S (ks k) (pw k) deals responses resolutions (work k) (s k) = (t k, Inr (fin k, ks' k, tr k)) \<and>
      jget (fin k) ''participantIndex'' = JInt (i k) \<and> i k < params_r B"
    "distinct (map i [0..<m])" "ceremony_threshold S \<le> m" "0 < m"
    "wireBytes E message = Some msg" "hashToCurve B msg BLS_DST = Inr (ex1 h)" "\<not> eqm (params_r B) h 0"
    "jget (fin 0) ''groupPublicKey'' = JStr key" "g2Point E B (HexString key) name = Inr point"
  shows "\<exists>x pub sig signature ids. (\<forall>k < m. stored_share E B K S (ks k) (pw k) (work k) (s k) (t k) (ks' k) (x k) \<and>
      jget (fin k) ''sharePublicKey'' = JStr (pub k) \<and> signPartial E B message (x k) = Inr (sig k)) \<and>
    aggregateThresholdShares E B message (HexString key) (int (ceremony_threshold S))
      (map (\<lambda>k. \<lparr>sh_index = i k, sh_publicKey = HexString (pub k), sh_signature = HexString (sig k)\<rparr>) [0..<m]) = Inr (signature, ids) \<and>
    verifyAggregateSignature E B message (HexString key) (HexString signature)"
  using finalized_shares_aggregate [OF assms(1-6,8-12,7)] aggregate_sound by meson

theorem ceremony_shares_sign_witness:
  "\<exists>(x :: nat \<Rightarrow> int) pub (sig :: nat \<Rightarrow> string) signature ids. publicKeyForShare dkg_ethers sample_bls 3 = Inr (dkg_key 3) \<and>
    signPartial dkg_ethers sample_bls (Uint8Array []) (x 0) = Inr (sig 0) \<and> signPartial dkg_ethers sample_bls (Uint8Array []) (x 1) = Inr (sig 1) \<and>
    aggregateThresholdShares dkg_ethers sample_bls (Uint8Array []) (HexString (dkg_key 3)) 2
      (map (\<lambda>k. \<lparr>sh_index = int k + 1, sh_publicKey = HexString (pub k), sh_signature = HexString (sig k)\<rparr>) [0..<2]) = Inr (signature, ids) \<and>
    verifyAggregateSignature dkg_ethers sample_bls (Uint8Array []) (HexString (dkg_key 3)) (HexString signature)"
proof -
  let ?name = "\<lambda>k :: nat. if k = 0 then ''aa'' else ''bb''"
  let ?run = "\<lambda>k t fin ks' tr. finalizeCeremony dkg_ethers sample_bls sample_node dkg_crypto dkg_session (dkg_keystore (k + 1) (?name k)) ''pw''
    dkg_deals dkg_responses [] 1024 (replicate 28 0) = (t, Inr (fin, ks', tr)) \<and> jget fin ''participantIndex'' = JInt (int k + 1) \<and>
    jget fin ''groupPublicKey'' = JStr (dkg_key 3)"
  have "\<exists>t fin ks' tr. ?run k t fin ks' tr" if "k < 2" for k :: nat
  proof -
    have "dkg_row (k + 1) (?name k) (if k = 0 then 2 else 3) (if k = 0 then 4 else 6)"
      using that by (auto simp: dkg_row_def)
    from dkg_finalizes [OF this] show ?thesis by (simp add: add.commute)
  qed
  then obtain t fin ks' tr where runs: "\<forall>k < 2. ?run k (t k) (fin k) (ks' k) (tr k)" by metis
  have r: "params_r sample_bls = 7" by (simp add: sample_bls_def)
  have "\<exists>p. g2Point dkg_ethers sample_bls (HexString (dkg_key 3)) ''key'' = Inr p"
    unfolding g2Point_def pointFor_Inr [OF dkg_hex_codec bls_lawsD(3) [OF sample_bls_laws]] dkg_key_def
      wireBytes_wireHex [OF dkg_hex_codec] r
    by (rule exI [of _ "sample_ex 3"], rule exI [of _ 3]) (simp add: eqm_def)
  then obtain point where point: "g2Point dkg_ethers sample_bls (HexString (dkg_key 3)) ''key'' = Inr point" ..
  have hash: "hashToCurve sample_bls [] BLS_DST = Inr (sample_ex 1)" "wireBytes dkg_ethers (Uint8Array []) = Some []"
    by (simp_all add: sample_bls_def sample_ex_def)
  have runs2: "\<forall>k < 2. finalizeCeremony dkg_ethers sample_bls sample_node dkg_crypto dkg_session (dkg_keystore (k + 1) (?name k)) ''pw''
      dkg_deals dkg_responses [] 1024 (replicate 28 0) = (t k, Inr (fin k, ks' k, tr k)) \<and>
      jget (fin k) ''participantIndex'' = JInt (int k + 1) \<and> int k + 1 < params_r sample_bls"
    using runs r by simp
  have thr: "ceremony_threshold dkg_session = 2" by (simp add: ceremony_threshold_def dkg_session_def)
  have "\<exists>x pub sig signature ids. (\<forall>k < 2. stored_share dkg_ethers sample_bls dkg_crypto dkg_session (dkg_keystore (k + 1) (?name k)) ''pw'' 1024
      (replicate 28 0) (t k) (ks' k) (x k) \<and> jget (fin k) ''sharePublicKey'' = JStr (pub k) \<and>
      signPartial dkg_ethers sample_bls (Uint8Array []) (x k) = Inr (sig k)) \<and>
    aggregateThresholdShares dkg_ethers sample_bls (Uint8Array []) (HexString (dkg_key 3)) (int (ceremony_threshold dkg_session))
      (map (\<lambda>k. \<lparr>sh_index = int k + 1, sh_publicKey = HexString (pub k), sh_signature = HexString (sig k)\<rparr>) [0..<2]) = Inr (signature, ids) \<and>
    verifyAggregateSignature dkg_ethers sample_bls (Uint8Array []) (HexString (dkg_key 3)) (HexString signature)"
    using runs2 point
    by (intro ceremony_shares_sign [where msg = "[]" and h = 1 and fin = fin and tr = tr, OF dkg_hex_codec sample_bls_laws sample_zero_multiple runs2])
      (simp_all add: thr hash r eqm_mod distinct_map inj_on_def runs)
  then obtain x pub sig signature ids where w: "\<forall>k < 2. signPartial dkg_ethers sample_bls (Uint8Array []) (x k) = Inr (sig k)"
      "aggregateThresholdShares dkg_ethers sample_bls (Uint8Array []) (HexString (dkg_key 3)) (int (ceremony_threshold dkg_session))
        (map (\<lambda>k. \<lparr>sh_index = int k + 1, sh_publicKey = HexString (pub k), sh_signature = HexString (sig k)\<rparr>) [0..<2]) = Inr (signature, ids)"
      "verifyAggregateSignature dkg_ethers sample_bls (Uint8Array []) (HexString (dkg_key 3)) (HexString signature)"
    by blast
  moreover have "publicKeyForShare dkg_ethers sample_bls 3 = Inr (dkg_key 3)"
    by (simp add: publicKeyForShare_def Let_def dkg_key_def) (simp add: sample_bls_def sample_group_def sample_ex_def)
  ultimately show ?thesis using thr
    by (intro exI [of _ x] exI [of _ pub] exI [of _ sig] exI [of _ signature] exI [of _ ids]) simp
qed

text \<open>
  A share that is sealed for a recipient opens to the same number. With enough randomness and a key exchange that succeeds
  \<open>encryptShare\<close> returns an envelope, and \<open>decryptShare\<close> with the recipient's transport key and the same associated data gives
  the share back.
\<close>

theorem decryptShare_encryptShare:
  assumes "hex_laws E" "key_laws N K" "gcm_laws K" "r \<le> 256 ^ 32" "0 \<le> x" "x < r"
    "jget recipient ''transportPublicKey'' = JStr (rawPublicKey E K (publicOf K (keyFromSeed K ''x25519'' seed)))"
    "44 \<le> length s" "diffieHellman K (keyFromSeed K ''x25519'' (take 32 s)) (publicOf K (keyFromSeed K ''x25519'' seed)) = Inr shared"
  shows "\<exists>s' envelope. encryptShare E N K r x recipient aad s = (s', Inr envelope) \<and>
    decryptShare E N K envelope (keyFromSeed K ''x25519'' seed) aad = Inr x"
  using encryptShare_returns [OF assms(1,2,4-9)] decrypt_encrypted_share [OF assms(1-7)] by blast

text \<open>
  C12: What a dealer reveals. When \<open>createResolutionBundle\<close> returns, it publishes fewer shares than the threshold, each for another
  participant, and each is the value of the dealer's polynomial for a participant whose signed response in the input complains about
  the dealer.
\<close>

theorem createResolutionBundle_bounded:
  assumes "createResolutionBundle E B N K dks dstate pw deal responses roster dealerRoster = Inr packet"
  shows "\<exists>ps t items coefficients. roster = JArr ps \<and> jget (jget deal ''body'') ''threshold'' = JInt t \<and>
    jget (jget packet ''body'') ''complaints'' = JArr items \<and> int (length items) < t \<and>
    distinct (map (\<lambda>item. jget item ''recipientId'') items) \<and>
    (\<forall>item \<in> set items. backed E B N ps (jget dks ''participantId'') coefficients responses item)"
  using assms by (rule resolution_backed)

theorem createResolutionBundle_bounded_witness:
  "\<exists>packet items. createResolutionBundle dkg_ethers sample_bls sample_node dkg_crypto (dkg_keystore 1 ''aa'') dkg_dealer_state ''pw''
     (dkg_deal 1 ''aa'' 1 1 2 3 4) [dkg_response 2 ''bb'' False True] (JArr dkg_members) JUndefined = Inr packet \<and>
   jget (jget packet ''body'') ''complaints'' = JArr items \<and> int (length items) < 2"
proof -
  obtain packet where run: "createResolutionBundle dkg_ethers sample_bls sample_node dkg_crypto (dkg_keystore 1 ''aa'') dkg_dealer_state ''pw''
     (dkg_deal 1 ''aa'' 1 1 2 3 4) [dkg_response 2 ''bb'' False True] (JArr dkg_members) JUndefined = Inr packet"
    using dkg_resolves ..
  from createResolutionBundle_bounded [OF run] run show ?thesis by (auto simp: dkg_deal_def)
qed

text \<open>
  C29: An honest deal is accepted. The packet that \<open>createDealBundle\<close> returns commits to a polynomial with as many coefficients as
  the threshold, and a roster member that receives it accepts it (\<open>accept_deal\<close>, the check behind the status in its response), for
  keys that belong to the roster entries; the one exception is a share that is zero, which the curve library does not multiply with.
\<close>

theorem createDealBundle_accepted:
  assumes "hex_laws E" "bls_laws B ex1 ex2 exT" "zero_multiple (G2 B) ex2" "params_r B \<le> 256 ^ 32"
    "key_laws N K" "gcm_laws K" "signature_laws N K"
    "validateRoster E (se_roster S) (se_threshold S) = Inr ps" "expected_fields E S = Inr expected"
    "dealers_given S" "dealer_roster E S = Inr dealers"
    "createDealBundle E B N K S dks dpw work s = (s', Inr (packet, state))"
    "loadKeystore E K dks dpw = Inr dl" "applicable_dealer S ps (jget dks ''participantId'') = Inr dealer"
    "jget dealer ''identityPublicKey'' = JStr (rawPublicKey E K (publicOf K (keyFromSeed K ''ed25519'' dseed)))"
    "ld_identityPrivateKey dl = keyFromSeed K ''ed25519'' dseed"
    "own_participant mks ps msg = Inr me" "index_of me < params_r B"
    "jget me ''transportPublicKey'' = JStr (rawPublicKey E K (publicOf K (keyFromSeed K ''x25519'' mseed)))"
    "ld_transportPrivateKey ml = keyFromSeed K ''x25519'' mseed"
  shows "\<exists>cs. deal_commits E B ex2 (ceremony_threshold S) packet cs \<and>
    (eqm (params_r B) (peval cs (index_of me)) 0 \<or> accept_deal E B N K ps dealers expected ml me packet = Inr ())"
  using assms by (rule honest_deal_accepted)

theorem createDealBundle_accepted_witness:
  "\<exists>s' packet state. createDealBundle dkg_ethers sample_bls sample_node dkg_crypto dkg_session (dkg_keystore 1 ''aa'') ''pw'' 1024
     (replicate 288 1) = (s', Inr (packet, state)) \<and>
   accept_deal dkg_ethers sample_bls sample_node dkg_crypto dkg_members dkg_members dkg_expected (dkg_loaded 2) (dkg_member 2 ''bb'') packet = Inr ()"
proof -
  obtain s' packet state where run: "createDealBundle dkg_ethers sample_bls sample_node dkg_crypto dkg_session (dkg_keystore 1 ''aa'') ''pw'' 1024
     (replicate 288 1) = (s', Inr (packet, state))"
    and coms: "jget (jget packet ''body'') ''commitments'' = JArr [JStr (dkg_key 1), JStr (dkg_key 1)]"
    using dkg_makes_deal by blast
  have pid: "jget (dkg_keystore 1 ''aa'') ''participantId'' = JStr ''aa''" by (simp add: dkg_keystore_def)
  have setting: "validateRoster dkg_ethers (se_roster dkg_session) (se_threshold dkg_session) = Inr dkg_members"
    "dealer_roster dkg_ethers dkg_session = Inr dkg_members" "dealers_given dkg_session"
    "applicable_dealer dkg_session dkg_members (jget (dkg_keystore 1 ''aa'') ''participantId'') = Inr (dkg_member 1 ''aa'')"
    "own_participant (dkg_keystore 2 ''bb'') dkg_members ''absent'' = Inr (dkg_member 2 ''bb'')"
    by code_simp+
  have r: "params_r sample_bls = 7" by (simp add: sample_bls_def)
  obtain cs where cs: "deal_commits dkg_ethers sample_bls sample_ex (ceremony_threshold dkg_session) packet cs"
    "eqm (params_r sample_bls) (peval cs (index_of (dkg_member 2 ''bb''))) 0 \<or>
     accept_deal dkg_ethers sample_bls sample_node dkg_crypto dkg_members dkg_members dkg_expected (dkg_loaded 2) (dkg_member 2 ''bb'') packet = Inr ()"
    using createDealBundle_accepted [OF dkg_hex_laws sample_bls_laws sample_zero_multiple _ dkg_key_laws dkg_gcm_laws dkg_signature_laws setting(1)
        dkg_expected_fields setting(3,2) run _ setting(4) _ _ setting(5), of "dkg_loaded 1" "low_byte 32 1" "low_byte 32 2" "dkg_loaded 2"]
    by (auto simp: r dkg_keystore_loads dkg_loaded_def dkg_seed_key dkg_member_def index_of_def)
  have one: "c mod 7 = 1" if "commits dkg_ethers sample_bls sample_ex (JStr (dkg_key 1)) c" for c
    using that dkg_commitment [of 1 "[]"] by (simp add: commits_def sample_ex_def)
  have "ceremony_threshold dkg_session = 2" by (simp add: ceremony_threshold_def dkg_session_def)
  then obtain c d where "cs = [c, d]" "c mod 7 = 1" "d mod 7 = 1"
    using cs(1) coms one by (auto simp: deal_commits_def list_all2_Cons1)
  then have "peval cs 2 mod 7 = 3" by simp presburger
  then have "\<not> eqm 7 (peval cs 2) 0" by (simp add: eqm_mod)
  then show ?thesis using cs(2) run r by (auto simp: index_of_def dkg_member_def)
qed

text \<open>
  C30: A response is well formed and says what its signer checked. When the dealer ids of the deals are distinct, non-empty texts and the signer's key store holds the
  identity key of its roster entry, what \<open>createResponseBundle\<close> returns passes \<open>validateResponsePacket\<close> at every other participant, and it complains
  about a dealer exactly when the signer's own check of that deal failed. (Two deals of one dealer would put one dealer id twice into the response, which the others refuse.)
\<close>

theorem createResponseBundle_validates:
  assumes "hex_laws E" "signature_laws N K" "order_laws K" "primitive (se_epoch S)"
    "validateRoster E (se_roster S) (se_threshold S) = Inr ps" "expected_fields E S = Inr expected" "dealer_roster E S = Inr dealers"
    "createResponseBundle E B N K S ks pw deals = Inr response"
    "loadKeystore E K ks pw = Inr ml" "own_participant ks ps ''response signer is not in the new roster'' = Inr me"
    "jget me ''identityPublicKey'' = JStr (rawPublicKey E K (publicOf K (keyFromSeed K ''ed25519'' seed)))"
    "ld_identityPrivateKey ml = keyFromSeed K ''ed25519'' seed"
    "map (\<lambda>deal. jget (jget deal ''body'') ''dealerId'') deals = map JStr names" "distinct names" "[] \<notin> set names"
  shows "validateResponsePacket E N response ps expected = Inr (jget response ''body'') \<and>
    (\<forall>deal \<in> set deals. complains (jget (jget deal ''body'') ''dealerId'') (jget response ''body'') \<longleftrightarrow>
      accept_deal E B N K ps dealers expected ml me deal \<noteq> Inr ())"
  using assms by (rule response_validates)

theorem createResponseBundle_validates_witness:
  "\<exists>response. createResponseBundle dkg_ethers sample_bls sample_node dkg_crypto dkg_session (dkg_keystore 2 ''bb'') ''pw'' dkg_deals = Inr response \<and>
    validateResponsePacket dkg_ethers sample_node response dkg_members dkg_expected = Inr (jget response ''body'')"
proof -
  obtain response where run: "createResponseBundle dkg_ethers sample_bls sample_node dkg_crypto dkg_session (dkg_keystore 2 ''bb'') ''pw'' dkg_deals = Inr response"
    using dkg_responds ..
  have setting: "validateRoster dkg_ethers (se_roster dkg_session) (se_threshold dkg_session) = Inr dkg_members"
    "dealer_roster dkg_ethers dkg_session = Inr dkg_members"
    "own_participant (dkg_keystore 2 ''bb'') dkg_members ''response signer is not in the new roster'' = Inr (dkg_member 2 ''bb'')"
    by code_simp+
  have "primitive (se_epoch dkg_session)" by (simp add: dkg_session_def)
  from createResponseBundle_validates [OF dkg_hex_laws dkg_signature_laws dkg_order_laws this setting(1) dkg_expected_fields setting(2) run
      _ setting(3), of "dkg_loaded 2" "low_byte 32 2" "[''aa'', ''bb'']"] run
  show ?thesis by (auto simp: dkg_keystore_loads dkg_loaded_def dkg_seed_key dkg_member_def dkg_deals_def dkg_deal_def)
qed

end
