(* ===== verification/Compact_Witness.thy ===== *)
theory Compact_Witness
  imports Threshold_Node Ecvrf_Proof Archiver
begin

section \<open>Compact request witnesses (operator/compact-protocol.mjs)\<close>

text \<open>
  The V3 coordinator stores only a hash of each request; whoever acts on a request supplies all its 27 fields, the witness. This
  theory models the normal form of a witness, its serialisation, the request id and the commitment, and the check of a request's event history
  (\<open>validateCompactTransitions\<close>), which is shown to accept exactly the runs of the request's life cycle. ABI encoding is a parameter.
\<close>

subsection \<open>Fields\<close>

text \<open>A value of a witness: a \<open>bigint\<close> (from an event) or a value that JSON has (from a request body).\<close>

datatype cvalue = CBig int | CJson json

type_synonym witness = "(string \<times> cvalue) list"

definition COMPACT_FIELDS :: "(string \<times> string) list" where
  "COMPACT_FIELDS = [
    (''address'', ''consumer''), (''address'', ''verifier''), (''bytes32'', ''verifierCodeHash''),
    (''address'', ''fulfiller''), (''address'', ''payee''), (''bytes32'', ''keyHash''),
    (''uint256'', ''subscriptionId''), (''uint256'', ''preSeed''), (''uint256'', ''reservedPayment''),
    (''uint256'', ''randomness''), (''uint96'', ''minimumFeeWei''), (''uint64'', ''requestBlock''),
    (''uint64'', ''expiresAtBlock''), (''uint64'', ''maxGasPriceWei''), (''uint32'', ''verificationGasLimit''),
    (''uint32'', ''proofDataLength''), (''uint32'', ''callbackGasLimit''), (''uint32'', ''numWords''),
    (''uint32'', ''callbackAttempts''), (''uint32'', ''fulfillmentOverheadGas''), (''uint16'', ''confirmations''),
    (''uint16'', ''premiumBps''), (''uint16'', ''operatorPremiumShareBps''), (''uint8'', ''status''),
    (''bool'', ''sponsored''), (''bool'', ''waiveMinimumFee''), (''bool'', ''callbackSucceeded'')]"

definition mutable :: "string list" where
  "mutable = [''status'', ''randomness'', ''callbackAttempts'', ''callbackSucceeded'']"

definition get :: "witness \<Rightarrow> string \<Rightarrow> cvalue" where
  "get w name = (case map_of w name of Some v \<Rightarrow> v | None \<Rightarrow> CJson JUndefined)"

text \<open>The text of a number without leading zeros.\<close>

definition plain_number :: "string \<Rightarrow> bool" where
  "plain_number s \<longleftrightarrow> s = ''0'' \<or> s \<noteq> [] \<and> hd s \<noteq> CHR ''0'' \<and> list_all isDigit s"

definition number_text :: "cvalue \<Rightarrow> string option" where
  "number_text v = (case v of
     CBig n \<Rightarrow> Some (showInt n)
   | CJson (JInt n) \<Rightarrow> if isSafeInteger n then Some (showInt n) else None
   | CJson (JStr s) \<Rightarrow> Some s
   | _ \<Rightarrow> None)"

definition type_width :: "string \<Rightarrow> nat" where
  "type_width type = digits_value (drop 4 type) 0"

definition normalizeField :: "ethers \<Rightarrow> string \<times> string \<Rightarrow> cvalue \<Rightarrow> (string \<times> cvalue) result" where
  "normalizeField E tn input = (case tn of (type, name) \<Rightarrow>
     if type = ''address'' then (case input of
         CJson (JStr s) \<Rightarrow> bindR (getAddress E s) (\<lambda>a. Inr (name, CJson (JStr (toLowerCase a))))
       | _ \<Rightarrow> Inl ''invalid address'')
     else if type = ''bytes32'' then (case input of
         CJson (JStr s) \<Rightarrow> if hex_text 64 s then Inr (name, CJson (JStr (toLowerCase s))) else Inl (''invalid '' @ name)
       | _ \<Rightarrow> Inl (''invalid '' @ name))
     else if type = ''bool'' then (case input of
         CJson (JBool b) \<Rightarrow> Inr (name, CJson (JBool b))
       | _ \<Rightarrow> Inl (''invalid '' @ name))
     else (case number_text input of
         None \<Rightarrow> Inl (''invalid '' @ name)
       | Some s \<Rightarrow> if \<not> plain_number s then Inl (''invalid '' @ name)
           else if digits_value s 0 \<ge> 2 ^ type_width type then Inl (''out of range '' @ name)
           else Inr (name, CBig (int (digits_value s 0)))))"

text \<open>The value to normalise: an object's fields, or anything else.\<close>

definition normalizeCompactWitness :: "ethers \<Rightarrow> witness option \<Rightarrow> witness result" where
  "normalizeCompactWitness E value = (case value of
     None \<Rightarrow> Inl ''compact witness must contain exactly 27 named fields''
   | Some fs \<Rightarrow> if join (sort (map fst fs)) \<noteq> join (sort (map snd COMPACT_FIELDS))
       then Inl ''compact witness must contain exactly 27 named fields''
       else mapR (\<lambda>tn. normalizeField E tn (get fs (snd tn))) COMPACT_FIELDS)"

definition serializeCompactWitness :: "ethers \<Rightarrow> witness option \<Rightarrow> fields result" where
  "serializeCompactWitness E value = bindR (normalizeCompactWitness E value) (\<lambda>w.
     Inr (map (\<lambda>(k, v). (k, case v of CBig n \<Rightarrow> JStr (showInt n) | CJson j \<Rightarrow> j)) w))"

definition fingerprint :: "ethers \<Rightarrow> witness option \<Rightarrow> string result" where
  "fingerprint E value = bindR (serializeCompactWitness E value) (\<lambda>fs. Inr (JSON_stringify (JObj fs)))"

text \<open>The ABI coder.\<close>

record compact_coder =
  cc_uint256 :: "int \<Rightarrow> bytes"
  cc_commitment :: "string \<Rightarrow> int \<Rightarrow> string \<Rightarrow> witness \<Rightarrow> bytes result"

definition COMPACT_DOMAIN :: "ethers \<Rightarrow> string" where
  "COMPACT_DOMAIN E = keccak256 E (toUtf8Bytes E ''ROBINHOOD_VRF_COMPACT_REQUEST_V3'')"

definition big :: "cvalue \<Rightarrow> int" where
  "big v = (case v of CBig n \<Rightarrow> n | CJson _ \<Rightarrow> 0)"

definition compactRequestId :: "ethers \<Rightarrow> 'x compact_coder_scheme \<Rightarrow> witness option \<Rightarrow> int result" where
  "compactRequestId E C value = bindR (normalizeCompactWitness E value) (\<lambda>w.
     hashBig E (cc_uint256 C (big (get w ''preSeed''))))"

definition compactCommitment :: "ethers \<Rightarrow> 'x compact_coder_scheme \<Rightarrow> witness option \<Rightarrow> int \<Rightarrow> string \<Rightarrow> string result" where
  "compactCommitment E C value chainId coordinatorAddress = bindR (normalizeCompactWitness E value) (\<lambda>w.
     bindR (cc_commitment C (COMPACT_DOMAIN E) chainId coordinatorAddress w) (\<lambda>b. Inr (keccak256 E b)))"

subsection \<open>Histories\<close>

definition truth :: "cvalue \<Rightarrow> bool" where
  "truth v = (case v of CBig n \<Rightarrow> n \<noteq> 0 | CJson j \<Rightarrow> truthy j)"

definition creation :: "witness \<Rightarrow> bool" where
  "creation w \<longleftrightarrow> get w ''status'' = CBig 1 \<and> get w ''randomness'' = CBig 0 \<and> get w ''callbackAttempts'' = CBig 0 \<and>
     \<not> truth (get w ''callbackSucceeded'')"

definition changed_field :: "witness \<Rightarrow> witness \<Rightarrow> bool" where
  "changed_field first next \<longleftrightarrow> list_ex (\<lambda>(type, name). name \<notin> set mutable \<and> get next name \<noteq> get first name) COMPACT_FIELDS"

definition fulfilled_step :: "witness \<Rightarrow> witness \<Rightarrow> bool" where
  "fulfilled_step previous next \<longleftrightarrow> get previous ''status'' = CBig 1 \<and> get next ''status'' = CBig 2 \<and>
     get next ''callbackAttempts'' = CBig 1"

definition expired_step :: "witness \<Rightarrow> witness \<Rightarrow> bool" where
  "expired_step previous next \<longleftrightarrow> get previous ''status'' = CBig 1 \<and> get next ''status'' = CBig 3 \<and>
     get next ''callbackAttempts'' = CBig 0 \<and> get next ''randomness'' = CBig 0 \<and> \<not> truth (get next ''callbackSucceeded'')"

definition retried_step :: "witness \<Rightarrow> witness \<Rightarrow> bool" where
  "retried_step previous next \<longleftrightarrow> get previous ''status'' = CBig 2 \<and> \<not> truth (get previous ''callbackSucceeded'') \<and>
     get next ''status'' = CBig 2 \<and> get next ''randomness'' = get previous ''randomness'' \<and>
     get next ''callbackAttempts'' = CBig (big (get previous ''callbackAttempts'') + 1)"

fun check_transitions :: "witness \<Rightarrow> witness \<Rightarrow> witness list \<Rightarrow> witness result" where
  "check_transitions first previous [] = Inr previous"
| "check_transitions first previous (next # rest) =
     (if changed_field first next then Inl ''compact transition changed immutable fields''
      else if \<not> fulfilled_step previous next \<and> \<not> expired_step previous next \<and> \<not> retried_step previous next
      then Inl ''missing or invalid compact state transition''
      else check_transitions first next rest)"

definition validateCompactTransitions :: "ethers \<Rightarrow> witness option list \<Rightarrow> witness result" where
  "validateCompactTransitions E values = (if values = [] then Inl ''missing compact request creation event''
     else bindR (mapR (normalizeCompactWitness E) values) (\<lambda>states.
       if \<not> creation (hd states) then Inl ''missing or invalid compact request creation event''
       else check_transitions (hd states) (hd states) (tl states)))"

subsection \<open>Normal forms\<close>

definition value_ok :: "ethers \<Rightarrow> string \<Rightarrow> cvalue \<Rightarrow> bool" where
  "value_ok E type v \<longleftrightarrow> (if type = ''address'' then \<exists>s a. getAddress E s = Inr a \<and> v = CJson (JStr (toLowerCase a))
     else if type = ''bytes32'' then \<exists>s. hex_text 64 s \<and> v = CJson (JStr (toLowerCase s))
     else if type = ''bool'' then \<exists>b. v = CJson (JBool b)
     else \<exists>n. 0 \<le> n \<and> n < 2 ^ type_width type \<and> v = CBig n)"

definition witness_ok :: "ethers \<Rightarrow> witness \<Rightarrow> bool" where
  "witness_ok E w \<longleftrightarrow> list_all2 (\<lambda>tn kv. fst kv = snd tn \<and> value_ok E (fst tn) (snd kv)) COMPACT_FIELDS w"

text \<open>\<open>address_law\<close>: a lower-cased address is an address with the same lower-case text.\<close>

definition address_law :: "ethers \<Rightarrow> bool" where
  "address_law E \<longleftrightarrow> (\<forall>s a. getAddress E s = Inr a \<longrightarrow> (\<exists>b. getAddress E (toLowerCase a) = Inr b \<and> toLowerCase b = toLowerCase a))"

lemma plain_number_digits: "plain_number (digits_nat n)"
proof -
  have "hd (digits_nat k) \<noteq> CHR ''0''" if "k \<noteq> 0" for k
    using that
  proof (induction k rule: digits_nat.induct)
    case (1 k)
    then show ?case
      by (cases "k < 10") (auto simp: digits_nat.simps [of k] char_of_eq_iff of_char_def take_bit_nat_def dest!: arg_cong [of _ _ "of_char :: char \<Rightarrow> nat"])
  qed
  moreover have "digits_nat 0 = ''0''" by code_simp
  ultimately show ?thesis using digits_nat_digits [of n] by (cases "n = 0") (auto simp: plain_number_def list_all_iff)
qed

lemma hexValue_lower: "hexValue (toLowerChar c) \<noteq> None \<longleftrightarrow> hexValue c \<noteq> None"
proof -
  have "(of_char (toLowerChar c) :: nat) = (let n = of_char c in if 65 \<le> n \<and> n \<le> 90 then n + 32 else n)"
    by (simp add: toLowerChar_def Let_def)
  then show ?thesis by (auto simp: hexValue_def Let_def)
qed

lemma hex_text_lower:
  assumes "hex_text n s" shows "hex_text n (toLowerCase s)"
proof -
  have "take 2 (toLowerCase s) = ''0x''"
  proof -
    have "map toLowerChar ''0x'' = ''0x''" "map toLowerChar ''0X'' = ''0x''" by code_simp+
    then show ?thesis using assms by (auto simp: hex_text_def toLowerCase_def take_map)
  qed
  then show ?thesis using assms by (simp add: hex_text_def toLowerCase_def drop_map hexValue_lower del: not_None_eq)
qed

lemma normalizeField_Inr:
  "normalizeField E tn v = Inr kv \<Longrightarrow> fst kv = snd tn \<and> value_ok E (fst tn) (snd kv)"
  by (auto simp: normalizeField_def value_ok_def result_simps split: prod.splits cvalue.splits json.splits if_splits option.splits) blast+

lemma normalizeCompactWitness_Inr:
  assumes "normalizeCompactWitness E value = Inr w"
  shows "witness_ok E w"
  using assms
  by (auto simp: normalizeCompactWitness_def witness_ok_def mapR_Inr_iff split: option.splits if_splits
      elim!: list_all2_mono dest!: normalizeField_Inr)

lemma COMPACT_FIELDS_distinct: "distinct (map snd COMPACT_FIELDS)" "length COMPACT_FIELDS = 27"
  by code_simp+

lemma witness_names: "list_all2 (\<lambda>tn kv. fst kv = snd tn \<and> P tn kv) F w \<Longrightarrow> map fst w = map snd F"
  by (induction rule: list_all2_induct) auto

text \<open>The two forms of a value: as normalised and as serialised.\<close>

definition plain :: "cvalue \<Rightarrow> json" where
  "plain v = (case v of CBig n \<Rightarrow> JStr (showInt n) | CJson j \<Rightarrow> j)"

lemma normalizeField_again:
  assumes "address_law E" "value_ok E type v"
  shows "normalizeField E (type, name) v = Inr (name, v)" "normalizeField E (type, name) (CJson (plain v)) = Inr (name, v)"
proof -
  have a: "bindR (getAddress E (toLowerCase a)) (\<lambda>a. Inr (name, CJson (JStr (toLowerCase a)))) = Inr (name, CJson (JStr (toLowerCase a)))"
    if "getAddress E s = Inr a" for s a
    using assms(1) that unfolding address_law_def by fastforce
  have n: "plain_number (showInt n)" "int (digits_value (showInt n) 0) = n" "digits_value (showInt n) 0 < 2 ^ k \<longleftrightarrow> n < 2 ^ k"
    if "0 \<le> n" for n :: int and k :: nat
  proof -
    have s: "showInt n = digits_nat (nat n)" using that by (simp add: showInt_def)
    show "plain_number (showInt n)" "int (digits_value (showInt n) 0) = n"
      using that by (simp_all add: s plain_number_digits digits_value_nat)
    show "digits_value (showInt n) 0 < 2 ^ k \<longleftrightarrow> n < 2 ^ k"
      using that by (simp add: s digits_value_nat nat_less_iff)
  qed
  show "normalizeField E (type, name) v = Inr (name, v)" "normalizeField E (type, name) (CJson (plain v)) = Inr (name, v)"
    using assms(2) a hex_text_lower n
    by (auto simp: normalizeField_def value_ok_def plain_def number_text_def toLowerCase_idem not_le [symmetric] split: if_splits)
qed

lemma get_member: "map fst w = map snd COMPACT_FIELDS \<Longrightarrow> (k, v) \<in> set w \<Longrightarrow> get w k = v"
proof -
  assume names: "map fst w = map snd COMPACT_FIELDS" and kv: "(k, v) \<in> set w"
  have "distinct (map fst w)" using COMPACT_FIELDS_distinct(1) by (simp only: names)
  then show "get w k = v" using kv by (simp add: get_def map_of_is_SomeI)
qed

lemma normalize_values:
  assumes w: "witness_ok E w" and g: "\<And>type name v. value_ok E type v \<Longrightarrow> normalizeField E (type, name) (g v) = Inr (name, v)"
  shows "normalizeCompactWitness E (Some (map (\<lambda>(k, v). (k, g v)) w)) = Inr w"
proof -
  let ?w = "map (\<lambda>(k, v). (k, g v)) w"
  have names: "map fst w = map snd COMPACT_FIELDS" using w unfolding witness_ok_def by (rule witness_names)
  then have names': "map fst ?w = map snd COMPACT_FIELDS" by (simp add: case_prod_unfold comp_def)
  have "list_all2 (\<lambda>tn kv. normalizeField E tn (get ?w (snd tn)) = Inr kv) COMPACT_FIELDS w"
  proof (rule list_all2_all_nthI)
    show "length COMPACT_FIELDS = length w" using w by (simp add: witness_ok_def list_all2_lengthD)
  next
    fix n assume n: "n < length COMPACT_FIELDS"
    then have "fst (w ! n) = snd (COMPACT_FIELDS ! n)" "value_ok E (fst (COMPACT_FIELDS ! n)) (snd (w ! n))" "n < length w"
      using w by (auto simp: witness_ok_def list_all2_conv_all_nth)
    moreover from this have "get ?w (fst (w ! n)) = g (snd (w ! n))"
      by (intro get_member [OF names']) (force simp: case_prod_unfold intro!: image_eqI [of _ _ "w ! n"])
    ultimately show "normalizeField E (COMPACT_FIELDS ! n) (get ?w (snd (COMPACT_FIELDS ! n))) = Inr (w ! n)"
      using g [of "fst (COMPACT_FIELDS ! n)" "snd (w ! n)" "snd (COMPACT_FIELDS ! n)"] by simp (metis prod.collapse)
  qed
  then show ?thesis using names' by (simp add: normalizeCompactWitness_def mapR_Inr_iff)
qed

definition from_json :: "fields \<Rightarrow> witness" where
  "from_json fs = map (\<lambda>(k, j). (k, CJson j)) fs"

lemma normalize_again:
  assumes "address_law E" "witness_ok E w"
  shows "normalizeCompactWitness E (Some w) = Inr w"
    "normalizeCompactWitness E (Some (from_json (map (\<lambda>(k, v). (k, plain v)) w))) = Inr w"
proof -
  have "normalizeCompactWitness E (Some (map (\<lambda>(k, v). (k, id v)) w)) = Inr w"
    by (rule normalize_values [OF assms(2)]) (simp add: normalizeField_again(1) [OF assms(1)])
  then show "normalizeCompactWitness E (Some w) = Inr w" by simp
  have "normalizeCompactWitness E (Some (map (\<lambda>(k, v). (k, CJson (plain v))) w)) = Inr w"
    by (rule normalize_values [OF assms(2)]) (simp add: normalizeField_again(2) [OF assms(1)])
  then show "normalizeCompactWitness E (Some (from_json (map (\<lambda>(k, v). (k, plain v)) w))) = Inr w"
    by (simp add: from_json_def case_prod_unfold comp_def)
qed

lemma serialize_Inr:
  "serializeCompactWitness E value = Inr fs \<longleftrightarrow>
     (\<exists>w. normalizeCompactWitness E value = Inr w \<and> fs = map (\<lambda>(k, v). (k, plain v)) w)"
  by (auto simp: serializeCompactWitness_def result_simps plain_def)

text \<open>A fingerprint identifies a witness.\<close>

lemma witness_has_text:
  assumes "witness_ok E u" shows "has_text (JObj (map (\<lambda>(k, v). (k, plain v)) u))"
proof -
  have "has_text (plain v)" if "value_ok E type v" for type v
    using that by (auto simp: value_ok_def plain_def split: if_splits)
  then have "\<forall>kv \<in> set u. has_text (plain (snd kv))"
    using assms unfolding witness_ok_def by (fastforce simp: list_all2_conv_all_nth in_set_conv_nth)
  then show ?thesis by (auto simp: has_text.simps)
qed

text \<open>So does the text of the serialised normal form.\<close>

lemma witness_text_inj:
  assumes "address_law E" "witness_ok E u" "witness_ok E v"
    and "JSON_stringify (JObj (map (\<lambda>(k, v). (k, plain v)) u)) = JSON_stringify (JObj (map (\<lambda>(k, v). (k, plain v)) v))"
  shows "u = v"
proof -
  note h = witness_has_text [OF assms(2)] witness_has_text [OF assms(3)]
  have "JObj (map (\<lambda>(k, v). (k, plain v)) u) = JObj (map (\<lambda>(k, v). (k, plain v)) v)"
    using text_unique [OF h, of "[]" "[]"] assms(4) JSON_stringify_text [OF h(1)] JSON_stringify_text [OF h(2)] by simp
  then have "from_json (map (\<lambda>(k, v). (k, plain v)) u) = from_json (map (\<lambda>(k, v). (k, plain v)) v)" by simp
  then have "Inr u = (Inr v :: witness result)"
    using normalize_again(2) [OF assms(1,2)] normalize_again(2) [OF assms(1,3)] by metis
  then show ?thesis by simp
qed

lemma fingerprint_inj:
  assumes "address_law E" "fingerprint E (Some v) = Inr t" "fingerprint E (Some v') = Inr t"
  shows "normalizeCompactWitness E (Some v) = normalizeCompactWitness E (Some v')"
proof -
  obtain w w' where w: "normalizeCompactWitness E (Some v) = Inr w" "normalizeCompactWitness E (Some v') = Inr w'"
    and t: "t = JSON_stringify (JObj (map (\<lambda>(k, v). (k, plain v)) w))" "t = JSON_stringify (JObj (map (\<lambda>(k, v). (k, plain v)) w'))"
    using assms(2,3) by (auto simp: fingerprint_def result_simps serialize_Inr)
  have "w = w'"
    using witness_text_inj [OF assms(1) normalizeCompactWitness_Inr [OF w(1)] normalizeCompactWitness_Inr [OF w(2)]] t by simp
  then show ?thesis using w by simp
qed

subsection \<open>The life cycle of a request\<close>

text \<open>A request is created, then either fulfilled or expired; a failed callback may be retried with the same randomness.\<close>

datatype phase = CPending | CFulfilled int int bool | CExpired

inductive request_step :: "phase \<Rightarrow> phase \<Rightarrow> bool" where
  fulfil: "request_step CPending (CFulfilled randomness 1 succeeded)"
| expire: "request_step CPending CExpired"
| retry: "request_step (CFulfilled randomness attempts False) (CFulfilled randomness (attempts + 1) succeeded)"

inductive lifecycle_run :: "phase \<Rightarrow> phase list \<Rightarrow> bool" where
  stop: "lifecycle_run p []"
| step: "request_step p q \<Longrightarrow> lifecycle_run q phs \<Longrightarrow> lifecycle_run p (q # phs)"

inductive_simps request_step_simps:
  "request_step CPending q" "request_step CExpired q" "request_step (CFulfilled r n s) q"
inductive_simps lifecycle_run_simps: "lifecycle_run p []" "lifecycle_run p (q # phs)"

text \<open>Which phase a witness shows.\<close>

fun in_phase :: "witness \<Rightarrow> phase \<Rightarrow> bool" where
  "in_phase w CPending \<longleftrightarrow> creation w"
| "in_phase w (CFulfilled r n s) \<longleftrightarrow> get w ''status'' = CBig 2 \<and> get w ''randomness'' = CBig r \<and>
     get w ''callbackAttempts'' = CBig n \<and> truth (get w ''callbackSucceeded'') = s"
| "in_phase w CExpired \<longleftrightarrow> get w ''status'' = CBig 3 \<and> get w ''callbackAttempts'' = CBig 0 \<and> get w ''randomness'' = CBig 0 \<and>
     \<not> truth (get w ''callbackSucceeded'')"

definition immutable_part :: "witness \<Rightarrow> cvalue list" where
  "immutable_part w = map (get w) (filter (\<lambda>name. name \<notin> set mutable) (map snd COMPACT_FIELDS))"

lemma changed_field_iff: "changed_field a b \<longleftrightarrow> immutable_part b \<noteq> immutable_part a"
  by (auto simp: changed_field_def immutable_part_def list_ex_iff case_prod_unfold)

lemma get_value:
  assumes w: "witness_ok E w" and tn: "(type, name) \<in> set COMPACT_FIELDS"
  shows "value_ok E type (get w name)"
proof -
  have names: "map fst w = map snd COMPACT_FIELDS" using w unfolding witness_ok_def by (rule witness_names)
  obtain n where n: "n < length COMPACT_FIELDS" "COMPACT_FIELDS ! n = (type, name)" using tn by (auto simp: in_set_conv_nth)
  then have v: "fst (w ! n) = name" "value_ok E type (snd (w ! n))" "n < length w"
    using w by (auto simp: witness_ok_def list_all2_conv_all_nth)
  then have "(name, snd (w ! n)) \<in> set w" by (metis nth_mem prod.collapse)
  then show ?thesis using get_member [OF names] v(2) by simp
qed

lemma get_numbers:
  assumes "witness_ok E w"
  shows "\<exists>n \<ge> 0. get w ''randomness'' = CBig n" "\<exists>n \<ge> 0. get w ''callbackAttempts'' = CBig n"
proof -
  have "(''uint256'', ''randomness'') \<in> set COMPACT_FIELDS" "(''uint32'', ''callbackAttempts'') \<in> set COMPACT_FIELDS"
    by code_simp+
  note get_value [OF assms this(1)] get_value [OF assms this(2)]
  then show "\<exists>n \<ge> 0. get w ''randomness'' = CBig n" "\<exists>n \<ge> 0. get w ''callbackAttempts'' = CBig n"
    by (auto simp: value_ok_def)
qed

lemma ex_phase: "(\<exists>q. P q) \<longleftrightarrow> P CPending \<or> (\<exists>r n s. P (CFulfilled r n s)) \<or> P CExpired"
  by (metis phase.exhaust)

lemma ex_run:
  "(\<exists>phs. list_all2 in_phase (u # rest) phs \<and> lifecycle_run p phs) \<longleftrightarrow>
     (\<exists>q. in_phase u q \<and> request_step p q \<and> (\<exists>phs. list_all2 in_phase rest phs \<and> lifecycle_run q phs))"
proof
  assume "\<exists>phs. list_all2 in_phase (u # rest) phs \<and> lifecycle_run p phs"
  then obtain q phs where "in_phase u q" "list_all2 in_phase rest phs" "lifecycle_run p (q # phs)"
    by (auto simp: list_all2_Cons1)
  then show "\<exists>q. in_phase u q \<and> request_step p q \<and> (\<exists>phs. list_all2 in_phase rest phs \<and> lifecycle_run q phs)"
    unfolding lifecycle_run_simps by blast
qed (blast intro: step list_all2_Cons [THEN iffD2])

text \<open>The code's three transitions are the steps of the life cycle.\<close>

lemma transition_step:
  assumes "witness_ok E next" "in_phase previous p"
  shows "fulfilled_step previous next \<or> expired_step previous next \<or> retried_step previous next \<longleftrightarrow>
    (\<exists>q. in_phase next q \<and> request_step p q)"
proof -
  obtain r n where "get next ''randomness'' = CBig r" "get next ''callbackAttempts'' = CBig n" using get_numbers [OF assms(1)] by blast
  then show ?thesis using assms(2)
    unfolding ex_phase
    by (cases p) (auto simp: request_step_simps fulfilled_step_def expired_step_def retried_step_def creation_def big_def)
qed

lemma check_transitions_iff:
  assumes "\<forall>u \<in> set rest. witness_ok E u" "in_phase previous p"
  shows "check_transitions first previous rest = Inr w \<longleftrightarrow> w = last (previous # rest) \<and>
    (\<forall>u \<in> set rest. immutable_part u = immutable_part first) \<and> (\<exists>phs. list_all2 in_phase rest phs \<and> lifecycle_run p phs)"
  using assms
proof (induction rest arbitrary: previous p)
  case Nil
  then show ?case by (auto intro: stop)
next
  case (Cons u rest)
  have ok: "witness_ok E u" "\<forall>u \<in> set rest. witness_ok E u" using Cons.prems(1) by simp_all
  note step = transition_step [OF ok(1) Cons.prems(2)] and IH = Cons.IH [OF ok(2)]
  have "check_transitions first previous (u # rest) = Inr w \<longleftrightarrow> immutable_part u = immutable_part first \<and>
      (\<exists>q. in_phase u q \<and> request_step p q) \<and> check_transitions first u rest = Inr w"
    using step by (auto simp: changed_field_iff)
  also have "\<dots> \<longleftrightarrow> immutable_part u = immutable_part first \<and>
      (\<exists>q. in_phase u q \<and> request_step p q \<and> check_transitions first u rest = Inr w)" by blast
  also have "\<dots> \<longleftrightarrow> immutable_part u = immutable_part first \<and> (\<exists>q. in_phase u q \<and> request_step p q \<and> w = last (u # rest) \<and>
      (\<forall>u \<in> set rest. immutable_part u = immutable_part first) \<and> (\<exists>phs. list_all2 in_phase rest phs \<and> lifecycle_run q phs))"
    using IH by blast
  also have "\<dots> \<longleftrightarrow> w = last (previous # u # rest) \<and> (\<forall>u \<in> set (u # rest). immutable_part u = immutable_part first) \<and>
      (\<exists>phs. list_all2 in_phase (u # rest) phs \<and> lifecycle_run p phs)"
    unfolding ex_run by auto
  finally show ?case .
qed

text \<open>Where a run can end: the length of a history is determined by its last state.\<close>

lemma lifecycle_run_end:
  "lifecycle_run p phs \<Longrightarrow> (case p of CPending \<Rightarrow> (case last (p # phs) of CPending \<Rightarrow> phs = []
      | CFulfilled r n s \<Rightarrow> n = int (length phs) \<and> phs \<noteq> [] | CExpired \<Rightarrow> length phs = 1)
    | CFulfilled r n s \<Rightarrow> (\<exists>s'. last (p # phs) = CFulfilled r (n + int (length phs)) s' \<and> (s \<longrightarrow> phs = []))
    | CExpired \<Rightarrow> phs = [])"
proof (induction rule: lifecycle_run.induct)
  case (stop p)
  then show ?case by (cases p) auto
next
  case (step p q phs)
  from step(1) show ?case
    by (cases rule: request_step.cases) (use step in \<open>auto split: phase.splits if_splits\<close>)
qed

subsection \<open>Sample witnesses\<close>

definition sample_value :: "string \<Rightarrow> cvalue" where
  "sample_value type = (if type = ''address'' then CJson (JStr (sample_hex 20 1))
     else if type = ''bytes32'' then CJson (JStr (sample_hex 32 1))
     else if type = ''bool'' then CJson (JBool False) else CBig 0)"

definition sample_compact :: "(string \<times> cvalue) list \<Rightarrow> witness" where
  "sample_compact changes = map (\<lambda>(type, name).
     (name, case map_of changes name of Some v \<Rightarrow> v | None \<Rightarrow> sample_value type)) COMPACT_FIELDS"

lemma hexPairs_lower: "hexPairs (map toLowerChar s) = hexPairs s"
proof -
  have "hexValue (toLowerChar c) = hexValue c" for c
  proof -
    have "(of_char (toLowerChar c) :: nat) = (let n = of_char c in if 65 \<le> n \<and> n \<le> 90 then n + 32 else n)"
      by (simp add: toLowerChar_def Let_def)
    then show ?thesis by (auto simp: hexValue_def Let_def)
  qed
  then show ?thesis by (induction s rule: hexPairs.induct) (auto split: option.splits)
qed

lemma sample_address_law: "address_law sample_ethers"
proof -
  have "sample_getBytes (toLowerCase s) = sample_getBytes s" if "isOk (sample_getBytes s)" for s
  proof -
    have "map toLowerChar ''0x'' = ''0x''" by code_simp
    then show ?thesis using that
      by (auto simp: sample_getBytes_def toLowerCase_def hexPairs_lower split: list.splits if_splits)
  qed
  then show ?thesis
    by (auto simp: address_law_def sample_ethers_def length_toLowerCase toLowerCase_idem split: if_splits)
qed

lemma sample_witness_ok:
  assumes "list_all (\<lambda>(type, name). (case map_of changes name of Some v \<Rightarrow> \<exists>n. 0 \<le> n \<and> n < 2 ^ 8 \<and> v = CBig n \<and> type \<in> {''uint256'', ''uint64'', ''uint32'', ''uint8''} | None \<Rightarrow> True)) COMPACT_FIELDS"
  shows "witness_ok sample_ethers (sample_compact changes)"
proof -
  have a: "getAddress sample_ethers (sample_hex 20 1) = Inr (sample_hex 20 1)" "toLowerCase (sample_hex 20 1) = sample_hex 20 1"
    "hex_text 64 (sample_hex 32 1)" "toLowerCase (sample_hex 32 1) = sample_hex 32 1" by code_simp+
  have default: "value_ok sample_ethers type (sample_value type)" for type
  proof -
    have "\<exists>s a. getAddress sample_ethers s = Inr a \<and> sample_hex 20 1 = toLowerCase a"
      by (intro exI [of _ "sample_hex 20 1"]) (simp only: a simp_thms)
    moreover have "\<exists>s. hex_text 64 s \<and> sample_hex 32 1 = toLowerCase s"
      by (intro exI [of _ "sample_hex 32 1"]) (simp only: a simp_thms)
    ultimately show ?thesis by (simp add: value_ok_def sample_value_def) (intro impI exI [of _ False], simp)
  qed
  have small: "value_ok sample_ethers type (CBig n)" if "0 \<le> n" "n < 2 ^ 8" "type \<in> {''uint256'', ''uint64'', ''uint32'', ''uint8''}" for type n
  proof -
    have "type_width ''uint256'' = 256" "type_width ''uint64'' = 64" "type_width ''uint32'' = 32" "type_width ''uint8'' = 8" by code_simp+
    then have "8 \<le> type_width type" using that(3) by auto
    then have "n < 2 ^ type_width type" using that(2) power_increasing [of 8 "type_width type" "2 :: int"] by linarith
    moreover have "type \<noteq> ''address''" "type \<noteq> ''bytes32''" "type \<noteq> ''bool''" using that(3) by auto
    ultimately show ?thesis using that(1) by (simp add: value_ok_def)
  qed
  have "value_ok sample_ethers type (case map_of changes name of Some v \<Rightarrow> v | None \<Rightarrow> sample_value type)"
    if "(type, name) \<in> set COMPACT_FIELDS" for type name
    using assms that default small by (fastforce simp: list_all_iff split: option.splits)
  then show ?thesis
    unfolding witness_ok_def sample_compact_def list_all2_map2 by (auto simp: list_all2_same case_prod_unfold)
qed

definition sample_created :: witness where
  "sample_created = sample_compact [(''status'', CBig 1), (''maxGasPriceWei'', CBig 5)]"

definition sample_fulfilled :: "int \<Rightarrow> witness" where
  "sample_fulfilled n = sample_compact [(''status'', CBig 2), (''maxGasPriceWei'', CBig 5), (''randomness'', CBig 5), (''callbackAttempts'', CBig n)]"

lemma sample_states:
  "normalizeCompactWitness sample_ethers (Some sample_created) = Inr sample_created"
  "0 \<le> n \<Longrightarrow> n < 256 \<Longrightarrow> normalizeCompactWitness sample_ethers (Some (sample_fulfilled n)) = Inr (sample_fulfilled n)"
proof -
  have "witness_ok sample_ethers sample_created" unfolding sample_created_def
    by (rule sample_witness_ok) (simp add: COMPACT_FIELDS_def)
  then show "normalizeCompactWitness sample_ethers (Some sample_created) = Inr sample_created"
    by (rule normalize_again(1) [OF sample_address_law])
  assume "0 \<le> n" "n < 256"
  then have "witness_ok sample_ethers (sample_fulfilled n)" unfolding sample_fulfilled_def
    by (intro sample_witness_ok) (simp add: COMPACT_FIELDS_def)
  then show "normalizeCompactWitness sample_ethers (Some (sample_fulfilled n)) = Inr (sample_fulfilled n)"
    by (rule normalize_again(1) [OF sample_address_law])
qed

lemma sample_history:
  "validateCompactTransitions sample_ethers [Some sample_created, Some (sample_fulfilled 1), Some (sample_fulfilled 2)] = Inr (sample_fulfilled 2)"
proof -
  have "creation sample_created" "\<not> changed_field sample_created (sample_fulfilled 1)" "\<not> changed_field sample_created (sample_fulfilled 2)"
    "fulfilled_step sample_created (sample_fulfilled 1)" "retried_step (sample_fulfilled 1) (sample_fulfilled 2)"
    by code_simp+
  then show ?thesis using sample_states by (simp add: validateCompactTransitions_def)
qed

subsection \<open>Properties\<close>

text \<open>
  C37: Normalising a witness is idempotent and loses nothing on the wire: what \<open>serializeCompactWitness\<close> writes into a request body is
  accepted by the receiver's \<open>normalizeCompactWitness\<close> with the same normal form, the same request id and the same commitment.
\<close>

theorem witness_roundtrip:
  assumes "address_law E" "normalizeCompactWitness E value = Inr w"
  shows "normalizeCompactWitness E (Some w) = Inr w \<and>
    (\<exists>fs. serializeCompactWitness E value = Inr fs \<and> normalizeCompactWitness E (Some (from_json fs)) = Inr w \<and>
      compactRequestId E C (Some (from_json fs)) = compactRequestId E C value \<and>
      compactCommitment E C (Some (from_json fs)) chainId coordinator = compactCommitment E C value chainId coordinator)"
  using normalize_again [OF assms(1) normalizeCompactWitness_Inr [OF assms(2)]] assms(2)
  by (simp add: serialize_Inr compactRequestId_def compactCommitment_def)

theorem witness_roundtrip_witness:
  "\<exists>fs. serializeCompactWitness sample_ethers (Some sample_created) = Inr fs \<and>
     normalizeCompactWitness sample_ethers (Some (from_json fs)) = Inr sample_created"
  using witness_roundtrip [OF sample_address_law sample_states(1)] by blast

text \<open>
  C36: \<open>validateCompactTransitions\<close> accepts exactly the runs of the request life cycle: its value is the last state of a sequence of
  normalised witnesses that agree on all 23 immutable fields, start as created, and follow one another by fulfilment, expiry, or a retry of a
  failed callback with the same randomness and one attempt more.
\<close>

theorem validateCompactTransitions_lifecycle:
  "validateCompactTransitions E values = Inr w \<longleftrightarrow>
     (\<exists>ws phs. values \<noteq> [] \<and> mapR (normalizeCompactWitness E) values = Inr ws \<and> w = last ws \<and>
       (\<forall>u. u \<in> set ws \<longrightarrow> immutable_part u = immutable_part (hd ws)) \<and>
       list_all2 in_phase ws (CPending # phs) \<and> lifecycle_run CPending phs)"
proof (cases "values = [] \<or> \<not> isOk (mapR (normalizeCompactWitness E) values)")
  case False
  then obtain ws where ws: "mapR (normalizeCompactWitness E) values = Inr ws" and v: "values \<noteq> []" by (auto simp: isOk_iff)
  then obtain u us where u: "ws = u # us" using mapR_length [OF ws] by (cases ws) auto
  have "\<forall>x \<in> set ws. witness_ok E x" using mapR_set_rev [OF ws] normalizeCompactWitness_Inr by blast
  then have ok: "\<forall>x \<in> set us. witness_ok E x" by (simp add: u)
  show ?thesis
  proof (cases "creation u")
    case True
    then have "in_phase u CPending" by simp
    note check_transitions_iff [OF ok this, of u w]
    then show ?thesis using v True by (auto simp: validateCompactTransitions_def ws u)
  qed (use v in \<open>auto simp: validateCompactTransitions_def ws u\<close>)
qed (auto simp: validateCompactTransitions_def isOk_iff result_simps)

theorem validateCompactTransitions_lifecycle_witness:
  "\<exists>ws phs. mapR (normalizeCompactWitness sample_ethers) [Some sample_created, Some (sample_fulfilled 1), Some (sample_fulfilled 2)] = Inr ws \<and>
     list_all2 in_phase ws (CPending # phs) \<and> lifecycle_run CPending phs"
  using sample_history unfolding validateCompactTransitions_lifecycle by blast

end
