(* ===== verification/Compact_Protocol.thy ===== *)
theory Compact_Protocol
  imports Compact_Witness
begin

section \<open>Reading compact requests from several endpoints (operator/compact-protocol.mjs)\<close>

text \<open>
  A compact request is never taken from one endpoint: the readers anchor all endpoints at one block, check the commitment of the witness (or the
  whole event history) at every endpoint, and check the anchor again at the end.

  The endpoints are a parameter: \<open>compact_net\<close> gives the answer of each endpoint to each call at each time, so that an endpoint may lie, fail or
  change its mind between two calls. The time is a number that grows from one step of a reader to the next. \<open>Promise.all\<close> is \<open>mapR\<close>: it fails when
  one of its promises does. ABI coding and \<open>toQuantity\<close> are parameters.
\<close>

subsection \<open>Endpoints\<close>

text \<open>Supplied providers, and those that \<open>withProviders\<close> creates from URLs.\<close>

datatype 'p endpoint = Injected 'p | Owned string

record rpc_block =
  bk_hash :: string
  bk_number :: "int result"

record compact_log =
  lg_address :: string
  lg_blockNumber :: "int result"
  lg_logIndex :: "int result"
  lg_removed :: bool
  lg_blockHash :: string
  lg_transactionHash :: string
  lg_topics :: "string list"
  lg_data :: string

record log_filter =
  lf_address :: string
  lf_fromBlock :: string
  lf_toBlock :: string
  lf_topics :: "string option list"

record compact_tx =
  ct_to :: string
  ct_from :: string
  ct_data :: string
  ct_gasPrice :: int
  ct_gasLimit :: int
  ct_chainId :: int

record 'p compact_net =
  cn_chainId :: "nat \<Rightarrow> 'p endpoint \<Rightarrow> int result"
  cn_blockNumber :: "nat \<Rightarrow> 'p endpoint \<Rightarrow> int result"
  cn_block :: "nat \<Rightarrow> 'p endpoint \<Rightarrow> string \<Rightarrow> rpc_block option result"
  cn_commitments :: "nat \<Rightarrow> 'p endpoint \<Rightarrow> string \<Rightarrow> string \<Rightarrow> int \<Rightarrow> string result"
  cn_requestSeed :: "nat \<Rightarrow> 'p endpoint \<Rightarrow> string \<Rightarrow> string \<Rightarrow> witness \<Rightarrow> int result"
  cn_logs :: "nat \<Rightarrow> 'p endpoint \<Rightarrow> log_filter \<Rightarrow> compact_log list result"
  cn_call :: "nat \<Rightarrow> 'p endpoint \<Rightarrow> compact_tx \<Rightarrow> string \<Rightarrow> string result"

record compact_event =
  ev_keyHash :: string
  ev_requestId :: int
  ev_consumer :: string
  ev_request :: "witness option"

record compact_iface = compact_coder +
  cc_topicHash :: string
  cc_toQuantity :: "int \<Rightarrow> string"
  cc_toBeHex32 :: "int \<Rightarrow> string"
  cc_parseLog :: "compact_log \<Rightarrow> compact_event result"
  cc_encodeEventLog :: "string \<Rightarrow> int \<Rightarrow> string \<Rightarrow> witness \<Rightarrow> (string \<times> string list) result"
  cc_encodeFunctionData :: "string \<Rightarrow> witness \<Rightarrow> string option \<Rightarrow> string result"
  cc_encodeProof :: "vrf_proof \<Rightarrow> string result"

subsection \<open>Choosing the endpoints\<close>

record 'p compact_options =
  co_providers :: "'p list option"
  co_rpcUrls :: json
  co_allowSharedOrigin :: bool
  co_chainId :: int
  co_coordinatorAddress :: string
  co_requestId :: int
  co_keyHash :: string
  co_includeSeed :: bool
  co_fromBlock :: int

definition providers_of :: "'k node \<Rightarrow> ('p, 'x) compact_options_scheme \<Rightarrow> 'p endpoint list result" where
  "providers_of N options = (case co_providers options of
     Some ps \<Rightarrow> if truthy (co_rpcUrls options) then Inl ''supply providers OR rpcUrls'' else Inr (map Injected ps)
   | None \<Rightarrow> bindR (normalizeRpcUrls N (co_rpcUrls options) 2 ''compact protocol'' (co_allowSharedOrigin options)) (\<lambda>urls.
       Inr (map Owned urls)))"

definition withProviders ::
  "'k node \<Rightarrow> ('p, 'x) compact_options_scheme \<Rightarrow> ('p endpoint list \<Rightarrow> 'b result) \<Rightarrow> 'b result" where
  "withProviders N options run = bindR (providers_of N options) (\<lambda>providers.
     if length providers < 2 \<or> card (set providers) \<noteq> length providers
     then Inl ''compact protocol requires two distinct providers'' else run providers)"

subsection \<open>The anchor\<close>

record compact_anchor =
  an_number :: int
  an_tag :: string
  an_hash :: string

definition provider_head :: "'p compact_net \<Rightarrow> nat \<Rightarrow> int \<Rightarrow> 'p endpoint \<Rightarrow> int result" where
  "provider_head net t chainId p = bindR (cn_chainId net t p) (\<lambda>c.
     if c \<noteq> chainId then Inl ''compact RPC chainId mismatch''
     else bindR (cn_blockNumber net t p) (\<lambda>height.
       if \<not> isSafeInteger height \<or> height < 0 then Inl ''invalid compact RPC height'' else Inr height))"

fun anchor_differs :: "string \<Rightarrow> int \<Rightarrow> rpc_block option list \<Rightarrow> bool result" where
  "anchor_differs hash number [] = Inr False"
| "anchor_differs hash number (None # bs) = Inr True"
| "anchor_differs hash number (Some b # bs) = (if bk_hash b \<noteq> hash then Inr True
     else bindR (bk_number b) (\<lambda>n. if n \<noteq> number then Inr True else anchor_differs hash number bs))"

definition anchorFor :: "compact_iface \<Rightarrow> 'p compact_net \<Rightarrow> nat \<Rightarrow> 'p endpoint list \<Rightarrow> int \<Rightarrow> compact_anchor result" where
  "anchorFor C net t providers chainId = bindR (mapR (provider_head net t chainId) providers) (\<lambda>heads.
     (let number = Min (set heads); tag = cc_toQuantity C number in
      bindR (mapR (\<lambda>p. cn_block net (t + 1) p tag) providers) (\<lambda>blocks.
      (let hash = (case hd blocks of Some b \<Rightarrow> bk_hash b | None \<Rightarrow> []) in
       if \<not> hex_text 64 hash then Inl ''compact RPC anchor disagreement''
       else bindR (anchor_differs hash number blocks) (\<lambda>differs.
         if differs then Inl ''compact RPC anchor disagreement''
         else Inr \<lparr>an_number = number, an_tag = tag, an_hash = hash\<rparr>)))))"

definition assertAnchor :: "'p compact_net \<Rightarrow> nat \<Rightarrow> 'p endpoint list \<Rightarrow> compact_anchor \<Rightarrow> unit result" where
  "assertAnchor net t providers anchor = bindR (mapR (\<lambda>p. cn_block net t p (an_tag anchor)) providers) (\<lambda>blocks.
     if list_ex (\<lambda>b. map_option bk_hash b \<noteq> Some (an_hash anchor)) blocks
     then Inl ''compact anchor changed during read; retry after reorg'' else Inr ())"

subsection \<open>Reading one request\<close>

record verified_request =
  vf_request :: witness
  vf_requestId :: int
  vf_commitment :: string
  vf_actualSeed :: "int option"
  vf_anchor :: compact_anchor

definition agreed_seed ::
  "'p compact_net \<Rightarrow> nat \<Rightarrow> 'p endpoint list \<Rightarrow> ('p, 'x) compact_options_scheme \<Rightarrow> compact_anchor \<Rightarrow> witness \<Rightarrow> int option result" where
  "agreed_seed net t providers options anchor request =
     (if \<not> co_includeSeed options then Inr None
      else if get request ''status'' \<noteq> CBig 1 then Inl ''compact request is not pending''
      else bindR (mapR (\<lambda>p. cn_requestSeed net t p (co_coordinatorAddress options) (an_tag anchor) request) providers) (\<lambda>seeds.
        if list_ex (\<lambda>v. v \<noteq> hd seeds) seeds then Inl ''compact canonical seed disagreement'' else Inr (Some (hd seeds))))"

definition authenticatedState ::
  "ethers \<Rightarrow> compact_iface \<Rightarrow> 'p compact_net \<Rightarrow> nat \<Rightarrow> 'p endpoint list \<Rightarrow> ('p, 'x) compact_options_scheme \<Rightarrow> compact_anchor \<Rightarrow>
     witness option \<Rightarrow> verified_request result" where
  "authenticatedState E C net t providers options anchor w =
     bindR (normalizeCompactWitness E w) (\<lambda>request.
     bindR (compactRequestId E C (Some request)) (\<lambda>requestId.
     if requestId \<noteq> co_requestId options then Inl ''compact requestId mismatch''
     else if co_keyHash options \<noteq> [] \<and> get request ''keyHash'' \<noteq> CJson (JStr (toLowerCase (co_keyHash options)))
     then Inl ''compact prover key mismatch''
     else bindR (compactCommitment E C (Some request) (co_chainId options) (co_coordinatorAddress options)) (\<lambda>commitment.
     bindR (mapR (\<lambda>p. cn_commitments net t p (co_coordinatorAddress options) (an_tag anchor) requestId) providers) (\<lambda>committed.
     if list_ex (\<lambda>v. v \<noteq> commitment) committed
     then Inl ''compact commitment mismatch: stale/missing witness, pruned request or RPC disagreement''
     else bindR (agreed_seed net (t + 1) providers options anchor request) (\<lambda>actualSeed.
       Inr \<lparr>vf_request = request, vf_requestId = requestId, vf_commitment = commitment, vf_actualSeed = actualSeed,
         vf_anchor = anchor\<rparr>)))))"

definition verify_with ::
  "ethers \<Rightarrow> compact_iface \<Rightarrow> 'p compact_net \<Rightarrow> nat \<Rightarrow> ('p, 'x) compact_options_scheme \<Rightarrow> witness option \<Rightarrow> 'p endpoint list \<Rightarrow>
     verified_request result" where
  "verify_with E C net t options w providers =
     bindR (anchorFor C net t providers (co_chainId options)) (\<lambda>anchor.
     bindR (authenticatedState E C net (t + 2) providers options anchor w) (\<lambda>result.
     bindR (assertAnchor net (t + 4) providers anchor) (\<lambda>_. Inr result)))"

definition verifyCompactWitnessConsensus ::
  "ethers \<Rightarrow> compact_iface \<Rightarrow> 'k node \<Rightarrow> 'p compact_net \<Rightarrow> nat \<Rightarrow> ('p, 'x) compact_options_scheme \<Rightarrow> witness option \<Rightarrow>
     verified_request result" where
  "verifyCompactWitnessConsensus E C N net t options w = withProviders N options (verify_with E C net t options w)"

subsection \<open>Reading the history of a request\<close>

record located_event =
  le_block :: int
  le_index :: int
  le_blockHash :: string
  le_transactionHash :: string
  le_witness :: witness

text \<open>The windows of at most 2000 blocks that are read.\<close>

function windows :: "int \<Rightarrow> int \<Rightarrow> (int \<times> int) list" where
  "windows from_block number = (if from_block \<le> number
     then (from_block, min (from_block + 1999) number) # windows (from_block + 2000) number else [])"
  by pat_completeness auto
termination by (relation "measure (\<lambda>(f, n). nat (n + 1 - f))") auto

declare windows.simps [simp del]

definition event_of ::
  "ethers \<Rightarrow> compact_iface \<Rightarrow> ('p, 'x) compact_options_scheme \<Rightarrow> int \<times> int \<Rightarrow> compact_log \<Rightarrow> located_event result" where
  "event_of E C options window log = bindR (lg_blockNumber log) (\<lambda>block. bindR (lg_logIndex log) (\<lambda>index.
     if lg_removed log then Inl ''invalid compact event location''
     else bindR (getAddress E (co_coordinatorAddress options)) (\<lambda>coordinator.
     if toLowerCase (lg_address log) \<noteq> toLowerCase coordinator \<or> block < fst window \<or> block > snd window \<or>
       \<not> isSafeInteger block \<or> \<not> isSafeInteger index \<or> index < 0
     then Inl ''invalid compact event location''
     else bindR (cc_parseLog C log) (\<lambda>parsed.
     bindR (normalizeCompactWitness E (ev_request parsed)) (\<lambda>witness.
     bindR (compactRequestId E C (Some witness)) (\<lambda>requestId.
     if ev_requestId parsed \<noteq> co_requestId options \<or> requestId \<noteq> co_requestId options \<or>
       CJson (JStr (toLowerCase (ev_consumer parsed))) \<noteq> get witness ''consumer'' \<or>
       CJson (JStr (toLowerCase (ev_keyHash parsed))) \<noteq> get witness ''keyHash''
     then Inl ''compact event identity mismatch''
     else bindR (cc_encodeEventLog C (ev_keyHash parsed) (ev_requestId parsed) (ev_consumer parsed) witness) (\<lambda>(data, topics).
       if data \<noteq> lg_data log \<or> topics \<noteq> lg_topics log then Inl ''noncanonical compact event''
       else Inr \<lparr>le_block = block, le_index = index, le_blockHash = lg_blockHash log,
         le_transactionHash = lg_transactionHash log, le_witness = witness\<rparr>)))))))"

fun adjacent_equal :: "located_event list \<Rightarrow> bool" where
  "adjacent_equal (a # b # es) \<longleftrightarrow> (le_block b = le_block a \<and> le_index b = le_index a) \<or> adjacent_equal (b # es)"
| "adjacent_equal _ \<longleftrightarrow> False"

definition window_events ::
  "ethers \<Rightarrow> compact_iface \<Rightarrow> 'p compact_net \<Rightarrow> nat \<Rightarrow> ('p, 'x) compact_options_scheme \<Rightarrow> 'p endpoint \<Rightarrow> int \<times> int \<Rightarrow>
     located_event list result" where
  "window_events E C net t options p window = bindR (cn_logs net t p
     \<lparr>lf_address = co_coordinatorAddress options, lf_fromBlock = cc_toQuantity C (fst window),
       lf_toBlock = cc_toQuantity C (snd window),
       lf_topics = [Some (cc_topicHash C), None, Some (cc_toBeHex32 C (co_requestId options))]\<rparr>)
     (mapR (event_of E C options window))"

definition provider_history ::
  "ethers \<Rightarrow> compact_iface \<Rightarrow> 'p compact_net \<Rightarrow> nat \<Rightarrow> ('p, 'x) compact_options_scheme \<Rightarrow> compact_anchor \<Rightarrow> 'p endpoint \<Rightarrow>
     located_event list result" where
  "provider_history E C net t options anchor p =
     bindR (mapR (window_events E C net t options p) (windows (co_fromBlock options) (an_number anchor))) (\<lambda>found.
     (let events = sort_key le_block (sort_key le_index (concat found)) in
      if adjacent_equal events then Inl ''duplicate compact event''
      else bindR (validateCompactTransitions E (map (\<lambda>e. Some (le_witness e)) events)) (\<lambda>_. Inr events)))"

definition event_json :: "ethers \<Rightarrow> located_event \<Rightarrow> json result" where
  "event_json E e = bindR (fingerprint E (Some (le_witness e))) (\<lambda>f. Inr (JObj [(''block'', JInt (le_block e)),
     (''index'', JInt (le_index e)), (''blockHash'', JStr (le_blockHash e)),
     (''transactionHash'', JStr (le_transactionHash e)), (''witness'', JStr f)]))"

definition describe :: "ethers \<Rightarrow> located_event list \<Rightarrow> string result" where
  "describe E events = bindR (mapR (event_json E) events) (\<lambda>vs. Inr (JSON_stringify (JArr vs)))"

definition recover_with ::
  "ethers \<Rightarrow> compact_iface \<Rightarrow> 'p compact_net \<Rightarrow> nat \<Rightarrow> ('p, 'x) compact_options_scheme \<Rightarrow> 'p endpoint list \<Rightarrow>
     (verified_request \<times> nat) result" where
  "recover_with E C net t options providers =
     bindR (anchorFor C net t providers (co_chainId options)) (\<lambda>anchor.
     if \<not> isSafeInteger (co_fromBlock options) \<or> co_fromBlock options < 0 \<or> co_fromBlock options > an_number anchor
     then Inl ''invalid compact deployment/fromBlock''
     else bindR (mapR (provider_history E C net (t + 2) options anchor) providers) (\<lambda>histories.
     bindR (mapR (describe E) histories) (\<lambda>texts.
     if list_ex (\<lambda>h. h \<noteq> hd texts) texts then Inl ''compact event history disagreement''
     else bindR (authenticatedState E C net (t + 3) providers options anchor (Some (le_witness (last (hd histories))))) (\<lambda>result.
     bindR (assertAnchor net (t + 5) providers anchor) (\<lambda>_.
     Inr (result, length (hd histories)))))))"

definition recoverCompactRequest ::
  "ethers \<Rightarrow> compact_iface \<Rightarrow> 'k node \<Rightarrow> 'p compact_net \<Rightarrow> nat \<Rightarrow> ('p, 'x) compact_options_scheme \<Rightarrow>
     (verified_request \<times> nat) result" where
  "recoverCompactRequest E C N net t options = withProviders N options (recover_with E C net t options)"

subsection \<open>Preparing a transaction\<close>

text \<open>
  The inner calls of \<open>prepareCompactTransaction\<close> run on the endpoints that it has chosen itself: they enter \<open>withProviders\<close> with those endpoints,
  whose check has already passed, so the model calls \<open>recover_with\<close> and \<open>verify_with\<close>.
\<close>

text \<open>What a proof provider gives: the encoded proof data, or a proof to encode.\<close>

datatype compact_proof = ProofData string | EcvrfProof vrf_proof

record proof_arguments =
  pa_actualSeed :: "int option"
  pa_preSeed :: int
  pa_requestId :: int
  pa_coordinator :: string
  pa_chainId :: int
  pa_compactWitness :: fields

record 'p compact_action = "'p compact_options" +
  ca_action :: string
  ca_from :: string
  ca_gasPriceWei :: int
  ca_gasLimit :: int
  ca_thresholdMode :: bool
  ca_prove :: "proof_arguments \<Rightarrow> compact_proof result"

definition action_proof ::
  "ethers \<Rightarrow> compact_iface \<Rightarrow> 'p compact_action \<Rightarrow> verified_request \<Rightarrow> string option result" where
  "action_proof E C options recovered =
     (if ca_action options \<noteq> ''fulfillRandomWords'' then Inr None
      else if ca_thresholdMode options
      then Inl ''compact remote threshold nodes require a witness-aware resolver; not integrated''
      else bindR (getAddress E (ca_from options)) (\<lambda>sender.
      if CJson (JStr (toLowerCase sender)) \<noteq> get (vf_request recovered) ''fulfiller''
      then Inl ''compact sender is not the pinned fulfiller''
      else bindR (serializeCompactWitness E (Some (vf_request recovered))) (\<lambda>fs.
      bindR (ca_prove options \<lparr>pa_actualSeed = vf_actualSeed recovered, pa_preSeed = big (get (vf_request recovered) ''preSeed''),
        pa_requestId = vf_requestId recovered, pa_coordinator = co_coordinatorAddress options,
        pa_chainId = co_chainId options, pa_compactWitness = fs\<rparr>) (\<lambda>result.
      (case result of ProofData d \<Rightarrow> Inr (Some d) | EcvrfProof pf \<Rightarrow> bindR (cc_encodeProof C pf) (\<lambda>d. Inr (Some d)))))))"

record prepared_transaction =
  pt_transaction :: compact_tx
  pt_snapshot :: verified_request
  pt_simulation :: string

definition prepare_with ::
  "ethers \<Rightarrow> compact_iface \<Rightarrow> 'k node \<Rightarrow> 'p compact_net \<Rightarrow> nat \<Rightarrow> 'p compact_action \<Rightarrow> 'p endpoint list \<Rightarrow>
     prepared_transaction result" where
  "prepare_with E C N net t options providers =
     (let fulfil = ca_action options = ''fulfillRandomWords''; scoped = options\<lparr>co_includeSeed := fulfil\<rparr> in
      bindR (recover_with E C net t scoped providers) (\<lambda>(recovered, _).
      bindR (action_proof E C options recovered) (\<lambda>proofData.
      if ca_gasPriceWei options \<le> 0 \<or> ca_gasLimit options \<le> 0 \<or>
        fulfil \<and> ca_gasPriceWei options > big (get (vf_request recovered) ''maxGasPriceWei'')
      then Inl ''invalid compact transaction gas bounds''
      else bindR (verify_with E C net (t + 6) scoped (Some (vf_request recovered)) providers) (\<lambda>fresh.
      bindR (cc_encodeFunctionData C (ca_action options) (vf_request fresh) proofData) (\<lambda>data.
      bindR (getAddress E (co_coordinatorAddress options)) (\<lambda>to_address.
      bindR (getAddress E (ca_from options)) (\<lambda>from_address.
      (let transaction = \<lparr>ct_to = to_address, ct_from = from_address, ct_data = data, ct_gasPrice = ca_gasPriceWei options,
             ct_gasLimit = ca_gasLimit options, ct_chainId = co_chainId options\<rparr> in
       bindR (mapR (\<lambda>p. cn_call net (t + 11) p transaction (an_tag (vf_anchor fresh))) providers) (\<lambda>simulations.
       if list_ex (\<lambda>v. v \<noteq> hd simulations) simulations then Inl ''compact simulation disagreement''
       else bindR (assertAnchor net (t + 12) providers (vf_anchor fresh)) (\<lambda>_.
         Inr \<lparr>pt_transaction = transaction, pt_snapshot = fresh, pt_simulation = hd simulations\<rparr>))))))))))"

definition prepareCompactTransaction ::
  "ethers \<Rightarrow> compact_iface \<Rightarrow> 'k node \<Rightarrow> 'p compact_net \<Rightarrow> nat \<Rightarrow> 'p compact_action \<Rightarrow> prepared_transaction result" where
  "prepareCompactTransaction E C N net t options =
     (if ca_action options \<notin> {''fulfillRandomWords'', ''retryCallback'', ''expireRequest'', ''pruneRequest''}
      then Inl ''unsupported compact action'' else withProviders N options (prepare_with E C N net t options))"

subsection \<open>What an accepted reading says\<close>

lemma withProviders_Inr [result_simps]:
  fixes options :: "('p, 'x) compact_options_scheme"
  shows "withProviders N options run = Inr y \<longleftrightarrow>
     (\<exists>ps. providers_of N options = Inr ps \<and> 2 \<le> length ps \<and> distinct ps \<and> run ps = Inr y)"
proof -
  have "card (set ps) = length ps \<longleftrightarrow> distinct ps" for ps :: "'p endpoint list" using card_distinct distinct_card by blast
  then show ?thesis unfolding withProviders_def by (cases "providers_of N options") auto
qed

lemma agreed_answers:
  assumes "mapR f ps = Inr ys" "\<not> list_ex (\<lambda>v. v \<noteq> c) ys" "p \<in> set ps"
  shows "f p = Inr c"
  using mapR_set [OF assms(1,3)] assms(2) by (auto simp: list_ex_iff)

lemma assertAnchor_Inr:
  assumes "assertAnchor net t ps anchor = Inr u" "p \<in> set ps"
  shows "\<exists>b. cn_block net t p (an_tag anchor) = Inr (Some b) \<and> bk_hash b = an_hash anchor"
  using assms mapR_set by (fastforce simp: assertAnchor_def result_simps list_ex_iff split: if_splits)

text \<open>\<open>authentic\<close>: the request has the wanted id, and each of the endpoints gave its commitment for that id.\<close>

definition authentic ::
  "ethers \<Rightarrow> compact_iface \<Rightarrow> 'p compact_net \<Rightarrow> nat \<Rightarrow> 'p endpoint list \<Rightarrow> ('p, 'x) compact_options_scheme \<Rightarrow> verified_request \<Rightarrow> bool" where
  "authentic E C net t ps options r \<longleftrightarrow> witness_ok E (vf_request r) \<and>
     compactRequestId E C (Some (vf_request r)) = Inr (co_requestId options) \<and> vf_requestId r = co_requestId options \<and>
     compactCommitment E C (Some (vf_request r)) (co_chainId options) (co_coordinatorAddress options) = Inr (vf_commitment r) \<and>
     (\<forall>p \<in> set ps. cn_commitments net t p (co_coordinatorAddress options) (an_tag (vf_anchor r)) (co_requestId options) = Inr (vf_commitment r)) \<and>
     (co_includeSeed options \<longrightarrow> get (vf_request r) ''status'' = CBig 1 \<and> (\<exists>seed. vf_actualSeed r = Some seed \<and>
       (\<forall>p \<in> set ps. cn_requestSeed net (t + 1) p (co_coordinatorAddress options) (an_tag (vf_anchor r)) (vf_request r) = Inr seed)))"

lemma agreed_seed_Inr:
  assumes "agreed_seed net t ps options anchor request = Inr s" "co_includeSeed options"
  shows "get request ''status'' = CBig 1 \<and> (\<exists>seed. s = Some seed \<and>
    (\<forall>p \<in> set ps. cn_requestSeed net t p (co_coordinatorAddress options) (an_tag anchor) request = Inr seed))"
proof -
  obtain seeds where s: "get request ''status'' = CBig 1"
      "mapR (\<lambda>p. cn_requestSeed net t p (co_coordinatorAddress options) (an_tag anchor) request) ps = Inr seeds"
      "\<not> list_ex (\<lambda>v. v \<noteq> hd seeds) seeds" "s = Some (hd seeds)"
    using assms by (auto simp: agreed_seed_def result_simps split: if_splits)
  then show ?thesis using agreed_answers [OF s(2,3)] by blast
qed

lemma authenticatedState_Inr:
  assumes "authenticatedState E C net t ps options anchor w = Inr r"
  shows "authentic E C net t ps options r" "normalizeCompactWitness E w = Inr (vf_request r)" "vf_anchor r = anchor"
proof -
  obtain request requestId commitment committed seed where
    n: "normalizeCompactWitness E w = Inr request" and rid: "compactRequestId E C (Some request) = Inr requestId"
    "requestId = co_requestId options" and c: "compactCommitment E C (Some request) (co_chainId options) (co_coordinatorAddress options) = Inr commitment"
    and cs: "mapR (\<lambda>p. cn_commitments net t p (co_coordinatorAddress options) (an_tag anchor) requestId) ps = Inr committed"
      "\<not> list_ex (\<lambda>v. v \<noteq> commitment) committed"
    and s: "agreed_seed net (t + 1) ps options anchor request = Inr seed"
    and r: "r = \<lparr>vf_request = request, vf_requestId = requestId, vf_commitment = commitment, vf_actualSeed = seed, vf_anchor = anchor\<rparr>"
    using assms by (auto simp: authenticatedState_def result_simps split: if_splits)
  show "normalizeCompactWitness E w = Inr (vf_request r)" "vf_anchor r = anchor" using n r by simp_all
  show "authentic E C net t ps options r"
    using normalizeCompactWitness_Inr [OF n] rid c agreed_answers [OF cs] agreed_seed_Inr [OF s] by (simp add: authentic_def r)
qed

text \<open>One honest endpoint suffices: it stands for the contract, which holds the commitment of the true request.\<close>

text \<open>
  \<open>coder_law\<close>: the ABI encoding of a tuple of static types is injective on normalised witnesses. \<open>commitment_collision\<close> exhibits a
  collision of keccak256: the encodings of the two witnesses are different byte strings with one hash.
\<close>

definition coder_law :: "ethers \<Rightarrow> compact_iface \<Rightarrow> bool" where
  "coder_law E C \<longleftrightarrow> (\<forall>d c a u v b. witness_ok E u \<longrightarrow> witness_ok E v \<longrightarrow> cc_commitment C d c a u = Inr b \<longrightarrow>
     cc_commitment C d c a v = Inr b \<longrightarrow> u = v)"

definition commitment_collision :: "ethers \<Rightarrow> compact_iface \<Rightarrow> int \<Rightarrow> string \<Rightarrow> witness \<Rightarrow> witness \<Rightarrow> bool" where
  "commitment_collision E C chainId coordinator u v \<longleftrightarrow>
     (case (cc_commitment C (COMPACT_DOMAIN E) chainId coordinator u, cc_commitment C (COMPACT_DOMAIN E) chainId coordinator v) of
       (Inr a, Inr b) \<Rightarrow> a \<noteq> b \<and> keccak256 E a = keccak256 E b | _ \<Rightarrow> False)"

lemma compactCommitment_binds:
  assumes "coder_law E C" "address_law E" "witness_ok E u"
    and "compactCommitment E C (Some u) chainId coordinator = Inr c" "compactCommitment E C w0 chainId coordinator = Inr c"
  shows "\<exists>v. normalizeCompactWitness E w0 = Inr v \<and> (v = u \<or> commitment_collision E C chainId coordinator u v)"
proof -
  obtain b where b: "cc_commitment C (COMPACT_DOMAIN E) chainId coordinator u = Inr b" "c = keccak256 E b"
    using assms(4) normalize_again(1) [OF assms(2,3)] by (auto simp: compactCommitment_def result_simps)
  obtain v b' where v: "normalizeCompactWitness E w0 = Inr v" "cc_commitment C (COMPACT_DOMAIN E) chainId coordinator v = Inr b'" "c = keccak256 E b'"
    using assms(5) by (auto simp: compactCommitment_def result_simps)
  have "b = b' \<Longrightarrow> v = u"
    using assms(1,3) b(1) v(2) normalizeCompactWitness_Inr [OF v(1)] unfolding coder_law_def by blast
  then have "v = u \<or> commitment_collision E C chainId coordinator u v"
    using b v(2,3) by (auto simp: commitment_collision_def)
  then show ?thesis using v(1) by blast
qed

lemma verify_with_Inr:
  assumes "verify_with E C net t options w ps = Inr r"
  shows "authentic E C net (t + 2) ps options r" "normalizeCompactWitness E w = Inr (vf_request r)"
    "p \<in> set ps \<Longrightarrow> \<exists>b. cn_block net (t + 4) p (an_tag (vf_anchor r)) = Inr (Some b) \<and> bk_hash b = an_hash (vf_anchor r)"
  using assms authenticatedState_Inr [of E C net "t + 2" ps options] assertAnchor_Inr [of net "t + 4" ps]
  by (auto simp: verify_with_def result_simps)

text \<open>A described event can be read back.\<close>

definition event_ok :: "ethers \<Rightarrow> located_event \<Rightarrow> bool" where
  "event_ok E e \<longleftrightarrow> witness_ok E (le_witness e) \<and> isSafeInteger (le_block e) \<and> isSafeInteger (le_index e)"

lemma event_of_Inr: "event_of E C options window log = Inr e \<Longrightarrow> event_ok E e"
  by (auto simp: event_of_def result_simps event_ok_def Let_def split: if_splits prod.splits dest: normalizeCompactWitness_Inr)

lemma provider_history_Inr:
  assumes "provider_history E C net t options anchor p = Inr evs"
  shows "\<forall>e \<in> set evs. event_ok E e" "\<exists>w. validateCompactTransitions E (map (\<lambda>e. Some (le_witness e)) evs) = Inr w"
proof -
  obtain found where f: "mapR (window_events E C net t options p) (windows (co_fromBlock options) (an_number anchor)) = Inr found"
      "evs = sort_key le_block (sort_key le_index (concat found))"
    and v: "\<exists>w. validateCompactTransitions E (map (\<lambda>e. Some (le_witness e)) evs) = Inr w"
    using assms by (auto simp: provider_history_def result_simps Let_def split: if_splits)
  have "event_ok E e" if es: "es \<in> set found" and e: "e \<in> set es" for es e
  proof -
    obtain window where "window_events E C net t options p window = Inr es" using mapR_set_rev [OF f(1) es] by blast
    then obtain logs where logs: "mapR (event_of E C options window) logs = Inr es" by (auto simp: window_events_def result_simps)
    obtain log where "event_of E C options window log = Inr e" using mapR_set_rev [OF logs e] by blast
    then show ?thesis by (rule event_of_Inr)
  qed
  then show "\<forall>e \<in> set evs. event_ok E e" by (auto simp: f(2))
  show "\<exists>w. validateCompactTransitions E (map (\<lambda>e. Some (le_witness e)) evs) = Inr w" by (rule v)
qed

lemma event_json_inj:
  assumes "address_law E" "event_ok E e" "event_ok E e'" "event_json E e = Inr v" "event_json E e' = Inr v"
  shows "e = e'"
proof -
  obtain f where f: "fingerprint E (Some (le_witness e)) = Inr f" "fingerprint E (Some (le_witness e')) = Inr f"
      "le_block e = le_block e'" "le_index e = le_index e'" "le_blockHash e = le_blockHash e'" "le_transactionHash e = le_transactionHash e'"
    using assms(4,5) by (auto simp: event_json_def result_simps)
  have "witness_ok E (le_witness e)" "witness_ok E (le_witness e')" using assms(2,3) by (simp_all add: event_ok_def)
  then have "le_witness e = le_witness e'"
    using fingerprint_inj [OF assms(1) f(1,2)] normalize_again(1) [OF assms(1)] by simp
  then show ?thesis using f(3-6) by (cases e; cases e') simp
qed

lemma describe_inj:
  assumes "address_law E" "\<forall>e \<in> set es. event_ok E e" "\<forall>e \<in> set es'. event_ok E e" "describe E es = Inr t" "describe E es' = Inr t"
  shows "es = es'"
proof -
  obtain vs vs' where v: "mapR (event_json E) es = Inr vs" "mapR (event_json E) es' = Inr vs'"
      "JSON_stringify (JArr vs) = JSON_stringify (JArr vs')"
    using assms(4,5) by (auto simp: describe_def result_simps)
  have texts: "has_text (JArr us)" if us: "mapR (event_json E) xs = Inr us" and ok: "\<forall>e \<in> set xs. event_ok E e" for us xs
  proof -
    have "has_text u" if "event_json E e = Inr u" "event_ok E e" for u e
      using that by (auto simp: event_json_def result_simps event_ok_def)
    then show ?thesis using mapR_set_rev [OF us] ok by fastforce
  qed
  note h = texts [OF v(1) assms(2)] texts [OF v(2) assms(3)]
  have "JArr vs = JArr vs'"
    using text_unique [OF h, of "[]" "[]"] v(3) JSON_stringify_text [OF h(1)] JSON_stringify_text [OF h(2)] by simp
  then have "vs = vs'" by simp
  then have "list_all2 (\<lambda>e v. event_json E e = Inr v) es vs" "list_all2 (\<lambda>e v. event_json E e = Inr v) es' vs"
    using v(1,2) by (simp_all add: mapR_Inr_iff)
  then show ?thesis using assms(2,3)
  proof (induction arbitrary: es' rule: list_all2_induct)
    case (Cons e es v vs)
    from Cons.prems(1) obtain e' es'' where "es' = e' # es''" "event_json E e' = Inr v" "list_all2 (\<lambda>e v. event_json E e = Inr v) es'' vs"
      by (auto simp: list_all2_Cons2)
    then show ?case using Cons event_json_inj [OF assms(1), of e e' v] by simp
  qed simp
qed

lemma mapR_last: "mapR f xs = Inr ys \<Longrightarrow> xs \<noteq> [] \<Longrightarrow> f (last xs) = Inr (last ys)"
  using mapR_nth [of f xs ys "length xs - 1"] mapR_length [of f xs ys] by (cases "ys = []") (auto simp: last_conv_nth)

text \<open>What a recovery found: every endpoint told the same complete history, which ends in the authentic state.\<close>

lemma recover_with_Inr:
  assumes law: "address_law E" and ps: "ps \<noteq> []" and r: "recover_with E C net t options ps = Inr (r, n)"
  shows "\<exists>events. length events = n \<and> n \<noteq> 0 \<and> (\<forall>p \<in> set ps. provider_history E C net (t + 2) options (vf_anchor r) p = Inr events) \<and>
      validateCompactTransitions E (map (\<lambda>e. Some (le_witness e)) events) = Inr (vf_request r)"
    "authentic E C net (t + 3) ps options r"
    "p \<in> set ps \<Longrightarrow> \<exists>b. cn_block net (t + 5) p (an_tag (vf_anchor r)) = Inr (Some b) \<and> bk_hash b = an_hash (vf_anchor r)"
proof -
  obtain anchor hs texts u where a: "mapR (provider_history E C net (t + 2) options anchor) ps = Inr hs" "mapR (describe E) hs = Inr texts"
      "\<not> list_ex (\<lambda>h. h \<noteq> hd texts) texts"
      "authenticatedState E C net (t + 3) ps options anchor (Some (le_witness (last (hd hs)))) = Inr r"
      "assertAnchor net (t + 5) ps anchor = Inr u" "n = length (hd hs)"
    using r by (auto simp: recover_with_def result_simps split: if_splits)
  note s = authenticatedState_Inr [OF a(4)]
  show "authentic E C net (t + 3) ps options r" by (rule s(1))
  show "p \<in> set ps \<Longrightarrow> \<exists>b. cn_block net (t + 5) p (an_tag (vf_anchor r)) = Inr (Some b) \<and> bk_hash b = an_hash (vf_anchor r)"
    unfolding s(3) by (rule assertAnchor_Inr [OF a(5)])
  have ok: "(\<forall>e \<in> set h. event_ok E e) \<and> describe E h = Inr (hd texts)" if h: "h \<in> set hs" for h
    using mapR_set_rev [OF a(1) h] agreed_answers [OF a(2,3) h] provider_history_Inr(1) by fast
  have hd: "hd hs \<in> set hs" using mapR_length [OF a(1)] ps by (cases hs) auto
  have same: "h = hd hs" if "h \<in> set hs" for h using describe_inj [OF law] ok [OF that] ok [OF hd] by blast
  have all: "\<forall>p \<in> set ps. provider_history E C net (t + 2) options anchor p = Inr (hd hs)"
    using mapR_set [OF a(1)] same by fast
  obtain w where w: "validateCompactTransitions E (map (\<lambda>e. Some (le_witness e)) (hd hs)) = Inr w"
    using mapR_set_rev [OF a(1) hd] provider_history_Inr(2) by blast
  then obtain ws where ws: "mapR (normalizeCompactWitness E) (map (\<lambda>e. Some (le_witness e)) (hd hs)) = Inr ws" "w = last ws" "hd hs \<noteq> []"
    unfolding validateCompactTransitions_lifecycle by auto
  have "w = vf_request r"
  proof -
    have "normalizeCompactWitness E (Some (le_witness (last (hd hs)))) = Inr (last ws)"
      using mapR_last [OF ws(1)] ws(3) by (simp add: last_map)
    then show ?thesis using s(2) ws(2) by simp
  qed
  then show "\<exists>events. length events = n \<and> n \<noteq> 0 \<and> (\<forall>p \<in> set ps. provider_history E C net (t + 2) options (vf_anchor r) p = Inr events) \<and>
      validateCompactTransitions E (map (\<lambda>e. Some (le_witness e)) events) = Inr (vf_request r)"
    using all w ws(3) a(6) s(3) by (intro exI [of _ "hd hs"]) simp
qed

subsection \<open>A sample chain\<close>

definition sample_rid :: int where
  "sample_rid = (case hashBig sample_ethers [] of Inr n \<Rightarrow> n | Inl _ \<Rightarrow> 0)"

text \<open>The sample coder: the text of the serialised witness.\<close>

definition sample_encoding :: "witness \<Rightarrow> bytes" where
  "sample_encoding w = map (\<lambda>c. word_of_int (of_char c)) (JSON_stringify (JObj (map (\<lambda>(k, v). (k, plain v)) w)))"

definition sample_commitment :: string where
  "sample_commitment = keccak256 sample_ethers (sample_encoding sample_created)"

definition sample_iface :: compact_iface where
  "sample_iface = \<lparr>cc_uint256 = (\<lambda>_. []),
     cc_commitment = (\<lambda>_ _ _ w. Inr (sample_encoding w)),
     cc_topicHash = sample_hex 32 3, cc_toQuantity = showInt, cc_toBeHex32 = showInt,
     cc_parseLog = (\<lambda>_. Inr \<lparr>ev_keyHash = sample_hex 32 1, ev_requestId = sample_rid, ev_consumer = sample_hex 20 1,
       ev_request = Some sample_created\<rparr>),
     cc_encodeEventLog = (\<lambda>_ _ _ _. Inr ([], [])), cc_encodeFunctionData = (\<lambda>_ _ _. Inr ''data''),
     cc_encodeProof = (\<lambda>_. Inr ''proof'')\<rparr>"

definition sample_log :: compact_log where
  "sample_log = \<lparr>lg_address = sample_hex 20 2, lg_blockNumber = Inr 10, lg_logIndex = Inr 0, lg_removed = False,
     lg_blockHash = [], lg_transactionHash = [], lg_topics = [], lg_data = []\<rparr>"

definition sample_net :: "nat compact_net" where
  "sample_net = \<lparr>cn_chainId = (\<lambda>_ _. Inr 1), cn_blockNumber = (\<lambda>_ _. Inr 10),
     cn_block = (\<lambda>_ _ _. Inr (Some \<lparr>bk_hash = sample_hex 32 1, bk_number = Inr 10\<rparr>)),
     cn_commitments = (\<lambda>_ _ _ _ _. Inr sample_commitment),
     cn_requestSeed = (\<lambda>_ _ _ _ _. Inr 9), cn_logs = (\<lambda>_ _ _. Inr [sample_log]), cn_call = (\<lambda>_ _ _ _. Inr ''result'')\<rparr>"

definition sample_request_options :: "nat compact_options" where
  "sample_request_options = \<lparr>co_providers = Some [1, 2], co_rpcUrls = JUndefined, co_allowSharedOrigin = False, co_chainId = 1,
     co_coordinatorAddress = sample_hex 20 2, co_requestId = sample_rid, co_keyHash = sample_hex 32 1,
     co_includeSeed = True, co_fromBlock = 10\<rparr>"

definition sample_action :: "nat compact_action" where
  "sample_action = compact_options.extend sample_request_options \<lparr>ca_action = ''fulfillRandomWords'', ca_from = sample_hex 20 1,
     ca_gasPriceWei = 1, ca_gasLimit = 3000000, ca_thresholdMode = False, ca_prove = (\<lambda>_. Inr (ProofData ''proof''))\<rparr>"

lemma sample_coder_law: "coder_law sample_ethers sample_iface"
proof -
  have "inj (\<lambda>c. word_of_int (of_char c) :: byte)"
  proof (rule injI)
    fix c d :: char
    assume "(word_of_int (of_char c) :: byte) = word_of_int (of_char d)"
    then have "uint (word_of_int (of_char c) :: byte) = uint (word_of_int (of_char d) :: byte)" by simp
    then show "c = d" by (simp add: uint_word_of_int)
  qed
  then show ?thesis
    using witness_text_inj [OF sample_address_law] unfolding coder_law_def sample_iface_def sample_encoding_def
    by (auto dest: map_injective)
qed

lemma sample_created_id:
  "compactRequestId sample_ethers sample_iface (Some sample_created) = Inr sample_rid"
  "compactCommitment sample_ethers sample_iface (Some sample_created) c a = Inr sample_commitment"
proof -
  have "isOk (hashBig sample_ethers [])" by code_simp
  then show "compactRequestId sample_ethers sample_iface (Some sample_created) = Inr sample_rid"
    using sample_states(1) by (auto simp: compactRequestId_def sample_iface_def sample_rid_def isOk_iff)
  show "compactCommitment sample_ethers sample_iface (Some sample_created) c a = Inr sample_commitment"
    using sample_states(1) by (simp add: compactCommitment_def sample_iface_def sample_commitment_def)
qed

lemma sample_fields:
  "get sample_created ''keyHash'' = CJson (JStr (sample_hex 32 1))" "get sample_created ''consumer'' = CJson (JStr (sample_hex 20 1))"
  "get sample_created ''fulfiller'' = CJson (JStr (sample_hex 20 1))" "get sample_created ''status'' = CBig 1"
  "toLowerCase (sample_hex 32 1) = sample_hex 32 1" "toLowerCase (sample_hex 20 1) = sample_hex 20 1" "hex_text 64 (sample_hex 32 1)"
  "get sample_created ''maxGasPriceWei'' = CBig 5"
  by code_simp+

definition sample_anchor :: compact_anchor where
  "sample_anchor = \<lparr>an_number = 10, an_tag = showInt 10, an_hash = sample_hex 32 1\<rparr>"

definition sample_verified :: verified_request where
  "sample_verified = \<lparr>vf_request = sample_created, vf_requestId = sample_rid, vf_commitment = sample_commitment,
     vf_actualSeed = Some 9, vf_anchor = sample_anchor\<rparr>"

lemma sample_anchored:
  "anchorFor sample_iface sample_net t [Injected 1, Injected 2] 1 = Inr sample_anchor"
  "assertAnchor sample_net t [Injected 1, Injected 2] sample_anchor = Inr ()"
  by (simp_all add: anchorFor_def assertAnchor_def provider_head_def sample_net_def sample_iface_def sample_anchor_def isSafeInteger_def
      sample_fields Let_def del: One_nat_def)

lemma sample_authenticated:
  "authenticatedState sample_ethers sample_iface sample_net t [Injected 1, Injected 2] sample_request_options sample_anchor (Some sample_created) =
     Inr sample_verified"
proof -
  have "agreed_seed sample_net (t + 1) [Injected 1, Injected 2] sample_request_options sample_anchor sample_created = Inr (Some 9)"
    by (simp add: agreed_seed_def sample_request_options_def sample_fields sample_net_def)
  moreover have "mapR (\<lambda>p. cn_commitments sample_net t p (co_coordinatorAddress sample_request_options) (an_tag sample_anchor) sample_rid)
      [Injected 1, Injected 2] = Inr [sample_commitment, sample_commitment]"
    by (simp add: sample_net_def)
  ultimately show ?thesis
    using sample_states(1) sample_created_id
    by (simp add: authenticatedState_def sample_verified_def sample_request_options_def sample_fields del: One_nat_def mapR.simps)
qed

lemma sample_providers: "providers_of sample_node sample_request_options = Inr [Injected 1, Injected 2]"
  by (simp add: providers_of_def sample_request_options_def)

lemma sample_verifies:
  "verifyCompactWitnessConsensus sample_ethers sample_iface sample_node sample_net 0 sample_request_options (Some sample_created) = Inr sample_verified"
proof -
  have "co_chainId sample_request_options = 1" by (simp add: sample_request_options_def)
  then have "verify_with sample_ethers sample_iface sample_net 0 sample_request_options (Some sample_created) [Injected 1, Injected 2] = Inr sample_verified"
    by (simp add: verify_with_def sample_anchored sample_authenticated del: One_nat_def)
  then show ?thesis unfolding verifyCompactWitnessConsensus_def withProviders_Inr using sample_providers by (simp del: One_nat_def)
qed

definition sample_event :: located_event where
  "sample_event = \<lparr>le_block = 10, le_index = 0, le_blockHash = [], le_transactionHash = [], le_witness = sample_created\<rparr>"

lemma sample_provider_history:
  "provider_history sample_ethers sample_iface sample_net t sample_request_options sample_anchor p = Inr [sample_event]"
proof -
  have w: "windows 10 10 = [(10, 10)]" by (simp add: windows.simps [of 10] windows.simps [of 2010])
  have a: "getAddress sample_ethers (sample_hex 20 2) = Inr (sample_hex 20 2)" by code_simp
  have e: "event_of sample_ethers sample_iface sample_request_options (10, 10) sample_log = Inr sample_event"
    using sample_created_id(1) sample_states(1)
    by (simp add: event_of_def sample_log_def sample_request_options_def a isSafeInteger_def sample_fields sample_event_def
        sample_iface_def del: One_nat_def)
  have "validateCompactTransitions sample_ethers [Some sample_created] = Inr sample_created"
  proof -
    have "creation sample_created" by code_simp
    then show ?thesis by (simp add: validateCompactTransitions_def sample_states(1))
  qed
  then show ?thesis
    using w e by (simp add: provider_history_def window_events_def sample_net_def sample_anchor_def sample_event_def
        sample_request_options_def del: One_nat_def)
qed

lemma sample_recovered:
  "recover_with sample_ethers sample_iface sample_net t sample_request_options [Injected 1, Injected 2] = Inr (sample_verified, 1)"
proof -
  have "isOk (fingerprint sample_ethers (Some sample_created))"
    using sample_states(1) by (simp add: fingerprint_def serializeCompactWitness_def)
  then have "isOk (describe sample_ethers [sample_event])"
    by (auto simp: isOk_iff describe_def event_json_def sample_event_def)
  then obtain h where h: "describe sample_ethers [sample_event] = Inr h" by (auto simp: isOk_iff)
  have "co_chainId sample_request_options = 1" "co_fromBlock sample_request_options = 10" "an_number sample_anchor = 10"
    "le_witness sample_event = sample_created" by (simp_all add: sample_request_options_def sample_anchor_def sample_event_def)
  then show ?thesis
    by (simp add: recover_with_def sample_anchored sample_provider_history h sample_authenticated isSafeInteger_def del: One_nat_def)
qed

subsection \<open>Properties\<close>

text \<open>
  C33: One honest endpoint authenticates a witness: when \<open>verifyCompactWitnessConsensus\<close> returns, and any one of its endpoints answered with the
  commitment of the true request \<open>w0\<close>, then the witness that was supplied is exactly that request, or it and the true request are a collision of
  keccak256: two different encodings, both at hand, with one hash. The witness has
  the id that was asked for, and with \<open>includeSeed\<close> it is pending and the seed is the one that this endpoint computed for it.
\<close>

theorem verifyCompactWitnessConsensus_authentic:
  assumes "coder_law E C" "address_law E" "verifyCompactWitnessConsensus E C N net t options w = Inr r"
    and "providers_of N options = Inr ps" "p \<in> set ps"
    and "cn_commitments net (t + 2) p (co_coordinatorAddress options) (an_tag (vf_anchor r)) (co_requestId options) =
      compactCommitment E C w0 (co_chainId options) (co_coordinatorAddress options)"
  shows "normalizeCompactWitness E w = Inr (vf_request r) \<and>
    compactRequestId E C (Some (vf_request r)) = Inr (co_requestId options) \<and>
    (co_includeSeed options \<longrightarrow> get (vf_request r) ''status'' = CBig 1 \<and> (\<exists>seed. vf_actualSeed r = Some seed \<and>
      cn_requestSeed net (t + 3) p (co_coordinatorAddress options) (an_tag (vf_anchor r)) (vf_request r) = Inr seed)) \<and>
    (\<exists>v. normalizeCompactWitness E w0 = Inr v \<and>
      (v = vf_request r \<or> commitment_collision E C (co_chainId options) (co_coordinatorAddress options) (vf_request r) v))"
proof -
  have v: "verify_with E C net t options w ps = Inr r"
    using assms(3,4) by (simp add: verifyCompactWitnessConsensus_def withProviders_Inr)
  note a = verify_with_Inr(1) [OF v, unfolded authentic_def]
  have "compactCommitment E C w0 (co_chainId options) (co_coordinatorAddress options) = Inr (vf_commitment r)"
    using a assms(5,6) by simp
  then have "\<exists>v. normalizeCompactWitness E w0 = Inr v \<and>
      (v = vf_request r \<or> commitment_collision E C (co_chainId options) (co_coordinatorAddress options) (vf_request r) v)"
    using compactCommitment_binds [OF assms(1,2)] a by blast
  moreover have "t + 2 + 1 = t + 3" by simp
  ultimately show ?thesis using verify_with_Inr(2) [OF v] a assms(5) by metis
qed

theorem verifyCompactWitnessConsensus_authentic_witness:
  "\<exists>r. verifyCompactWitnessConsensus sample_ethers sample_iface sample_node sample_net 0 sample_request_options (Some sample_created) = Inr r \<and>
     normalizeCompactWitness sample_ethers (Some sample_created) = Inr (vf_request r) \<and>
     compactRequestId sample_ethers sample_iface (Some (vf_request r)) = Inr sample_rid \<and>
     get (vf_request r) ''status'' = CBig 1 \<and> vf_actualSeed r = Some 9"
proof -
  have "cn_commitments sample_net (0 + 2) (Injected 1) (co_coordinatorAddress sample_request_options) (an_tag (vf_anchor sample_verified))
      (co_requestId sample_request_options) =
    compactCommitment sample_ethers sample_iface (Some sample_created) (co_chainId sample_request_options) (co_coordinatorAddress sample_request_options)"
    by (simp add: sample_net_def sample_created_id)
  from verifyCompactWitnessConsensus_authentic [OF sample_coder_law sample_address_law sample_verifies sample_providers _ this]
  have "normalizeCompactWitness sample_ethers (Some sample_created) = Inr (vf_request sample_verified) \<and>
    compactRequestId sample_ethers sample_iface (Some (vf_request sample_verified)) = Inr (co_requestId sample_request_options) \<and>
    (co_includeSeed sample_request_options \<longrightarrow> get (vf_request sample_verified) ''status'' = CBig 1)" by simp
  then show ?thesis using sample_verifies by (auto simp: sample_request_options_def sample_verified_def)
qed

text \<open>
  C34: A recovered request rests on one complete history that every endpoint told alike: all endpoints returned the same located events,
  these events are a run of the request's life cycle, the request returned is its last state, the number of transitions is the length of the
  history, and every endpoint holds the commitment of that state.
\<close>

theorem recoverCompactRequest_history:
  assumes "address_law E" "recoverCompactRequest E C N net t options = Inr (r, n)"
  shows "\<exists>ps events. providers_of N options = Inr ps \<and> 2 \<le> length ps \<and> distinct ps \<and> length events = n \<and> n \<noteq> 0 \<and>
    validateCompactTransitions E (map (\<lambda>e. Some (le_witness e)) events) = Inr (vf_request r) \<and> authentic E C net (t + 3) ps options r \<and>
    (\<forall>p \<in> set ps. provider_history E C net (t + 2) options (vf_anchor r) p = Inr events)"
proof -
  obtain ps where ps: "providers_of N options = Inr ps" "2 \<le> length ps" "distinct ps" "recover_with E C net t options ps = Inr (r, n)"
    using assms(2) by (auto simp: recoverCompactRequest_def withProviders_Inr)
  then have ne: "ps \<noteq> []" by auto
  show ?thesis using ps recover_with_Inr(1,2) [OF assms(1) ne ps(4)] by blast
qed

theorem recoverCompactRequest_history_witness:
  "recoverCompactRequest sample_ethers sample_iface sample_node sample_net 0 sample_request_options = Inr (sample_verified, 1) \<and>
   (\<exists>events :: located_event list. length events = 1 \<and> validateCompactTransitions sample_ethers (map (\<lambda>e. Some (le_witness e)) events) = Inr (vf_request sample_verified))"
proof -
  have r: "recoverCompactRequest sample_ethers sample_iface sample_node sample_net 0 sample_request_options = Inr (sample_verified, 1)"
    unfolding recoverCompactRequest_def withProviders_Inr using sample_providers sample_recovered by (simp del: One_nat_def)
  then show ?thesis using recoverCompactRequest_history [OF sample_address_law r] by blast
qed

lemma action_proof_Inr:
  assumes "action_proof E C options recovered = Inr d" "ca_action options = ''fulfillRandomWords''"
  shows "\<exists>sender. getAddress E (ca_from options) = Inr sender \<and>
    CJson (JStr (toLowerCase sender)) = get (vf_request recovered) ''fulfiller''"
  using assms by (auto simp: action_proof_def result_simps split: if_splits)

lemma prepare_with_Inr:
  assumes law: "address_law E" and ne: "ps \<noteq> []" and r: "prepare_with E C N net t options ps = Inr r"
  shows "witness_ok E (vf_request (pt_snapshot r)) \<and> 0 < ct_gasPrice (pt_transaction r) \<and>
    compactRequestId E C (Some (vf_request (pt_snapshot r))) = Inr (co_requestId options) \<and>
    compactCommitment E C (Some (vf_request (pt_snapshot r))) (co_chainId options) (co_coordinatorAddress options) =
      Inr (vf_commitment (pt_snapshot r)) \<and>
    (ca_action options = ''fulfillRandomWords'' \<longrightarrow>
      get (vf_request (pt_snapshot r)) ''status'' = CBig 1 \<and>
      CJson (JStr (toLowerCase (ct_from (pt_transaction r)))) = get (vf_request (pt_snapshot r)) ''fulfiller'' \<and>
      ct_gasPrice (pt_transaction r) \<le> big (get (vf_request (pt_snapshot r)) ''maxGasPriceWei'')) \<and>
    (\<exists>proofData. cc_encodeFunctionData C (ca_action options) (vf_request (pt_snapshot r)) proofData = Inr (ct_data (pt_transaction r))) \<and>
    (\<forall>p \<in> set ps. cn_commitments net (t + 8) p (co_coordinatorAddress options) (an_tag (vf_anchor (pt_snapshot r))) (co_requestId options) =
        Inr (vf_commitment (pt_snapshot r)) \<and>
      cn_call net (t + 11) p (pt_transaction r) (an_tag (vf_anchor (pt_snapshot r))) = Inr (pt_simulation r))"
proof -
  let ?scoped = "options\<lparr>co_includeSeed := (ca_action options = ''fulfillRandomWords'')\<rparr>"
  obtain recovered n proofData fresh data to_address from_address sims u where
    a: "recover_with E C net t ?scoped ps = Inr (recovered, n)" "action_proof E C options recovered = Inr proofData"
      "\<not> (ca_gasPriceWei options \<le> 0 \<or> ca_gasLimit options \<le> 0 \<or> ca_action options = ''fulfillRandomWords'' \<and>
         ca_gasPriceWei options > big (get (vf_request recovered) ''maxGasPriceWei''))"
      "verify_with E C net (t + 6) ?scoped (Some (vf_request recovered)) ps = Inr fresh"
      "cc_encodeFunctionData C (ca_action options) (vf_request fresh) proofData = Inr data"
      "getAddress E (ca_from options) = Inr from_address"
    and tx: "pt_transaction r = \<lparr>ct_to = to_address, ct_from = from_address, ct_data = data, ct_gasPrice = ca_gasPriceWei options,
             ct_gasLimit = ca_gasLimit options, ct_chainId = co_chainId options\<rparr>"
    and sims: "mapR (\<lambda>p. cn_call net (t + 11) p (pt_transaction r) (an_tag (vf_anchor fresh))) ps = Inr sims"
      "\<not> list_ex (\<lambda>v. v \<noteq> hd sims) sims" "pt_snapshot r = fresh" "pt_simulation r = hd sims"
    using r by (auto simp: prepare_with_def result_simps Let_def split: if_splits prod.splits)
  have ok: "witness_ok E (vf_request recovered)" using recover_with_Inr(2) [OF law ne a(1)] by (simp add: authentic_def)
  have same: "vf_request fresh = vf_request recovered" using verify_with_Inr(2) [OF a(4)] normalize_again(1) [OF law ok] by simp
  note v = verify_with_Inr(1) [OF a(4), unfolded authentic_def]
  have t: "t + 6 + 2 = t + 8" by simp
  show ?thesis
    using v [unfolded t] a(3,5,6) action_proof_Inr [OF a(2)] agreed_answers [OF sims(1,2)] same
    by (auto simp: sims(3,4) tx)
qed

text \<open>
  C35: A prepared transaction acts on exactly the request that every endpoint committed to: the request inside its call data has
  the wanted id, hashes to the commitment that all endpoints hold for that id at the anchor, all of them simulated this very transaction with one result, and a fulfilment is
  sent by the pinned fulfiller, while the request is pending, at a gas price that the request allows.
\<close>

theorem prepareCompactTransaction_safe:
  assumes "address_law E" "prepareCompactTransaction E C N net t options = Inr r"
  shows "\<exists>ps. providers_of N options = Inr ps \<and> 2 \<le> length ps \<and> distinct ps \<and> 0 < ct_gasPrice (pt_transaction r) \<and>
    compactRequestId E C (Some (vf_request (pt_snapshot r))) = Inr (co_requestId options) \<and>
    compactCommitment E C (Some (vf_request (pt_snapshot r))) (co_chainId options) (co_coordinatorAddress options) =
      Inr (vf_commitment (pt_snapshot r)) \<and>
    (ca_action options = ''fulfillRandomWords'' \<longrightarrow>
      get (vf_request (pt_snapshot r)) ''status'' = CBig 1 \<and>
      CJson (JStr (toLowerCase (ct_from (pt_transaction r)))) = get (vf_request (pt_snapshot r)) ''fulfiller'' \<and>
      ct_gasPrice (pt_transaction r) \<le> big (get (vf_request (pt_snapshot r)) ''maxGasPriceWei'')) \<and>
    (\<exists>proofData. cc_encodeFunctionData C (ca_action options) (vf_request (pt_snapshot r)) proofData = Inr (ct_data (pt_transaction r))) \<and>
    (\<forall>p \<in> set ps. cn_commitments net (t + 8) p (co_coordinatorAddress options) (an_tag (vf_anchor (pt_snapshot r))) (co_requestId options) =
        Inr (vf_commitment (pt_snapshot r)) \<and>
      cn_call net (t + 11) p (pt_transaction r) (an_tag (vf_anchor (pt_snapshot r))) = Inr (pt_simulation r))"
proof -
  obtain ps where ps: "providers_of N options = Inr ps" "2 \<le> length ps" "distinct ps" "prepare_with E C N net t options ps = Inr r"
    using assms(2) by (auto simp: prepareCompactTransaction_def withProviders_Inr split: if_splits)
  then have "ps \<noteq> []" by auto
  from ps(1-3) prepare_with_Inr [OF assms(1) this ps(4)] show ?thesis by (intro exI [of _ ps]) simp
qed

text \<open>The readers see only the options of a reader.\<close>

lemma truncate_selectors:
  "co_chainId (compact_options.truncate r) = co_chainId r" "co_coordinatorAddress (compact_options.truncate r) = co_coordinatorAddress r"
  "co_requestId (compact_options.truncate r) = co_requestId r" "co_keyHash (compact_options.truncate r) = co_keyHash r"
  "co_includeSeed (compact_options.truncate r) = co_includeSeed r" "co_fromBlock (compact_options.truncate r) = co_fromBlock r"
  by (simp_all add: compact_options.truncate_def)

lemma truncate_readers:
  "authenticatedState E C net t ps (compact_options.truncate r) a w = authenticatedState E C net t ps r a w"
  "event_of E C (compact_options.truncate r) = event_of E C r"
  "window_events E C net t (compact_options.truncate r) = window_events E C net t r"
  "provider_history E C net t (compact_options.truncate r) = provider_history E C net t r"
proof -
  show "authenticatedState E C net t ps (compact_options.truncate r) a w = authenticatedState E C net t ps r a w"
    unfolding authenticatedState_def agreed_seed_def truncate_selectors ..
  show e: "event_of E C (compact_options.truncate r) = event_of E C r"
    unfolding event_of_def truncate_selectors ..
  show w: "window_events E C net t (compact_options.truncate r) = window_events E C net t r"
    unfolding window_events_def truncate_selectors e ..
  show "provider_history E C net t (compact_options.truncate r) = provider_history E C net t r"
    unfolding provider_history_def truncate_selectors w ..
qed

lemma truncate_recover:
  "recover_with E C net t (compact_options.truncate r) ps = recover_with E C net t r ps"
  "verify_with E C net t (compact_options.truncate r) w ps = verify_with E C net t r w ps"
  unfolding recover_with_def verify_with_def truncate_selectors truncate_readers by (rule refl)+

lemma sample_prepares:
  "\<exists>r. prepareCompactTransaction sample_ethers sample_iface sample_node sample_net 0 sample_action = Inr r"
proof -
  have t: "compact_options.truncate (sample_action\<lparr>co_includeSeed := True\<rparr>) = sample_request_options"
    by (simp add: compact_options.truncate_def compact_options.extend_def sample_action_def sample_request_options_def)
  note readers = truncate_recover [where r = "sample_action\<lparr>co_includeSeed := True\<rparr>", unfolded t]
  have f: "co_chainId sample_action = 1" "ca_action sample_action = ''fulfillRandomWords''" "ca_gasPriceWei sample_action = 1"
    "ca_gasLimit sample_action = 3000000" "co_coordinatorAddress sample_action = sample_hex 20 2" "ca_from sample_action = sample_hex 20 1"
    by (simp_all add: sample_action_def compact_options.extend_def sample_request_options_def)
  have r: "recover_with sample_ethers sample_iface sample_net t (sample_action\<lparr>co_includeSeed := True\<rparr>) [Injected 1, Injected 2] =
      Inr (sample_verified, 1)" for t
    unfolding readers(1) [symmetric] by (rule sample_recovered)
  have "co_chainId sample_request_options = 1" by (simp add: sample_request_options_def)
  then have "verify_with sample_ethers sample_iface sample_net t sample_request_options (Some sample_created)
      [Injected 1, Injected 2] = Inr sample_verified" for t
    by (simp add: verify_with_def sample_anchored sample_authenticated del: One_nat_def)
  then have v: "verify_with sample_ethers sample_iface sample_net t (sample_action\<lparr>co_includeSeed := True\<rparr>) (Some sample_created)
      [Injected 1, Injected 2] = Inr sample_verified" for t unfolding readers(2) .
  have addresses: "getAddress sample_ethers (sample_hex 20 1) = Inr (sample_hex 20 1)" "getAddress sample_ethers (sample_hex 20 2) = Inr (sample_hex 20 2)"
    by code_simp+
  have proof_data: "action_proof sample_ethers sample_iface sample_action sample_verified = Inr (Some ''proof'')"
    using sample_states(1)
    by (simp add: action_proof_def f addresses sample_fields sample_verified_def serializeCompactWitness_def del: One_nat_def)
      (simp add: sample_action_def compact_options.extend_def)
  have tx: "cc_encodeFunctionData sample_iface m w d = Inr ''data''" "cn_call sample_net t p x y = Inr ''result''" for m w d t p x y
    by (simp_all add: sample_iface_def sample_net_def)
  have "vf_request sample_verified = sample_created" "vf_anchor sample_verified = sample_anchor" by (simp_all add: sample_verified_def)
  then have "isOk (prepare_with sample_ethers sample_iface sample_node sample_net 0 sample_action [Injected 1, Injected 2])"
    unfolding prepare_with_def Let_def f
    by (simp add: r v proof_data addresses tx f sample_fields big_def sample_anchored del: One_nat_def)
  moreover have "providers_of sample_node sample_action = Inr [Injected 1, Injected 2]"
    by (simp add: providers_of_def sample_action_def compact_options.extend_def sample_request_options_def)
  ultimately show ?thesis
    unfolding prepareCompactTransaction_def f isOk_iff by (auto simp: withProviders_Inr simp del: One_nat_def)
qed

theorem prepareCompactTransaction_safe_witness:
  "\<exists>r ps. prepareCompactTransaction sample_ethers sample_iface sample_node sample_net 0 sample_action = Inr r \<and>
     providers_of sample_node sample_action = Inr ps \<and> 2 \<le> length ps \<and>
     ct_gasPrice (pt_transaction r) \<le> big (get (vf_request (pt_snapshot r)) ''maxGasPriceWei'')"
proof -
  obtain r where r: "prepareCompactTransaction sample_ethers sample_iface sample_node sample_net 0 sample_action = Inr r"
    using sample_prepares by blast
  have "ca_action sample_action = ''fulfillRandomWords''" by (simp add: sample_action_def compact_options.extend_def)
  then show ?thesis using prepareCompactTransaction_safe [OF sample_address_law r] r by blast
qed

end
