(* ===== verification/Redaction.thy ===== *)
theory Redaction
  imports Rpc_Consensus
begin

section \<open>Redaction of error texts (operator/errors.mjs)\<close>

text \<open>
  Every error text that leaves a process, in a log line, a database row or an HTTP answer, passes \<open>redactText\<close>. It is four global
  replacements by case-insensitive regular expressions and a cut to 1,200 characters. A regular expression is a matcher: at a given place
  of the text it yields the replacement and the length of the match less one.
\<close>

subsection \<open>Global replacement\<close>

type_synonym matcher = "string \<Rightarrow> (string \<times> nat) option"

fun replace_all :: "matcher \<Rightarrow> string \<Rightarrow> string" where
  "replace_all m [] = []"
| "replace_all m (c # cs) = (case m (c # cs) of
     None \<Rightarrow> c # replace_all m cs
   | Some (replacement, n) \<Rightarrow> replacement @ replace_all m (drop n cs))"

definition starts_ci :: "string \<Rightarrow> string \<Rightarrow> bool" where
  "starts_ci p s \<longleftrightarrow> map toLowerChar (take (length p) s) = p"

definition url_char :: "char \<Rightarrow> bool" where
  "url_char c \<longleftrightarrow> \<not> isSpace c \<and> c \<notin> {CHR 0x22, CHR 0x27, CHR ''<'', CHR ''>''}"

definition token_char :: "char \<Rightarrow> bool" where
  "token_char c \<longleftrightarrow> \<not> isSpace c \<and> c \<notin> {CHR 0x22, CHR 0x27, CHR '','', CHR '';'', CHR ''}''}"

definition url_match :: matcher where
  "url_match s = (case List.find (\<lambda>p. starts_ci (p @ ''://'') s) [''http'', ''https'', ''ws'', ''wss'', ''postgres'', ''postgresql''] of
     None \<Rightarrow> None
   | Some p \<Rightarrow> (let body = takeWhile url_char (drop (length p + 3) s) in
       if body = [] then None else Some (''[redacted-url]'', length p + 2 + length body)))"

definition bearer_match :: matcher where
  "bearer_match s = (if starts_ci ''bearer'' s
     then (let space = takeWhile isSpace (drop 6 s); body = takeWhile token_char (drop (6 + length space) s) in
       if space = [] \<or> body = [] then None else Some (''Bearer [redacted]'', 5 + length space + length body))
     else None)"

definition secret_names :: "string list" where
  "secret_names = [''privatekey'', ''private_key'', ''private-key'', ''password'', ''token'', ''apikey'', ''api_key'', ''api-key'',
     ''authorization'']"

text \<open>The name, the sign and the space around it are kept.\<close>

definition secret_match :: matcher where
  "secret_match s = (case List.find (\<lambda>p. starts_ci p s) secret_names of
     None \<Rightarrow> None
   | Some p \<Rightarrow>
       (let before = takeWhile isSpace (drop (length p) s); k = length p + length before in
        (case drop k s of
           sign # rest \<Rightarrow>
             (let after = takeWhile isSpace rest; body = takeWhile token_char (drop (length after) rest);
                  kept = k + 1 + length after in
              if sign \<notin> {CHR ''='', CHR '':''} \<or> body = [] then None
              else Some (take kept s @ ''[redacted]'', kept + length body - 1))
         | [] \<Rightarrow> None)))"

definition hex_char :: "char \<Rightarrow> bool" where
  "hex_char c \<longleftrightarrow> hexValue c \<noteq> None"

definition hex_match :: matcher where
  "hex_match s = (if starts_ci ''0x'' s
     then (let body = takeWhile hex_char (drop 2 s) in
       if length body < 64 then None else Some (''[redacted-hex]'', 1 + length body))
     else None)"

definition redactText :: "string \<Rightarrow> string" where
  "redactText s = take 1200 (replace_all hex_match (replace_all secret_match (replace_all bearer_match (replace_all url_match s))))"

subsection \<open>What is left\<close>

text \<open>No literal of 64 or more hexadecimal digits occurs in a text: the form of a private key.\<close>

definition hex_free :: "string \<Rightarrow> bool" where
  "hex_free s \<longleftrightarrow> (\<forall>a h b. s = a @ ''0x'' @ h @ b \<longrightarrow> list_all hex_char h \<longrightarrow> length h < 64)"

lemma hex_free_simps [simp]: "hex_free []"
  by (simp add: hex_free_def)

lemma hex_free_Cons:
  "hex_free (c # s) \<longleftrightarrow> hex_free s \<and> (\<forall>h b. c # s = ''0x'' @ h @ b \<longrightarrow> list_all hex_char h \<longrightarrow> length h < 64)"
proof
  assume l: "hex_free (c # s)"
  have "hex_free s" unfolding hex_free_def
  proof (intro allI impI)
    fix a h b assume "s = a @ ''0x'' @ h @ b" "list_all hex_char h"
    then show "length h < 64" using l [unfolded hex_free_def, rule_format, of "c # a" h b] by simp
  qed
  then show "hex_free s \<and> (\<forall>h b. c # s = ''0x'' @ h @ b \<longrightarrow> list_all hex_char h \<longrightarrow> length h < 64)"
    using l [unfolded hex_free_def, rule_format, of "[]"] by auto
next
  assume r: "hex_free s \<and> (\<forall>h b. c # s = ''0x'' @ h @ b \<longrightarrow> list_all hex_char h \<longrightarrow> length h < 64)"
  show "hex_free (c # s)" unfolding hex_free_def
  proof (intro allI impI)
    fix a h b assume e: "c # s = a @ ''0x'' @ h @ b" "list_all hex_char h"
    show "length h < 64"
    proof (cases a)
      case Nil
      then show ?thesis using e r by auto
    next
      case (Cons d as)
      then show ?thesis using e r unfolding hex_free_def by (metis append_Cons list.inject)
    qed
  qed
qed

lemma hex_free_prefix: "hex_free s \<Longrightarrow> CHR ''0'' \<notin> set p \<Longrightarrow> hex_free (p @ s)"
  by (induction p) (auto simp: hex_free_Cons)

text \<open>What the replacement leaves in front of its first bracket was in the text.\<close>

lemma replace_kept: "replace_all hex_match s = t @ r \<Longrightarrow> CHR ''['' \<notin> set t \<Longrightarrow> \<exists>r'. s = t @ r'"
proof (induction s arbitrary: t)
  case (Cons c cs)
  show ?case
  proof (cases "hex_match (c # cs)")
    case None
    then show ?thesis using Cons by (cases t) auto
  next
    case (Some rn)
    then have "fst rn = ''[redacted-hex]''" by (auto simp: hex_match_def Let_def split: if_splits)
    then have "t = []" using Cons.prems Some by (cases t) (auto split: prod.splits)
    then show ?thesis by simp
  qed
qed simp

lemma hex_match_None:
  assumes "hex_match (CHR ''0'' # CHR ''x'' # h @ r) = None" "list_all hex_char h"
  shows "length h < 64"
proof -
  have "toLowerChar (CHR ''0'') = CHR ''0''" "toLowerChar (CHR ''x'') = CHR ''x''" by code_simp+
  then have "starts_ci ''0x'' (CHR ''0'' # CHR ''x'' # h @ r)" by (simp add: starts_ci_def)
  then have "length (takeWhile hex_char (h @ r)) < 64" using assms(1) by (simp add: hex_match_def Let_def split: if_splits)
  then show ?thesis using assms(2) by (simp add: takeWhile_append2 list_all_iff)
qed

lemma hex_free_replaced: "hex_free (replace_all hex_match s)"
proof (induction s rule: length_induct)
  case (1 s)
  show ?case
  proof (cases s)
    case (Cons c cs)
    show ?thesis
    proof (cases "hex_match s")
      case None
      have "length h < 64" if e: "c # replace_all hex_match cs = ''0x'' @ h @ b" "list_all hex_char h" for h b
      proof -
        have "\<not> hex_char (CHR ''['')" unfolding hex_char_def by code_simp
        then have b: "CHR ''['' \<notin> set (CHR ''x'' # h)" using e(2) by (auto simp: list_all_iff)
        have c: "c = CHR ''0''" and r: "replace_all hex_match cs = (CHR ''x'' # h) @ b" using e(1) by simp_all
        obtain r where "cs = (CHR ''x'' # h) @ r" using replace_kept [OF r b] by blast
        then have "hex_match (CHR ''0'' # CHR ''x'' # h @ r) = None" using None Cons c by simp
        then show ?thesis using e(2) by (rule hex_match_None)
      qed
      then show ?thesis using 1 Cons None by (simp add: hex_free_Cons)
    next
      case (Some rn)
      then have "fst rn = ''[redacted-hex]''" by (auto simp: hex_match_def Let_def split: if_splits)
      then have "replace_all hex_match s = ''[redacted-hex]'' @ replace_all hex_match (drop (snd rn) cs)"
        using Some Cons by (cases rn) simp
      moreover have "hex_free (replace_all hex_match (drop (snd rn) cs))" using 1 Cons by simp
      then have "hex_free (''[redacted-hex]'' @ replace_all hex_match (drop (snd rn) cs))" by (rule hex_free_prefix) simp
      ultimately show ?thesis by (simp only:)
    qed
  qed simp
qed

lemma hex_free_take: "hex_free s \<Longrightarrow> hex_free (take n s)"
  unfolding hex_free_def
proof (intro allI impI)
  fix a h b assume f: "\<forall>a h b. s = a @ ''0x'' @ h @ b \<longrightarrow> list_all hex_char h \<longrightarrow> length h < 64"
    and e: "take n s = a @ ''0x'' @ h @ b" "list_all hex_char h"
  have "s = a @ ''0x'' @ h @ (b @ drop n s)" using e(1) append_take_drop_id [of n s] by simp
  then show "length h < 64" using f e(2) by blast
qed

lemma redactText_safe: "hex_free (redactText s) \<and> length (redactText s) \<le> 1200"
  by (simp add: redactText_def hex_free_take hex_free_replaced)

end
