(* ===== verification/Error_Details.thy ===== *)
theory Error_Details
  imports Redaction "HOL-Library.AList" "HOL-Library.Sublist"
begin

section \<open>Details of an error (operator/errors.mjs)\<close>

text \<open>
  \<open>errorDetails\<close> turns a thrown value into a flat record of redacted texts: it reads an allowlist of fields of the value and, to depth three, of the errors
  nested in it. Thrown values are objects that may share parts and point back to themselves, so they live in a heap: \<open>eh_prop\<close> reads a property
  of the object at an address, and \<open>seen\<close> is the set of addresses that were visited. Both reading a property (a getter, a proxy) and \<open>String(value)\<close> (an
  object without a prototype) may throw, and then so does \<open>errorDetails\<close>.
\<close>

datatype err_value = EObject nat | EScalar json

record err_heap =
  eh_prop :: "nat \<Rightarrow> string \<Rightarrow> err_value result"
  eh_string :: "nat \<Rightarrow> string result"

text \<open>\<open>value?.name\<close>, and \<open>String(value)\<close>.\<close>

definition prop_of :: "err_heap \<Rightarrow> err_value \<Rightarrow> string \<Rightarrow> err_value result" where
  "prop_of H v name = (case v of EObject i \<Rightarrow> eh_prop H i name | EScalar _ \<Rightarrow> Inr (EScalar JUndefined))"

definition text_of_value :: "err_heap \<Rightarrow> err_value \<Rightarrow> string result" where
  "text_of_value H v = (case v of EObject i \<Rightarrow> eh_string H i | EScalar j \<Rightarrow> Inr (js_string j))"

definition value_truthy :: "err_value \<Rightarrow> bool" where
  "value_truthy v = (case v of EObject i \<Rightarrow> True | EScalar j \<Rightarrow> truthy j)"

definition scalar_text :: "err_value \<Rightarrow> string option" where
  "scalar_text v = (case v of EScalar (JStr s) \<Rightarrow> Some s | EScalar (JInt n) \<Rightarrow> Some (showInt n) | EScalar (JFrac s) \<Rightarrow> Some s | _ \<Rightarrow> None)"

definition ERROR_FIELDS :: "string list" where
  "ERROR_FIELDS = [''code'', ''shortMessage'', ''message'', ''reason'', ''errno'', ''syscall'']"

definition detail_key :: "nat \<Rightarrow> string \<Rightarrow> string" where
  "detail_key depth name = (if depth = 0 then name else ''cause'' @ showInt (int depth) @ ''_'' @ name)"

definition add_field :: "err_heap \<Rightarrow> err_value \<Rightarrow> nat \<Rightarrow> (string \<times> string) list \<Rightarrow> string \<Rightarrow> (string \<times> string) list result" where
  "add_field H v depth details name = bindR (prop_of H v name) (\<lambda>p. Inr (case scalar_text p of
     None \<Rightarrow> details
   | Some s \<Rightarrow> (let key = detail_key depth name in
       if map_of details key = None then details @ [(key, redactText s)] else details)))"

definition word_char :: "char \<Rightarrow> bool" where
  "word_char c \<longleftrightarrow> (let n = (of_char c :: nat) in 48 \<le> n \<and> n \<le> 57 \<or> 65 \<le> n \<and> n \<le> 90 \<or> 97 \<le> n \<and> n \<le> 122 \<or> n = 95)"

definition method_name :: "string \<Rightarrow> bool" where
  "method_name s \<longleftrightarrow> s \<noteq> [] \<and> length s \<le> 80 \<and> list_all word_char s \<and> \<not> isDigit (hd s) \<and> hd s \<noteq> CHR ''_''"

definition rpc_method :: "err_heap \<Rightarrow> err_value \<Rightarrow> err_value result" where
  "rpc_method H v = bindR (prop_of H v ''payload'') (\<lambda>payload. bindR (prop_of H payload ''method'') (\<lambda>m.
     if value_truthy m then Inr m
     else bindR (prop_of H v ''info'') (\<lambda>info. bindR (prop_of H info ''payload'') (\<lambda>payload. prop_of H payload ''method''))))"

definition add_method :: "err_heap \<Rightarrow> err_value \<Rightarrow> (string \<times> string) list \<Rightarrow> (string \<times> string) list result" where
  "add_method H v details = bindR (rpc_method H v) (\<lambda>m. Inr (case m of
     EScalar (JStr s) \<Rightarrow> if method_name s then AList.update ''rpcMethod'' s details else details
   | _ \<Rightarrow> details))"

text \<open>\<open>visit\<close>: the fields of one object, then the three errors nested in it.\<close>

definition own_details :: "err_heap \<Rightarrow> err_value \<Rightarrow> nat \<Rightarrow> (string \<times> string) list \<Rightarrow> (string \<times> string) list result" where
  "own_details H v depth details = bindR (foldR (add_field H v depth) details ERROR_FIELDS) (add_method H v)"

function visit ::
  "err_heap \<Rightarrow> err_value \<Rightarrow> nat \<Rightarrow> nat set \<times> (string \<times> string) list \<Rightarrow> (nat set \<times> (string \<times> string) list) result" where
  "visit H v depth st = (case v of
     EScalar _ \<Rightarrow> Inr st
   | EObject i \<Rightarrow> if i \<in> fst st \<or> depth > 3 then Inr st
       else bindR (own_details H v depth (snd st)) (\<lambda>details.
         bindR (prop_of H v ''error'') (\<lambda>e. bindR (visit H e (depth + 1) (insert i (fst st), details)) (\<lambda>st1.
         bindR (prop_of H v ''info'') (\<lambda>info. bindR (prop_of H info ''error'') (\<lambda>e. bindR (visit H e (depth + 1) st1) (\<lambda>st2.
         bindR (prop_of H v ''cause'') (\<lambda>e. visit H e (depth + 1) st2))))))))"
  by pat_completeness auto
termination by (relation "measure (\<lambda>(H, v, depth, st). 4 - depth)") auto

declare visit.simps [simp del]

definition errorDetails :: "err_heap \<Rightarrow> err_value \<Rightarrow> (string \<times> string) list result" where
  "errorDetails H e = bindR (visit H e 0 ({}, [])) (\<lambda>st.
     if snd st = [] then bindR (text_of_value H e) (\<lambda>s. Inr [(''message'', redactText s)]) else Inr (snd st))"

definition contains_text :: "string \<Rightarrow> string \<Rightarrow> bool" where
  "contains_text part s \<longleftrightarrow> list_ex (prefix part) (suffixes s)"

fun join_with :: "string \<Rightarrow> string list \<Rightarrow> string" where
  "join_with sep [] = []"
| "join_with sep [s] = s"
| "join_with sep (s # t # ts) = s @ sep @ join_with sep (t # ts)"

definition errorMessage :: "err_heap \<Rightarrow> err_value \<Rightarrow> string result" where
  "errorMessage H e = bindR (errorDetails H e) (\<lambda>details.
     let found = filter (\<lambda>(k, v). contains_text ''message'' (toLowerCase k) \<or> contains_text ''reason'' (toLowerCase k)) details;
         joined = join_with '' | '' (rev (remdups (rev (map snd found)))) in
     if joined \<noteq> [] then Inr joined
     else bindR (prop_of H e ''code'') (\<lambda>code.
       if value_truthy code then bindR (text_of_value H code) (\<lambda>s. Inr (redactText s)) else Inr (redactText ''unknown error'')))"

text \<open>An \<open>Error\<close> that has only a message.\<close>

definition plain_error :: "string \<Rightarrow> err_heap" where
  "plain_error e = \<lparr>eh_prop = (\<lambda>i name. Inr (EScalar (if name = ''message'' then JStr e else JUndefined))), eh_string = (\<lambda>i. Inr (''Error: '' @ e))\<rparr>"

definition error_answer :: "string \<Rightarrow> json result" where
  "error_answer e = bindR (errorDetails (plain_error e) (EObject 0)) (\<lambda>details.
     bindR (errorMessage (plain_error e) (EObject 0)) (\<lambda>message.
     Inr (JObj [(''error'', JStr message), (''details'', JObj (map (\<lambda>(k, v). (k, JStr v)) details))])))"

subsection \<open>What the details can contain\<close>


text \<open>\<open>thrown\<close>: some read of the heap throws with this message. \<open>safely\<close>: a step throws nothing else, and what it yields satisfies \<open>P\<close>.\<close>

definition thrown :: "err_heap \<Rightarrow> string \<Rightarrow> bool" where
  "thrown H m \<longleftrightarrow> (\<exists>i name. eh_prop H i name = Inl m) \<or> (\<exists>i. eh_string H i = Inl m)"

definition safely :: "err_heap \<Rightarrow> ('a \<Rightarrow> bool) \<Rightarrow> 'a result \<Rightarrow> bool" where
  "safely H P r \<longleftrightarrow> (case r of Inl m \<Rightarrow> thrown H m | Inr x \<Rightarrow> P x)"

lemma safely_simps [simp]: "safely H P (Inl m) = thrown H m" "safely H P (Inr x) = P x"
  by (simp_all add: safely_def)











end
