(* ===== verification/Prover_Server.thy ===== *)
theory Prover_Server
  imports Compact_Protocol Error_Details Dkg_Packets Ecvrf_Correct
begin

section \<open>The prover server (operator/prover-server.mjs)\<close>

text \<open>
  The prover server holds the secret of the VRF. It proves only for a request that is pending in the coordinator: the caller names the request, the server reads it and its
  seed from at least two endpoints, and the seed that it evaluates is the one that they agree on. The handler is modelled with its guards and its
  answers; \<open>JSON.parse\<close>, the endpoints and the curve library are parameters, as is \<open>BigInt\<close> of a number with a fraction.
\<close>

subsection \<open>Proofs on the wire\<close>

definition json_pair :: "int \<times> int \<Rightarrow> json" where
  "json_pair xy = JArr [JStr (showInt (fst xy)), JStr (showInt (snd xy))]"

definition serializableProof :: "vrf_proof \<Rightarrow> json" where
  "serializableProof pf = JObj [(''pk'', json_pair (pf_pk pf)), (''gamma'', json_pair (pf_gamma pf)), (''c'', JStr (showInt (pf_c pf))),
     (''s'', JStr (showInt (pf_s pf))), (''seed'', JStr (showInt (pf_seed pf))), (''uWitness'', JStr (pf_uWitness pf)),
     (''cGammaWitness'', json_pair (pf_cGammaWitness pf)), (''sHashWitness'', json_pair (pf_sHashWitness pf)),
     (''zInv'', JStr (showInt (pf_zInv pf)))]"

text \<open>\<open>BigInt(value)\<close>.\<close>

definition bigint :: "(string \<Rightarrow> int result) \<Rightarrow> json \<Rightarrow> int result" where
  "bigint frac v = (case v of
     JInt n \<Rightarrow> Inr n
   | JFrac s \<Rightarrow> frac s
   | JBool b \<Rightarrow> Inr (if b then 1 else 0)
   | JNull \<Rightarrow> Inl ''Cannot convert null to a BigInt''
   | JUndefined \<Rightarrow> Inl ''Cannot convert undefined to a BigInt''
   | _ \<Rightarrow> (case read_integer (js_string v) of
       Some n \<Rightarrow> Inr n | None \<Rightarrow> Inl (''Cannot convert '' @ js_string v @ '' to a BigInt'')))"

subsection \<open>The canonical request\<close>

definition normalized_request_json :: "chain_request \<Rightarrow> int \<Rightarrow> json" where
  "normalized_request_json r actualSeed = JObj [
     (''consumer'', JStr (toLowerCase (cr_consumer r))), (''verifier'', JStr (toLowerCase (cr_verifier r))),
     (''verifierCodeHash'', JStr (toLowerCase (cr_verifierCodeHash r))),
     (''fulfiller'', JStr (toLowerCase (cr_fulfiller r))), (''payee'', JStr (toLowerCase (cr_payee r))),
     (''keyHash'', JStr (toLowerCase (cr_keyHash r))), (''subscriptionId'', JStr (showInt (cr_subscriptionId r))),
     (''preSeed'', JStr (showInt (cr_preSeed r))), (''reservedPayment'', JStr (showInt (cr_reservedPayment r))),
     (''randomness'', JStr (showInt (cr_randomness r))), (''minimumFeeWei'', JStr (showInt (cr_minimumFeeWei r))),
     (''requestBlock'', JStr (showInt (cr_requestBlock r))), (''expiresAtBlock'', JStr (showInt (cr_expiresAtBlock r))),
     (''maxGasPriceWei'', JStr (showInt (cr_maxGasPriceWei r))),
     (''verificationGasLimit'', JInt (cr_verificationGasLimit r)), (''proofDataLength'', JInt (cr_proofDataLength r)),
     (''callbackGasLimit'', JInt (cr_callbackGasLimit r)), (''numWords'', JInt (cr_numWords r)),
     (''callbackAttempts'', JInt (cr_callbackAttempts r)),
     (''fulfillmentOverheadGas'', JInt (cr_fulfillmentOverheadGas r)), (''confirmations'', JInt (cr_confirmations r)),
     (''premiumBps'', JInt (cr_premiumBps r)), (''operatorPremiumShareBps'', JInt (cr_operatorPremiumShareBps r)),
     (''status'', JInt (cr_status r)), (''sponsored'', JBool (cr_sponsored r)),
     (''waiveMinimumFee'', JBool (cr_waiveMinimumFee r)), (''callbackSucceeded'', JBool (cr_callbackSucceeded r)),
     (''actualSeed'', JStr (showInt actualSeed))]"

definition normalizedRequest :: "chain_request \<Rightarrow> int \<Rightarrow> string" where
  "normalizedRequest r actualSeed = JSON_stringify (normalized_request_json r actualSeed)"

record prover_rpc =
  pr_chainId :: "int result"
  pr_getRequest :: "string \<Rightarrow> chain_request result"
  pr_requestSeed :: "string \<Rightarrow> int result"

record proof_state =
  ps_request :: chain_request
  ps_actualSeed :: int
  ps_normalized :: string

text \<open>
  The id as the caller wrote it, as an argument of type \<open>uint256\<close>: ethers takes a text or a safe integer, and refuses any other value, such as an array
  whose text is a number.
\<close>

definition uint_argument :: "json \<Rightarrow> string result" where
  "uint_argument v = (case v of
     JStr s \<Rightarrow> Inr s
   | JInt n \<Rightarrow> if isSafeInteger n then Inr (showInt n) else Inl ''invalid BigNumberish value''
   | _ \<Rightarrow> Inl ''invalid BigNumberish value'')"

definition read_proof_state :: "int \<Rightarrow> string \<Rightarrow> json \<Rightarrow> prover_rpc \<Rightarrow> proof_state result" where
  "read_proof_state chainId keyHash requestId rpc = bindR (pr_chainId rpc) (\<lambda>c.
     if c \<noteq> chainId then Inl ''RPC chainId mismatch''
     else bindR (uint_argument requestId) (\<lambda>rid. bindR (pr_getRequest rpc rid) (\<lambda>request.
     if cr_status request \<noteq> 1 then Inl ''request is not pending''
     else if toLowerCase (cr_keyHash request) \<noteq> toLowerCase keyHash then Inl ''request keyHash does not match the prover key''
     else bindR (pr_requestSeed rpc rid) (\<lambda>actualSeed.
       Inr \<lparr>ps_request = request, ps_actualSeed = actualSeed, ps_normalized = normalizedRequest request actualSeed\<rparr>))))"

definition agree_on_proof_state :: "proof_state list \<Rightarrow> proof_state result" where
  "agree_on_proof_state states =
     (if list_ex (\<lambda>s. ps_normalized s \<noteq> ps_normalized (hd states)) states
      then Inl ''independent RPC endpoints disagree on the canonical request'' else Inr (hd states))"

text \<open>The configured server. What it reads from the outside: the endpoints by URL, and the compact readers' endpoints.\<close>

record prover_config =
  pc_privateKey :: int
  pc_publicKey :: "int \<times> int"
  pc_keyHash :: string
  pc_bearerToken :: string
  pc_coordinator :: string
  pc_chainId :: int
  pc_rpcUrls :: json
  pc_allowSharedRpcOrigin :: bool

record 'p prover_world =
  pw_rpc :: "string \<Rightarrow> prover_rpc"
  pw_net :: "'p compact_net"

text \<open>The seeds of the canonical request: the pre-seed and the actual seed.\<close>

definition compact_reader :: "prover_config \<Rightarrow> json \<Rightarrow> 'p compact_options" where
  "compact_reader cfg requestId = \<lparr>co_providers = None, co_rpcUrls = pc_rpcUrls cfg, co_allowSharedOrigin = pc_allowSharedRpcOrigin cfg,
     co_chainId = pc_chainId cfg, co_coordinatorAddress = pc_coordinator cfg, co_requestId = int (digits_value (js_string requestId) 0),
     co_keyHash = pc_keyHash cfg, co_includeSeed = True, co_fromBlock = 0\<rparr>"

definition witness_value :: "json \<Rightarrow> witness option" where
  "witness_value v = (case v of JObj fs \<Rightarrow> Some (from_json fs) | _ \<Rightarrow> None)"

definition resolveProofRequest ::
  "ethers \<Rightarrow> compact_iface \<Rightarrow> 'k node \<Rightarrow> 'p prover_world \<Rightarrow> prover_config \<Rightarrow> json \<Rightarrow> json option \<Rightarrow> (int \<times> int) result" where
  "resolveProofRequest E I N W cfg requestId compactWitness = (case compactWitness of
     Some w \<Rightarrow> bindR (verifyCompactWitnessConsensus E I N (pw_net W) 0 (compact_reader cfg requestId) (witness_value w)) (\<lambda>v.
       (case vf_actualSeed v of Some seed \<Rightarrow> Inr (big (get (vf_request v) ''preSeed''), seed)
        | None \<Rightarrow> Inl ''Cannot read properties of undefined''))
   | None \<Rightarrow> bindR (normalizeRpcUrls N (pc_rpcUrls cfg) 2 ''remote prover'' (pc_allowSharedRpcOrigin cfg)) (\<lambda>urls.
       bindR (mapR (\<lambda>url. read_proof_state (pc_chainId cfg) (pc_keyHash cfg) requestId (pw_rpc W url)) urls) (\<lambda>states.
       bindR (agree_on_proof_state states) (\<lambda>s. Inr (cr_preSeed (ps_request s), ps_actualSeed s)))))"

subsection \<open>The handler\<close>

definition PROOF_REQUEST_KEYS :: "string list" where
  "PROOF_REQUEST_KEYS = [''scheme'', ''serviceKeyHash'', ''requestId'', ''coordinator'', ''chainId'']"

text \<open>The check that the body is bound to this service; it yields the request id and the witness.\<close>

definition bound_request :: "(string \<Rightarrow> int result) \<Rightarrow> prover_config \<Rightarrow> json \<Rightarrow> (json \<times> json option) result" where
  "bound_request frac cfg body =
     (let wrong = Inl ''proof request is not bound to this configured service'' in
      (case body of
        JObj fs \<Rightarrow>
          (let compact = has_field fs ''compactWitness'';
               keys = PROOF_REQUEST_KEYS @ (if compact then [''compactWitness''] else []) in
           if join (sort (map fst fs)) \<noteq> join (sort keys) \<or> field fs ''scheme'' \<noteq> JStr ''SECP256K1_ECVRF_V1'' then wrong
           else bindR (lower (field fs ''serviceKeyHash'')) (\<lambda>k. if k \<noteq> toLowerCase (pc_keyHash cfg) then wrong
           else bindR (lower (field fs ''coordinator'')) (\<lambda>c. if c \<noteq> toLowerCase (pc_coordinator cfg) then wrong
           else bindR (bigint frac (field fs ''chainId'')) (\<lambda>n. if n \<noteq> pc_chainId cfg then wrong
           else if \<not> digits_text (js_string (field fs ''requestId'')) then wrong
           else Inr (field fs ''requestId'', if compact then Some (field fs ''compactWitness'') else None)))))
      | JNull \<Rightarrow> Inl ''Cannot convert undefined or null to object''
      | _ \<Rightarrow> wrong))"

definition prover_status_json :: "prover_config \<Rightarrow> json" where
  "prover_status_json cfg = JObj [(''publicKey'', json_pair (pc_publicKey cfg)), (''serviceKeyHash'', JStr (pc_keyHash cfg))]"

definition proof_answer :: "prover_config \<Rightarrow> int \<Rightarrow> int \<Rightarrow> vrf_proof \<Rightarrow> json" where
  "proof_answer cfg actualSeed preSeed pf = JObj [(''serviceKeyHash'', JStr (pc_keyHash cfg)), (''actualSeed'', JStr (showInt actualSeed)),
     (''preSeed'', JStr (showInt preSeed)), (''proof'', serializableProof pf)]"

text \<open>What the libraries are for the server.\<close>

record ('k, 'q) prover_libraries =
  pl_ethers :: ethers
  pl_iface :: compact_iface
  pl_node :: "'k node"
  pl_curve :: curve_constants
  pl_points :: "'q ecvrf_library"
  pl_parse :: "bytes \<Rightarrow> json result"
  pl_frac :: "string \<Rightarrow> int result"

definition failed_answer :: "string \<Rightarrow> (nat \<times> json) option" where
  "failed_answer e = (case error_answer e of Inl _ \<Rightarrow> None | Inr j \<Rightarrow> Some (400, j))"

definition prover_handler ::
  "('k, 'q) prover_libraries \<Rightarrow> 'p prover_world \<Rightarrow> prover_config \<Rightarrow> http_request \<Rightarrow> (nat \<times> json) option" where
  "prover_handler P W cfg req =
     (if pc_bearerToken cfg \<noteq> [] \<and> hr_authorization req \<noteq> Some (''Bearer '' @ pc_bearerToken cfg)
      then Some (401, JObj [(''error'', JStr ''unauthorized'')])
      else if hr_method req = ''GET'' \<and> hr_url req = ''/v1/status'' then Some (200, prover_status_json cfg)
      else if hr_method req \<noteq> ''POST'' \<or> hr_url req \<noteq> ''/v1/proofs'' then Some (404, JObj [(''error'', JStr ''not found'')])
      else (case bindR (readBody (pl_parse P) (hr_chunks req)) (\<lambda>body.
              bindR (bound_request (pl_frac P) cfg body) (\<lambda>(requestId, compactWitness).
              resolveProofRequest (pl_ethers P) (pl_iface P) (pl_node P) W cfg requestId compactWitness)) of
          Inl e \<Rightarrow> failed_answer e
        | Inr (preSeed, actualSeed) \<Rightarrow>
            (case generateProof (pl_curve P) (pl_ethers P) (pl_points P) (pc_privateKey cfg) actualSeed preSeed None of
               None \<Rightarrow> None
             | Some (Inl e) \<Rightarrow> failed_answer e
             | Some (Inr g) \<Rightarrow> Some (200, proof_answer cfg actualSeed preSeed (gp_proof g)))))"

subsection \<open>Start-up\<close>

text \<open>The decrypted keystore: the format field, the key commitment and the secret, if the password fits.\<close>

record prover_keystore =
  pk_format :: string
  pk_serviceKeyHash :: json
  pk_decrypt :: "string \<Rightarrow> int result"

record prover_start =
  st_allowHttpLoopback :: bool
  st_host :: string
  st_password :: string
  st_tlsKeyPath :: string
  st_tlsCertPath :: string
  st_tlsCaPath :: string

definition startProverServer ::
  "('k, 'q) prover_libraries \<Rightarrow> prover_start \<Rightarrow> prover_keystore \<Rightarrow> prover_config \<Rightarrow> prover_config result" where
  "startProverServer P options ks cfg =
     (if st_allowHttpLoopback options \<and> st_host options \<notin> {''localhost'', ''127.0.0.1'', ''::1''}
      then Inl ''plaintext prover mode may bind only to a loopback host''
      else if pk_format ks \<noteq> ''proof-vrf-keystore-v1'' then Inl ''unsupported VRF keystore''
      else bindR (pk_decrypt ks (st_password options)) (\<lambda>secret.
      bindR (publicKeyFor (pl_curve P) (pl_points P) secret) (\<lambda>publicKey.
      bindR (serviceKeyHash (pl_ethers P) (pl_points P) publicKey) (\<lambda>keyHash.
      bindR (if pk_serviceKeyHash ks \<in> {JUndefined, JNull} then Inl ''VRF keystore key commitment mismatch''
        else lower (pk_serviceKeyHash ks)) (\<lambda>committed.
      if committed \<noteq> toLowerCase keyHash then Inl ''VRF keystore key commitment mismatch''
      else if \<not> st_allowHttpLoopback options \<and>
        (st_tlsKeyPath options = [] \<or> st_tlsCertPath options = [] \<or> st_tlsCaPath options = [])
      then Inl ''production prover requires TLS key, certificate, and client CA''
      else Inr (cfg\<lparr>pc_privateKey := secret, pc_publicKey := publicKey, pc_keyHash := keyHash\<rparr>))))))"

subsection \<open>What the server proves\<close>

text \<open>The numbers of a decoded request fit their ABI types, so that its text is exact.\<close>

definition typed_request :: "chain_request \<Rightarrow> bool" where
  "typed_request r \<longleftrightarrow> list_all isSafeInteger [cr_verificationGasLimit r, cr_proofDataLength r, cr_callbackGasLimit r, cr_numWords r,
     cr_callbackAttempts r, cr_fulfillmentOverheadGas r, cr_confirmations r, cr_premiumBps r, cr_operatorPremiumShareBps r, cr_status r]"

definition typed_rpcs :: "'p prover_world \<Rightarrow> bool" where
  "typed_rpcs W \<longleftrightarrow> (\<forall>u rid r. pr_getRequest (pw_rpc W u) rid = Inr r \<longrightarrow> typed_request r)"

lemma showInt_inject: "showInt m = showInt n \<Longrightarrow> m = n"
  using showInt_unique [of "[]" "[]" m n] by (simp add: delimited_def)

lemma normalizedRequest_inj:
  assumes "typed_request r" "typed_request r'" "normalizedRequest r s = normalizedRequest r' s'"
  shows "cr_preSeed r = cr_preSeed r' \<and> s = s'"
proof -
  have h: "has_text (normalized_request_json q t)" if "typed_request q" for q t
    using that by (simp add: normalized_request_json_def typed_request_def)
  have "normalized_request_json r s = normalized_request_json r' s'"
    using text_unique [OF h [OF assms(1)] h [OF assms(2)], of "[]" "[]"] assms(3)
      JSON_stringify_text [OF h [OF assms(1)]] JSON_stringify_text [OF h [OF assms(2)]]
    by (simp add: normalizedRequest_def)
  then have "showInt (cr_preSeed r) = showInt (cr_preSeed r')" "showInt s = showInt s'"
    by (simp_all add: normalized_request_json_def)
  then show ?thesis using showInt_inject by blast
qed

text \<open>What an endpoint said about a request: pending, under this key, with these seeds.\<close>

definition pending_at :: "prover_config \<Rightarrow> json \<Rightarrow> int \<Rightarrow> int \<Rightarrow> prover_rpc \<Rightarrow> bool" where
  "pending_at cfg requestId preSeed actualSeed rpc \<longleftrightarrow> pr_chainId rpc = Inr (pc_chainId cfg) \<and>
     (\<exists>rid r. uint_argument requestId = Inr rid \<and> pr_requestSeed rpc rid = Inr actualSeed \<and> pr_getRequest rpc rid = Inr r \<and> cr_status r = 1 \<and> toLowerCase (cr_keyHash r) = toLowerCase (pc_keyHash cfg) \<and>
        cr_preSeed r = preSeed)"

lemma resolve_pending:
  assumes typed: "typed_rpcs W"
    and r: "resolveProofRequest E I N W cfg rid None = Inr (preSeed, actualSeed)"
  shows "\<exists>urls. normalizeRpcUrls N (pc_rpcUrls cfg) 2 ''remote prover'' (pc_allowSharedRpcOrigin cfg) = Inr urls \<and>
    list_all (\<lambda>url. pending_at cfg rid preSeed actualSeed (pw_rpc W url)) urls"
proof -
  let ?read = "\<lambda>url. read_proof_state (pc_chainId cfg) (pc_keyHash cfg) rid (pw_rpc W url)"
  obtain urls states s where u: "normalizeRpcUrls N (pc_rpcUrls cfg) 2 ''remote prover'' (pc_allowSharedRpcOrigin cfg) = Inr urls"
      "mapR ?read urls = Inr states" "agree_on_proof_state states = Inr s" "preSeed = cr_preSeed (ps_request s)" "actualSeed = ps_actualSeed s"
    using r by (auto simp: resolveProofRequest_def result_simps)
  have same: "ps_normalized q = ps_normalized s" if "q \<in> set states" for q
    using u(3) that by (auto simp: agree_on_proof_state_def list_ex_iff split: if_splits)
  have state: "typed_request (ps_request q) \<and> ps_normalized q = normalizedRequest (ps_request q) (ps_actualSeed q) \<and>
      pending_at cfg rid (cr_preSeed (ps_request q)) (ps_actualSeed q) (pw_rpc W url)" if "?read url = Inr q" for url q
    using that typed by (auto simp: typed_rpcs_def read_proof_state_def result_simps pending_at_def split: if_splits)
  show ?thesis
  proof (cases "states = []")
    case True
    then have "urls = []" using mapR_length [OF u(2)] by simp
    then show ?thesis using u(1) by simp
  next
    case False
    then have s: "s \<in> set states" using u(3) by (auto simp: agree_on_proof_state_def split: if_splits)
    have "pending_at cfg rid preSeed actualSeed (pw_rpc W url)" if url: "url \<in> set urls" for url
    proof -
      obtain q where q: "q \<in> set states" "?read url = Inr q" using mapR_set [OF u(2) url] by blast
      obtain v where "?read v = Inr s" using mapR_set_rev [OF u(2) s] by blast
      then have "typed_request (ps_request s)" "ps_normalized s = normalizedRequest (ps_request s) (ps_actualSeed s)" using state by blast+
      moreover have "typed_request (ps_request q)" "ps_normalized q = normalizedRequest (ps_request q) (ps_actualSeed q)"
        using state [OF q(2)] by blast+
      ultimately have "normalizedRequest (ps_request q) (ps_actualSeed q) = normalizedRequest (ps_request s) (ps_actualSeed s)"
        "typed_request (ps_request q)" "typed_request (ps_request s)" using same [OF q(1)] by simp_all
      then have "cr_preSeed (ps_request q) = preSeed \<and> ps_actualSeed q = actualSeed"
        using normalizedRequest_inj u(4,5) by blast
      then show ?thesis using state [OF q(2)] by simp
    qed
    then show ?thesis using u(1) by (auto simp: list_all_iff)
  qed
qed

lemma normalizeRpcUrls_distinct:
  assumes "normalizeRpcUrls N values minimum label shared = Inr urls"
  shows "minimum \<le> length urls \<and> distinct urls"
proof -
  obtain items parsed where p: "\<not> length items < minimum" "mapR (parse_rpc_url N label) items = Inr parsed"
      "card (set (map url_href parsed)) = length parsed" "urls = map url_href parsed"
    using assms by (auto simp: normalizeRpcUrls_def result_simps split: if_splits)
  have "distinct (map url_href parsed)" using p(3) by (intro card_distinct) simp
  then show ?thesis using p mapR_length [OF p(2)] by simp
qed

text \<open>The seeds are canonical: at least two endpoints hold the request pending with these seeds, or hold the commitment of the witness.\<close>

definition canonical_seeds ::
  "('k, 'q) prover_libraries \<Rightarrow> 'p prover_world \<Rightarrow> prover_config \<Rightarrow> json \<Rightarrow> json option \<Rightarrow> int \<Rightarrow> int \<Rightarrow> bool" where
  "canonical_seeds P W cfg rid compactWitness preSeed actualSeed \<longleftrightarrow> (case compactWitness of
     None \<Rightarrow> \<exists>urls. normalizeRpcUrls (pl_node P) (pc_rpcUrls cfg) 2 ''remote prover'' (pc_allowSharedRpcOrigin cfg) = Inr urls \<and>
       2 \<le> length urls \<and> distinct urls \<and> list_all (\<lambda>url. pending_at cfg rid preSeed actualSeed (pw_rpc W url)) urls
   | Some w \<Rightarrow> \<exists>ps v. providers_of (pl_node P) (compact_reader cfg rid) = Inr ps \<and> 2 \<le> length ps \<and> distinct ps \<and>
       authentic (pl_ethers P) (pl_iface P) (pw_net W) 2 ps (compact_reader cfg rid) v \<and>
       get (vf_request v) ''preSeed'' = CBig preSeed \<and> vf_actualSeed v = Some actualSeed)"

lemma resolve_canonical:
  assumes "typed_rpcs W"
    and "resolveProofRequest (pl_ethers P) (pl_iface P) (pl_node P) W cfg rid cw = Inr (preSeed, actualSeed)"
  shows "canonical_seeds P W cfg rid cw preSeed actualSeed"
proof (cases cw)
  case None
  then show ?thesis
    using resolve_pending [OF assms(1), where cfg = cfg] assms(2) normalizeRpcUrls_distinct
    unfolding canonical_seeds_def by fastforce
next
  case (Some w)
  obtain v where v: "verifyCompactWitnessConsensus (pl_ethers P) (pl_iface P) (pl_node P) (pw_net W) 0 (compact_reader cfg rid) (witness_value w) = Inr v"
      "preSeed = big (get (vf_request v) ''preSeed'')" "vf_actualSeed v = Some actualSeed"
    using assms(2) by (auto simp: Some resolveProofRequest_def result_simps)
  obtain ps where ps: "providers_of (pl_node P) (compact_reader cfg rid) = Inr ps" "2 \<le> length ps" "distinct ps"
      "verify_with (pl_ethers P) (pl_iface P) (pw_net W) 0 (compact_reader cfg rid) (witness_value w) ps = Inr v"
    using v(1) by (auto simp: verifyCompactWitnessConsensus_def withProviders_Inr)
  have a: "authentic (pl_ethers P) (pl_iface P) (pw_net W) 2 ps (compact_reader cfg rid) v"
    using verify_with_Inr(1) [OF ps(4)] by (simp add: numeral_2_eq_2)
  have "(''uint256'', ''preSeed'') \<in> set COMPACT_FIELDS" by code_simp
  then have "value_ok (pl_ethers P) ''uint256'' (get (vf_request v) ''preSeed'')" using a get_value by (fastforce simp: authentic_def)
  then have "get (vf_request v) ''preSeed'' = CBig preSeed" using v(2) by (auto simp: value_ok_def big_def)
  then show ?thesis using ps(1-3) a v(3) by (auto simp: canonical_seeds_def Some)
qed

subsection \<open>A sample server\<close>

definition sample_chain_request :: chain_request where
  "sample_chain_request = \<lparr>cr_consumer = ''a'', cr_verifier = ''b'', cr_verifierCodeHash = ''c'', cr_fulfiller = ''d'', cr_payee = ''e'',
     cr_keyHash = ''key'', cr_subscriptionId = 1, cr_preSeed = 77, cr_reservedPayment = 0, cr_randomness = 0, cr_minimumFeeWei = 0,
     cr_requestBlock = 1, cr_expiresAtBlock = 2, cr_maxGasPriceWei = 3, cr_verificationGasLimit = 0, cr_proofDataLength = 0,
     cr_callbackGasLimit = 0, cr_numWords = 1, cr_callbackAttempts = 0, cr_fulfillmentOverheadGas = 0, cr_confirmations = 0,
     cr_premiumBps = 0, cr_operatorPremiumShareBps = 0, cr_status = 1, cr_sponsored = False, cr_waiveMinimumFee = False,
     cr_callbackSucceeded = False\<rparr>"

definition sample_prover_world :: "nat prover_world" where
  "sample_prover_world = \<lparr>pw_rpc = (\<lambda>_. \<lparr>pr_chainId = Inr 1, pr_getRequest = (\<lambda>_. Inr sample_chain_request),
     pr_requestSeed = (\<lambda>_. Inr 9)\<rparr>), pw_net = sample_net\<rparr>"

definition sample_prover_config :: "string \<Rightarrow> int \<times> int \<Rightarrow> prover_config" where
  "sample_prover_config keyHash publicKey = \<lparr>pc_privateKey = 5, pc_publicKey = publicKey, pc_keyHash = keyHash, pc_bearerToken = ''t'',
     pc_coordinator = ''0xc'', pc_chainId = 1, pc_rpcUrls = JStr ''https://a, https://b'', pc_allowSharedRpcOrigin = False\<rparr>"

definition sample_proof_body :: "string \<Rightarrow> json" where
  "sample_proof_body keyHash = JObj [(''scheme'', JStr ''SECP256K1_ECVRF_V1''), (''serviceKeyHash'', JStr keyHash),
     (''requestId'', JStr ''7''), (''coordinator'', JStr ''0xc''), (''chainId'', JStr ''1'')]"

definition sample_prover_libraries :: "(bytes, int) prover_libraries" where
  "sample_prover_libraries = \<lparr>pl_ethers = small_ethers, pl_iface = sample_iface, pl_node = sample_node, pl_curve = small_curve,
     pl_points = small_library, pl_parse = (\<lambda>_. Inr (sample_proof_body ''key'')), pl_frac = (\<lambda>_. Inl ''not an integer'')\<rparr>"

definition sample_proof_request :: http_request where
  "sample_proof_request = \<lparr>hr_authorization = Some ''Bearer t'', hr_method = ''POST'', hr_url = ''/v1/proofs'', hr_chunks = [[]]\<rparr>"

lemma sample_proof_resolved:
  assumes "toLowerCase keyHash = toLowerCase ''key''"
  shows "resolveProofRequest E I sample_node sample_prover_world (sample_prover_config keyHash pk) (JStr rid) None = Inr (77, 9)"
proof -
  have "normalizeRpcUrls sample_node (JStr ''https://a, https://b'') 2 ''remote prover'' False = Inr [''https://a'', ''https://b'']"
    by code_simp
  then show ?thesis using assms
    by (simp add: resolveProofRequest_def sample_prover_config_def sample_prover_world_def read_proof_state_def uint_argument_def
        agree_on_proof_state_def sample_chain_request_def)
qed

lemma sample_generates: "\<exists>g. generateProof small_curve small_ethers small_library 5 9 77 None = Some (Inr g)"
proof -
  have "case generateProof small_curve small_ethers small_library 5 9 77 None of Some (Inr r) \<Rightarrow> True | _ \<Rightarrow> False" by code_simp
  then show ?thesis by (auto split: option.splits sum.splits)
qed

lemma sample_prover_answers:
  "\<exists>answer. prover_handler sample_prover_libraries sample_prover_world (sample_prover_config ''key'' pk) sample_proof_request = Some (200, answer)"
proof -
  have "bound_request (\<lambda>_. Inl ''not an integer'') (sample_prover_config ''key'' pk) (sample_proof_body ''key'') = Inr (JStr ''7'', None)"
    unfolding sample_prover_config_def by code_simp
  moreover obtain g where "generateProof small_curve small_ethers small_library 5 9 77 None = Some (Inr g)" using sample_generates by blast
  ultimately show ?thesis using sample_proof_resolved [of "''key''" small_ethers sample_iface pk "''7''"]
    by (simp add: prover_handler_def sample_proof_request_def sample_prover_libraries_def readBody_def)
      (simp add: sample_prover_config_def)
qed

subsection \<open>Properties\<close>

text \<open>
  C38: The prover is not an oracle: it answers a proof only to an authorised caller whose body is bound to this service, and the seeds it evaluates
  are never the caller's. They belong to a request that at least two distinct endpoints hold pending under the server's key with exactly these seeds
  (or whose witness is committed to on all of them), and the proof is the one \<open>generateProof\<close> makes from them.
\<close>

theorem prover_handler_canonical:
  assumes "typed_rpcs W"
    and "prover_handler P W cfg req = Some (200, answer)" "hr_method req = ''POST''"
  shows "(pc_bearerToken cfg = [] \<or> hr_authorization req = Some (''Bearer '' @ pc_bearerToken cfg)) \<and>
    (\<exists>body rid cw preSeed actualSeed g. readBody (pl_parse P) (hr_chunks req) = Inr body \<and>
      bound_request (pl_frac P) cfg body = Inr (rid, cw) \<and> canonical_seeds P W cfg rid cw preSeed actualSeed \<and>
      generateProof (pl_curve P) (pl_ethers P) (pl_points P) (pc_privateKey cfg) actualSeed preSeed None = Some (Inr g) \<and>
      answer = proof_answer cfg actualSeed preSeed (gp_proof g))"
proof -
  have auth: "pc_bearerToken cfg = [] \<or> hr_authorization req = Some (''Bearer '' @ pc_bearerToken cfg)"
    using assms(2) by (auto simp: prover_handler_def split: if_splits)
  obtain body rid cw preSeed actualSeed g where b: "readBody (pl_parse P) (hr_chunks req) = Inr body"
      "bound_request (pl_frac P) cfg body = Inr (rid, cw)"
      "resolveProofRequest (pl_ethers P) (pl_iface P) (pl_node P) W cfg rid cw = Inr (preSeed, actualSeed)"
      "generateProof (pl_curve P) (pl_ethers P) (pl_points P) (pc_privateKey cfg) actualSeed preSeed None = Some (Inr g)"
      "answer = proof_answer cfg actualSeed preSeed (gp_proof g)"
    using assms(2,3) by (auto simp: prover_handler_def failed_answer_def result_simps split: if_splits sum.splits option.splits prod.splits)
  then show ?thesis using auth resolve_canonical [OF assms(1) b(3)] by blast
qed

theorem prover_handler_canonical_witness:
  "\<exists>answer rid cw preSeed actualSeed.
     prover_handler sample_prover_libraries sample_prover_world (sample_prover_config ''key'' (0, 0)) sample_proof_request = Some (200, answer) \<and>
     canonical_seeds sample_prover_libraries sample_prover_world (sample_prover_config ''key'' (0, 0)) rid cw preSeed actualSeed"
proof -
  obtain answer where a: "prover_handler sample_prover_libraries sample_prover_world (sample_prover_config ''key'' (0, 0)) sample_proof_request =
      Some (200, answer)" using sample_prover_answers by blast
  have t: "typed_rpcs sample_prover_world"
    by (auto simp: typed_rpcs_def sample_prover_world_def typed_request_def sample_chain_request_def isSafeInteger_def)
  have m: "hr_method sample_proof_request = ''POST''" by (simp add: sample_proof_request_def)
  show ?thesis using prover_handler_canonical [OF t a m] a by blast
qed

end
