(* ===== verification/Threshold_Provider.thy ===== *)
theory Threshold_Provider
  imports Threshold_Node Ecvrf_Proof Redaction
begin

section \<open>The threshold proof provider (operator/proof-provider.mjs)\<close>

text \<open>
  \<open>ThresholdProofProvider\<close> asks every node of a validated group for its partial signature of a request's message, keeps the answers that
  \<open>verifyPartialResponse\<close> accepts, and aggregates the first threshold of them by index. The network is a function from an endpoint and a body to a
  reply, so that nothing is assumed of the nodes. ABI coding and \<open>JSON.parse\<close> are parameters.
\<close>

subsection \<open>Replies\<close>

text \<open>
  What a request to a node ends in: no answer in time, a transport error, a status with the chunks of the body, or a connection that is closed
  after the headers and before the end of the body. In the last case Node.js emits \<open>aborted\<close> and \<open>close\<close> on the response, for which the code has no handler.
\<close>

datatype node_reply = NodeTimeout | NodeFailed string | NodeReply int "bytes list" | NodeAborted int "bytes list"

definition remoteHttpError :: "int \<Rightarrow> json \<Rightarrow> string" where
  "remoteHttpError status body = (let e = field (fields_of body) ''error'' in
     ''remote proof endpoint returned HTTP '' @ showInt status @ '': '' @
     redactText (if truthy e then js_string e else ''request failed''))"

definition read_reply :: "bytes \<Rightarrow> bytes \<Rightarrow> bytes result" where
  "read_reply body chunk = (if length body + length chunk > 1000000
     then Inl ''threshold node response is too large'' else Inr (body @ chunk))"

text \<open>\<open>None\<close>: the promise never settles.\<close>

definition requestThresholdJson :: "(bytes \<Rightarrow> json result) \<Rightarrow> node_reply \<Rightarrow> json result option" where
  "requestThresholdJson parse reply = (case reply of
     NodeTimeout \<Rightarrow> Some (Inl ''threshold node request timed out'')
   | NodeFailed e \<Rightarrow> Some (Inl e)
   | NodeAborted status chunks \<Rightarrow> (case foldR read_reply [] chunks of Inl e \<Rightarrow> Some (Inl e) | Inr _ \<Rightarrow> None)
   | NodeReply status chunks \<Rightarrow> Some (bindR (foldR read_reply [] chunks) (\<lambda>body.
       if status < 200 \<or> status \<ge> 300
       then Inl (remoteHttpError status (case parse body of Inl _ \<Rightarrow> JUndefined | Inr v \<Rightarrow> v))
       else (case parse body of Inl _ \<Rightarrow> Inl ''threshold node returned invalid JSON'' | Inr v \<Rightarrow> Inr v))))"

subsection \<open>The provider\<close>

definition THRESHOLD_MESSAGE_DOMAIN :: "ethers \<Rightarrow> string" where
  "THRESHOLD_MESSAGE_DOMAIN E = keccak256 E (toUtf8Bytes E ''ROBINHOOD_PROOF_VRF_THRESHOLD_BLS_MESSAGE_V1'')"

definition THRESHOLD_OUTPUT_DOMAIN :: "ethers \<Rightarrow> string" where
  "THRESHOLD_OUTPUT_DOMAIN E = keccak256 E (toUtf8Bytes E ''ROBINHOOD_PROOF_VRF_THRESHOLD_BLS_OUTPUT_V1'')"

text \<open>The two uses of the ABI coder.\<close>

record threshold_coder =
  tc_message :: "string \<Rightarrow> int \<Rightarrow> string \<Rightarrow> string \<Rightarrow> int \<Rightarrow> int \<Rightarrow> bytes result"
  tc_output :: "string \<Rightarrow> string \<Rightarrow> string \<Rightarrow> bytes result"

record client_files =
  cf_certificate :: "bytes option"
  cf_key :: "bytes option"
  cf_ca :: "bytes option"

definition newThresholdProofProvider ::
  "ethers \<Rightarrow> ('p, 'q, 't) bls \<Rightarrow> 'k node \<Rightarrow> json \<Rightarrow> group_options \<Rightarrow> client_files \<Rightarrow> threshold_group result" where
  "newThresholdProofProvider E B N manifest opts files =
     bindR (validateGroupManifest E B N manifest opts) (\<lambda>grp.
     if \<not> op_allowLoopback opts \<and> (cf_certificate files = None \<or> cf_key files = None \<or> cf_ca files = None)
     then Inl ''threshold aggregation requires a client certificate, key, and CA'' else Inr grp)"

text \<open>The call of one node, and the check of its answer.\<close>

definition checked_share ::
  "ethers \<Rightarrow> ('p, 'q, 't) bls \<Rightarrow> 'k node \<Rightarrow> threshold_group \<Rightarrow> int \<Rightarrow> string \<Rightarrow> participant \<Rightarrow> json result \<Rightarrow> share result" where
  "checked_share E B N grp requestId message p answer = bindR answer (\<lambda>response.
     bindR (verifyPartialResponse E B N response p \<lparr>ex_manifestHash = gr_manifestHash grp, ex_keyHash = gr_keyHash grp,
       ex_requestId = showInt requestId, ex_message = message\<rparr>) (\<lambda>body.
     Inr \<lparr>sh_index = pa_index p, sh_publicKey = HexString (pa_sharePublicKey p),
       sh_signature = HexString (js_string (field (fields_of body) ''signature''))\<rparr>))"

definition partial_share ::
  "ethers \<Rightarrow> ('p, 'q, 't) bls \<Rightarrow> 'k node \<Rightarrow> (bytes \<Rightarrow> json result) \<Rightarrow> (string \<Rightarrow> string \<Rightarrow> node_reply) \<Rightarrow> threshold_group \<Rightarrow>
     int \<Rightarrow> string \<Rightarrow> participant \<Rightarrow> share result option" where
  "partial_share E B N parse net grp requestId message p =
     map_option (checked_share E B N grp requestId message p) (requestThresholdJson parse (net (pa_endpoint p @ ''/v1/partial'')
       (JSON_stringify (JObj [(''requestId'', JStr (showInt requestId))]))))"

definition fulfilled :: "'a result list \<Rightarrow> 'a list" where
  "fulfilled rs = concat (map (\<lambda>r. case r of Inl _ \<Rightarrow> [] | Inr x \<Rightarrow> [x]) rs)"

definition rejected :: "'a result list \<Rightarrow> string list" where
  "rejected rs = concat (map (\<lambda>r. case r of Inl e \<Rightarrow> [e] | Inr x \<Rightarrow> []) rs)"

fun joined :: "string \<Rightarrow> string list \<Rightarrow> string" where
  "joined sep [] = []"
| "joined sep [s] = s"
| "joined sep (s # t # ts) = s @ sep @ joined sep (t # ts)"

record threshold_proof =
  to_proofData :: string
  to_output :: int
  to_signature :: string
  to_message :: string
  to_shareIndexes :: "string list"
  to_manifestHash :: string

definition threshold_message ::
  "ethers \<Rightarrow> threshold_coder \<Rightarrow> threshold_group \<Rightarrow> int \<Rightarrow> int \<Rightarrow> int \<Rightarrow> string result" where
  "threshold_message E C grp chainId actualSeed preSeed =
     bindR (tc_message C (THRESHOLD_MESSAGE_DOMAIN E) chainId (gb_verifierAdapter (gr_manifest grp)) (gr_keyHash grp)
       actualSeed preSeed) (\<lambda>b. Inr (keccak256 E b))"

definition threshold_output :: "ethers \<Rightarrow> threshold_coder \<Rightarrow> string \<Rightarrow> string \<Rightarrow> int result" where
  "threshold_output E C message signature = bindR (getBytes E signature) (\<lambda>sig.
     bindR (tc_output C (THRESHOLD_OUTPUT_DOMAIN E) message (keccak256 E sig)) (hashBig E))"

text \<open>What \<open>prove\<close> does with the settled results.\<close>

definition combine_shares ::
  "ethers \<Rightarrow> ('p, 'q, 't) bls \<Rightarrow> threshold_coder \<Rightarrow> threshold_group \<Rightarrow> string \<Rightarrow> share result list \<Rightarrow> threshold_proof result" where
  "combine_shares E B C grp message results =
     (let manifest = gr_manifest grp; threshold = gb_threshold manifest; valid = sort_key sh_index (fulfilled results) in
      if int (length valid) < threshold
      then Inl (''received '' @ showInt (int (length valid)) @ ''/'' @ showInt threshold @ '' valid shares: '' @
        joined ''; '' (rejected results))
      else bindR (aggregateThresholdShares E B (HexString message) (HexString (gb_groupPublicKey manifest)) threshold
          (take (nat threshold) valid)) (\<lambda>(signature, indexes).
        bindR (threshold_output E C message signature) (\<lambda>output.
        Inr \<lparr>to_proofData = encodeBytesPair E (gb_groupPublicKey manifest) signature, to_output = output,
          to_signature = signature, to_message = message, to_shareIndexes = indexes,
          to_manifestHash = gr_manifestHash grp\<rparr>)))"

text \<open>\<open>Promise.allSettled\<close> waits for every node: when one promise never settles, neither does \<open>prove\<close> (\<open>None\<close>).\<close>

definition threshold_prove ::
  "ethers \<Rightarrow> ('p, 'q, 't) bls \<Rightarrow> 'k node \<Rightarrow> threshold_coder \<Rightarrow> (bytes \<Rightarrow> json result) \<Rightarrow> (string \<Rightarrow> string \<Rightarrow> node_reply) \<Rightarrow>
     threshold_group \<Rightarrow> int \<Rightarrow> int \<Rightarrow> int \<Rightarrow> int \<Rightarrow> threshold_proof result option" where
  "threshold_prove E B N C parse net grp actualSeed preSeed requestId chainId =
     (if chainId \<noteq> gb_chainId (gr_manifest grp) then Some (Inl ''operator chain does not match the threshold manifest'')
      else (case threshold_message E C grp chainId actualSeed preSeed of
          Inl e \<Rightarrow> Some (Inl e)
        | Inr message \<Rightarrow>
            (case those (map (partial_share E B N parse net grp requestId message) (gb_participants (gr_manifest grp))) of
               None \<Rightarrow> None
             | Some results \<Rightarrow> Some (combine_shares E B C grp message results))))"

lemma those_map: "those (map f xs) = (if list_ex (\<lambda>x. f x = None) xs then None else Some (map (\<lambda>x. the (f x)) xs))"
  by (induction xs) (auto split: option.splits)

subsection \<open>The polynomial of a validated group\<close>

lemma commitments_encode:
  assumes E: "hex_codec E" and B: "bls_laws B ex1 ex2 exT"
    and s: "commitment_sum E B i position ws expected pw = Inr p"
  shows "\<exists>cs. list_all2 (\<lambda>v c. encodes E (G2 B) (ex2 c) v) ws cs"
  using s
proof (induction ws arbitrary: position expected pw)
  case (Cons w ws)
  obtain x name where "g2CommitmentPoint E B w name = Inr x" using Cons.prems by (auto simp: result_simps)
  then obtain c where "encodes E (G2 B) (ex2 c) w"
    unfolding g2CommitmentPoint_def pointFor_Inr [OF E bls_lawsD(3) [OF B]] encodes_def by blast
  moreover obtain position' expected' pw' where "commitment_sum E B i position' ws expected' pw' = Inr p"
    using Cons.prems by (auto simp: result_simps)
  then obtain cs where "list_all2 (\<lambda>v c. encodes E (G2 B) (ex2 c) v) ws cs" using Cons.IH by blast
  ultimately show ?case by (intro exI [of _ "c # cs"]) simp
qed (intro exI [of _ "[]"], simp)

text \<open>\<open>on_polynomial\<close>: the manifest's keys are a sharing of the group key, with as many coefficients as the threshold.\<close>

definition on_polynomial ::
  "ethers \<Rightarrow> ('p, 'q, 't) bls \<Rightarrow> (int \<Rightarrow> 'q) \<Rightarrow> group_body \<Rightarrow> int list \<Rightarrow> bool" where
  "on_polynomial E B ex2 b cs \<longleftrightarrow> int (length cs) = gb_threshold b \<and> \<not> eqm (params_r B) (peval cs 0) 0 \<and>
     encodes E (G2 B) (ex2 (peval cs 0)) (HexString (gb_groupPublicKey b)) \<and>
     (\<forall>p \<in> set (gb_participants b). 0 < pa_index p \<and> pa_index p < params_r B \<and>
        \<not> eqm (params_r B) (peval cs (pa_index p)) 0 \<and>
        encodes E (G2 B) (ex2 (peval cs (pa_index p))) (HexString (pa_sharePublicKey p)))"

lemma verified_key:
  assumes E: "hex_codec E" and B: "bls_laws B ex1 ex2 exT"
    and ws: "list_all2 (\<lambda>v c. encodes E (G2 B) (ex2 c) v) ws cs"
    and v: "verifyPublicShareCommitment E B i key ws = Inr True"
  shows "0 < i \<and> i < params_r B \<and> \<not> eqm (params_r B) (peval cs i) 0 \<and> encodes E (G2 B) (ex2 (peval cs i)) key"
proof -
  note G = bls_lawsD(3) [OF B]
  obtain y where y: "encodes E (G2 B) (ex2 y) key" "\<not> eqm (params_r B) y 0" and i: "0 < i" "i < params_r B" and len: "2 \<le> length ws"
    using v by (auto simp: verifyPublicShareCommitment_def result_simps scalarIndex_def g2Point_def pointFor_Inr [OF E G] encodes_def
        split: if_splits)
  have "eqm (params_r B) y (peval cs i)"
    using v verifyPublicShareCommitment_eval [OF E B ws len i y] by (simp add: eqm_mod)
  moreover from this have "ex2 y = ex2 (peval cs i)" by (simp add: prime_order_groupD(5) [OF G])
  ultimately show ?thesis using y i by (auto intro: eqm_trans)
qed

lemma toRawBytes_eqm:
  assumes G: "prime_order_group r n G ex" and b: "toRawBytes G (ex a) = toRawBytes G (ex b)"
  shows "eqm r a b"
proof -
  have "Inr (ex a) = fromHex G (toRawBytes G (ex b))" unfolding b [symmetric] by (rule prime_order_groupD(7) [OF G, symmetric])
  also have "\<dots> = Inr (ex b)" by (rule prime_order_groupD(7) [OF G])
  finally show ?thesis unfolding prime_order_groupD(5) [OF G, symmetric] by (rule sum.inject(2) [THEN iffD1])
qed

lemma group_polynomial:
  assumes E: "hex_codec E" and B: "bls_laws B ex1 ex2 exT" and b: "body_ok E B b"
    and low: "toLowerCase (gb_groupPublicKey b) = gb_groupPublicKey b"
  shows "\<exists>cs. on_polynomial E B ex2 b cs"
proof -
  note G = bls_lawsD(3) [OF B]
  let ?ws = "map HexString (gb_publicCoefficients b)"
  have r: "roster_ok E B (gb_publicCoefficients b) (gb_threshold b) (gb_participants b)" using b by (simp add: body_ok_def)
  then have keys: "\<forall>p \<in> set (gb_participants b).
      verifyPublicShareCommitment E B (pa_index p) (HexString (pa_sharePublicKey p)) ?ws = Inr True"
    by (simp add: roster_ok_def)
  obtain p where "p \<in> set (gb_participants b)" using r by (cases "gb_participants b") (auto simp: roster_ok_def)
  then have "verifyPublicShareCommitment E B (pa_index p) (HexString (pa_sharePublicKey p)) ?ws = Inr True" using keys by blast
  then obtain e where "commitment_sum E B (pa_index p) 0 ?ws (ZERO (G2 B)) 1 = Inr e"
    by (auto simp: verifyPublicShareCommitment_def result_simps scalarIndex_def split: if_splits)
  then obtain cs where cs: "list_all2 (\<lambda>v c. encodes E (G2 B) (ex2 c) v) ?ws cs" using commitments_encode [OF E B] by blast
  have len: "int (length cs) = gb_threshold b" "cs \<noteq> []"
    using b list_all2_lengthD [OF cs] by (auto simp: body_ok_def)
  then obtain c cs' where c: "cs = c # cs'" by (cases cs) auto
  then have "encodes E (G2 B) (ex2 c) (HexString (gb_groupPublicKey b))"
    using cs b by (auto simp: body_ok_def list_all2_Cons2)
  moreover from this have "\<not> eqm (params_r B) c 0"
  proof -
    obtain q where "g2Point E B (HexString (gb_groupPublicKey b)) ''group public key'' = Inr q"
      using b low by (auto simp: body_ok_def adapterKeyHash_def result_simps fixedHex_def split: if_splits)
    then obtain y where y: "encodes E (G2 B) (ex2 y) (HexString (gb_groupPublicKey b))" "\<not> eqm (params_r B) y 0"
      unfolding g2Point_def pointFor_Inr [OF E G] encodes_def by blast
    then have "toRawBytes (G2 B) (ex2 c) = toRawBytes (G2 B) (ex2 y)"
      using \<open>encodes E (G2 B) (ex2 c) (HexString (gb_groupPublicKey b))\<close> by (simp add: encodes_def)
    then have "eqm (params_r B) y c" by (rule eqm_sym [OF toRawBytes_eqm [OF G]])
    then show ?thesis using y(2) eqm_trans by blast
  qed
  moreover have "peval cs 0 = c" by (simp add: c)
  ultimately show ?thesis using len keys verified_key [OF E B cs] unfolding on_polynomial_def by (intro exI [of _ cs]) auto
qed

lemma lower_key:
  assumes "newThresholdProofProvider E B N m opts files = Inr grp"
  shows "body_ok E B (gr_manifest grp)" "isSafeInteger (gb_threshold (gr_manifest grp))"
    "toLowerCase (gb_groupPublicKey (gr_manifest grp)) = gb_groupPublicKey (gr_manifest grp)"
proof -
  obtain fs b where p: "prepareGroupManifest E B N (op_allowLoopback opts) m = Inr (b, gr_manifestHash grp)" "b = gr_manifest grp"
    using assms by (auto simp: newThresholdProofProvider_def result_simps elim: validateGroupManifest_Inr split: if_splits)
  then obtain m' where n: "normalizeBody E B N (op_allowLoopback opts) m' = Inr b"
    by (auto simp: prepareGroupManifest_def result_simps)
  show "body_ok E B (gr_manifest grp)" using normalizeBody_Inr [OF n] p by simp
  show "isSafeInteger (gb_threshold (gr_manifest grp))" "toLowerCase (gb_groupPublicKey (gr_manifest grp)) = gb_groupPublicKey (gr_manifest grp)"
    using n unfolding p(2) [symmetric]
    by (auto simp: normalizeBody_def result_simps fixedHex_def split: if_splits json.splits prod.splits)
qed

subsection \<open>What an accepted answer is\<close>

text \<open>\<open>case_law\<close>: hex strings that differ in the case of their digits decode to the same bytes.\<close>

definition case_law :: "ethers \<Rightarrow> bool" where
  "case_law E \<longleftrightarrow> (\<forall>s t b c. toLowerCase s = toLowerCase t \<longrightarrow> getBytes E s = Inr b \<longrightarrow> getBytes E t = Inr c \<longrightarrow> b = c)"

lemma check_binding_message:
  "check_binding p ex fs = Inr m \<Longrightarrow> toLowerCase m = toLowerCase (ex_message ex)"
  by (auto simp: check_binding_def result_simps Let_def split: if_splits json.splits)

lemma verifyPartialSignature_message:
  assumes "verifyPartialSignature E B (HexString m) pk sig"
  shows "\<exists>b. getBytes E m = Inr b"
  using assms by (cases "getBytes E m") (simp_all add: verifyPartialSignature_def bytesFor_def)

lemma verifyPartialResponse_share:
  assumes "verifyPartialResponse E B N response p ex = Inr body"
  obtains m sig where "toLowerCase m = toLowerCase (ex_message ex)" "field (fields_of body) ''signature'' = JStr sig"
    "verifyPartialSignature E B (HexString m) (HexString (pa_sharePublicKey p)) (HexString sig)"
  using assms
  by (auto simp: verifyPartialResponse_def result_simps Let_def dest!: check_binding_message split: if_splits json.splits)

lemma partial_share_honest:
  assumes E: "hex_codec E" and "case_law E" and B: "bls_laws B ex1 ex2 exT"
    and cs: "on_polynomial E B ex2 (gr_manifest grp) cs" and p: "p \<in> set (gb_participants (gr_manifest grp))"
    and m: "getBytes E message = Inr mb" "bls.hashToCurve B mb BLS_DST = Inr (ex1 h)" "\<not> eqm (params_r B) h 0"
    and s: "partial_share E B N parse net grp requestId message p = Some (Inr s)"
  shows "honest_share E B ex1 ex2 h cs s \<and> sh_index s = pa_index p"
proof -
  note G1 = bls_lawsD(2) [OF B] and G2 = bls_lawsD(3) [OF B]
  let ?x = "peval cs (pa_index p)"
  obtain response body where v: "verifyPartialResponse E B N response p \<lparr>ex_manifestHash = gr_manifestHash grp,
        ex_keyHash = gr_keyHash grp, ex_requestId = showInt requestId, ex_message = message\<rparr> = Inr body"
    and sh: "s = \<lparr>sh_index = pa_index p, sh_publicKey = HexString (pa_sharePublicKey p),
       sh_signature = HexString (js_string (field (fields_of body) ''signature''))\<rparr>"
    using s by (auto simp: partial_share_def checked_share_def result_simps)
  obtain m' sig where m': "toLowerCase m' = toLowerCase message" "field (fields_of body) ''signature'' = JStr sig"
      "verifyPartialSignature E B (HexString m') (HexString (pa_sharePublicKey p)) (HexString sig)"
    by (rule verifyPartialResponse_share [OF v]) auto
  obtain b where b: "getBytes E m' = Inr b" using verifyPartialSignature_message [OF m'(3)] by blast
  have "b = mb" using assms(2) m'(1) b m(1) unfolding case_law_def by blast
  then have w: "wireBytes E (HexString m') = Some mb" by (simp add: wireBytes_def b)
  obtain a y where a: "wireBytes E (HexString sig) = Some (toRawBytes (G1 B) (ex1 a))"
      "wireBytes E (HexString (pa_sharePublicKey p)) = Some (toRawBytes (G2 B) (ex2 y))" "eqm (params_r B) a (h * y)"
    using m'(3) unfolding verifyPartialSignature_iff [OF E B w m(2,3)] by blast
  have k: "encodes E (G2 B) (ex2 ?x) (HexString (pa_sharePublicKey p))" "0 < pa_index p" "pa_index p < params_r B"
      "\<not> eqm (params_r B) ?x 0"
    using cs p by (auto simp: on_polynomial_def)
  then have "eqm (params_r B) y ?x" using a(2) by (intro toRawBytes_eqm [OF G2]) (simp add: encodes_def)
  then have "eqm (params_r B) (h * y) (h * ?x)" by (intro eqm_mult eqm_refl)
  with a(3) have "eqm (params_r B) a (h * ?x)" by (rule eqm_trans)
  then have "ex1 a = ex1 (h * ?x)" by (simp add: prime_order_groupD(5) [OF G1])
  then show ?thesis using a(1) k by (simp add: honest_share_def encodes_def sh m'(2))
qed

text \<open>The shares of a run: honest, with distinct indexes.\<close>

lemma fulfilled_Cons [simp]: "fulfilled (r # rs) = (case r of Inl _ \<Rightarrow> [] | Inr x \<Rightarrow> [x]) @ fulfilled rs"
  and fulfilled_Nil [simp]: "fulfilled [] = []"
  by (simp_all add: fulfilled_def)

lemma set_fulfilled: "set (fulfilled (map f ps)) = {x. \<exists>p \<in> set ps. f p = Inr x}"
  by (induction ps) (auto split: sum.splits)

lemma length_fulfilled: "length (fulfilled (map f ps)) = length (filter (\<lambda>p. isOk (f p)) ps)"
  by (induction ps) (auto split: sum.splits)

lemma fulfilled_distinct:
  assumes "distinct (map g ps)" "\<And>p x. p \<in> set ps \<Longrightarrow> f p = Inr x \<Longrightarrow> k x = g p"
  shows "distinct (map k (fulfilled (map f ps)))"
  using assms
proof (induction ps)
  case (Cons p ps)
  have "k ` set (fulfilled (map f ps)) \<subseteq> g ` set ps" using Cons.prems(2) by (auto simp: set_fulfilled)
  moreover have "distinct (map k (fulfilled (map f ps)))" using Cons by simp
  moreover have "k x \<notin> g ` set ps" if "f p = Inr x" for x
  proof -
    have "k x = g p" by (rule Cons.prems(2) [OF _ that]) simp
    then show ?thesis using Cons.prems(1) by simp
  qed
  ultimately show ?case by (cases "f p") auto
qed simp

text \<open>The outcome of a settled call.\<close>

definition outcome ::
  "ethers \<Rightarrow> ('p, 'q, 't) bls \<Rightarrow> 'k node \<Rightarrow> (bytes \<Rightarrow> json result) \<Rightarrow> (string \<Rightarrow> string \<Rightarrow> node_reply) \<Rightarrow> threshold_group \<Rightarrow>
     int \<Rightarrow> string \<Rightarrow> participant \<Rightarrow> share result" where
  "outcome E B N parse net grp requestId message p = the (partial_share E B N parse net grp requestId message p)"

lemma accepted_shares:
  assumes E: "hex_codec E" and C: "case_law E" and B: "bls_laws B ex1 ex2 exT"
    and grp: "newThresholdProofProvider E B N m opts files = Inr grp"
    and cs: "on_polynomial E B ex2 (gr_manifest grp) cs"
    and m: "getBytes E message = Inr mb" "bls.hashToCurve B mb BLS_DST = Inr (ex1 h)" "\<not> eqm (params_r B) h 0"
    and settled: "\<forall>p \<in> set (gb_participants (gr_manifest grp)). partial_share E B N parse net grp requestId message p \<noteq> None"
    and valid: "valid = sort_key sh_index (fulfilled (map (outcome E B N parse net grp requestId message)
      (gb_participants (gr_manifest grp))))" "gb_threshold (gr_manifest grp) \<le> int (length valid)"
  shows "\<exists>indexes. aggregateThresholdShares E B (HexString message) (HexString (gb_groupPublicKey (gr_manifest grp)))
      (gb_threshold (gr_manifest grp)) (take (nat (gb_threshold (gr_manifest grp))) valid) =
    Inr (wireHex E (G1 B) (ex1 (h * peval cs 0)), indexes)"
proof -
  let ?b = "gr_manifest grp" and ?t = "nat (gb_threshold (gr_manifest grp))"
  let ?f = "outcome E B N parse net grp requestId message"
  have honest: "honest_share E B ex1 ex2 h cs x \<and> sh_index x = pa_index p"
    if "p \<in> set (gb_participants ?b)" "?f p = Inr x" for p x
  proof -
    have "partial_share E B N parse net grp requestId message p = Some (Inr x)"
      using settled that by (auto simp: outcome_def)
    then show ?thesis by (rule partial_share_honest [OF E C B cs that(1) m])
  qed
  have b: "body_ok E B ?b" "isSafeInteger (gb_threshold ?b)" using lower_key [OF grp] by simp_all
  have "map pa_index (gb_participants ?b) = map (\<lambda>k. int k + 1) [0..<length (gb_participants ?b)]"
    using b by (simp add: body_ok_def roster_ok_def)
  moreover have "distinct (map (\<lambda>k. int k + 1) [0..<length (gb_participants ?b)])" by (simp add: distinct_map inj_on_def)
  ultimately have "distinct (map pa_index (gb_participants ?b))" by simp
  then have "distinct (map sh_index (fulfilled (map ?f (gb_participants ?b))))"
    by (rule fulfilled_distinct) (use honest in blast)
  then have d: "distinct (map sh_index (take ?t valid))"
    unfolding valid(1) take_map [symmetric] by (intro distinct_take) (simp add: distinct_map)
  have all: "\<forall>s \<in> set (take ?t valid). honest_share E B ex1 ex2 h cs s"
    using set_take_subset [of ?t valid] honest by (fastforce simp: valid(1) set_fulfilled)
  have len: "2 \<le> gb_threshold ?b" "length (take ?t valid) = ?t" "length cs = ?t"
    using b valid(2) cs by (auto simp: body_ok_def on_polynomial_def)
  have w: "wireBytes E (HexString message) = Some mb" by (simp add: wireBytes_def m(1))
  have k: "\<not> eqm (params_r B) (peval cs 0) 0" "encodes E (G2 B) (ex2 (peval cs 0)) (HexString (gb_groupPublicKey ?b))"
    using cs by (simp_all add: on_polynomial_def)
  show ?thesis
    using aggregate_honest [OF E B w m(2,3) k b(2) len(1) _ all d] len by simp
qed

lemma threshold_prove_Inr:
  assumes "hex_codec E" "case_law E" "bls_laws B ex1 ex2 exT"
    and grp: "newThresholdProofProvider E B N m opts files = Inr grp"
    and cs: "on_polynomial E B ex2 (gr_manifest grp) cs"
    and message: "threshold_message E C grp chainId actualSeed preSeed = Inr message"
    and m: "getBytes E message = Inr mb" "bls.hashToCurve B mb BLS_DST = Inr (ex1 h)" "\<not> eqm (params_r B) h 0"
    and p: "threshold_prove E B N C parse net grp actualSeed preSeed requestId chainId = Some (Inr pf)"
  shows "to_message pf = message \<and> to_signature pf = wireHex E (G1 B) (ex1 (h * peval cs 0)) \<and>
    threshold_output E C message (to_signature pf) = Inr (to_output pf) \<and>
    to_proofData pf = encodeBytesPair E (gb_groupPublicKey (gr_manifest grp)) (to_signature pf) \<and>
    verifyAggregateSignature E B (HexString message) (HexString (gb_groupPublicKey (gr_manifest grp))) (HexString (to_signature pf))"
proof -
  let ?b = "gr_manifest grp"
  let ?results = "map (outcome E B N parse net grp requestId message) (gb_participants ?b)"
  have settled: "\<forall>p \<in> set (gb_participants ?b). partial_share E B N parse net grp requestId message p \<noteq> None"
    and c: "combine_shares E B C grp message ?results = Inr pf"
    using p message by (auto simp: threshold_prove_def those_map outcome_def [abs_def] list_ex_iff split: if_splits)
  obtain valid where valid: "valid = sort_key sh_index (fulfilled ?results)" "gb_threshold ?b \<le> int (length valid)"
    using c by (auto simp: combine_shares_def Let_def split: if_splits)
  obtain ids where a: "aggregateThresholdShares E B (HexString message) (HexString (gb_groupPublicKey ?b))
      (gb_threshold ?b) (take (nat (gb_threshold ?b)) valid) = Inr (wireHex E (G1 B) (ex1 (h * peval cs 0)), ids)"
    using accepted_shares [OF assms(1-3) grp cs m settled valid] by blast
  have "\<not> int (length valid) < gb_threshold ?b" using valid(2) by simp
  then show ?thesis using c a aggregate_sound [OF a]
    by (auto simp: combine_shares_def Let_def valid(1) [symmetric] result_simps split: if_splits)
qed

text \<open>At least threshold nodes answer with a share that the provider accepts.\<close>

definition enough_shares ::
  "ethers \<Rightarrow> ('p, 'q, 't) bls \<Rightarrow> 'k node \<Rightarrow> (bytes \<Rightarrow> json result) \<Rightarrow> (string \<Rightarrow> string \<Rightarrow> node_reply) \<Rightarrow> threshold_group \<Rightarrow>
     int \<Rightarrow> string \<Rightarrow> bool" where
  "enough_shares E B N parse net grp requestId message \<longleftrightarrow> gb_threshold (gr_manifest grp) \<le>
     int (length (filter (\<lambda>p. case partial_share E B N parse net grp requestId message p of Some (Inr s) \<Rightarrow> True | _ \<Rightarrow> False)
       (gb_participants (gr_manifest grp))))"

lemma threshold_prove_returns:
  assumes "hex_codec E" "case_law E" "bls_laws B ex1 ex2 exT"
    and grp: "newThresholdProofProvider E B N m opts files = Inr grp"
    and cs: "on_polynomial E B ex2 (gr_manifest grp) cs" and chain: "chainId = gb_chainId (gr_manifest grp)"
    and message: "threshold_message E C grp chainId actualSeed preSeed = Inr message"
    and m: "getBytes E message = Inr mb" "bls.hashToCurve B mb BLS_DST = Inr (ex1 h)" "\<not> eqm (params_r B) h 0"
    and out: "\<And>b. \<exists>n. threshold_output E C message (hexlify E b) = Inr n"
    and settled: "\<forall>p \<in> set (gb_participants (gr_manifest grp)). partial_share E B N parse net grp requestId message p \<noteq> None"
    and enough: "enough_shares E B N parse net grp requestId message"
  shows "\<exists>pf. threshold_prove E B N C parse net grp actualSeed preSeed requestId chainId = Some (Inr pf)"
proof -
  let ?b = "gr_manifest grp"
  let ?results = "map (outcome E B N parse net grp requestId message) (gb_participants ?b)"
  define valid where "valid = sort_key sh_index (fulfilled ?results)"
  have "filter (\<lambda>p. isOk (outcome E B N parse net grp requestId message p)) (gb_participants ?b) =
      filter (\<lambda>p. case partial_share E B N parse net grp requestId message p of Some (Inr s) \<Rightarrow> True | _ \<Rightarrow> False) (gb_participants ?b)"
    using settled by (intro filter_cong) (auto simp: outcome_def isOk_def split: sum.splits)
  then have len: "gb_threshold ?b \<le> int (length valid)"
    using enough by (simp add: valid_def length_fulfilled enough_shares_def)
  obtain ids where a: "aggregateThresholdShares E B (HexString message) (HexString (gb_groupPublicKey ?b))
      (gb_threshold ?b) (take (nat (gb_threshold ?b)) valid) = Inr (wireHex E (G1 B) (ex1 (h * peval cs 0)), ids)"
    using accepted_shares [OF assms(1-3) grp cs m settled valid_def len] by blast
  obtain n where "threshold_output E C message (wireHex E (G1 B) (ex1 (h * peval cs 0))) = Inr n"
    using out unfolding wireHex_def by blast
  then have "\<exists>pf. combine_shares E B C grp message ?results = Inr pf" using a len
    by (simp add: combine_shares_def Let_def del: length_sort flip: valid_def)
  moreover have "those (map (partial_share E B N parse net grp requestId message) (gb_participants ?b)) = Some ?results"
    using settled by (simp add: those_map list_ex_iff outcome_def [abs_def])
  ultimately show ?thesis using chain message by (simp add: threshold_prove_def)
qed

subsection \<open>A sample group\<close>

definition sample_coder :: threshold_coder where
  "sample_coder = \<lparr>tc_message = (\<lambda>_ _ _ _ _ _. Inr []), tc_output = (\<lambda>_ _ _. Inr [])\<rparr>"

definition sample_files :: client_files where
  "sample_files = \<lparr>cf_certificate = Some [], cf_key = Some [], cf_ca = Some []\<rparr>"

lemma hexPairs_case:
  "hexPairs a = Inr b \<Longrightarrow> hexPairs c = Inr d \<Longrightarrow> map toLowerChar a = map toLowerChar c \<Longrightarrow> b = d"
proof (induction a arbitrary: b c d rule: hexPairs.induct)
  case (3 x y xs)
  have digit: "p = q" if "hexValue u = Some p" "hexValue v = Some q" "toLowerChar u = toLowerChar v" for u v p q
  proof -
    have "(of_char (toLowerChar w) :: nat) = (let n = of_char w in if 65 \<le> n \<and> n \<le> 90 then n + 32 else n)" for w
      by (simp add: toLowerChar_def Let_def)
    then show ?thesis using that(1,2) arg_cong [OF that(3), of "of_char :: char \<Rightarrow> nat"]
      by (simp add: hexValue_def Let_def split: if_splits)
  qed
  obtain u v us where c: "c = u # v # us" "toLowerChar x = toLowerChar u" "toLowerChar y = toLowerChar v"
      "map toLowerChar xs = map toLowerChar us" using 3(4) by (cases c; cases "tl c") auto
  obtain p q bs where b: "hexValue x = Some p" "hexValue y = Some q" "hexPairs xs = Inr bs" "b = of_nat (16 * p + q) # bs"
    using 3(2) by (auto simp: result_simps split: option.splits)
  obtain p' q' ds where d: "hexValue u = Some p'" "hexValue v = Some q'" "hexPairs us = Inr ds" "d = of_nat (16 * p' + q') # ds"
    using 3(3) by (auto simp: c(1) result_simps split: option.splits)
  have "bs = ds" by (rule 3(1) [OF refl b(1,2,3) d(3) c(4)])
  then show ?case using digit [OF b(1) d(1) c(2)] digit [OF b(2) d(2) c(3)] by (simp add: b(4) d(4))
qed (auto simp: map_eq_Cons_conv)

lemma sample_case_law: "case_law sample_ethers"
  unfolding case_law_def
proof (intro allI impI)
  fix s t b c
  assume *: "toLowerCase s = toLowerCase t" "getBytes sample_ethers s = Inr b" "getBytes sample_ethers t = Inr c"
  then obtain s' t' where "s = ''0x'' @ s'" "t = ''0x'' @ t'"
    by (auto simp: sample_ethers_def sample_getBytes_def split: list.splits if_splits)
  then show "b = c" using * hexPairs_case [of s' b t' c] by (simp add: sample_ethers_def sample_getBytes_def toLowerCase_def)
qed

definition provider_config :: "threshold_group \<Rightarrow> nat \<Rightarrow> string \<Rightarrow> bytes node_config" where
  "provider_config grp k name = \<lparr>nc_participant = sample_roster_entry k name, nc_manifestHash = gr_manifestHash grp,
     nc_keyHash = gr_keyHash grp, nc_secretShare = 3 + int k, nc_identityPrivateKey = []\<rparr>"

lemma provider_config_honest:
  assumes "k = 1 \<or> k = 2"
  shows "honest_node sample_ethers sample_bls sample_node (provider_config grp k name) sample_ex sample_ex sample_ex"
proof -
  have "getBytes sample_ethers (sample_hex 32 1) = Inr (replicate 31 0 @ [1])"
    "getBytes sample_ethers (sample_hex 32 2) = Inr (replicate 31 0 @ [2])" by code_simp+
  then have "\<exists>key. ed25519PublicKey sample_ethers sample_node (sample_hex 32 k) = Inr key"
    using assms by (auto simp: ed25519PublicKey_def sample_node_def)
  moreover have "length (ed_sign sample_node d k) = 64" "ed_verify sample_node d key (ed_sign sample_node d k)" for d k key
    by (simp_all add: sample_node_def)
  moreover have "\<not> eqm 7 (3 + int k) 0" "isSafeInteger (int k)" using assms by (auto simp: eqm_def isSafeInteger_def)
  ultimately show ?thesis using sample_honest
    by (auto simp: honest_node_def provider_config_def sample_roster_entry_def sample_key_def sample_bls_def sample_ex_def)
qed

definition sample_network :: "string \<Rightarrow> string \<Rightarrow> node_reply" where
  "sample_network url body = (if url = ''aa/v1/partial'' then NodeReply 200 [[1]]
     else if url = ''bb/v1/partial'' then NodeReply 200 [[2]] else NodeTimeout)"

definition aborting_network :: "string \<Rightarrow> string \<Rightarrow> node_reply" where
  "aborting_network url body = (if url = ''cc/v1/partial'' then NodeAborted 200 [] else sample_network url body)"

text \<open>Two of three nodes answer honestly and one does not answer.\<close>

lemma sample_two_answers:
  assumes "gr_manifest grp = sample_body" "message_ok sample_ethers sample_bls sample_ex message"
  shows "\<exists>parse. enough_shares sample_ethers sample_bls sample_node parse sample_network grp rid message \<and>
    enough_shares sample_ethers sample_bls sample_node parse aborting_network grp rid message"
proof -
  have answer: "\<exists>r body. verifyPartialResponse sample_ethers sample_bls sample_node r (sample_roster_entry k name)
      \<lparr>ex_manifestHash = gr_manifestHash grp, ex_keyHash = gr_keyHash grp, ex_requestId = showInt rid, ex_message = message\<rparr> = Inr body"
    if "k = 1 \<or> k = 2" for k name
    using build_honest [OF provider_config_honest [OF that, of grp name] assms(2), of "showInt rid"]
    by (auto simp: provider_config_def binding_def)
  obtain r1 b1 where 1: "verifyPartialResponse sample_ethers sample_bls sample_node r1 (sample_roster_entry 1 ''aa'')
      \<lparr>ex_manifestHash = gr_manifestHash grp, ex_keyHash = gr_keyHash grp, ex_requestId = showInt rid, ex_message = message\<rparr> = Inr b1"
    using answer by blast
  obtain r2 b2 where 2: "verifyPartialResponse sample_ethers sample_bls sample_node r2 (sample_roster_entry 2 ''bb'')
      \<lparr>ex_manifestHash = gr_manifestHash grp, ex_keyHash = gr_keyHash grp, ex_requestId = showInt rid, ex_message = message\<rparr> = Inr b2"
    using answer by blast
  have ends: "pa_endpoint (sample_roster_entry k name) = name" for k name by (simp add: sample_roster_entry_def)
  define parse where "parse bs = (if bs = [1] then Inr r1 else (Inr r2 :: json result))" for bs :: bytes
  have "case partial_share sample_ethers sample_bls sample_node parse net grp rid message (sample_roster_entry 1 ''aa'') of Some (Inr s) \<Rightarrow> True | _ \<Rightarrow> False"
    "case partial_share sample_ethers sample_bls sample_node parse net grp rid message (sample_roster_entry 2 ''bb'') of Some (Inr s) \<Rightarrow> True | _ \<Rightarrow> False"
    if "net = sample_network \<or> net = aborting_network" for net
    using that
    by (auto simp: partial_share_def checked_share_def sample_network_def aborting_network_def 1 2 ends parse_def requestThresholdJson_def
        read_reply_def simp del: One_nat_def)
  then have "enough_shares sample_ethers sample_bls sample_node parse net grp rid message" if "net = sample_network \<or> net = aborting_network" for net
    using that by (simp add: enough_shares_def assms(1) sample_body_def sample_body_for_def sample_roster_def del: One_nat_def)
  then show ?thesis by blast
qed

lemma sample_settled:
  assumes "gr_manifest grp = sample_body"
  shows "\<not> list_ex (\<lambda>p. partial_share E B N parse sample_network grp rid message p = None) (gb_participants (gr_manifest grp))"
    "list_ex (\<lambda>p. partial_share E B N parse aborting_network grp rid message p = None) (gb_participants (gr_manifest grp))"
proof -
  have "requestThresholdJson parse (sample_network url b) \<noteq> None" for url b
    by (simp add: sample_network_def requestThresholdJson_def)
  then show "\<not> list_ex (\<lambda>p. partial_share E B N parse sample_network grp rid message p = None) (gb_participants (gr_manifest grp))"
    by (simp add: partial_share_def list_ex_iff)
  show "list_ex (\<lambda>p. partial_share E B N parse aborting_network grp rid message p = None) (gb_participants (gr_manifest grp))"
    by (simp add: assms sample_body_def sample_body_for_def sample_roster_def partial_share_def aborting_network_def requestThresholdJson_def
        sample_roster_entry_def)
qed

lemma sample_message_bytes:
  "message_ok sample_ethers sample_bls sample_ex (keccak256 sample_ethers [])"
  "threshold_message sample_ethers sample_coder grp c a p = Inr (keccak256 sample_ethers [])"
  "\<exists>n. threshold_output sample_ethers sample_coder m (hexlify sample_ethers b) = Inr n"
proof -
  have "hex_text 64 (keccak256 sample_ethers [])" using sample_hexlify_text [of "replicate 31 1 @ [0]"] by (simp add: sample_ethers_def)
  moreover have "getBytes sample_ethers (keccak256 sample_ethers []) = Inr (replicate 31 1 @ [0])"
    by (simp add: sample_ethers_def sample_getBytes_hexlify)
  moreover have "bls.hashToCurve sample_bls (replicate 31 1 @ [0]) BLS_DST = Inr (sample_ex 3)"
    by (simp add: sample_bls_def sample_ex_def)
  moreover have "\<not> eqm (params_r sample_bls) 3 0" by (simp add: sample_bls_def eqm_def)
  ultimately show "message_ok sample_ethers sample_bls sample_ex (keccak256 sample_ethers [])"
    unfolding message_ok_def by blast
  show "threshold_message sample_ethers sample_coder grp c a p = Inr (keccak256 sample_ethers [])"
    by (simp add: threshold_message_def sample_coder_def)
  have "isOk (hashBig sample_ethers [])" by code_simp
  then have "\<exists>n. hashBig sample_ethers [] = Inr n" by (simp add: isOk_iff)
  then show "\<exists>n. threshold_output sample_ethers sample_coder m (hexlify sample_ethers b) = Inr n"
    using sample_hex_codec by (simp add: threshold_output_def sample_coder_def hex_codec_def)
qed

lemma sample_provider:
  "\<exists>grp. newThresholdProofProvider sample_ethers sample_bls sample_node sample_manifest sample_options sample_files = Inr grp \<and>
     gr_manifest grp = sample_body"
  using sample_manifest_valid by (auto simp: newThresholdProofProvider_def sample_files_def)

subsection \<open>Properties\<close>

text \<open>
  C31: Robust aggregation, and where it ends: for a validated group and a well-formed message, when at least threshold nodes
  answer with a share that the provider accepts, then \<open>prove\<close> returns a proof whose signature verifies against the group key over exactly the
  request's message, however the others behave (silent, failing, forged or malformed answers), as long as none of them closes the connection in the middle of
  its answer; if one does, its promise never settles and \<open>prove\<close> never returns, the honest shares notwithstanding.
\<close>

theorem threshold_prove_robust:
  assumes "hex_codec E" "case_law E" "bls_laws B ex1 ex2 exT"
    and "newThresholdProofProvider E B N m opts files = Inr grp" "chainId = gb_chainId (gr_manifest grp)"
    and "threshold_message E C grp chainId actualSeed preSeed = Inr message" "message_ok E B ex1 message"
    and "\<And>b. \<exists>n. threshold_output E C message (hexlify E b) = Inr n"
    and "enough_shares E B N parse net grp requestId message"
  shows "if list_ex (\<lambda>p. partial_share E B N parse net grp requestId message p = None) (gb_participants (gr_manifest grp))
    then threshold_prove E B N C parse net grp actualSeed preSeed requestId chainId = None
    else \<exists>pf. threshold_prove E B N C parse net grp actualSeed preSeed requestId chainId = Some (Inr pf) \<and> to_message pf = message \<and>
      verifyAggregateSignature E B (HexString message) (HexString (gb_groupPublicKey (gr_manifest grp))) (HexString (to_signature pf)) \<and>
      threshold_output E C message (to_signature pf) = Inr (to_output pf)"
proof (cases "list_ex (\<lambda>p. partial_share E B N parse net grp requestId message p = None) (gb_participants (gr_manifest grp))")
  case True
  then show ?thesis using assms(5,6) by (simp add: threshold_prove_def those_map)
next
  case False
  then have settled: "\<forall>p \<in> set (gb_participants (gr_manifest grp)). partial_share E B N parse net grp requestId message p \<noteq> None"
    by (auto simp: list_ex_iff)
  obtain mb h where m: "getBytes E message = Inr mb" "bls.hashToCurve B mb BLS_DST = Inr (ex1 h)" "\<not> eqm (params_r B) h 0"
    using assms(7) by (auto simp: message_ok_def)
  obtain cs where cs: "on_polynomial E B ex2 (gr_manifest grp) cs"
    using group_polynomial [OF assms(1,3) lower_key(1,3) [OF assms(4)]] by blast
  obtain pf where pf: "threshold_prove E B N C parse net grp actualSeed preSeed requestId chainId = Some (Inr pf)"
    using threshold_prove_returns [OF assms(1-4) cs assms(5,6) m assms(8) settled assms(9)] by blast
  then show ?thesis unfolding if_not_P [OF False] using threshold_prove_Inr [OF assms(1-4) cs assms(6) m pf] by blast
qed

theorem threshold_prove_robust_witness:
  "\<exists>grp parse pf. threshold_prove sample_ethers sample_bls sample_node sample_coder parse sample_network grp 5 6 7 1 = Some (Inr pf) \<and>
     verifyAggregateSignature sample_ethers sample_bls (HexString (keccak256 sample_ethers []))
       (HexString (gb_groupPublicKey sample_body)) (HexString (to_signature pf)) \<and>
     threshold_prove sample_ethers sample_bls sample_node sample_coder parse aborting_network grp 5 6 7 1 = None"
proof -
  obtain grp where g: "newThresholdProofProvider sample_ethers sample_bls sample_node sample_manifest sample_options sample_files = Inr grp"
      "gr_manifest grp = sample_body" using sample_provider by blast
  obtain parse where n: "enough_shares sample_ethers sample_bls sample_node parse sample_network grp 7 (keccak256 sample_ethers [])"
      "enough_shares sample_ethers sample_bls sample_node parse aborting_network grp 7 (keccak256 sample_ethers [])"
    using sample_two_answers [OF g(2) sample_message_bytes(1)] by blast
  have c: "1 = gb_chainId (gr_manifest grp)" by (simp add: g(2) sample_body_def sample_body_for_def)
  note run = threshold_prove_robust [where actualSeed = 5 and preSeed = 6,
        OF sample_hex_codec sample_case_law sample_bls_laws g(1) c sample_message_bytes(2,1,3)]
  have "\<exists>pf. threshold_prove sample_ethers sample_bls sample_node sample_coder parse sample_network grp 5 6 7 1 = Some (Inr pf) \<and>
      verifyAggregateSignature sample_ethers sample_bls (HexString (keccak256 sample_ethers []))
        (HexString (gb_groupPublicKey sample_body)) (HexString (to_signature pf))"
    using run [OF n(1), unfolded if_not_P [OF sample_settled(1) [OF g(2)]], unfolded g(2)] by blast
  moreover have "threshold_prove sample_ethers sample_bls sample_node sample_coder parse aborting_network grp 5 6 7 1 = None"
    using run [OF n(2), unfolded if_P [OF sample_settled(2) [OF g(2)]]] .
  ultimately show ?thesis by blast
qed

text \<open>
  C32: The randomness cannot be biased by choosing which nodes answer: two runs for the same request, against any networks (any subset
  of nodes, any answers, any order), that both return give the same signature, output and proof data.
\<close>

theorem threshold_prove_unique:
  assumes "hex_codec E" "case_law E" "bls_laws B ex1 ex2 exT"
    and "newThresholdProofProvider E B N m opts files = Inr grp"
    and "threshold_message E C grp chainId actualSeed preSeed = Inr message" "message_ok E B ex1 message"
    and "threshold_prove E B N C parse net grp actualSeed preSeed requestId chainId = Some (Inr p1)"
    and "threshold_prove E B N C parse' net' grp actualSeed preSeed requestId' chainId = Some (Inr p2)"
  shows "to_signature p1 = to_signature p2 \<and> to_output p1 = to_output p2 \<and> to_proofData p1 = to_proofData p2"
proof -
  obtain mb h where m: "getBytes E message = Inr mb" "bls.hashToCurve B mb BLS_DST = Inr (ex1 h)" "\<not> eqm (params_r B) h 0"
    using assms(6) by (auto simp: message_ok_def)
  obtain cs where cs: "on_polynomial E B ex2 (gr_manifest grp) cs"
    using group_polynomial [OF assms(1,3) lower_key(1,3) [OF assms(4)]] by blast
  note run = threshold_prove_Inr [OF assms(1-4) cs assms(5) m]
  note r1 = run [OF assms(7)] and r2 = run [OF assms(8)]
  have same: "to_signature p1 = to_signature p2" using r1 r2 by simp
  have "Inr (to_output p1) = (Inr (to_output p2) :: int result)" using r1 r2 unfolding same by metis
  then show ?thesis using r1 r2 same by simp
qed

theorem threshold_prove_unique_witness:
  "\<exists>grp parse p1 p2. threshold_prove sample_ethers sample_bls sample_node sample_coder parse sample_network grp 5 6 7 1 = Some (Inr p1) \<and>
     threshold_prove sample_ethers sample_bls sample_node sample_coder parse sample_network grp 5 6 7 1 = Some (Inr p2) \<and>
     to_signature p1 = to_signature p2"
proof -
  obtain grp where g: "newThresholdProofProvider sample_ethers sample_bls sample_node sample_manifest sample_options sample_files = Inr grp"
      "gr_manifest grp = sample_body" using sample_provider by blast
  obtain cs where cs: "on_polynomial sample_ethers sample_bls sample_ex (gr_manifest grp) cs"
    using group_polynomial [OF sample_hex_codec sample_bls_laws lower_key(1,3) [OF g(1)]] by blast
  obtain parse where n: "enough_shares sample_ethers sample_bls sample_node parse sample_network grp 7 (keccak256 sample_ethers [])"
    using sample_two_answers [OF g(2) sample_message_bytes(1)] by blast
  have settled: "\<forall>p \<in> set (gb_participants (gr_manifest grp)). partial_share sample_ethers sample_bls sample_node parse sample_network grp 7
      (keccak256 sample_ethers []) p \<noteq> None"
    using sample_settled(1) [OF g(2), of sample_ethers sample_bls sample_node parse 7 "keccak256 sample_ethers []"] by (auto simp: list_ex_iff)
  have c: "1 = gb_chainId (gr_manifest grp)" by (simp add: g(2) sample_body_def sample_body_for_def)
  obtain mb h where m: "getBytes sample_ethers (keccak256 sample_ethers []) = Inr mb" "bls.hashToCurve sample_bls mb BLS_DST = Inr (sample_ex h)"
      "\<not> eqm (params_r sample_bls) h 0" using sample_message_bytes(1) by (auto simp: message_ok_def)
  obtain pf where pf: "threshold_prove sample_ethers sample_bls sample_node sample_coder parse sample_network grp 5 6 7 1 = Some (Inr pf)"
    using threshold_prove_returns [OF sample_hex_codec sample_case_law sample_bls_laws g(1) cs c sample_message_bytes(2) m sample_message_bytes(3) settled n]
    by blast
  show ?thesis
    using threshold_prove_unique [OF sample_hex_codec sample_case_law sample_bls_laws g(1) sample_message_bytes(2,1) pf pf] pf by blast
qed

end
