(* ===== verification/Remote_Provider.thy ===== *)
theory Remote_Provider
  imports Prover_Server Threshold_Provider
begin

section \<open>The remote and the local proof provider (operator/proof-provider.mjs)\<close>

text \<open>
  \<open>RemoteProofProvider\<close> is the client of the prover server: it learns the public key at \<open>/v1/status\<close>, asks for proofs at \<open>/v1/proofs\<close> and checks that
  what comes back is bound to its key and to the seeds that it asked for. \<open>LocalKeystoreProofProvider\<close> proves in the process, and
  \<open>createProofProvider\<close> builds the one provider that is configured. The network is a function from calls to replies, as for the threshold provider.
  The last section connects the client to the model of the server.
\<close>

subsection \<open>Values on the wire\<close>

definition coordinates :: "(string \<Rightarrow> int result) \<Rightarrow> string \<Rightarrow> json \<Rightarrow> (int \<times> int) result" where
  "coordinates frac message value = (case value of
     JArr [x, y] \<Rightarrow> bindR (bigint frac x) (\<lambda>a. bindR (bigint frac y) (\<lambda>b. Inr (a, b)))
   | _ \<Rightarrow> Inl message)"

definition normalizePublicKey :: "(string \<Rightarrow> int result) \<Rightarrow> json \<Rightarrow> (int \<times> int) result" where
  "normalizePublicKey frac value = coordinates frac ''prover public key must contain two coordinates'' value"

definition normalizePair :: "(string \<Rightarrow> int result) \<Rightarrow> json \<Rightarrow> string \<Rightarrow> (int \<times> int) result" where
  "normalizePair frac value name = coordinates frac (name @ '' must contain two coordinates'') value"

definition isAddress :: "ethers \<Rightarrow> string \<Rightarrow> bool" where
  "isAddress E s \<longleftrightarrow> isOk (getAddress E s)"

definition read_proof :: "(string \<Rightarrow> int result) \<Rightarrow> fields \<Rightarrow> vrf_proof result" where
  "read_proof frac v = bindR (normalizePair frac (field v ''pk'') ''proof.pk'') (\<lambda>pk.
     bindR (normalizePair frac (field v ''gamma'') ''proof.gamma'') (\<lambda>gamma.
     bindR (bigint frac (field v ''c'')) (\<lambda>c. bindR (bigint frac (field v ''s'')) (\<lambda>s. bindR (bigint frac (field v ''seed'')) (\<lambda>seed.
     bindR (normalizePair frac (field v ''cGammaWitness'') ''proof.cGammaWitness'') (\<lambda>cGammaWitness.
     bindR (normalizePair frac (field v ''sHashWitness'') ''proof.sHashWitness'') (\<lambda>sHashWitness.
     bindR (bigint frac (field v ''zInv'')) (\<lambda>zInv.
     Inr \<lparr>pf_pk = pk, pf_gamma = gamma, pf_c = c, pf_s = s, pf_seed = seed, pf_uWitness = js_string (field v ''uWitness''),
       pf_cGammaWitness = cGammaWitness, pf_sHashWitness = sHashWitness, pf_zInv = zInv\<rparr>))))))))"

definition normalizeProof :: "ethers \<Rightarrow> (string \<Rightarrow> int result) \<Rightarrow> json \<Rightarrow> int \<Rightarrow> vrf_proof result" where
  "normalizeProof E frac value expectedPreSeed =
     (if \<not> (case value of JObj _ \<Rightarrow> True | JArr _ \<Rightarrow> True | _ \<Rightarrow> False) then Inl ''remote prover returned no proof''
      else bindR (read_proof frac (fields_of value)) (\<lambda>proof.
        if \<not> isAddress E (pf_uWitness proof) then Inl ''remote prover returned an invalid uWitness''
        else if pf_seed proof \<noteq> expectedPreSeed then Inl ''remote prover proof seed does not match the request pre-seed''
        else Inr proof))"

subsection \<open>Calls\<close>

definition strip_slash :: "string \<Rightarrow> string" where
  "strip_slash s = (if s \<noteq> [] \<and> last s = CHR ''/'' then butlast s else s)"

definition remote_endpoint :: "string \<Rightarrow> string \<Rightarrow> string" where
  "remote_endpoint baseUrl path = strip_slash baseUrl @ path"

definition assertRemoteUrl :: "'k node \<Rightarrow> string \<Rightarrow> string result" where
  "assertRemoteUrl N value = bindR (parseUrl N value) (\<lambda>url.
     let local = url_hostname url \<in> {''localhost'', ''127.0.0.1'', ''::1''} in
     if url_protocol url \<noteq> ''https:'' \<and> \<not> (local \<and> url_protocol url = ''http:'')
     then Inl ''remote prover must use HTTPS (HTTP is allowed only for loopback testing)''
     else Inr (strip_slash (url_href url)))"

record http_call =
  hc_url :: string
  hc_method :: string
  hc_headers :: "(string \<times> string) list"
  hc_body :: "string option"
  hc_files :: client_files

definition no_files :: client_files where
  "no_files = \<lparr>cf_certificate = None, cf_key = None, cf_ca = None\<rparr>"

text \<open>\<open>fetch\<close>: every failure of the transport rejects, and so does a body that is not JSON or ends early.\<close>

definition fetchJson :: "(bytes \<Rightarrow> json result) \<Rightarrow> node_reply \<Rightarrow> json result" where
  "fetchJson parse reply = (case reply of
     NodeTimeout \<Rightarrow> Inl ''The operation was aborted due to timeout''
   | NodeFailed e \<Rightarrow> Inl e
   | NodeAborted status chunks \<Rightarrow>
       if \<not> (200 \<le> status \<and> status \<le> 299) then Inl (remoteHttpError status (JObj [])) else Inl ''terminated''
   | NodeReply status chunks \<Rightarrow>
       if \<not> (200 \<le> status \<and> status \<le> 299)
       then Inl (remoteHttpError status (case parse (concat chunks) of Inl _ \<Rightarrow> JObj [] | Inr v \<Rightarrow> v))
       else parse (concat chunks))"

subsection \<open>The remote provider\<close>

record remote_provider =
  rp_baseUrl :: string
  rp_bearerToken :: string
  rp_files :: client_files
  rp_publicKey :: "int \<times> int"
  rp_keyHash :: string
  rp_proofKeyAddress :: string

definition newRemoteProofProvider :: "'k node \<Rightarrow> string \<Rightarrow> string \<Rightarrow> client_files \<Rightarrow> remote_provider result" where
  "newRemoteProofProvider N baseUrl bearerToken files = bindR (assertRemoteUrl N baseUrl) (\<lambda>url.
     Inr \<lparr>rp_baseUrl = url, rp_bearerToken = bearerToken, rp_files = files, rp_publicKey = (0, 0), rp_keyHash = [],
       rp_proofKeyAddress = []\<rparr>)"

definition authorization :: "remote_provider \<Rightarrow> (string \<times> string) list" where
  "authorization R = (if rp_bearerToken R = [] then [] else [(''authorization'', ''Bearer '' @ rp_bearerToken R)])"

definition headers :: "remote_provider \<Rightarrow> (string \<times> string) list \<Rightarrow> (string \<times> string) list" where
  "headers R extra = (''accept'', ''application/json'') # authorization R @ extra"

definition threshold_headers :: "remote_provider \<Rightarrow> string option \<Rightarrow> (string \<times> string) list" where
  "threshold_headers R body = (''accept'', ''application/json'') #
     (if body = None then [] else [(''content-type'', ''application/json'')]) @ authorization R"

text \<open>\<open>None\<close>: the call never settles, which can happen over mutual TLS only.\<close>

definition remote_request ::
  "'k node \<Rightarrow> (bytes \<Rightarrow> json result) \<Rightarrow> (http_call \<Rightarrow> node_reply) \<Rightarrow> remote_provider \<Rightarrow> string \<Rightarrow> string option \<Rightarrow> json result option" where
  "remote_request N parse net R path body =
     (let files = rp_files R; url = remote_endpoint (rp_baseUrl R) path; verb = (if body = None then ''GET'' else ''POST'') in
      if cf_certificate files \<noteq> None \<or> cf_key files \<noteq> None \<or> cf_ca files \<noteq> None
      then if cf_certificate files = None \<or> cf_key files = None \<or> cf_ca files = None
        then Some (Inl ''remote prover mTLS requires client certificate, key, and CA'')
        else (case parseUrl N url of
            Inl e \<Rightarrow> Some (Inl e)
          | Inr u \<Rightarrow> requestThresholdJson parse (net \<lparr>hc_url = url, hc_method = verb,
              hc_headers = threshold_headers R body, hc_body = body,
              hc_files = (if url_protocol u = ''https:'' then files else no_files)\<rparr>))
      else Some (fetchJson parse (net \<lparr>hc_url = url, hc_method = verb,
        hc_headers = headers R (if body = None then [] else [(''content-type'', ''application/json'')]),
        hc_body = body, hc_files = no_files\<rparr>)))"

definition lower_optional :: "json \<Rightarrow> string option result" where
  "lower_optional v = (if v = JUndefined \<or> v = JNull then Inr None else bindR (lower v) (\<lambda>s. Inr (Some s)))"

definition read_status ::
  "ethers \<Rightarrow> 'p ecvrf_library \<Rightarrow> (string \<Rightarrow> int result) \<Rightarrow> remote_provider \<Rightarrow> string \<Rightarrow> json \<Rightarrow> remote_provider result" where
  "read_status E L frac R expectedKeyHash status =
     (if status = JNull then Inl ''Cannot read properties of null'' else
     bindR (normalizePublicKey frac (field (fields_of status) ''publicKey'')) (\<lambda>publicKey.
     bindR (serviceKeyHash E L publicKey) (\<lambda>keyHash.
     bindR (addressForPublicKey E L [fst publicKey, snd publicKey]) (\<lambda>address.
     let told = field (fields_of status) ''serviceKeyHash'' in
     bindR (if truthy told then lower told else Inr keyHash) (\<lambda>k.
     if k \<noteq> keyHash then Inl ''remote prover status contains an inconsistent service key hash''
     else if expectedKeyHash \<noteq> [] \<and> toLowerCase expectedKeyHash \<noteq> keyHash
     then Inl ''remote prover key does not match --proof-key-hash''
     else Inr (R\<lparr>rp_publicKey := publicKey, rp_keyHash := keyHash, rp_proofKeyAddress := address\<rparr>))))))"

definition remote_initialize ::
  "ethers \<Rightarrow> 'p ecvrf_library \<Rightarrow> 'k node \<Rightarrow> (string \<Rightarrow> int result) \<Rightarrow> (bytes \<Rightarrow> json result) \<Rightarrow> (http_call \<Rightarrow> node_reply) \<Rightarrow>
     remote_provider \<Rightarrow> string \<Rightarrow> remote_provider result option" where
  "remote_initialize E L N frac parse net R expectedKeyHash =
     map_option (\<lambda>answer. bindR answer (read_status E L frac R expectedKeyHash)) (remote_request N parse net R ''/v1/status'' None)"

record proof_request =
  pq_actualSeed :: int
  pq_preSeed :: int
  pq_requestId :: int
  pq_coordinator :: string
  pq_chainId :: int
  pq_compactWitness :: "witness option"

definition sent_witness :: "ethers \<Rightarrow> proof_request \<Rightarrow> json option result" where
  "sent_witness E q = (case pq_compactWitness q of None \<Rightarrow> Inr None
   | Some w \<Rightarrow> bindR (serializeCompactWitness E (Some w)) (\<lambda>fs. Inr (Some (JObj fs))))"

definition proof_payload :: "remote_provider \<Rightarrow> proof_request \<Rightarrow> json option \<Rightarrow> json" where
  "proof_payload R q compactWitness = JObj ([(''scheme'', JStr ''SECP256K1_ECVRF_V1''), (''serviceKeyHash'', JStr (rp_keyHash R)),
     (''requestId'', JStr (showInt (pq_requestId q))), (''coordinator'', JStr (pq_coordinator q)),
     (''chainId'', JStr (showInt (pq_chainId q)))] @ (case compactWitness of None \<Rightarrow> [] | Some w \<Rightarrow> [(''compactWitness'', w)]))"

record remote_proof =
  rm_proof :: vrf_proof
  rm_output :: int
  rm_publicKey :: "int \<times> int"
  rm_serviceKeyHash :: string

definition read_remote_proof ::
  "ethers \<Rightarrow> 'p ecvrf_library \<Rightarrow> (string \<Rightarrow> int result) \<Rightarrow> remote_provider \<Rightarrow> proof_request \<Rightarrow> json \<Rightarrow> remote_proof result" where
  "read_remote_proof E L frac R q r =
     (if r = JNull then Inl ''Cannot read properties of null'' else
      let v = fields_of r in
      bindR (lower_optional (field v ''serviceKeyHash'')) (\<lambda>k.
      if k \<noteq> Some (rp_keyHash R) then Inl ''remote prover response key does not match the configured key''
      else bindR (bigint frac (field v ''actualSeed'')) (\<lambda>actualSeed.
      bindR (if actualSeed \<noteq> pq_actualSeed q then Inr False else bindR (bigint frac (field v ''preSeed'')) (\<lambda>s. Inr (s = pq_preSeed q)))
        (\<lambda>same.
      if \<not> same then Inl ''remote prover resolved a different canonical request seed''
      else bindR (normalizeProof E frac (field v ''proof'') (pq_preSeed q)) (\<lambda>proof.
      bindR (serviceKeyHash E L (pf_pk proof)) (\<lambda>proofKey.
      if proofKey \<noteq> rp_keyHash R then Inl ''remote prover proof public key does not match the configured key''
      else bindR (outputForProof E L (Some [fst (pf_gamma proof), snd (pf_gamma proof)])) (\<lambda>output.
        Inr \<lparr>rm_proof = proof, rm_output = output, rm_publicKey = rp_publicKey R, rm_serviceKeyHash = rp_keyHash R\<rparr>)))))))"

definition remote_prove ::
  "ethers \<Rightarrow> 'p ecvrf_library \<Rightarrow> 'k node \<Rightarrow> (string \<Rightarrow> int result) \<Rightarrow> (bytes \<Rightarrow> json result) \<Rightarrow> (http_call \<Rightarrow> node_reply) \<Rightarrow>
     remote_provider \<Rightarrow> proof_request \<Rightarrow> remote_proof result option" where
  "remote_prove E L N frac parse net R q = (case sent_witness E q of
     Inl e \<Rightarrow> Some (Inl e)
   | Inr w \<Rightarrow> map_option (\<lambda>answer. bindR answer (read_remote_proof E L frac R q))
       (remote_request N parse net R ''/v1/proofs'' (Some (JSON_stringify (proof_payload R q w)))))"

subsection \<open>The local provider\<close>

record local_provider =
  lo_privateKey :: int
  lo_publicKey :: "int \<times> int"
  lo_keyHash :: string
  lo_proofKeyAddress :: string

text \<open>The address of a wallet is ethers' business: \<open>address\<close> is a parameter.\<close>

definition newLocalKeystoreProofProvider ::
  "curve_constants \<Rightarrow> ethers \<Rightarrow> 'p ecvrf_library \<Rightarrow> (int \<Rightarrow> string) \<Rightarrow> int \<Rightarrow> local_provider result" where
  "newLocalKeystoreProofProvider C E L address secret = bindR (publicKeyFor C L secret) (\<lambda>publicKey.
     bindR (serviceKeyHash E L publicKey) (\<lambda>keyHash.
     Inr \<lparr>lo_privateKey = secret, lo_publicKey = publicKey, lo_keyHash = keyHash, lo_proofKeyAddress = address secret\<rparr>))"

definition loadLocalProvider ::
  "curve_constants \<Rightarrow> ethers \<Rightarrow> 'p ecvrf_library \<Rightarrow> (int \<Rightarrow> string) \<Rightarrow> (string \<Rightarrow> prover_keystore result) \<Rightarrow> string \<Rightarrow> string \<Rightarrow>
     local_provider result" where
  "loadLocalProvider C E L address readKeystore keyPath password =
     (if keyPath = [] then Inl ''--keystore is required for a local proof provider''
      else if password = [] then Inl ''VRF_KEY_PASSWORD is required''
      else bindR (readKeystore keyPath) (\<lambda>ks.
      if pk_format ks \<noteq> ''proof-vrf-keystore-v1'' then Inl ''unsupported VRF keystore format''
      else bindR (pk_decrypt ks password) (\<lambda>secret.
      bindR (newLocalKeystoreProofProvider C E L address secret) (\<lambda>provider.
      bindR (if truthy (pk_serviceKeyHash ks) then lower (pk_serviceKeyHash ks) else Inr (lo_keyHash provider)) (\<lambda>committed.
      if committed \<noteq> lo_keyHash provider then Inl ''keystore service key hash does not match its encrypted key''
      else Inr provider)))))"

definition local_prove ::
  "curve_constants \<Rightarrow> ethers \<Rightarrow> 'p ecvrf_library \<Rightarrow> local_provider \<Rightarrow> int \<Rightarrow> int \<Rightarrow> generated_proof result option" where
  "local_prove C E L provider actualSeed preSeed = generateProof C E L (lo_privateKey provider) actualSeed preSeed None"

subsection \<open>Choosing a provider\<close>

text \<open>
  The options of \<open>createProofProvider\<close>, where an absent text is the empty one; \<open>po_manifestPath\<close> is the property that the constructor of
  \<open>ThresholdProofProvider\<close> reads, \<open>None\<close> if the object does not have it. The disk is a function from paths.
\<close>

record file_paths =
  fp_certificate :: string
  fp_key :: string
  fp_ca :: string

record provider_options =
  po_keyPath :: string
  po_password :: string
  po_proverUrl :: string
  po_bearerToken :: string
  po_expectedKeyHash :: string
  po_proverFiles :: file_paths
  po_thresholdManifestPath :: string
  po_manifestPath :: "string option"
  po_previousManifestPath :: string
  po_trustedPreviousManifestHash :: json
  po_allowLoopback :: bool
  po_clientFiles :: file_paths

record disk =
  dk_keystore :: "string \<Rightarrow> prover_keystore result"
  dk_json :: "string \<Rightarrow> json result"
  dk_file :: "string \<Rightarrow> bytes result"

definition read_file :: "disk \<Rightarrow> string \<Rightarrow> bytes option result" where
  "read_file D path = (if path = [] then Inr None else bindR (dk_file D path) (\<lambda>b. Inr (Some b)))"

definition read_files :: "disk \<Rightarrow> file_paths \<Rightarrow> client_files result" where
  "read_files D paths = bindR (read_file D (fp_certificate paths)) (\<lambda>certificate. bindR (read_file D (fp_key paths)) (\<lambda>key.
     bindR (read_file D (fp_ca paths)) (\<lambda>ca. Inr \<lparr>cf_certificate = certificate, cf_key = key, cf_ca = ca\<rparr>)))"

definition loadThresholdProvider ::
  "ethers \<Rightarrow> ('p, 'q, 't) bls \<Rightarrow> 'k node \<Rightarrow> disk \<Rightarrow> provider_options \<Rightarrow> threshold_group result" where
  "loadThresholdProvider E B N D options =
     bindR (case po_manifestPath options of None \<Rightarrow> Inl ''The path argument must be of type string'' | Some path \<Rightarrow> dk_json D path) (\<lambda>manifest.
     bindR (if po_previousManifestPath options = [] then Inr JUndefined else dk_json D (po_previousManifestPath options)) (\<lambda>previous.
     let opts = \<lparr>op_allowLoopback = po_allowLoopback options, op_previousManifest = previous,
           op_trustedPreviousManifestHash = po_trustedPreviousManifestHash options\<rparr> in
     bindR (validateGroupManifest E B N manifest opts) (\<lambda>_.
     bindR (read_files D (po_clientFiles options)) (\<lambda>files. newThresholdProofProvider E B N manifest opts files))))"

datatype proof_provider = LocalProvider local_provider | RemoteProvider remote_provider | ThresholdProvider threshold_group

definition createProofProvider ::
  "('k, 'e) prover_libraries \<Rightarrow> ('p, 'q, 't) bls \<Rightarrow> (int \<Rightarrow> string) \<Rightarrow> disk \<Rightarrow> (http_call \<Rightarrow> node_reply) \<Rightarrow> provider_options \<Rightarrow>
     proof_provider result option" where
  "createProofProvider P B address D net options =
     (let hasLocal = (po_keyPath options \<noteq> []); hasRemote = (po_proverUrl options \<noteq> []);
          hasThreshold = (po_thresholdManifestPath options \<noteq> []) in
      if length (filter id [hasLocal, hasRemote, hasThreshold]) \<noteq> 1
      then Some (Inl ''configure exactly one of --keystore, --prover-url, or --threshold-manifest'')
      else if hasLocal
      then Some (bindR (loadLocalProvider (pl_curve P) (pl_ethers P) (pl_points P) address (dk_keystore D) (po_keyPath options)
          (po_password options)) (\<lambda>provider. Inr (LocalProvider provider)))
      else if hasThreshold
      then Some (bindR (loadThresholdProvider (pl_ethers P) B (pl_node P) D options) (\<lambda>grp. Inr (ThresholdProvider grp)))
      else (case bindR (assertRemoteUrl (pl_node P) (po_proverUrl options)) (\<lambda>_.
          bindR (read_files D (po_proverFiles options)) (\<lambda>files.
          newRemoteProofProvider (pl_node P) (po_proverUrl options) (po_bearerToken options) files)) of
          Inl e \<Rightarrow> Some (Inl e)
        | Inr R \<Rightarrow> map_option (\<lambda>r. bindR r (\<lambda>R'. Inr (RemoteProvider R')))
            (remote_initialize (pl_ethers P) (pl_points P) (pl_node P) (pl_frac P) (pl_parse P) net R (po_expectedKeyHash options))))"

text \<open>The options object that \<open>runService\<close> of cli.mjs passes.\<close>

definition option_text :: "(string \<times> string) list \<Rightarrow> string \<Rightarrow> string" where
  "option_text options name = (case map_of options name of Some s \<Rightarrow> s | None \<Rightarrow> [])"

definition service_provider_options :: "(string \<times> string) list \<Rightarrow> (string \<Rightarrow> string) \<Rightarrow> string \<Rightarrow> provider_options" where
  "service_provider_options options readSecret proverUrl = (let opt = option_text options in
     \<lparr>po_keyPath = opt ''keystore'', po_password = readSecret ''VRF_KEY_PASSWORD'', po_proverUrl = proverUrl,
      po_bearerToken = (if opt ''threshold-manifest'' \<noteq> [] then readSecret ''VRF_THRESHOLD_NODE_TOKEN'' else readSecret ''VRF_PROVER_BEARER_TOKEN''),
      po_expectedKeyHash = opt ''proof-key-hash'',
      po_proverFiles = \<lparr>fp_certificate = opt ''prover-client-cert'', fp_key = opt ''prover-client-key'', fp_ca = opt ''prover-ca''\<rparr>,
      po_thresholdManifestPath = opt ''threshold-manifest'', po_manifestPath = None,
      po_previousManifestPath = opt ''threshold-previous-manifest'',
      po_trustedPreviousManifestHash = (case map_of options ''threshold-trusted-previous-hash'' of Some s \<Rightarrow> JStr s | None \<Rightarrow> JUndefined),
      po_allowLoopback = (opt ''threshold-allow-loopback'' = ''true''),
      po_clientFiles = \<lparr>fp_certificate = opt ''threshold-client-cert'', fp_key = opt ''threshold-client-key'', fp_ca = opt ''threshold-ca''\<rparr>\<rparr>)"

subsection \<open>Numbers and proofs survive the wire\<close>

lemma read_digits_digits: "\<forall>c \<in> set ds. isDigit c \<Longrightarrow> read_digits 10 ds n = Some (digits_value ds n)"
proof (induction ds arbitrary: n)
  case (Cons c ds)
  have "hexValue c = Some (of_char c - 48)" "(of_char c :: nat) - 48 < 10"
    using Cons.prems by (auto simp: hexValue_def isDigit_def Let_def)
  then show ?case using Cons by simp
qed simp

lemma trim_same:
  assumes "s \<noteq> []" "\<not> white (hd s)" "\<not> white (last s)" shows "Dkg_Packets.trim s = s"
proof -
  have "dropWhile white s = s" using assms by (cases s) auto
  moreover have "dropWhile white (rev s) = rev s" using assms by (cases s rule: rev_cases) auto
  ultimately show ?thesis by (simp add: Dkg_Packets.trim_def)
qed

lemma digit_simple: "isDigit c \<Longrightarrow> \<not> white c \<and> toLowerChar c = c \<and> c \<notin> {CHR ''x'', CHR ''o'', CHR ''b'', CHR ''-'', CHR ''+''}"
  by (auto simp: isDigit_def white_def toLowerChar_def Let_def)

lemma read_integer_digits:
  assumes "ds \<noteq> []" "\<forall>c \<in> set ds. isDigit c"
  shows "read_integer ds = Some (int (digits_value ds 0))"
proof -
  have "isDigit (hd ds)" "isDigit (last ds)" using assms by auto
  then have t: "Dkg_Packets.trim ds = ds" using assms digit_simple by (intro trim_same) auto
  have p: "map toLowerChar (take 2 ds) = take 2 ds"
    using assms(2) digit_simple by (intro map_idI) (auto dest: in_set_takeD)
  have "\<forall>c \<in> set (take 2 ds). isDigit c" using assms(2) by (auto dest: in_set_takeD)
  then have "take 2 ds \<noteq> ''0x''" "take 2 ds \<noteq> ''0o''" "take 2 ds \<noteq> ''0b''" by (auto simp: isDigit_def)
  then show ?thesis using assms t p \<open>isDigit (hd ds)\<close> digit_simple [of "hd ds"] read_digits_digits [OF assms(2)]
    by (simp add: read_integer_def read_based_def)
qed

lemma read_showInt [simp]: "read_integer (showInt n) = Some n"
proof -
  have d: "read_integer (digits_nat k) = Some (int k)" for k
    using read_integer_digits [of "digits_nat k"] digits_nat_digits digits_value_nat by simp
  show ?thesis
  proof (cases "n < 0")
    case True
    let ?ds = "digits_nat (nat (- n))"
    have v: "\<forall>c \<in> set ?ds. isDigit c" by (rule digits_nat_digits)
    have "isDigit (last ?ds)" using v by simp
    then have t: "Dkg_Packets.trim (CHR ''-'' # ?ds) = CHR ''-'' # ?ds"
      using digit_simple by (intro trim_same) (auto simp: white_def)
    have "read_integer (CHR ''-'' # ?ds) = Some n"
      using True t read_digits_digits [OF v, of 0]
      by (simp add: read_integer_def read_based_def toLowerChar_def digits_value_nat Let_def numeral_2_eq_2)
    then show ?thesis using True by (simp add: showInt_def)
  qed (simp add: d showInt_def)
qed

lemma bigint_text [simp]: "bigint frac (JStr (showInt n)) = Inr n"
  by (simp add: bigint_def)

lemma coordinates_pair [simp]: "coordinates frac e (json_pair xy) = Inr xy"
  by (simp add: coordinates_def json_pair_def)

lemma read_serializableProof: "read_proof frac (fields_of (serializableProof pf)) = Inr pf"
  by (simp add: read_proof_def serializableProof_def fields_of_def field_def normalizePair_def)

subsection \<open>The client and the server\<close>

text \<open>The network that reaches the prover server at a base URL.\<close>

definition prover_net ::
  "('k, 'q) prover_libraries \<Rightarrow> 'p prover_world \<Rightarrow> prover_config \<Rightarrow> string \<Rightarrow> http_call \<Rightarrow> node_reply" where
  "prover_net P W cfg base call = (case prover_handler P W cfg \<lparr>hr_authorization = map_of (hc_headers call) ''authorization'',
       hr_method = hc_method call, hr_url = drop (length base) (hc_url call),
       hr_chunks = (case hc_body call of None \<Rightarrow> [] | Some b \<Rightarrow> [toUtf8Bytes (pl_ethers P) b])\<rparr> of
     None \<Rightarrow> NodeTimeout
   | Some (status, answer) \<Rightarrow> NodeReply (int status) [toUtf8Bytes (pl_ethers P) (JSON_stringify answer)])"

text \<open>\<open>carried\<close>: the text of a value has at most \<open>n\<close> bytes, and the receiver reads the value back.\<close>

definition carried :: "ethers \<Rightarrow> (bytes \<Rightarrow> json result) \<Rightarrow> nat \<Rightarrow> json \<Rightarrow> bool" where
  "carried E parse n j \<longleftrightarrow> length (toUtf8Bytes E (JSON_stringify j)) \<le> n \<and> parse (toUtf8Bytes E (JSON_stringify j)) = Inr j"

definition can_call :: "'k node \<Rightarrow> remote_provider \<Rightarrow> bool" where
  "can_call N R \<longleftrightarrow> rp_files R = no_files \<or>
     cf_certificate (rp_files R) \<noteq> None \<and> cf_key (rp_files R) \<noteq> None \<and> cf_ca (rp_files R) \<noteq> None \<and>
     (\<forall>path \<in> {''/v1/status'', ''/v1/proofs''}. isOk (parseUrl N (remote_endpoint (rp_baseUrl R) path)))"

lemma request_served:
  assumes "can_call N R" "path \<in> {''/v1/status'', ''/v1/proofs''}" "rp_bearerToken R = pc_bearerToken cfg"
    and h: "prover_handler P W cfg \<lparr>hr_authorization = (if pc_bearerToken cfg = [] then None else Some (''Bearer '' @ pc_bearerToken cfg)),
       hr_method = (if body = None then ''GET'' else ''POST''), hr_url = path,
       hr_chunks = (case body of None \<Rightarrow> [] | Some b \<Rightarrow> [toUtf8Bytes (pl_ethers P) b])\<rparr> = Some (200, answer)"
    and c: "carried (pl_ethers P) parse 1000000 answer"
  shows "remote_request N parse (prover_net P W cfg (strip_slash (rp_baseUrl R))) R path body = Some (Inr answer)"
proof -
  have a: "map_of (headers R e) ''authorization'' = (if pc_bearerToken cfg = [] then None else Some (''Bearer '' @ pc_bearerToken cfg))"
    if "e = [] \<or> e = [(''content-type'', ''application/json'')]" for e
    using that assms(3) by (auto simp: headers_def authorization_def)
  have a': "map_of (threshold_headers R b) ''authorization'' = (if pc_bearerToken cfg = [] then None else Some (''Bearer '' @ pc_bearerToken cfg))"
    for b using assms(3) by (simp add: threshold_headers_def authorization_def)
  have served: "prover_net P W cfg (strip_slash (rp_baseUrl R)) \<lparr>hc_url = remote_endpoint (rp_baseUrl R) path,
      hc_method = (if body = None then ''GET'' else ''POST''), hc_headers = hs, hc_body = body, hc_files = fs\<rparr> =
      NodeReply 200 [toUtf8Bytes (pl_ethers P) (JSON_stringify answer)]"
    if "map_of hs ''authorization'' = (if pc_bearerToken cfg = [] then None else Some (''Bearer '' @ pc_bearerToken cfg))" for hs fs
    using h that by (simp add: prover_net_def remote_endpoint_def)
  show ?thesis
  proof (cases "rp_files R = no_files")
    case True
    then show ?thesis using served [OF a] c
      by (simp add: remote_request_def no_files_def Let_def fetchJson_def carried_def)
  next
    case False
    then obtain u where u: "parseUrl N (remote_endpoint (rp_baseUrl R) path) = Inr u"
      "cf_certificate (rp_files R) \<noteq> None" "cf_key (rp_files R) \<noteq> None" "cf_ca (rp_files R) \<noteq> None"
      using assms(1,2) by (auto simp: can_call_def isOk_iff)
    then show ?thesis using served [OF a'] c
      by (simp add: remote_request_def Let_def requestThresholdJson_def carried_def read_reply_def)
  qed
qed

text \<open>What a generated proof consists of, and the two library laws that the client needs: coordinates that were read off a point are accepted again,
  and the last forty digits of a hash are an address; hashes are written in lower case.\<close>

lemma finish_proof_keys:
  "finish_proof C E L wireSeed pk gamma c s u cG sH = Inr r \<Longrightarrow> gp_publicKey r = pt_toAffine L pk \<and>
     serviceKeyHash E L (pt_toAffine L pk) = Inr (gp_serviceKeyHash r) \<and> pf_uWitness (gp_proof r) = u"
  by (cases "projectiveECAdd (FIELD_SIZE C) (pt_toAffine L cG) (pt_toAffine L sH)") (auto simp: finish_proof_def result_simps)

lemma try_nonce_finish:
  "try_nonce C E L secret wireSeed pk hash gamma w = Inr (Generated r) \<Longrightarrow>
     \<exists>p u c s cG sH. ethereumAddress E L p = Inr u \<and> finish_proof C E L wireSeed pk gamma c s u cG sH = Inr r"
  unfolding try_nonce_def Let_def by (force simp: result_simps split: if_splits)

lemma generated_fields:
  assumes laws: "curve_laws C L ex" and g: "generateProof C E L secret seed wireSeed nonce = Some (Inr r)"
  shows "\<exists>h. accepted C E L ex (gp_proof r) seed \<and> pf_seed (gp_proof r) = wireSeed \<and> pf_pk (gp_proof r) = pt_toAffine L (ex secret) \<and>
    pf_gamma (gp_proof r) = pt_toAffine L (ex (h * secret)) \<and> \<not> eqm (GROUP_ORDER C) (h * secret) 0 \<and>
    output_of E L (ex (h * secret)) = Inr (gp_output r) \<and> gp_publicKey r = pt_toAffine L (ex secret) \<and>
    serviceKeyHash E L (pt_toAffine L (ex secret)) = Inr (gp_serviceKeyHash r) \<and>
    (\<exists>u. ethereumAddress E L u = Inr (pf_uWitness (gp_proof r)))"
proof -
  obtain h w where s: "0 < secret" "secret < GROUP_ORDER C" "hashToCurve C E L (ex secret) seed = Some (Inr (ex h))"
      "\<not> eqm (GROUP_ORDER C) h 0" "try_nonce C E L secret wireSeed (ex secret) (ex h) (ex (h * secret)) w = Inr (Generated r)"
    by (rule generateProof_steps [OF laws g])
  note law = curve_lawsD [OF laws]
  have "coprime secret (GROUP_ORDER C)" using law(3) s(1,2) by (simp add: field_modulus_def)
  then have "\<not> eqm (GROUP_ORDER C) secret 0" using coprime_not_eqm_0 law(3) by blast
  then have "\<not> eqm (GROUP_ORDER C) (h * secret) 0" using s(4) field_modulus_mult law(3) by blast
  moreover have "gp_publicKey r = pt_toAffine L (ex secret) \<and> serviceKeyHash E L (pt_toAffine L (ex secret)) = Inr (gp_serviceKeyHash r) \<and>
      (\<exists>u. ethereumAddress E L u = Inr (pf_uWitness (gp_proof r)))"
  proof -
    obtain p u c t cG sH where "ethereumAddress E L p = Inr u" "finish_proof C E L wireSeed (ex secret) (ex (h * secret)) c t u cG sH = Inr r"
      using try_nonce_finish [OF s(5)] by blast
    then show ?thesis using finish_proof_keys [of C E L wireSeed "ex secret" "ex (h * secret)" c t u cG sH r] by auto
  qed
  ultimately show ?thesis using try_nonce_accepted [OF laws s(3,4,1,2,5)] by blast
qed

definition affine_law :: "curve_constants \<Rightarrow> 'p ecvrf_library \<Rightarrow> (int \<Rightarrow> 'p) \<Rightarrow> bool" where
  "affine_law C L ex \<longleftrightarrow> (\<forall>a. \<not> eqm (GROUP_ORDER C) a 0 \<longrightarrow> pt_fromAffine L (pt_toAffine L (ex a)) = Inr (ex a))"

definition hash_laws :: "ethers \<Rightarrow> bool" where
  "hash_laws E \<longleftrightarrow> (\<forall>b. toLowerCase (keccak256 E b) = keccak256 E b \<and>
     isOk (getAddress E (''0x'' @ drop (length (keccak256 E b) - 40) (keccak256 E b))))"

lemma started_server:
  assumes "startProverServer P st ks cfg0 = Inr cfg" "curve_laws (pl_curve P) (pl_points P) ex"
  shows "0 < pc_privateKey cfg" "pc_privateKey cfg < GROUP_ORDER (pl_curve P)"
    "pc_publicKey cfg = pt_toAffine (pl_points P) (ex (pc_privateKey cfg))"
    "serviceKeyHash (pl_ethers P) (pl_points P) (pc_publicKey cfg) = Inr (pc_keyHash cfg)"
  using assms(1) curve_lawsD(4,6) [OF assms(2)]
  by (auto simp: startProverServer_def publicKeyFor_def result_simps split: if_splits)

lemma initialized_client:
  assumes "remote_initialize (pl_ethers P) (pl_points P) N frac parse (prover_net P W cfg (strip_slash (rp_baseUrl R0))) R0 expected = Some (Inr R)"
    and "can_call N R0" "rp_bearerToken R0 = pc_bearerToken cfg" "carried (pl_ethers P) parse 1000000 (prover_status_json cfg)"
    and "serviceKeyHash (pl_ethers P) (pl_points P) (pc_publicKey cfg) = Inr (pc_keyHash cfg)"
  shows "rp_publicKey R = pc_publicKey cfg" "rp_keyHash R = pc_keyHash cfg" "rp_baseUrl R = rp_baseUrl R0"
    "rp_bearerToken R = pc_bearerToken cfg" "can_call N R"
proof -
  have "remote_request N parse (prover_net P W cfg (strip_slash (rp_baseUrl R0))) R0 ''/v1/status'' None = Some (Inr (prover_status_json cfg))"
    by (intro request_served) (use assms(2-4) in \<open>auto simp: prover_handler_def\<close>)
  moreover have "normalizePublicKey frac (field (fields_of (prover_status_json cfg)) ''publicKey'') = Inr (pc_publicKey cfg)"
    by (simp add: normalizePublicKey_def prover_status_json_def fields_of_def field_def)
  moreover have "prover_status_json cfg \<noteq> JNull" by (simp add: prover_status_json_def)
  ultimately have "\<exists>address. R = R0\<lparr>rp_publicKey := pc_publicKey cfg, rp_keyHash := pc_keyHash cfg, rp_proofKeyAddress := address\<rparr>"
    using assms(1,5) by (auto simp: remote_initialize_def read_status_def Let_def result_simps split: if_splits)
  then show "rp_publicKey R = pc_publicKey cfg" "rp_keyHash R = pc_keyHash cfg" "rp_baseUrl R = rp_baseUrl R0"
    "rp_bearerToken R = pc_bearerToken cfg" "can_call N R"
    using assms(2,3) by (auto simp: can_call_def)
qed

text \<open>The client's request passes the server's binding check.\<close>

lemma payload_bound:
  assumes "toLowerCase (rp_keyHash R) = toLowerCase (pc_keyHash cfg)" "toLowerCase (pq_coordinator q) = toLowerCase (pc_coordinator cfg)"
    and "pq_chainId q = pc_chainId cfg" "0 \<le> pq_requestId q"
  shows "bound_request frac cfg (proof_payload R q w) = Inr (JStr (showInt (pq_requestId q)), w)"
proof -
  have d: "digits_text (showInt (pq_requestId q))"
    using assms(4) digits_nat_digits by (simp add: showInt_def digits_text_def)
  show ?thesis
  proof (cases w)
    case None
    then show ?thesis using assms d
      by (simp add: bound_request_def proof_payload_def has_field_def field_def PROOF_REQUEST_KEYS_def lower_def Let_def)
  next
    case (Some j)
    then show ?thesis using assms d
      by (simp add: bound_request_def proof_payload_def has_field_def field_def PROOF_REQUEST_KEYS_def lower_def Let_def)
  qed
qed

text \<open>The server's answer passes the client's checks.\<close>

lemma answer_read:
  assumes laws: "curve_laws C L ex" "affine_law C L ex" "hash_laws E"
    and g: "generateProof C E L (pc_privateKey cfg) (pq_actualSeed q) (pq_preSeed q) None = Some (Inr g)"
    and key: "pc_publicKey cfg = pt_toAffine L (ex (pc_privateKey cfg))" "serviceKeyHash E L (pc_publicKey cfg) = Inr (pc_keyHash cfg)"
    and R: "rp_publicKey R = pc_publicKey cfg" "rp_keyHash R = pc_keyHash cfg"
  shows "read_remote_proof E L frac R q (proof_answer cfg (pq_actualSeed q) (pq_preSeed q) (gp_proof g)) =
     Inr \<lparr>rm_proof = gp_proof g, rm_output = gp_output g, rm_publicKey = gp_publicKey g, rm_serviceKeyHash = gp_serviceKeyHash g\<rparr>"
proof -
  obtain h where f0: "pf_seed (gp_proof g) = pq_preSeed q" "pf_pk (gp_proof g) = pt_toAffine L (ex (pc_privateKey cfg))"
      "pf_gamma (gp_proof g) = pt_toAffine L (ex (h * pc_privateKey cfg))" "\<not> eqm (GROUP_ORDER C) (h * pc_privateKey cfg) 0"
      "output_of E L (ex (h * pc_privateKey cfg)) = Inr (gp_output g)" "gp_publicKey g = pt_toAffine L (ex (pc_privateKey cfg))"
      "serviceKeyHash E L (pt_toAffine L (ex (pc_privateKey cfg))) = Inr (gp_serviceKeyHash g)"
      "\<exists>u. ethereumAddress E L u = Inr (pf_uWitness (gp_proof g))"
    using generated_fields [OF laws(1) g] by blast
  have "gp_serviceKeyHash g = pc_keyHash cfg" using f0(7) key by simp
  then have f: "pf_seed (gp_proof g) = pq_preSeed q" "pf_pk (gp_proof g) = pc_publicKey cfg"
      "pf_gamma (gp_proof g) = pt_toAffine L (ex (h * pc_privateKey cfg))" "\<not> eqm (GROUP_ORDER C) (h * pc_privateKey cfg) 0"
      "output_of E L (ex (h * pc_privateKey cfg)) = Inr (gp_output g)" "gp_publicKey g = pc_publicKey cfg"
      "gp_serviceKeyHash g = pc_keyHash cfg" "\<exists>u. ethereumAddress E L u = Inr (pf_uWitness (gp_proof g))"
    using f0 key by simp_all
  obtain d where d: "''0x'' @ drop (length (keccak256 E d) - 40) (keccak256 E d) = pf_uWitness (gp_proof g)"
    using f(8) by (auto simp: ethereumAddress_def result_simps Let_def)
  have a: "isAddress E (pf_uWitness (gp_proof g))"
    unfolding isAddress_def d [symmetric] using laws(3) unfolding hash_laws_def by blast
  obtain b where b: "keccak256 E b = pc_keyHash cfg" using key(2) by (auto simp: serviceKeyHash_def result_simps)
  have low: "toLowerCase (pc_keyHash cfg) = pc_keyHash cfg"
    unfolding b [symmetric] using laws(3) unfolding hash_laws_def by blast
  have out: "outputForProof E L (Some [fst (pf_gamma (gp_proof g)), snd (pf_gamma (gp_proof g))]) = Inr (gp_output g)"
    using f(3-5) laws(2) by (simp add: outputForProof_def affine_law_def)
  have p: "normalizeProof E frac (serializableProof (gp_proof g)) (pq_preSeed q) = Inr (gp_proof g)"
    using a f(1) read_serializableProof [of frac "gp_proof g"] by (simp add: normalizeProof_def serializableProof_def)
  show ?thesis
    using p out low f key(2) R
    by (simp add: read_remote_proof_def proof_answer_def fields_of_def field_def lower_optional_def lower_def Let_def)
qed

subsection \<open>A sample client and server\<close>

definition wire_ethers :: ethers where
  "wire_ethers = small_ethers\<lparr>getAddress := Inr\<rparr>"

definition wire_world :: "nat prover_world" where
  "wire_world = \<lparr>pw_rpc = (\<lambda>_. \<lparr>pr_chainId = Inr 1, pr_getRequest = (\<lambda>_. Inr (sample_chain_request\<lparr>cr_keyHash := ''0x25''\<rparr>)),
     pr_requestSeed = (\<lambda>_. Inr 9)\<rparr>), pw_net = sample_net\<rparr>"

definition wire_config :: prover_config where
  "wire_config = sample_prover_config ''0x25'' (12, 12)"

definition wire_client :: remote_provider where
  "wire_client = \<lparr>rp_baseUrl = ''https://p'', rp_bearerToken = ''t'', rp_files = no_files, rp_publicKey = (12, 12), rp_keyHash = ''0x25'',
     rp_proofKeyAddress = (case addressForPublicKey wire_ethers small_library [12, 12] of Inr a \<Rightarrow> a | Inl _ \<Rightarrow> [])\<rparr>"

definition wire_request :: proof_request where
  "wire_request = \<lparr>pq_actualSeed = 9, pq_preSeed = 77, pq_requestId = 7, pq_coordinator = ''0xC'', pq_chainId = 1, pq_compactWitness = None\<rparr>"

definition wire_libraries :: "(bytes, int) prover_libraries" where
  "wire_libraries = \<lparr>pl_ethers = wire_ethers, pl_iface = sample_iface, pl_node = sample_node, pl_curve = small_curve,
     pl_points = small_library, pl_parse = (\<lambda>_. Inr (proof_payload wire_client wire_request None)), pl_frac = (\<lambda>_. Inl ''not an integer'')\<rparr>"

definition wire_keystore :: prover_keystore where
  "wire_keystore = \<lparr>pk_format = ''proof-vrf-keystore-v1'', pk_serviceKeyHash = JStr ''0x25'', pk_decrypt = (\<lambda>_. Inr 5)\<rparr>"

definition wire_start :: prover_start where
  "wire_start = \<lparr>st_allowHttpLoopback = True, st_host = ''localhost'', st_password = ''p'', st_tlsKeyPath = [], st_tlsCertPath = [], st_tlsCaPath = []\<rparr>"

text \<open>The client's parser knows the two answers of the server apart by their first name.\<close>

definition wire_parse :: "json \<Rightarrow> json \<Rightarrow> bytes \<Rightarrow> json result" where
  "wire_parse status answer b = Inr (if b ! 2 = 112 then status else answer)"

lemma wire_affine_law: "affine_law small_curve small_library small_ex"
proof -
  have "list_all (\<lambda>i. pt_fromAffine small_library (pt_toAffine small_library (int i)) = Inr (int i)) [1..<31]" by code_simp
  then have all: "\<forall>i \<in> set [1..<31]. pt_fromAffine small_library (pt_toAffine small_library (int i)) = Inr (int i)"
    unfolding list_all_iff .
  have "pt_fromAffine small_library (pt_toAffine small_library (small_ex a)) = Inr (small_ex a)" if "\<not> eqm 31 a 0" for a
    using bspec [OF all, of "nat (small_ex a)"] small_ex_nat [OF that] by argo
  then show ?thesis by (simp add: affine_law_def small_curve_def)
qed

lemma wire_hash_laws: "hash_laws wire_ethers"
proof -
  have "map toLowerChar (hexByte b) = hexByte b" for b by (simp add: hexByte_def toLowerChar_hexDigit unat_byte_bounds)
  then show ?thesis by (simp add: hash_laws_def wire_ethers_def small_ethers_def toLowerCase_def toLowerChar_def)
qed

lemma wire_server: "startProverServer wire_libraries wire_start wire_keystore wire_config = Inr wire_config"
  by code_simp

lemma wire_resolved: "resolveProofRequest wire_ethers sample_iface sample_node wire_world wire_config (JStr rid) None = Inr (77, 9)"
proof -
  have "normalizeRpcUrls sample_node (JStr ''https://a, https://b'') 2 ''remote prover'' False = Inr [''https://a'', ''https://b'']"
    by code_simp
  then show ?thesis
    by (simp add: resolveProofRequest_def wire_config_def sample_prover_config_def wire_world_def read_proof_state_def uint_argument_def
        agree_on_proof_state_def sample_chain_request_def)
qed

lemma wire_generated:
  "\<exists>g. generateProof small_curve wire_ethers small_library 5 9 77 None = Some (Inr g) \<and>
     drop 600 (JSON_stringify (proof_answer wire_config 9 77 (gp_proof g))) = []"
proof -
  have "case generateProof small_curve wire_ethers small_library 5 9 77 None of
      Some (Inr g) \<Rightarrow> drop 600 (JSON_stringify (proof_answer wire_config 9 77 (gp_proof g))) = [] | _ \<Rightarrow> False" by code_simp
  then show ?thesis by (auto split: option.splits sum.splits)
qed

lemma wire_carried:
  assumes "drop 600 (JSON_stringify (proof_answer wire_config 9 77 pf)) = []"
  defines "parse \<equiv> wire_parse (prover_status_json wire_config) (proof_answer wire_config 9 77 pf)"
  shows "carried wire_ethers (\<lambda>_. Inr (proof_payload wire_client wire_request None)) 4096 (proof_payload wire_client wire_request None)"
    "carried wire_ethers parse 1000000 (prover_status_json wire_config)"
    "carried wire_ethers parse 1000000 (proof_answer wire_config 9 77 pf)"
proof -
  have u: "toUtf8Bytes wire_ethers = map (\<lambda>c. word_of_int (of_char c))" by (simp add: wire_ethers_def small_ethers_def)
  have "drop 600 (JSON_stringify (proof_payload wire_client wire_request None)) = []" by code_simp
  then show "carried wire_ethers (\<lambda>_. Inr (proof_payload wire_client wire_request None)) 4096 (proof_payload wire_client wire_request None)"
    by (simp add: carried_def u)
  have "drop 600 (JSON_stringify (prover_status_json wire_config)) = []"
    "JSON_stringify (prover_status_json wire_config) ! 2 = CHR ''p''" "2 < length (JSON_stringify (prover_status_json wire_config))" by code_simp+
  then show "carried wire_ethers parse 1000000 (prover_status_json wire_config)"
    by (simp add: carried_def u parse_def wire_parse_def)
  have "\<exists>t. JSON_stringify (proof_answer wire_config 9 77 pf) = CHR ''{'' # CHR 0x22 # CHR ''s'' # t"
    by (simp add: proof_answer_def stringify_def escapeChar_def join_Cons)
  then show "carried wire_ethers parse 1000000 (proof_answer wire_config 9 77 pf)"
    using assms(1) by (auto simp: carried_def u parse_def wire_parse_def)
qed


subsection \<open>The composition\<close>

text \<open>
  C3: A started prover server and an initialised client fit together: when the server resolves the request to the seeds that the client asks for, \<open>prove\<close>
  of the remote provider returns exactly the proof, output and key that \<open>generateProof\<close> made on the other side, and the proof passes the checks
  of the on-chain verifier. Nothing is lost on the wire and no check of either side refuses the other.
\<close>

theorem remote_prove_served:
  fixes P :: "('k, 'q) prover_libraries"
  defines "E \<equiv> pl_ethers P" and "L \<equiv> pl_points P" and "C \<equiv> pl_curve P"
  assumes laws: "curve_laws C L ex" "affine_law C L ex" "hash_laws E"
    and server: "startProverServer P st ks cfg0 = Inr cfg"
    and client: "can_call N R0" "rp_bearerToken R0 = pc_bearerToken cfg"
      "net = prover_net P W cfg (strip_slash (rp_baseUrl R0))" "remote_initialize E L N frac parse net R0 expected = Some (Inr R)"
    and request: "toLowerCase (pq_coordinator q) = toLowerCase (pc_coordinator cfg)" "pq_chainId q = pc_chainId cfg" "0 \<le> pq_requestId q"
      "sent_witness E q = Inr w"
    and seeds: "resolveProofRequest E (pl_iface P) (pl_node P) W cfg (JStr (showInt (pq_requestId q))) w = Inr (pq_preSeed q, pq_actualSeed q)"
      "generateProof C E L (pc_privateKey cfg) (pq_actualSeed q) (pq_preSeed q) None = Some (Inr g)"
    and wire: "carried E (pl_parse P) 4096 (proof_payload R q w)" "carried E parse 1000000 (prover_status_json cfg)"
      "carried E parse 1000000 (proof_answer cfg (pq_actualSeed q) (pq_preSeed q) (gp_proof g))"
  shows "remote_prove E L N frac parse net R q = Some (Inr \<lparr>rm_proof = gp_proof g, rm_output = gp_output g,
       rm_publicKey = gp_publicKey g, rm_serviceKeyHash = gp_serviceKeyHash g\<rparr>) \<and>
    accepted C E L ex (gp_proof g) (pq_actualSeed q)"
proof -
  note s = started_server [OF server laws(1) [unfolded C_def L_def]]
  note c = initialized_client [OF client(4) [unfolded client(3) E_def L_def] client(1,2) wire(2) [unfolded E_def] s(4)]
  have k: "rp_keyHash R = pc_keyHash cfg" by (rule c(2))
  have b: "bound_request (pl_frac P) cfg (proof_payload R q w) = Inr (JStr (showInt (pq_requestId q)), w)"
    using request k by (intro payload_bound) simp_all
  have "prover_handler P W cfg \<lparr>hr_authorization = (if pc_bearerToken cfg = [] then None else Some (''Bearer '' @ pc_bearerToken cfg)),
      hr_method = ''POST'', hr_url = ''/v1/proofs'', hr_chunks = [toUtf8Bytes (pl_ethers P) (JSON_stringify (proof_payload R q w))]\<rparr> =
    Some (200, proof_answer cfg (pq_actualSeed q) (pq_preSeed q) (gp_proof g))"
    using b seeds wire(1) by (simp add: prover_handler_def readBody_def carried_def E_def L_def C_def)
  then have "remote_request N parse net R ''/v1/proofs'' (Some (JSON_stringify (proof_payload R q w))) =
      Some (Inr (proof_answer cfg (pq_actualSeed q) (pq_preSeed q) (gp_proof g)))"
    unfolding client(3) c(3) [symmetric] using c wire(3) by (intro request_served) (simp_all add: E_def)
  moreover have "read_remote_proof E L frac R q (proof_answer cfg (pq_actualSeed q) (pq_preSeed q) (gp_proof g)) =
     Inr \<lparr>rm_proof = gp_proof g, rm_output = gp_output g, rm_publicKey = gp_publicKey g, rm_serviceKeyHash = gp_serviceKeyHash g\<rparr>"
    using s c unfolding L_def [symmetric] E_def [symmetric] by (intro answer_read [OF laws seeds(2)]) simp_all
  moreover have "accepted C E L ex (gp_proof g) (pq_actualSeed q)" using generated_fields [OF laws(1) seeds(2)] by blast
  ultimately show ?thesis using request(4) by (simp add: remote_prove_def)
qed

theorem remote_prove_served_witness:
  "\<exists>net parse (g :: generated_proof). remote_prove wire_ethers small_library sample_node (\<lambda>_. Inl ''not an integer'') parse net wire_client wire_request =
     Some (Inr \<lparr>rm_proof = gp_proof g, rm_output = gp_output g, rm_publicKey = gp_publicKey g, rm_serviceKeyHash = gp_serviceKeyHash g\<rparr>)"
proof -
  obtain g where g: "generateProof small_curve wire_ethers small_library 5 9 77 None = Some (Inr g)"
      "drop 600 (JSON_stringify (proof_answer wire_config 9 77 (gp_proof g))) = []" using wire_generated by blast
  let ?parse = "wire_parse (prover_status_json wire_config) (proof_answer wire_config 9 77 (gp_proof g))"
  let ?net = "prover_net wire_libraries wire_world wire_config (strip_slash (rp_baseUrl wire_client))"
  have P: "pl_ethers wire_libraries = wire_ethers" "pl_points wire_libraries = small_library" "pl_curve wire_libraries = small_curve"
    "pl_parse wire_libraries = (\<lambda>_. Inr (proof_payload wire_client wire_request None))" "pl_iface wire_libraries = sample_iface"
    "pl_node wire_libraries = sample_node" by (simp_all add: wire_libraries_def)
  have c: "can_call sample_node wire_client" "rp_bearerToken wire_client = pc_bearerToken wire_config"
    by (simp_all add: can_call_def wire_client_def wire_config_def sample_prover_config_def)
  note carried = wire_carried [OF g(2)]
  have st: "remote_request sample_node ?parse ?net wire_client ''/v1/status'' None = Some (Inr (prover_status_json wire_config))"
    by (intro request_served) (use c carried(2) in \<open>auto simp: prover_handler_def P\<close>)
  have key: "serviceKeyHash wire_ethers small_library (12, 12) = Inr ''0x25''"
    "isOk (addressForPublicKey wire_ethers small_library [12, 12])" "toLowerCase ''0x25'' = ''0x25''" by code_simp+
  have "normalizePublicKey frac (field (fields_of (prover_status_json wire_config)) ''publicKey'') = Inr (12, 12)"
    "field (fields_of (prover_status_json wire_config)) ''serviceKeyHash'' = JStr ''0x25''" "prover_status_json wire_config \<noteq> JNull" for frac
    by (simp_all add: normalizePublicKey_def prover_status_json_def fields_of_def field_def wire_config_def sample_prover_config_def)
  then have init: "remote_initialize wire_ethers small_library sample_node (\<lambda>_. Inl ''not an integer'') ?parse ?net wire_client [] = Some (Inr wire_client)"
    using st key by (auto simp: remote_initialize_def read_status_def Let_def lower_def wire_client_def isOk_iff)
  have server: "startProverServer wire_libraries wire_start wire_keystore wire_config = Inr wire_config" by (rule wire_server)
  have q: "toLowerCase (pq_coordinator wire_request) = toLowerCase (pc_coordinator wire_config)" by code_simp
  have q': "pq_chainId wire_request = pc_chainId wire_config" "0 \<le> pq_requestId wire_request" "sent_witness wire_ethers wire_request = Inr None"
    "pc_privateKey wire_config = 5" "pq_actualSeed wire_request = 9" "pq_preSeed wire_request = 77"
    by (simp_all add: wire_request_def wire_config_def sample_prover_config_def sent_witness_def)
  have "remote_prove wire_ethers small_library sample_node (\<lambda>_. Inl ''not an integer'') ?parse ?net wire_client wire_request =
     Some (Inr \<lparr>rm_proof = gp_proof g, rm_output = gp_output g, rm_publicKey = gp_publicKey g, rm_serviceKeyHash = gp_serviceKeyHash g\<rparr>)"
    using remote_prove_served [where P = wire_libraries and ex = small_ex and N = sample_node and W = wire_world and R = wire_client
        and frac = "\<lambda>_. Inl ''not an integer''" and parse = ?parse and net = ?net and expected = "[]" and q = wire_request and w = None and g = g,
        unfolded P, OF small_laws wire_affine_law wire_hash_laws server c refl init q q'(1-3)]
      wire_resolved g(1) carried by (simp add: q')
  then show ?thesis by blast
qed

subsection \<open>A missing property\<close>

lemma threshold_needs_path:
  "createProofProvider P B address D net options = Some (Inr (ThresholdProvider grp)) \<Longrightarrow> po_manifestPath options \<noteq> None"
  by (auto simp: createProofProvider_def loadThresholdProvider_def Let_def result_simps split: if_splits option.splits sum.splits)

text \<open>
  C40: The threshold mode of the service cannot start. \<open>createProofProvider\<close> passes its own options on to the constructor, which reads the manifest from
  \<open>manifestPath\<close> while the option is called \<open>thresholdManifestPath\<close>: whatever the options, the secrets, the disk and the network are, no
  threshold provider results, and with \<open>--threshold-manifest\<close> alone every start fails at the missing path.
\<close>

theorem threshold_mode_fails:
  "createProofProvider P B address D net (service_provider_options options readSecret proverUrl) \<noteq> Some (Inr (ThresholdProvider grp)) \<and>
   createProofProvider P B address D net (service_provider_options [(''threshold-manifest'', CHR ''/'' # path)] readSecret []) =
     Some (Inl ''The path argument must be of type string'')"
proof
  have "po_manifestPath (service_provider_options options readSecret proverUrl) = None"
    by (simp add: service_provider_options_def Let_def)
  then show "createProofProvider P B address D net (service_provider_options options readSecret proverUrl) \<noteq> Some (Inr (ThresholdProvider grp))"
    using threshold_needs_path [of P B address D net "service_provider_options options readSecret proverUrl" grp] by blast
qed (simp add: service_provider_options_def Let_def createProofProvider_def option_text_def loadThresholdProvider_def)

end
