(* ===== verification/Spec2Isabelle.thy ===== *)
theory Spec2Isabelle
  imports Postgres_Store Archiver Node_Runs Service_Runs Ecvrf_Correct Dkg_Properties Remote_Provider
begin

text \<open>
  Verification of the operator of EntropyRail VRF, the JavaScript code under src/operator.

  The program. A consumer contract asks a coordinator contract for randomness. The operator follows the coordinator's events, has a proof of the
  random value made and sends it back in a fulfilment transaction. A proof is either a secp256k1 ECVRF proof, made by a key of the operator (proof.mjs), directly or through a
  prover server (prover-server.mjs, proof-provider.mjs), or a BLS12-381 threshold signature, made by the nodes of a group (threshold-node.mjs) whose
  shares come from a distributed key generation ceremony (threshold-dkg.mjs) and whose roster and polynomial commitments are published in a manifest
  (threshold-group.mjs). The service (cli.mjs) keeps its queue, its nonce lock and its journal of transactions in PostgreSQL (postgres-store.mjs). An
  independent archiver (archiver.mjs) stores block hashes before they leave the chain's window. Requests of the compact coordinator are
  held on the chain as a hash; whoever acts on one supplies all its fields (compact-protocol.mjs). No component trusts one RPC endpoint (rpc-policy.mjs, rpc.mjs), and error
  texts are redacted before they leave a process (errors.mjs).

  Theories and code, in the order of their imports.

  Common. \<open>Prelude\<close> (results, JavaScript's integer operators, decimal text), \<open>Transition\<close> (locales \<open>safety\<close> and \<open>monotone_system\<close>: runs, invariants, relations that every
  step respects), \<open>Io\<close> (asynchronous code as functions of a world to a new world and a result, with triples), \<open>External\<close> (ethers, noble-curves, node:crypto and the
  URL parser as records of operations, with their documented laws as named predicates and a small instance on which the witnesses run), \<open>Modular\<close> (inverses and
  Lagrange weights modulo a number; the locale \<open>modular_inverse\<close> has both inversion routines of the code as instances).

  Threshold signatures. \<open>Threshold_Crypto\<close> is threshold-crypto.mjs. \<open>Canonical_Json\<close> and \<open>Threshold_Group\<close> are threshold-group.mjs: the canonical text, which is shown injective, and
  the validation of manifests and resharings. \<open>Rpc_Consensus\<close> is rpc-policy.mjs, rpc.mjs and the agreement checks of archiver.mjs, compact-worker.mjs and
  calibrate.mjs, all instances of the locale \<open>agreement\<close>. \<open>Threshold_Node\<close> is threshold-node.mjs: the canonical request, the signing job with its durable writes in order, the state file, the audit log, the
  HTTP handler and the start; \<open>Node_Runs\<close> is the step relation of a node that serves jobs, crashes between two writes and restarts, with its invariants.
  \<open>Threshold_Provider\<close> is \<open>ThresholdProofProvider\<close> of proof-provider.mjs.

  Key generation. \<open>Dkg_Packets\<close> and \<open>Dkg_Ceremony\<close> are threshold-dkg.mjs: key stores, share encryption, signed packets, the five rounds and the manifest. \<open>Dkg_Correct\<close> and
  \<open>Dkg_Exchange\<close> hold the lemmas, \<open>Dkg_Sample\<close> a ceremony of three that the witnesses evaluate, \<open>Dkg_Properties\<close> the theorems, up to the
  composition with \<open>Threshold_Crypto\<close>: the shares that a ceremony stores sign for the group key that it publishes.

  ECVRF proofs. \<open>Ecvrf_Proof\<close> is proof.mjs, \<open>Ecvrf_Correct\<close> its theorems. \<open>accepted\<close> states the checks of contracts/vendor/chainlink/VRF.sol; it is not a translation of that contract: its linear combinations
  are equations between discrete logarithms, so that the corner cases of \<open>ecrecover\<close> (an x coordinate above the group order, the zero address) do not arise, and its
  hash to the curve and its challenge are those of proof.mjs, with which the contract's agree. \<open>Redaction\<close> and \<open>Error_Details\<close> are errors.mjs.
  \<open>Prover_Server\<close> is prover-server.mjs and \<open>Remote_Provider\<close> the other providers of proof-provider.mjs with \<open>createProofProvider\<close>, and the theorem that client and server compose.

  The operator. \<open>Postgres_Store\<close> is postgres-store.mjs: four tables and the advisory locks, one function per method, and the step relation of any
  number of operators that share the database. \<open>Archiver\<close> is the budget and the cycle of archiver.mjs. \<open>Relayer\<close> is the sending of transactions of cli.mjs (and \<open>sendArchive\<close> of
  archiver.mjs): reconciliation of the journal, nonce consensus, the ladder of gas prices, under the nonce lock. The locale \<open>broadcast_contract\<close> says what
  the sender asks of its hooks (instances: the operator's, the archiver's), \<open>journal_frame\<close> which predicates the journal's operations keep.
  \<open>Operator_Service\<close> is the rest of cli.mjs: options, both versions of the service, the service on a state file, and \<open>runService\<close>; \<open>Service_Runs\<close> its theorems.
  \<open>Compact_Witness\<close> and \<open>Compact_Protocol\<close> are compact-protocol.mjs: the witness and its commitment, the check of a request's history, and the readers and the
  preparation of a transaction over many endpoints.

  What the theorems show. Aggregation is correct, sound and unique over any quorum; a validated manifest has a strict majority threshold, share keys on the committed polynomial and a quorum of identity
  signatures, and a resharing keeps the key. A node never signs two messages under one text of a request id, whatever crashes interleave, can always be restarted, and
  its audit log is tamper evident; but two texts of one id, 7 and 07, are two entries. A ceremony's participants agree, accept
  honest deals, reveal fewer shares than the threshold and end with shares that sign. Generated ECVRF proofs are accepted, and travel unchanged from server to client. Claims of requests are exclusive, scans
  keep the queue equal to the chain's pending requests (where the block range exceeds the lookback; otherwise they stall), nothing is broadcast without a journal row, a nonce and a price within its limit, or
  without budget; requests are deleted only with evidence. A compact request is acted on only when every endpoint holds its commitment. Where a theorem excludes a hash collision it names the two
  texts of the run that would collide.

  Loops, bounds and totality. Every function is total in HOL. The loops that are bounded by their data are structural or have a measure. The three loops of proof.mjs that wait for a lucky hash are \<open>partial_function\<close>s, where
  \<open>None\<close> is a loop that does not end; \<open>generateProof_returns\<close> proves that they end when the chain of hashes, given without the loops, reaches a usable value. A promise that never settles is
  also \<open>None\<close>: a provider whose node or server cuts off its answer after the headers hangs, and the theorems on \<open>prove\<close> say when it does not. Endless service loops are runs of \<open>n\<close> turns for
  every \<open>n\<close>; the number of attempts and the work limit of a turn are the code's own options. There is no other fuel.
  JavaScript's bigints are integers with \<open>mod\<close>, \<open>smod\<close> and \<open>sdiv\<close> written out, safe integers are checked where the code checks them, bytes are 8-bit words.

  Parameters. Libraries, contracts, endpoints, clocks, randomness, files and the network are arguments. Endpoints may lie, fail and change their answers from call to call: they are functions of the outside world's state
  or of a time that grows with each step. A query of the service may fail before it reaches the database or lose its answer (\<open>oe_dbSend\<close>, \<open>oe_dbReply\<close>), and the health file may
  be unwritable; inside the nonce lock only the loss of the session's connection is modelled. \<open>Promise.all\<close> runs its calls in order and fails with the first failure; \<open>Promise.allSettled\<close>
  keeps every outcome. A thrown value is its message, except in \<open>Error_Details\<close>, where it is an object of a heap, with getters that may throw.

  Not modelled. Log output, process start and signals, TLS, sockets and time-outs beyond the outcomes above; torn or reordered writes of the file system (a state file is replaced atomically, an append is
  atomic); the text of JSON numbers with fraction or exponent beyond \<open>JFrac\<close>, JSON parsing, strings beyond single bytes, and the order of \<open>localeCompare\<close>; readJson, writeJson and the argument parsing of the command line tools other than
  cli.mjs; the connection and schema of the database; the loops of the compact worker and of the calibration; readiness.mjs, the reports, the deployment and source checks, healthcheck.mjs, secrets.mjs and
  entrypoint.mjs; the scripts and the Solidity contracts.
\<close>

end
